(* ===== verification/T2H_Prelude.thy ===== *)
theory T2H_Prelude
  imports Main "HOL-Library.Word"
begin

section \<open>Shared vocabulary of the t2h model\<close>

text \<open>
  The types and generic lemmas that every component of the model uses.

  \<^item> \<open>'a cpp\<close> is what a C++ call can do: return a result, throw, or run into undefined
    behaviour (a null dereference, \<open>back()\<close> on an empty vector, an erased iterator, an
    integer division by zero). \<open>cbind\<close> sequences two calls.
  \<^item> \<open>copy_at\<close> is the index loop \<open>for (it = pos; it < bound && it_ < n; ++it, ++it_)
    buf.at(it) = src[it_]\<close>, which the reply builder uses five times.
  \<^item> \<open>keyed_store\<close> is the contract of the insert-if-absent containers: the safe
    container, the key factory, the services registry and the shared torrent buffer all
    promise it, and each of their theories interprets it on the code's model.

  \<open>std::size_t\<close> is \<open>nat\<close> (sizes of containers in memory), \<open>boost::int64_t\<close> is \<open>int\<close>
  where only file offsets flow, and a word where the code's arithmetic can wrap.
\<close>

named_theorems cpp_simps \<open>unfolding the outcome monad and the copy loops\<close>
named_theorems model_defs \<open>definitions of straight-line operations\<close>

subsection \<open>Outcomes of C++ calls\<close>

datatype exn =
    Out_of_range
  | Bad_lexical_cast
  | Setting_manager_exception string
  | Transport_exception string
  | Libtorrent_exception string
  | Std_exception string

datatype 'a cpp = Ret 'a | Throw exn | Undef

fun cbind :: "'a cpp \<Rightarrow> ('a \<Rightarrow> 'b cpp) \<Rightarrow> 'b cpp" where
  "cbind (Ret x) f = f x"
| "cbind (Throw e) f = Throw e"
| "cbind Undef f = Undef"

declare cbind.simps [cpp_simps]

lemma cbind_Ret_right [simp]: "cbind m Ret = m"
  by (cases m) simp_all

lemma cbind_assoc: "cbind (cbind m f) g = cbind m (\<lambda>x. cbind (f x) g)"
  by (cases m) simp_all

lemma cbind_eq_Ret: "cbind m f = Ret y \<longleftrightarrow> (\<exists>x. m = Ret x \<and> f x = Ret y)"
  by (cases m) simp_all

fun defined :: "'a cpp \<Rightarrow> bool" where
  "defined Undef = False"
| "defined _ = True"

lemma defined_iff: "defined m \<longleftrightarrow> m \<noteq> Undef"
  by (cases m) simp_all

fun returns :: "'a cpp \<Rightarrow> bool" where
  "returns (Ret _) = True"
| "returns _ = False"

lemma returns_iff: "returns m \<longleftrightarrow> (\<exists>x. m = Ret x)"
  by (cases m) simp_all

lemma returns_cbind: "returns (cbind m f) \<longleftrightarrow> (\<exists>x. m = Ret x \<and> returns (f x))"
  by (cases m) simp_all

subsection \<open>Characters and lines\<close>

abbreviation CR :: char where "CR \<equiv> CHR 0x0D"
abbreviation LF :: char where "LF \<equiv> CHR 0x0A"
abbreviation TAB :: char where "TAB \<equiv> CHR 0x09"
abbreviation DQUOTE :: char where "DQUOTE \<equiv> CHR 0x22"
abbreviation BACKSLASH :: char where "BACKSLASH \<equiv> CHR 0x5C"
abbreviation crlf :: string where "crlf \<equiv> [CR, LF]"

text \<open>The \<open>int\<close> that a (signed) \<open>char\<close> argument promotes to.\<close>

definition char_int :: "char \<Rightarrow> int" where
  "char_int c = (if of_char c < (128::int) then of_char c else of_char c - 256)"

definition digit_char :: "nat \<Rightarrow> char" where
  "digit_char d = char_of (48 + d)"

fun decimal :: "nat \<Rightarrow> string" where
  "decimal n = (if n < 10 then [digit_char n] else decimal (n div 10) @ [digit_char (n mod 10)])"

declare decimal.simps [simp del]

definition decimal_int :: "int \<Rightarrow> string" where
  "decimal_int i = (if i < 0 then CHR ''-'' # decimal (nat (- i)) else decimal (nat i))"

lemma decimal_nonempty [simp]: "decimal n \<noteq> []"
  by (subst decimal.simps) simp

lemma decimal_int_nonempty [simp]: "decimal_int i \<noteq> []"
  by (simp add: decimal_int_def)

lemma of_char_digit_char: "d < 10 \<Longrightarrow> of_char (digit_char d) = (48 + of_nat d :: int)"
proof -
  assume "d < 10"
  then have "(of_char (digit_char d) :: nat) = 48 + d" by (simp add: digit_char_def)
  then have "int (of_char (digit_char d)) = int (48 + d)" by (rule arg_cong)
  then show ?thesis by (simp add: of_nat_of_char)
qed

lemma char_int_digit_char: "d < 10 \<Longrightarrow> char_int (digit_char d) = 48 + of_nat d"
  by (simp add: char_int_def of_char_digit_char)

lemma set_decimal: "set (decimal n) \<subseteq> digit_char ` {..<10}"
proof (induction n rule: decimal.induct)
  case (1 n)
  show ?case
  proof (cases "n < 10")
    case True
    then show ?thesis by (subst decimal.simps) simp
  next
    case False
    with "1.IH" have "set (decimal (n div 10)) \<subseteq> digit_char ` {..<10}" by simp
    with False show ?thesis by (subst decimal.simps) auto
  qed
qed

text \<open>\<open>std::string::find_first_of\<close> of one character; \<open>None\<close> is \<open>npos\<close>.\<close>

fun find_first_of :: "char \<Rightarrow> string \<Rightarrow> nat option" where
  "find_first_of c [] = None"
| "find_first_of c (x # xs) = (if x = c then Some 0 else map_option Suc (find_first_of c xs))"

lemma find_first_of_None: "find_first_of c xs = None \<longleftrightarrow> c \<notin> set xs"
  by (induction xs) auto

lemma find_first_of_append [simp]:
  "c \<notin> set xs \<Longrightarrow> find_first_of c (xs @ ys) = map_option ((+) (length xs)) (find_first_of c ys)"
proof (induction xs)
  case Nil
  show ?case by (simp add: option.map_ident)
next
  case (Cons x xs)
  then show ?case by (cases "find_first_of c ys") auto
qed

lemma find_first_of_bound: "find_first_of c xs = Some i \<Longrightarrow> i < length xs"
  by (induction xs arbitrary: i) (auto split: if_splits)

subsection \<open>Checked writes into a buffer\<close>

text \<open>
  \<open>copy_at bound pos src buf\<close> writes \<open>src\<close> into \<open>buf\<close> from index \<open>pos\<close> up to the
  loop's bound; the flag tells whether \<open>at()\<close> threw. What was written before the throw
  stays in the buffer.
\<close>

fun copy_at :: "nat \<Rightarrow> nat \<Rightarrow> 'a list \<Rightarrow> 'a list \<Rightarrow> 'a list \<times> bool" where
  "copy_at bound pos [] buf = (buf, False)"
| "copy_at bound pos (x # xs) buf =
     (if pos < bound
      then if pos < length buf then copy_at bound (Suc pos) xs (buf[pos := x]) else (buf, True)
      else (buf, False))"

lemma copy_at_fits:
  "pos + length src \<le> length buf \<Longrightarrow> pos + length src \<le> bound \<Longrightarrow>
   copy_at bound pos src buf = (take pos buf @ src @ drop (pos + length src) buf, False)"
proof (induction src arbitrary: pos buf)
  case Nil
  then show ?case by simp
next
  case (Cons x xs)
  then have "copy_at bound pos (x # xs) buf = copy_at bound (Suc pos) xs (buf[pos := x])"
    by simp
  also have "\<dots> = (take (Suc pos) (buf[pos := x]) @ xs @ drop (Suc pos + length xs) (buf[pos := x]), False)"
    using Cons.prems by (intro Cons.IH) simp_all
  also have "take (Suc pos) (buf[pos := x]) = take pos buf @ [x]"
    using Cons.prems by (simp add: take_Suc_conv_app_nth)
  finally show ?case using Cons.prems by simp
qed

lemma copy_at_end:
  "src \<noteq> [] \<Longrightarrow> length buf < bound \<Longrightarrow> copy_at bound (length buf) src buf = (buf, True)"
  by (cases src) simp_all

text \<open>\<open>std::vector<char>::resize\<close>: truncates, or appends value-initialised elements.\<close>

definition vresize :: "nat \<Rightarrow> 'a \<Rightarrow> 'a list \<Rightarrow> 'a list" where
  "vresize n z xs = take n xs @ replicate (n - length xs) z"

lemma length_vresize [simp]: "length (vresize n z xs) = n"
  by (simp add: vresize_def)

lemma vresize_grow: "length xs \<le> n \<Longrightarrow> vresize n z xs = xs @ replicate (n - length xs) z"
  by (simp add: vresize_def)

lemma copy_at_resized:
  assumes "n = length buf + length src + k"
  shows "copy_at n (length buf) src (vresize n z buf) = (buf @ src @ replicate k z, False)"
proof -
  have "vresize n z buf = buf @ replicate (length src + k) z"
    using assms by (simp add: vresize_grow)
  moreover have "copy_at n (length buf) src (vresize n z buf) =
      (take (length buf) (vresize n z buf) @ src
        @ drop (length buf + length src) (vresize n z buf), False)"
    using assms by (intro copy_at_fits) simp_all
  ultimately show ?thesis by simp
qed

subsection \<open>Insert-if-absent stores\<close>

datatype ('k, 'v) kv_op = Put 'k 'v | Del 'k

text \<open>The abstract contract: a finite map that keeps the first insertion of a key.\<close>

fun kv_step :: "('k \<Rightarrow> 'v option) \<Rightarrow> ('k, 'v) kv_op \<Rightarrow> ('k \<Rightarrow> 'v option)" where
  "kv_step m (Put k v) = (case m k of None \<Rightarrow> m(k \<mapsto> v) | Some _ \<Rightarrow> m)"
| "kv_step m (Del k) = m(k := None)"

locale keyed_store =
  fixes look :: "'s \<Rightarrow> 'k \<Rightarrow> 'v option"
    and put :: "'s \<Rightarrow> 'k \<Rightarrow> 'v \<Rightarrow> 's"
    and del :: "'s \<Rightarrow> 'k \<Rightarrow> 's"
  assumes look_put: "look (put s k v) = (case look s k of None \<Rightarrow> (look s)(k \<mapsto> v) | Some _ \<Rightarrow> look s)"
    and look_del: "look (del s k) = (look s)(k := None)"
begin

fun store_step :: "'s \<Rightarrow> ('k, 'v) kv_op \<Rightarrow> 's" where
  "store_step s (Put k v) = put s k v"
| "store_step s (Del k) = del s k"

lemma look_after_put_new: "look s k = None \<Longrightarrow> look (put s k v) k = Some v"
  by (simp add: look_put)

lemma put_keeps_first: "look s k = Some w \<Longrightarrow> look (put s k v) = look s"
  by (simp add: look_put)

lemma put_keeps_entries: "look s j = Some w \<Longrightarrow> look (put s k v) j = Some w"
  by (auto simp: look_put split: option.split)

lemma look_after_del: "look (del s k) k = None"
  by (simp add: look_del)

lemma del_then_put: "look (put (del s k) k v) = (look s)(k \<mapsto> v)"
  by (simp add: look_put look_del)

lemma dom_put: "dom (look (put s k v)) = insert k (dom (look s))"
  by (auto simp: look_put split: option.split)

lemma store_refines_map: "look (foldl store_step s ops) = foldl kv_step (look s) ops"
proof (induction ops arbitrary: s)
  case Nil
  then show ?case by simp
next
  case (Cons op ops)
  have "look (store_step s op) = kv_step (look s) op"
    by (cases op) (simp_all add: look_put look_del split: option.split)
  with Cons.IH show ?case by simp
qed

end

subsection \<open>Calls that change a state and may throw\<close>

text \<open>
  \<open>('s, 'a) eff\<close> is a C++ function over a state: what it changed before an exception stays
  changed. \<open>catch_libtorrent\<close> is the pair of macros \<open>LIBTORRENT_EXCEPTION_SAFE_BEGIN/END\<close>.
\<close>

type_synonym ('s, 'a) eff = "'s \<Rightarrow> 'a cpp \<times> 's"

definition eret :: "'a \<Rightarrow> ('s, 'a) eff" where
  "eret x s = (Ret x, s)"

definition ethrow :: "exn \<Rightarrow> ('s, 'a) eff" where
  "ethrow e s = (Throw e, s)"

definition elift :: "'a cpp \<Rightarrow> ('s, 'a) eff" where
  "elift m s = (m, s)"

definition emodify :: "('s \<Rightarrow> 's) \<Rightarrow> ('s, unit) eff" where
  "emodify f s = (Ret (), f s)"

definition ebind :: "('s, 'a) eff \<Rightarrow> ('a \<Rightarrow> ('s, 'b) eff) \<Rightarrow> ('s, 'b) eff" where
  "ebind m f s =
     (case m s of
        (Ret x, s') \<Rightarrow> f x s'
      | (Throw e, s') \<Rightarrow> (Throw e, s')
      | (Undef, s') \<Rightarrow> (Undef, s'))"

definition eseq :: "('s, unit) eff \<Rightarrow> ('s, 'b) eff \<Rightarrow> ('s, 'b) eff" where
  "eseq m n = ebind m (\<lambda>_. n)"

fun eeach :: "('x \<Rightarrow> ('s, unit) eff) \<Rightarrow> 'x list \<Rightarrow> ('s, unit) eff" where
  "eeach f [] = eret ()"
| "eeach f (x # xs) = eseq (f x) (eeach f xs)"

definition catch_libtorrent :: "('s, 'a) eff \<Rightarrow> ('s, 'a) eff \<Rightarrow> ('s, 'a) eff" where
  "catch_libtorrent m h s =
     (case m s of
        (Throw (Libtorrent_exception w), s') \<Rightarrow> h s'
      | r \<Rightarrow> r)"

text \<open>\<open>catch (std::exception const &)\<close>: every exception of the model derives from it.\<close>

definition catch_all :: "('s, 'a) eff \<Rightarrow> ('s, 'a) eff \<Rightarrow> ('s, 'a) eff" where
  "catch_all m h s = (case m s of (Throw e, s') \<Rightarrow> h s' | r \<Rightarrow> r)"

named_theorems eff_simps \<open>unfolding the effect monad\<close>

lemmas eff_defs [eff_simps] =
  eret_def ethrow_def elift_def emodify_def ebind_def eseq_def catch_libtorrent_def catch_all_def

text \<open>A property of the state that every part keeps is kept by the whole.\<close>

definition keeps :: "('s \<Rightarrow> bool) \<Rightarrow> ('s, 'a) eff \<Rightarrow> bool" where
  "keeps P m \<longleftrightarrow> (\<forall>s. P s \<longrightarrow> P (snd (m s)))"

named_theorems keeps_intros \<open>composition rules for invariants of effects\<close>

lemma keepsI: "(\<And>s. P s \<Longrightarrow> P (snd (m s))) \<Longrightarrow> keeps P m"
  by (simp add: keeps_def)

lemma keepsD: "keeps P m \<Longrightarrow> P s \<Longrightarrow> P (snd (m s))"
  by (simp add: keeps_def)

lemma keeps_eret [keeps_intros, simp]: "keeps P (eret x)"
  by (simp add: keeps_def eret_def)

lemma keeps_ethrow [keeps_intros, simp]: "keeps P (ethrow e)"
  by (simp add: keeps_def ethrow_def)

lemma keeps_elift [keeps_intros, simp]: "keeps P (elift m)"
  by (simp add: keeps_def elift_def)

lemma keeps_emodify [keeps_intros]: "(\<And>s. P s \<Longrightarrow> P (f s)) \<Longrightarrow> keeps P (emodify f)"
  by (simp add: keeps_def emodify_def)

lemma keeps_ebind [keeps_intros]:
  "keeps P m \<Longrightarrow> (\<And>x. keeps P (f x)) \<Longrightarrow> keeps P (ebind m f)"
  unfolding keeps_def ebind_def
  by (auto split: prod.split cpp.split)

lemma keeps_eseq [keeps_intros]: "keeps P m \<Longrightarrow> keeps P n \<Longrightarrow> keeps P (eseq m n)"
  unfolding eseq_def by (rule keeps_ebind)

lemma keeps_eeach [keeps_intros]: "(\<And>x. keeps P (f x)) \<Longrightarrow> keeps P (eeach f xs)"
  by (induction xs) (auto intro: keeps_intros)

lemma keeps_catch_libtorrent [keeps_intros]:
  "keeps P m \<Longrightarrow> keeps P h \<Longrightarrow> keeps P (catch_libtorrent m h)"
  unfolding keeps_def catch_libtorrent_def
  by (auto split: prod.split cpp.split exn.split)

lemma keeps_catch_all [keeps_intros]: "keeps P m \<Longrightarrow> keeps P h \<Longrightarrow> keeps P (catch_all m h)"
  unfolding keeps_def catch_all_def
  by (auto split: prod.split cpp.split)

text \<open>An effect over a part of the state.\<close>

definition zoom :: "('s \<Rightarrow> 't) \<Rightarrow> ('t \<Rightarrow> 's \<Rightarrow> 's) \<Rightarrow> ('t, 'a) eff \<Rightarrow> ('s, 'a) eff" where
  "zoom proj put m s = (case m (proj s) of (r, t) \<Rightarrow> (r, put t s))"

end
