(* ===== verification/Http_Request_Parser.thy ===== *)
theory Http_Request_Parser
  imports T2H_Prelude
begin

section \<open>The HTTP request parser\<close>

text \<open>
  \<open>src/src/common/http_utility/http_request_parser.{hpp,cpp}\<close>, \<open>http_request.{hpp,cpp}\<close>
  and \<open>http_header.hpp\<close>: the request record, the character classes, the state machine
  \<open>consume\<close> (one function per group of states, in the order of the source's switch) and the
  driving loop \<open>parse\<close>. The request under construction and the parser state are passed
  explicitly; \<open>headers.back()\<close> on an empty vector is \<open>Undef\<close>. The version numbers are \<open>int\<close>s of 32 bits that
  the source multiplies by ten with no bound on the digits: an overflow is \<open>Undef\<close>.
\<close>

subsection \<open>Requests\<close>

record http_header =
  hname :: string
  hvalue :: string

datatype http_method_type = Mget | Mpost | Mhead | Munknown

record http_request =
  mtype :: http_method_type
  rmethod :: string
  ruri :: string
  http_version_major :: int
  http_version_minor :: int
  headers :: "http_header list"

definition http_request_set_mtype :: "http_request \<Rightarrow> http_request" where
  "http_request_set_mtype req =
     req\<lparr>mtype := (if rmethod req = ''GET'' then Mget
                    else if rmethod req = ''POST'' then Mpost
                    else if rmethod req = ''HEAD'' then Mhead
                    else Munknown)\<rparr>"

subsection \<open>Character classes\<close>

definition is_char :: "int \<Rightarrow> bool" where
  "is_char c \<longleftrightarrow> c \<ge> 0 \<and> c \<le> 127"

definition is_ctl :: "int \<Rightarrow> bool" where
  "is_ctl c \<longleftrightarrow> (c \<ge> 0 \<and> c \<le> 31) \<or> c = 127"

definition is_tspecial :: "int \<Rightarrow> bool" where
  "is_tspecial c \<longleftrightarrow> c \<in> set (map char_int
     (''()<>@,;:'' @ [BACKSLASH, DQUOTE] @ ''/[]?={} '' @ [TAB]))"

definition is_digit :: "int \<Rightarrow> bool" where
  "is_digit c \<longleftrightarrow> c \<ge> 48 \<and> c \<le> 57"

subsection \<open>The state machine\<close>

datatype tribool = TTrue | TFalse | Indeterminate

datatype parser_state =
    Method_start | Method | Uri_start | Uri
  | Http_version_h | Http_version_t_1 | Http_version_t_2 | Http_version_p | Http_version_slash
  | Http_version_major_start | Http_version_major | Http_version_minor_start | Http_version_minor
  | Expecting_newline_1 | Header_line_start | Header_lws | Header_name
  | Space_before_header_value | Header_value | Expecting_newline_2 | Expecting_newline_3
  | State_type_max

type_synonym consume_result = "(tribool \<times> parser_state \<times> http_request) cpp"

definition initial_state :: parser_state where
  "initial_state = Method_start"

definition reset_state :: "parser_state \<Rightarrow> parser_state" where
  "reset_state st = Method_start"

abbreviation go_on :: "parser_state \<Rightarrow> http_request \<Rightarrow> consume_result" where
  "go_on st req \<equiv> Ret (Indeterminate, st, req)"

abbreviation reject :: "parser_state \<Rightarrow> http_request \<Rightarrow> consume_result" where
  "reject st req \<equiv> Ret (TFalse, st, req)"

text \<open>The class a name or method character must be in.\<close>

definition bad_token_char :: "char \<Rightarrow> bool" where
  "bad_token_char c \<longleftrightarrow>
     \<not> is_char (char_int c) \<or> is_ctl (char_int c) \<or> is_tspecial (char_int c)"

text \<open>\<open>v * 10 + input - '0'\<close> from left to right; a signed overflow on the way is undefined.\<close>

definition fits_int :: "int \<Rightarrow> bool" where
  "fits_int v \<longleftrightarrow> - (2 ^ 31) \<le> v \<and> v < 2 ^ 31"

definition push_digit :: "int \<Rightarrow> char \<Rightarrow> int cpp" where
  "push_digit v c =
     (if fits_int (v * 10) \<and> fits_int (v * 10 + char_int c) \<and> fits_int (v * 10 + char_int c - 48)
      then Ret (v * 10 + char_int c - 48) else Undef)"

definition push_major :: "http_request \<Rightarrow> char \<Rightarrow> consume_result" where
  "push_major req c =
     cbind (push_digit (http_version_major req) c) (\<lambda>v. go_on Http_version_major (req\<lparr>http_version_major := v\<rparr>))"

definition push_minor :: "http_request \<Rightarrow> char \<Rightarrow> consume_result" where
  "push_minor req c =
     cbind (push_digit (http_version_minor req) c) (\<lambda>v. go_on Http_version_minor (req\<lparr>http_version_minor := v\<rparr>))"

text \<open>\<open>req.headers.back()\<close> is undefined on an empty vector.\<close>

definition back_header ::
  "(http_header \<Rightarrow> http_header) \<Rightarrow> parser_state \<Rightarrow> http_request \<Rightarrow> consume_result" where
  "back_header f st req =
     (if headers req = [] then Undef
      else go_on st (req\<lparr>headers := butlast (headers req) @ [f (last (headers req))]\<rparr>))"

fun consume_request_line :: "parser_state \<Rightarrow> http_request \<Rightarrow> char \<Rightarrow> consume_result" where
  "consume_request_line Method_start req c =
     (if bad_token_char c then reject Method_start req
      else go_on Method (req\<lparr>rmethod := rmethod req @ [c]\<rparr>))"
| "consume_request_line Method req c =
     (if c = CHR '' '' then go_on Uri req
      else if bad_token_char c then reject Method req
      else go_on Method (req\<lparr>rmethod := rmethod req @ [c]\<rparr>))"
| "consume_request_line Uri_start req c =
     (if is_ctl (char_int c) then reject Uri_start req
      else go_on Uri (req\<lparr>ruri := ruri req @ [c]\<rparr>))"
| "consume_request_line Uri req c =
     (if c = CHR '' '' then go_on Http_version_h req
      else if is_ctl (char_int c) then reject Uri req
      else go_on Uri (req\<lparr>ruri := ruri req @ [c]\<rparr>))"
| "consume_request_line st req c = reject st req"

fun consume_version :: "parser_state \<Rightarrow> http_request \<Rightarrow> char \<Rightarrow> consume_result" where
  "consume_version Http_version_h req c =
     (if c = CHR ''H'' then go_on Http_version_t_1 req else reject Http_version_h req)"
| "consume_version Http_version_t_1 req c =
     (if c = CHR ''T'' then go_on Http_version_t_2 req else reject Http_version_t_1 req)"
| "consume_version Http_version_t_2 req c =
     (if c = CHR ''T'' then go_on Http_version_p req else reject Http_version_t_2 req)"
| "consume_version Http_version_p req c =
     (if c = CHR ''P'' then go_on Http_version_slash req else reject Http_version_p req)"
| "consume_version Http_version_slash req c =
     (if c = CHR ''/''
      then go_on Http_version_major_start (req\<lparr>http_version_major := 0, http_version_minor := 0\<rparr>)
      else reject Http_version_slash req)"
| "consume_version Http_version_major_start req c =
     (if is_digit (char_int c)
      then push_major req c
      else reject Http_version_major_start req)"
| "consume_version Http_version_major req c =
     (if c = CHR ''.'' then go_on Http_version_minor_start req
      else if is_digit (char_int c)
      then push_major req c
      else reject Http_version_major req)"
| "consume_version Http_version_minor_start req c =
     (if is_digit (char_int c)
      then push_minor req c
      else reject Http_version_minor_start req)"
| "consume_version Http_version_minor req c =
     (if c = CR then go_on Expecting_newline_1 req
      else if is_digit (char_int c)
      then push_minor req c
      else reject Http_version_minor req)"
| "consume_version st req c = reject st req"

fun consume_header :: "parser_state \<Rightarrow> http_request \<Rightarrow> char \<Rightarrow> consume_result" where
  "consume_header Expecting_newline_1 req c =
     (if c = LF then go_on Header_line_start req else reject Expecting_newline_1 req)"
| "consume_header Header_line_start req c =
     (if c = CR then go_on Expecting_newline_3 req
      else if headers req \<noteq> [] \<and> (c = CHR '' '' \<or> c = TAB) then go_on Header_lws req
      else if bad_token_char c then reject Header_line_start req
      else go_on Header_name (req\<lparr>headers := headers req @ [\<lparr>hname = [c], hvalue = []\<rparr>]\<rparr>))"
| "consume_header Header_lws req c =
     (if c = CR then go_on Expecting_newline_2 req
      else if c = CHR '' '' \<or> c = TAB then go_on Header_lws req
      else if is_ctl (char_int c) then reject Header_lws req
      else back_header (\<lambda>h. h\<lparr>hvalue := hvalue h @ [c]\<rparr>) Header_value req)"
| "consume_header Header_name req c =
     (if c = CHR '':'' then go_on Space_before_header_value req
      else if bad_token_char c then reject Header_name req
      else back_header (\<lambda>h. h\<lparr>hname := hname h @ [c]\<rparr>) Header_name req)"
| "consume_header Space_before_header_value req c =
     (if c = CHR '' '' then go_on Header_value req else reject Space_before_header_value req)"
| "consume_header Header_value req c =
     (if c = CR then go_on Expecting_newline_2 req
      else if is_ctl (char_int c) then reject Header_value req
      else back_header (\<lambda>h. h\<lparr>hvalue := hvalue h @ [c]\<rparr>) Header_value req)"
| "consume_header Expecting_newline_2 req c =
     (if c = LF then go_on Header_line_start req else reject Expecting_newline_2 req)"
| "consume_header Expecting_newline_3 req c =
     Ret (if c = LF then TTrue else TFalse, Expecting_newline_3, req)"
| "consume_header st req c = reject st req"

definition consume :: "parser_state \<Rightarrow> http_request \<Rightarrow> char \<Rightarrow> consume_result" where
  "consume st req c =
     (case st of
        Method_start \<Rightarrow> consume_request_line st req c
      | Method \<Rightarrow> consume_request_line st req c
      | Uri_start \<Rightarrow> consume_request_line st req c
      | Uri \<Rightarrow> consume_request_line st req c
      | Http_version_h \<Rightarrow> consume_version st req c
      | Http_version_t_1 \<Rightarrow> consume_version st req c
      | Http_version_t_2 \<Rightarrow> consume_version st req c
      | Http_version_p \<Rightarrow> consume_version st req c
      | Http_version_slash \<Rightarrow> consume_version st req c
      | Http_version_major_start \<Rightarrow> consume_version st req c
      | Http_version_major \<Rightarrow> consume_version st req c
      | Http_version_minor_start \<Rightarrow> consume_version st req c
      | Http_version_minor \<Rightarrow> consume_version st req c
      | State_type_max \<Rightarrow> reject st req
      | _ \<Rightarrow> consume_header st req c)"

text \<open>The loop: the unread input comes back, the caller's \<open>begin\<close> iterator.\<close>

fun parse :: "parser_state \<Rightarrow> http_request \<Rightarrow> string \<Rightarrow>
    (tribool \<times> string \<times> parser_state \<times> http_request) cpp" where
  "parse st req [] = Ret (Indeterminate, [], st, req)"
| "parse st req (c # cs) =
     cbind (consume st req c) (\<lambda>(r, st', req').
       if r \<noteq> Indeterminate then Ret (r, cs, st', http_request_set_mtype req')
       else parse st' req' cs)"

lemmas consume_phases = consume_request_line.simps consume_version.simps consume_header.simps

subsection \<open>Which states the parser reaches\<close>

text \<open>
  \<open>parser_inv\<close>: a state that appends to the last header has a header, and the states
  \<open>uri_start\<close> and \<open>state_type_max\<close>, which the switch handles, are never entered.
\<close>

definition parser_inv :: "parser_state \<Rightarrow> http_request \<Rightarrow> bool" where
  "parser_inv st req \<longleftrightarrow> st \<noteq> Uri_start \<and> st \<noteq> State_type_max \<and>
     (st \<in> {Header_lws, Header_name, Space_before_header_value, Header_value, Expecting_newline_2}
       \<longrightarrow> headers req \<noteq> [])"

lemma parser_inv_start: "parser_inv initial_state req"
  by (simp add: parser_inv_def initial_state_def)

definition overflows :: "int \<Rightarrow> char \<Rightarrow> bool" where
  "overflows v c \<longleftrightarrow> is_digit (char_int c) \<and> push_digit v c = Undef"

lemma push_digit_no_throw [simp]: "push_digit v c \<noteq> Throw e"
  by (simp add: push_digit_def)

lemma push_no_throw [simp]: "push_major req c \<noteq> Throw e" "push_minor req c \<noteq> Throw e"
  by (cases "push_digit (http_version_major req) c"; simp add: push_major_def)
     (cases "push_digit (http_version_minor req) c"; simp add: push_minor_def)

lemma push_keeps:
  "is_digit (char_int c) \<Longrightarrow>
   case push_major req c of Ret (r, st', req') \<Rightarrow> st' = Http_version_major | Undef \<Rightarrow> overflows (http_version_major req) c
   | Throw e \<Rightarrow> False"
  "is_digit (char_int c) \<Longrightarrow>
   case push_minor req c of Ret (r, st', req') \<Rightarrow> st' = Http_version_minor | Undef \<Rightarrow> overflows (http_version_minor req) c
   | Throw e \<Rightarrow> False"
  by (cases "push_digit (http_version_major req) c"; simp add: push_major_def overflows_def)
     (cases "push_digit (http_version_minor req) c"; simp add: push_minor_def overflows_def)

lemma consume_keeps_inv:
  "parser_inv st req \<Longrightarrow>
   case consume st req c of
     Ret (r, st', req') \<Rightarrow> parser_inv st' req'
   | Undef \<Rightarrow> overflows (http_version_major req) c \<or> overflows (http_version_minor req) c
   | Throw e \<Rightarrow> False"
  using push_keeps [of c req]
  by (cases st; cases "push_major req c"; cases "push_minor req c")
     (simp_all add: consume_def parser_inv_def back_header_def case_prod_beta)

lemma parse_from_inv:
  "parser_inv st req \<Longrightarrow>
   (\<exists>r rest st' req'. parse st req cs = Ret (r, rest, st', req') \<and> parser_inv st' req')
   \<or> parse st req cs = Undef
      \<and> (\<exists>xs c ys st' req'. cs = xs @ c # ys \<and> parse st req xs = Ret (Indeterminate, [], st', req')
           \<and> (overflows (http_version_major req') c \<or> overflows (http_version_minor req') c))"
proof (induction cs arbitrary: st req)
  case Nil
  then show ?case by simp
next
  case (Cons c cs)
  note step = consume_keeps_inv [OF Cons.prems, of c]
  show ?case
  proof (cases "consume st req c")
    case Undef
    then have "overflows (http_version_major req) c \<or> overflows (http_version_minor req) c" using step by simp
    then have "\<exists>xs d ys st' req'. c # cs = xs @ d # ys \<and> parse st req xs = Ret (Indeterminate, [], st', req')
        \<and> (overflows (http_version_major req') d \<or> overflows (http_version_minor req') d)"
      by (intro exI [of _ "[]"] exI [of _ c] exI [of _ cs] exI [of _ st] exI [of _ req]) simp
    then show ?thesis using Undef by simp
  next
    case (Ret t)
    obtain r st' req' where t: "t = (r, st', req')" by (cases t)
    then have inv: "parser_inv st' req'" using Ret step by simp
    show ?thesis
    proof (cases "r = Indeterminate")
      case True
      from Cons.IH [OF inv] show ?thesis
      proof
        assume "parse st' req' cs = Undef
          \<and> (\<exists>xs d ys st1 req1. cs = xs @ d # ys \<and> parse st' req' xs = Ret (Indeterminate, [], st1, req1)
               \<and> (overflows (http_version_major req1) d \<or> overflows (http_version_minor req1) d))"
        then obtain xs d ys st1 req1 where d: "parse st' req' cs = Undef" "cs = xs @ d # ys"
          "parse st' req' xs = Ret (Indeterminate, [], st1, req1)"
          "overflows (http_version_major req1) d \<or> overflows (http_version_minor req1) d" by blast
        have "c # cs = (c # xs) @ d # ys" "parse st req (c # xs) = Ret (Indeterminate, [], st1, req1)"
          using d(2,3) Ret t True by simp_all
        then have "\<exists>xs d ys st1 req1. c # cs = xs @ d # ys \<and> parse st req xs = Ret (Indeterminate, [], st1, req1)
            \<and> (overflows (http_version_major req1) d \<or> overflows (http_version_minor req1) d)"
          using d(4) by (intro exI [of _ "c # xs"] exI [of _ d] exI [of _ ys] exI [of _ st1] exI [of _ req1]) simp
        moreover have "parse st req (c # cs) = Undef" using d(1) Ret t True by simp
        ultimately show ?thesis by (simp only: simp_thms)
      qed (use Ret t True in simp)
    next
      case False
      have "parser_inv st' (http_request_set_mtype req')"
        using inv by (simp add: parser_inv_def http_request_set_mtype_def)
      with Ret t False show ?thesis by simp
    qed
  qed (use step in simp)
qed

subsection \<open>Parsing a printed request\<close>

definition token :: "string \<Rightarrow> bool" where
  "token s \<longleftrightarrow> s \<noteq> [] \<and> (\<forall>c \<in> set s. \<not> bad_token_char c)"

definition uri_text :: "string \<Rightarrow> bool" where
  "uri_text s \<longleftrightarrow> (\<forall>c \<in> set s. c \<noteq> CHR '' '' \<and> \<not> is_ctl (char_int c))"

definition field_text :: "string \<Rightarrow> bool" where
  "field_text s \<longleftrightarrow> (\<forall>c \<in> set s. \<not> is_ctl (char_int c))"

definition print_header :: "http_header \<Rightarrow> string" where
  "print_header h = hname h @ '': '' @ hvalue h @ crlf"

definition print_request :: "string \<Rightarrow> string \<Rightarrow> nat \<Rightarrow> nat \<Rightarrow> http_header list \<Rightarrow> string" where
  "print_request m u major minor hs =
     m @ '' '' @ u @ '' HTTP/'' @ decimal major @ ''.'' @ decimal minor @ crlf
       @ concat (map print_header hs) @ crlf"

lemma parse_more:
  "consume st req c = go_on st' req' \<Longrightarrow> parse st req (c # cs) = parse st' req' cs"
  by simp

lemma space_is_tspecial [simp]: "bad_token_char (CHR '' '')"
  and colon_is_tspecial [simp]: "bad_token_char (CHR '':'')"
  and CR_is_ctl [simp]: "is_ctl (char_int CR)"
  by (simp_all add: bad_token_char_def is_tspecial_def is_ctl_def char_int_def)

lemma not_bad_token_char [simp]:
  "\<not> bad_token_char c \<Longrightarrow> c \<noteq> CHR '' ''" "\<not> bad_token_char c \<Longrightarrow> c \<noteq> CHR '':''"
  by auto

lemma CR_bad_token [simp]: "bad_token_char CR"
  by (simp add: bad_token_char_def)

lemma TAB_bad_token [simp]: "bad_token_char TAB"
  by (simp add: bad_token_char_def is_tspecial_def)

lemma parse_method_chars:
  "\<forall>c \<in> set xs. \<not> bad_token_char c \<Longrightarrow>
   parse Method req (xs @ ys) = parse Method (req\<lparr>rmethod := rmethod req @ xs\<rparr>) ys"
proof (induction xs arbitrary: req)
  case Nil
  then show ?case by simp
next
  case (Cons c xs)
  then have "consume Method req c = go_on Method (req\<lparr>rmethod := rmethod req @ [c]\<rparr>)"
    by (auto simp: consume_def)
  with Cons show ?case by simp
qed

lemma parse_uri_chars:
  "uri_text xs \<Longrightarrow> parse Uri req (xs @ ys) = parse Uri (req\<lparr>ruri := ruri req @ xs\<rparr>) ys"
proof (induction xs arbitrary: req)
  case Nil
  then show ?case by simp
next
  case (Cons c xs)
  then have "consume Uri req c = go_on Uri (req\<lparr>ruri := ruri req @ [c]\<rparr>)"
    by (simp add: consume_def uri_text_def)
  with Cons show ?case by (simp add: uri_text_def)
qed

lemma is_digit_digit_char: "d < 10 \<Longrightarrow> is_digit (char_int (digit_char d))"
  by (simp add: is_digit_def char_int_digit_char)

lemma decimal_digits: "c \<in> set (decimal n) \<Longrightarrow> is_digit (char_int c)"
  using set_decimal [of n] by (auto simp: is_digit_digit_char)

lemma not_digit [simp]: "is_digit (char_int c) \<Longrightarrow> c \<noteq> CHR ''.''"
  "is_digit (char_int c) \<Longrightarrow> c \<noteq> CR"
  by (auto simp: is_digit_def char_int_def)

text \<open>The number that a digit sequence makes, step by step; the largest one whose last step does not overflow.\<close>

fun push_digits :: "int \<Rightarrow> string \<Rightarrow> int cpp" where
  "push_digits v [] = Ret v"
| "push_digits v (c # cs) = cbind (push_digit v c) (\<lambda>v'. push_digits v' cs)"

definition version_max :: nat where "version_max = 2147483599"

lemma push_digits_append: "push_digits v (xs @ ys) = cbind (push_digits v xs) (\<lambda>v'. push_digits v' ys)"
proof (induction xs arbitrary: v)
  case (Cons c xs)
  then show ?case by (cases "push_digit v c") auto
qed simp

lemma push_digit_digit:
  "d < 10 \<Longrightarrow> push_digit (int n) (digit_char d) = (if n * 10 + d \<le> version_max then Ret (int (n * 10 + d)) else Undef)"
  by (auto simp: push_digit_def fits_int_def char_int_digit_char version_max_def)

lemma push_digits_decimal:
  "push_digits 0 (decimal n) = (if n \<le> version_max then Ret (int n) else Undef)"
proof (induction n rule: decimal.induct)
  case (1 n)
  show ?case
  proof (cases "n < 10")
    case True
    then show ?thesis using push_digit_digit [of n 0] by (subst decimal.simps) (auto simp: version_max_def)
  next
    case False
    have n: "n div 10 * 10 + n mod 10 = n" by simp
    have "push_digits 0 (decimal n) = cbind (push_digits 0 (decimal (n div 10))) (\<lambda>v. push_digits v [digit_char (n mod 10)])"
      using False by (subst decimal.simps) (simp add: push_digits_append)
    also have "\<dots> = (if n \<le> version_max then Ret (int n) else Undef)"
    proof (cases "n div 10 \<le> version_max")
      case True
      then have "push_digits 0 (decimal (n div 10)) = Ret (int (n div 10))" using "1.IH" False by simp
      then show ?thesis using push_digit_digit [of "n mod 10" "n div 10"] unfolding n by simp
    next
      case big: False
      then have "\<not> n \<le> version_max" by (simp add: version_max_def)
      moreover have "push_digits 0 (decimal (n div 10)) = Undef" using "1.IH" False big by simp
      ultimately show ?thesis by simp
    qed
    finally show ?thesis .
  qed
qed

lemma cbind_assoc_cpp: "cbind (cbind r f) g = cbind r (\<lambda>x. cbind (f x) g)"
  by (cases r) auto

lemma parse_major_digits:
  "\<forall>c \<in> set xs. is_digit (char_int c) \<Longrightarrow> parse Http_version_major req (xs @ ys) =
   cbind (push_digits (http_version_major req) xs) (\<lambda>v. parse Http_version_major (req\<lparr>http_version_major := v\<rparr>) ys)"
proof (induction xs arbitrary: req)
  case Nil
  have "req\<lparr>http_version_major := http_version_major req\<rparr> = req" by simp
  then show ?case by simp
next
  case (Cons c xs)
  then have "consume Http_version_major req c = push_major req c"
    by (auto simp: consume_def)
  with Cons show ?case by (simp add: push_major_def cbind_assoc_cpp)
qed

lemma parse_minor_digits:
  "\<forall>c \<in> set xs. is_digit (char_int c) \<Longrightarrow> parse Http_version_minor req (xs @ ys) =
   cbind (push_digits (http_version_minor req) xs) (\<lambda>v. parse Http_version_minor (req\<lparr>http_version_minor := v\<rparr>) ys)"
proof (induction xs arbitrary: req)
  case Nil
  have "req\<lparr>http_version_minor := http_version_minor req\<rparr> = req" by simp
  then show ?case by simp
next
  case (Cons c xs)
  then have "consume Http_version_minor req c = push_minor req c"
    by (auto simp: consume_def)
  with Cons show ?case by (simp add: push_minor_def cbind_assoc_cpp)
qed

lemma parse_name_chars:
  "\<forall>c \<in> set xs. \<not> bad_token_char c \<Longrightarrow> headers req = hs @ [h] \<Longrightarrow>
   parse Header_name req (xs @ ys) =
   parse Header_name (req\<lparr>headers := hs @ [h\<lparr>hname := hname h @ xs\<rparr>]\<rparr>) ys"
proof (induction xs arbitrary: req h)
  case Nil
  then have "req\<lparr>headers := hs @ [h\<lparr>hname := hname h @ []\<rparr>]\<rparr> = req" by simp
  then show ?case by simp
next
  case (Cons c xs)
  then have "consume Header_name req c =
      go_on Header_name (req\<lparr>headers := hs @ [h\<lparr>hname := hname h @ [c]\<rparr>]\<rparr>)"
    by (auto simp: consume_def back_header_def)
  with Cons.IH [of "req\<lparr>headers := hs @ [h\<lparr>hname := hname h @ [c]\<rparr>]\<rparr>" "h\<lparr>hname := hname h @ [c]\<rparr>"]
    Cons.prems show ?case by simp
qed

lemma parse_value_chars:
  "field_text xs \<Longrightarrow> headers req = hs @ [h] \<Longrightarrow>
   parse Header_value req (xs @ ys) =
   parse Header_value (req\<lparr>headers := hs @ [h\<lparr>hvalue := hvalue h @ xs\<rparr>]\<rparr>) ys"
proof (induction xs arbitrary: req h)
  case Nil
  then have "req\<lparr>headers := hs @ [h\<lparr>hvalue := hvalue h @ []\<rparr>]\<rparr> = req" by simp
  then show ?case by simp
next
  case (Cons c xs)
  then have "consume Header_value req c =
      go_on Header_value (req\<lparr>headers := hs @ [h\<lparr>hvalue := hvalue h @ [c]\<rparr>]\<rparr>)"
    by (auto simp: consume_def back_header_def field_text_def)
  with Cons.IH [of "req\<lparr>headers := hs @ [h\<lparr>hvalue := hvalue h @ [c]\<rparr>]\<rparr>" "h\<lparr>hvalue := hvalue h @ [c]\<rparr>"]
    Cons.prems show ?case by (simp add: field_text_def)
qed

definition header_ok :: "http_header \<Rightarrow> bool" where
  "header_ok h \<longleftrightarrow> token (hname h) \<and> field_text (hvalue h)"

lemma parse_one_header:
  assumes "header_ok h"
  shows "parse Header_line_start req (print_header h @ ys) =
         parse Header_line_start (req\<lparr>headers := headers req @ [h]\<rparr>) ys"
proof -
  from assms obtain c n where n: "hname h = c # n" "\<not> bad_token_char c"
    "\<forall>c \<in> set n. \<not> bad_token_char c" and v: "field_text (hvalue h)"
    by (cases "hname h") (auto simp: header_ok_def token_def)
  have eta: "\<lparr>hname = hname h, hvalue = hvalue h\<rparr> = h" by simp
  let ?r1 = "req\<lparr>headers := headers req @ [\<lparr>hname = [c], hvalue = []\<rparr>]\<rparr>"
  let ?r2 = "req\<lparr>headers := headers req @ [\<lparr>hname = hname h, hvalue = []\<rparr>]\<rparr>"
  have "c \<noteq> CR" "c \<noteq> TAB" using n(2) by auto
  with n have "parse Header_line_start req (print_header h @ ys) =
      parse Header_name ?r1 (n @ '': '' @ hvalue h @ crlf @ ys)"
    by (simp add: print_header_def consume_def)
  also have "\<dots> = parse Header_name ?r2 ('': '' @ hvalue h @ crlf @ ys)"
    using n by (subst parse_name_chars [where hs = "headers req" and h = "\<lparr>hname = [c], hvalue = []\<rparr>"]) simp_all
  also have "\<dots> = parse Header_value ?r2 (hvalue h @ crlf @ ys)"
    by (simp add: consume_def)
  also have "\<dots> = parse Header_value (req\<lparr>headers := headers req @ [h]\<rparr>) (crlf @ ys)"
    using v
    by (subst parse_value_chars [where hs = "headers req" and h = "\<lparr>hname = hname h, hvalue = []\<rparr>"])
      (simp_all add: eta)
  also have "\<dots> = parse Header_line_start (req\<lparr>headers := headers req @ [h]\<rparr>) ys"
    by (simp add: consume_def)
  finally show ?thesis .
qed

lemma parse_headers:
  "\<forall>h \<in> set hs. header_ok h \<Longrightarrow>
   parse Header_line_start req (concat (map print_header hs) @ ys) =
   parse Header_line_start (req\<lparr>headers := headers req @ hs\<rparr>) ys"
  by (induction hs arbitrary: req) (simp_all add: parse_one_header)

lemma parse_version_line:
  "parse Http_version_h req (''HTTP/'' @ decimal major @ ''.'' @ decimal minor @ crlf @ ys) =
   (if major \<le> version_max \<and> minor \<le> version_max
    then parse Header_line_start (req\<lparr>http_version_major := int major, http_version_minor := int minor\<rparr>) ys
    else Undef)"
proof -
  let ?r0 = "req\<lparr>http_version_major := 0, http_version_minor := 0\<rparr>"
  obtain d ds where d: "decimal major = d # ds" by (cases "decimal major") auto
  obtain e es where e: "decimal minor = e # es" by (cases "decimal minor") auto
  have digits: "is_digit (char_int d)" "\<forall>c \<in> set ds. is_digit (char_int c)"
    "is_digit (char_int e)" "\<forall>c \<in> set es. is_digit (char_int c)"
    using decimal_digits [of _ major] decimal_digits [of _ minor] d e by auto
  have major: "push_digits 0 (d # ds) = (if major \<le> version_max then Ret (int major) else Undef)"
    using push_digits_decimal [of major] d by simp
  have minor: "push_digits 0 (e # es) = (if minor \<le> version_max then Ret (int minor) else Undef)"
    using push_digits_decimal [of minor] e by simp
  have minor_line: "parse Http_version_minor_start (?r0\<lparr>http_version_major := v\<rparr>) (decimal minor @ crlf @ ys) =
      cbind (push_digits 0 (e # es)) (\<lambda>u. parse Header_line_start (req\<lparr>http_version_major := v, http_version_minor := u\<rparr>) ys)"
    for v
    using digits by (simp add: consume_def e push_minor_def cbind_assoc_cpp parse_minor_digits)
  have "parse Http_version_h req (''HTTP/'' @ decimal major @ ''.'' @ decimal minor @ crlf @ ys) =
      cbind (push_digits 0 (d # ds)) (\<lambda>v. parse Http_version_minor_start (?r0\<lparr>http_version_major := v\<rparr>) (decimal minor @ crlf @ ys))"
    using digits d by (simp add: consume_def push_major_def cbind_assoc_cpp parse_major_digits)
  also have "\<dots> = (if major \<le> version_max \<and> minor \<le> version_max
    then parse Header_line_start (req\<lparr>http_version_major := int major, http_version_minor := int minor\<rparr>) ys else Undef)"
    unfolding major minor_line minor by simp
  finally show ?thesis .
qed

subsection \<open>Properties\<close>

text \<open>Whatever is fed to a fresh parser, it never throws, and the only undefined behaviour is the overflow
  of a version number on a digit: \<open>headers.back()\<close> is only called when a header has been
  started, and the states \<open>uri_start\<close> and \<open>state_type_max\<close> of the switch are never entered.\<close>

theorem parse_undefined_only_on_overflow:
  "(\<exists>r rest st' req'. parse initial_state req cs = Ret (r, rest, st', req') \<and> parser_inv st' req')
   \<or> parse initial_state req cs = Undef
      \<and> (\<exists>xs c ys st' req'. cs = xs @ c # ys \<and> parse initial_state req xs = Ret (Indeterminate, [], st', req')
           \<and> (overflows (http_version_major req') c \<or> overflows (http_version_minor req') c))"
  by (rule parse_from_inv [OF parser_inv_start])

text \<open>The parser is incremental: parsing two network reads one after the other, as long as
  the first one asks for more, gives the result of parsing their concatenation, and once a
  result is reached the rest of the input is left unread.\<close>

theorem parse_incremental:
  "parse st req (xs @ ys) =
   cbind (parse st req xs) (\<lambda>(r, rest, st', req').
     if r = Indeterminate then parse st' req' ys else Ret (r, rest @ ys, st', req'))"
proof (induction xs arbitrary: st req)
  case Nil
  then show ?case by simp
next
  case (Cons c xs)
  then show ?case by (cases "consume st req c") auto
qed

text \<open>C1. Round trip: a printed request (token method, URI without spaces or control characters,
  decimal version, headers with token names) followed by anything parses to exactly its
  fields, consumes exactly its own bytes, and reports a complete request, as long as neither version
  number is above 2147483599; above it the \<open>int\<close> that collects the digits overflows, and the
  behaviour is undefined.\<close>

theorem parse_print_request:
  assumes "token m" and "uri_text u" and "\<forall>h \<in> set hs. header_ok h"
    and "rmethod r0 = []" and "ruri r0 = []" and "headers r0 = []"
  shows "parse initial_state r0 (print_request m u major minor hs @ rest) =
    (if major \<le> version_max \<and> minor \<le> version_max
     then Ret (TTrue, rest, Expecting_newline_3, http_request_set_mtype
       (r0\<lparr>rmethod := m, ruri := u, http_version_major := int major, http_version_minor := int minor, headers := hs\<rparr>))
     else Undef)"
proof -
  from \<open>token m\<close> obtain c ms where m: "m = c # ms" "\<not> bad_token_char c"
    "\<forall>c \<in> set ms. \<not> bad_token_char c" by (cases m) (auto simp: token_def)
  let ?tail = "concat (map print_header hs) @ crlf @ rest"
  let ?version = "''HTTP/'' @ decimal major @ ''.'' @ decimal minor @ crlf @ ?tail"
  have "parse initial_state r0 (print_request m u major minor hs @ rest) =
      parse Method (r0\<lparr>rmethod := [c]\<rparr>) (ms @ '' '' @ u @ '' '' @ ?version)"
    using m assms by (simp add: print_request_def initial_state_def consume_def)
  also have "\<dots> = parse Uri (r0\<lparr>rmethod := m\<rparr>) (u @ '' '' @ ?version)"
    using m by (simp add: parse_method_chars consume_def)
  also have "\<dots> = parse Http_version_h (r0\<lparr>rmethod := m, ruri := u\<rparr>) ?version"
    using assms by (simp add: parse_uri_chars consume_def)
  also have "\<dots> = (if major \<le> version_max \<and> minor \<le> version_max
      then parse Header_line_start (r0\<lparr>rmethod := m, ruri := u,
        http_version_major := int major, http_version_minor := int minor\<rparr>) ?tail else Undef)"
    by (rule parse_version_line)
  finally show ?thesis
    using assms by (simp add: parse_headers consume_def)
qed

theorem parse_print_request_witness:
  "parse initial_state
     \<lparr>mtype = Munknown, rmethod = [], ruri = [], http_version_major = 9, http_version_minor = 9, headers = []\<rparr>
     (print_request ''GET'' ''/f'' 1 1 [\<lparr>hname = ''Range'', hvalue = ''bytes=0-1''\<rparr>] @ ''xy'') =
   Ret (TTrue, ''xy'', Expecting_newline_3,
     \<lparr>mtype = Mget, rmethod = ''GET'', ruri = ''/f'', http_version_major = 1, http_version_minor = 1,
      headers = [\<lparr>hname = ''Range'', hvalue = ''bytes=0-1''\<rparr>]\<rparr>)"
  by (subst parse_print_request)
    (simp_all add: version_max_def token_def uri_text_def header_ok_def field_text_def bad_token_char_def is_char_def
      is_ctl_def is_tspecial_def char_int_def http_request_set_mtype_def)

end
