(* ===== verification/Misc_Utility.thy ===== *)
theory Misc_Utility
  imports T2H_Prelude
begin

section \<open>Casts between text and numbers, random strings\<close>

text \<open>
  \<open>src/src/common/utility/misc_utility.{hpp,cpp}\<close>. \<open>boost::lexical_cast\<close> is not part of the
  repository: it is the parameter \<open>boost_lexical\<close>, and \<open>lexical_ok\<close> is what its
  documentation promises of the uses made here (decimal text of a number, and back, with a
  range check). \<open>lexical_reference\<close> is one function that keeps the promise. The random device
  is a list of draws.
\<close>

record boost_lexical =
  to_i64 :: "string \<Rightarrow> int option"
  num_text :: "int \<Rightarrow> string"
  to_size :: "string \<Rightarrow> nat option"
  to_int :: "string \<Rightarrow> int option"

definition i64_range :: "int \<Rightarrow> bool" where
  "i64_range v \<longleftrightarrow> - (2 ^ 63) \<le> v \<and> v < 2 ^ 63"

definition number_chars :: "char set" where
  "number_chars = {c. c = CHR ''+'' \<or> c = CHR ''-'' \<or> 48 \<le> char_int c \<and> char_int c \<le> 57}"

definition lexical_ok :: "boost_lexical \<Rightarrow> bool" where
  "lexical_ok bx \<longleftrightarrow>
     (\<forall>v. num_text bx v = decimal_int v) \<and>
     (\<forall>n. i64_range (int n) \<longrightarrow> to_i64 bx (decimal n) = Some (int n)) \<and>
     (\<forall>s v. to_i64 bx s = Some v \<longrightarrow> i64_range v \<and> set s \<subseteq> number_chars)"

text \<open>A concrete instance: an optional minus sign and decimal digits.\<close>

definition digits_value :: "string \<Rightarrow> int" where
  "digits_value s = foldl (\<lambda>v c. v * 10 + (char_int c - 48)) 0 s"

definition all_digits :: "string \<Rightarrow> bool" where
  "all_digits s \<longleftrightarrow> s \<noteq> [] \<and> list_all (\<lambda>c. char_int c \<ge> 48 \<and> char_int c \<le> 57) s"

definition checked_i64 :: "int \<Rightarrow> int option" where
  "checked_i64 v = (if i64_range v then Some v else None)"

definition reference_to_i64 :: "string \<Rightarrow> int option" where
  "reference_to_i64 s =
     (if all_digits s then checked_i64 (digits_value s)
      else case s of
        c # cs \<Rightarrow> if c = CHR ''-'' \<and> all_digits cs then checked_i64 (- digits_value cs) else None
      | [] \<Rightarrow> None)"

definition lexical_reference :: boost_lexical where
  "lexical_reference = \<lparr>to_i64 = reference_to_i64, num_text = decimal_int,
     to_size = (\<lambda>s. case reference_to_i64 s of Some v \<Rightarrow> if v < 0 then None else Some (nat v) | None \<Rightarrow> None),
     to_int = (\<lambda>s. case reference_to_i64 s of
        Some v \<Rightarrow> if v < - (2 ^ 31) \<or> 2 ^ 31 \<le> v then None else Some v | None \<Rightarrow> None)\<rparr>"

lemma decimal_all_digits: "all_digits (decimal n)"
  using set_decimal [of n] by (auto simp: all_digits_def list_all_iff char_int_digit_char)

lemma digits_value_decimal: "digits_value (decimal n) = int n"
proof (induction n rule: decimal.induct)
  case (1 n)
  show ?case
  proof (cases "n < 10")
    case True
    then show ?thesis
      by (subst decimal.simps) (simp add: digits_value_def char_int_digit_char)
  next
    case False
    with "1.IH" have "digits_value (decimal n) = int (n div 10) * 10 + int (n mod 10)"
      by (subst decimal.simps) (simp add: digits_value_def char_int_digit_char)
    then show ?thesis by (simp add: zdiv_int zmod_int)
  qed
qed

lemma digit_number_char: "48 \<le> char_int c \<Longrightarrow> char_int c \<le> 57 \<Longrightarrow> c \<in> number_chars"
  by (simp add: number_chars_def)

lemma all_digits_number_chars: "all_digits s \<Longrightarrow> set s \<subseteq> number_chars"
  by (auto simp: all_digits_def list_all_iff digit_number_char)

lemma checked_i64_Some: "checked_i64 n = Some v \<longleftrightarrow> i64_range n \<and> v = n"
  by (auto simp: checked_i64_def)

lemma reference_to_i64_shape:
  assumes "reference_to_i64 s = Some v"
  shows "i64_range v \<and> set s \<subseteq> number_chars"
proof (cases "all_digits s")
  case True
  then show ?thesis
    using assms all_digits_number_chars [of s] by (simp add: reference_to_i64_def checked_i64_Some)
next
  case False
  then obtain c cs where s: "s = c # cs" "c = CHR ''-''" "all_digits cs"
    and "checked_i64 (- digits_value cs) = Some v"
    using assms by (cases s) (auto simp: reference_to_i64_def split: if_splits)
  then show ?thesis
    using all_digits_number_chars [of cs] by (simp add: checked_i64_Some number_chars_def)
qed

lemma reference_to_i64_decimal: "i64_range (int n) \<Longrightarrow> reference_to_i64 (decimal n) = Some (int n)"
  by (simp add: reference_to_i64_def checked_i64_def decimal_all_digits digits_value_decimal)

lemma lexical_ok_reference: "lexical_ok lexical_reference"
  unfolding lexical_ok_def lexical_reference_def
  using reference_to_i64_shape reference_to_i64_decimal by simp

lemma lexical_chars: "lexical_ok bx \<Longrightarrow> to_i64 bx s = Some v \<Longrightarrow> set s \<subseteq> number_chars"
  by (simp add: lexical_ok_def)

lemma lexical_num_text: "lexical_ok bx \<Longrightarrow> num_text bx v = decimal_int v"
  by (simp add: lexical_ok_def)

lemma lexical_to_i64: "lexical_ok bx \<Longrightarrow> int n < 2 ^ 63 \<Longrightarrow> to_i64 bx (decimal n) = Some (int n)"
  by (simp add: lexical_ok_def i64_range_def)

subsection \<open>safe_lexical_cast\<close>

text \<open>
  A failed cast gives \<open>default_ctor<T>()\<close>, which declares a \<open>T\<close> without an initialiser: the
  argument \<open>junk\<close> is whatever that holds (the empty string for \<open>std::string\<close>, an
  indeterminate number for the integral types).
\<close>

definition default_ctor :: "'a \<Rightarrow> 'a" where
  "default_ctor junk = junk"

definition safe_lexical_cast :: "(string \<Rightarrow> 'a option) \<Rightarrow> 'a \<Rightarrow> string \<Rightarrow> 'a" where
  "safe_lexical_cast cast junk u = (case cast u of Some t \<Rightarrow> t | None \<Rightarrow> default_ctor junk)"

definition safe_lexical_cast_bool :: "string \<Rightarrow> bool" where
  "safe_lexical_cast_bool str = (if str = ''true'' then True else False)"

subsection \<open>Random names\<close>

definition chars_set :: string where
  "chars_set = ''abcdefghijklmnopqrstuvwxyzABCDEFGHIJKLMNOPQRSTUVWXYZ'' @ ''1234567890''"

fun random_fill :: "nat list \<Rightarrow> nat \<Rightarrow> nat \<Rightarrow> string \<Rightarrow> string cpp" where
  "random_fill draws it 0 s = Ret s"
| "random_fill [] it (Suc k) s = Undef"
| "random_fill (d # draws) it (Suc k) s =
     (if d < length chars_set then random_fill draws (Suc it) k (s[it := chars_set ! d])
      else Throw Out_of_range)"

definition get_random_string :: "nat list \<Rightarrow> nat \<Rightarrow> string cpp" where
  "get_random_string draws dist_max =
     (if dist_max > length chars_set - 1 then Ret []
      else random_fill draws 0 dist_max (replicate dist_max (CHR 0x00)))"

lemma random_fill_ok:
  "k \<le> length draws \<Longrightarrow> \<forall>d \<in> set draws. d < length chars_set \<Longrightarrow> it + k = length s \<Longrightarrow>
   random_fill draws it k s = Ret (take it s @ map ((!) chars_set) (take k draws))"
proof (induction draws it k s rule: random_fill.induct)
  case (3 d draws it k s)
  then have "take (Suc it) (s[it := chars_set ! d]) = take it s @ [chars_set ! d]"
    by (simp add: take_Suc_conv_app_nth)
  with 3 show ?case by simp
qed simp_all

text \<open>A random name of at most 61 characters has the requested length and only characters of
  the alphabet, whatever the device draws within its range; a longer request yields the empty
  string.\<close>

theorem random_string_shape:
  assumes "\<forall>d \<in> set draws. d < length chars_set" and "n \<le> length draws"
  shows "\<exists>s. get_random_string draws n = Ret s \<and> length s = (if n < length chars_set then n else 0) \<and>
     set s \<subseteq> set chars_set"
proof (cases "n < length chars_set")
  case True
  then have "\<not> n > length chars_set - 1" by linarith
  then have "get_random_string draws n = Ret (map ((!) chars_set) (take n draws))"
    using assms by (simp add: get_random_string_def random_fill_ok)
  moreover have "set (map ((!) chars_set) (take n draws)) \<subseteq> set chars_set"
    using assms(1) by (auto dest: in_set_takeD)
  ultimately show ?thesis using True assms(2) by simp
next
  case False
  then show ?thesis by (simp add: get_random_string_def chars_set_def)
qed

theorem random_string_shape_witness:
  "\<exists>s. get_random_string [0, 61, 5] 2 = Ret s \<and> length s = 2"
  using random_string_shape [of "[0, 61, 5]" 2] by (auto simp: chars_set_def)

end
