(* ===== verification/Http_Utility.thy ===== *)
theory Http_Utility
  imports Misc_Utility Http_Request_Parser
begin

section \<open>HTTP helpers: URL decoding, range headers, etags, MIME types\<close>

text \<open>
  \<open>src/src/common/http_utility/http_utility.{hpp,cpp}\<close> and \<open>mime_types.cpp\<close>, function by
  function. Index loops over a string that stop with \<open>std::out_of_range\<close> are \<open>cpp\<close>
  outcomes; \<open>boost::lexical_cast\<close> is the parameter \<open>bx\<close>, the clock and the file system are
  parameters too.
\<close>

subsection \<open>URL decoding\<close>

definition is_space :: "char \<Rightarrow> bool" where
  "is_space c \<longleftrightarrow> c \<in> {CHR '' '', CHR 0x09, CHR 0x0A, CHR 0x0B, CHR 0x0C, CHR 0x0D}"

definition hex_value :: "char \<Rightarrow> nat option" where
  "hex_value c =
     (let n = of_char c in
      if 48 \<le> n \<and> n \<le> 57 then Some (n - 48)
      else if 65 \<le> n \<and> n \<le> 70 then Some (n - 55)
      else if 97 \<le> n \<and> n \<le> 102 then Some (n - 87)
      else None)"

definition hex_number :: "string \<Rightarrow> int" where
  "hex_number ds = foldl (\<lambda>v c. v * 16 + int (case hex_value c of Some d \<Rightarrow> d | None \<Rightarrow> 0)) 0 ds"

text \<open>
  \<open>is >> std::hex >> value\<close>: leading white space, an optional sign, an optional \<open>0x\<close>, then
  the longest run of hexadecimal digits, which must not be empty.
\<close>

definition hex_extract :: "string \<Rightarrow> int option" where
  "hex_extract s =
     (let s1 = dropWhile is_space s;
          (neg, s2) = (case s1 of
              c # r \<Rightarrow> if c = CHR ''-'' then (True, r) else if c = CHR ''+'' then (False, r) else (False, s1)
            | [] \<Rightarrow> (False, s1));
          s3 = (case s2 of
              a # b # r \<Rightarrow> if a = CHR ''0'' \<and> (b = CHR ''x'' \<or> b = CHR ''X'') then r else s2
            | _ \<Rightarrow> s2);
          ds = takeWhile (\<lambda>c. hex_value c \<noteq> None) s3
      in if ds = [] then None else Some (if neg then - hex_number ds else hex_number ds))"

definition cast_char :: "int \<Rightarrow> char" where
  "cast_char v = char_of (nat (v mod 256))"

fun url_decode_loop :: "string \<Rightarrow> string \<Rightarrow> bool \<times> string" where
  "url_decode_loop out [] = (True, out)"
| "url_decode_loop out (c # cs) =
     (if c = CHR ''%'' then
        (case cs of
           a # b # rest \<Rightarrow>
             (case hex_extract [a, b] of
                Some v \<Rightarrow> url_decode_loop (out @ [cast_char v]) rest
              | None \<Rightarrow> (False, out))
         | _ \<Rightarrow> (False, out))
      else if c = CHR ''+'' then url_decode_loop (out @ '' '') cs
      else url_decode_loop (out @ [c]) cs)"

definition url_decode :: "string \<Rightarrow> bool \<times> string" where
  "url_decode s = url_decode_loop [] s"

subsection \<open>Header lookup\<close>

fun http_get_header :: "http_header list \<Rightarrow> string \<Rightarrow> bool \<times> http_header" where
  "http_get_header [] name = (False, \<lparr>hname = [], hvalue = []\<rparr>)"
| "http_get_header (h # hs) name = (if hname h = name then (True, h) else http_get_header hs name)"

subsection \<open>Range headers\<close>

record range_header =
  bstart_1 :: int
  bend_1 :: int
  bstart_2 :: int
  bend_2 :: int

abbreviation range_all :: int where "range_all \<equiv> -1"
abbreviation range_bad :: int where "range_bad \<equiv> -2"

text \<open>\<open>for (; first != last; ++first) buf.push_back(str.at(first))\<close>\<close>

function collect_chars :: "string \<Rightarrow> nat \<Rightarrow> nat \<Rightarrow> string \<Rightarrow> string cpp" where
  "collect_chars str first stop buf =
     (if first = stop then Ret buf
      else if first < length str then collect_chars str (Suc first) stop (buf @ [str ! first])
      else Throw Out_of_range)"
  by pat_completeness auto
termination
  by (relation "measure (\<lambda>(str, first, stop, buf). length str - first)") auto

declare collect_chars.simps [simp del]

definition cast_string_range_to_int :: "boost_lexical \<Rightarrow> string \<Rightarrow> nat \<Rightarrow> nat \<Rightarrow> int" where
  "cast_string_range_to_int bx str first stop =
     (case collect_chars str first stop [] of
        Ret tmp_buf \<Rightarrow>
          if tmp_buf = ''*'' \<or> length tmp_buf = 0 then range_all
          else (case to_i64 bx tmp_buf of Some v \<Rightarrow> v | None \<Rightarrow> range_bad)
      | _ \<Rightarrow> range_bad)"

definition http_range_header_value_parser ::
  "boost_lexical \<Rightarrow> range_header \<Rightarrow> string \<Rightarrow> nat \<Rightarrow> nat \<Rightarrow> bool \<Rightarrow> (bool \<times> range_header) cpp" where
  "http_range_header_value_parser bx rheader v start_range end_range is_second_part =
     cbind (collect_chars v start_range end_range []) (\<lambda>value_range.
       case find_first_of (CHR ''-'') value_range of
         None \<Rightarrow> Ret (False, rheader)
       | Some range_delim_pos \<Rightarrow>
           let bstart = cast_string_range_to_int bx value_range 0 range_delim_pos;
               bend = cast_string_range_to_int bx value_range (range_delim_pos + 1) (length value_range)
           in if bstart = range_bad \<or> bend = range_bad then Ret (False, rheader)
              else Ret (True, if is_second_part then rheader\<lparr>bstart_2 := bstart, bend_2 := bend\<rparr>
                              else rheader\<lparr>bstart_1 := bstart, bend_1 := bend\<rparr>))"

text \<open>The static helper and the overload that takes the header's text.\<close>

definition http_translate_range_header_text ::
  "boost_lexical \<Rightarrow> range_header \<Rightarrow> string \<Rightarrow> (bool \<times> range_header) cpp" where
  "http_translate_range_header_text bx rheader header =
     (case find_first_of (CHR ''='') header of
        None \<Rightarrow> Ret (False, rheader)
      | Some start \<Rightarrow>
          (case find_first_of (CHR '','') header of
             Some delim_pos \<Rightarrow>
               if delim_pos + 1 = length header then Ret (False, rheader)
               else cbind (http_range_header_value_parser bx rheader header
                             (delim_pos + 1) (length header) True)
                      (\<lambda>(state, rheader).
                         if state then http_range_header_value_parser bx rheader header
                                         (start + 1) delim_pos False
                         else Ret (state, rheader))
           | None \<Rightarrow> http_range_header_value_parser bx rheader header (start + 1) (length header) False))"

definition http_translate_range_header ::
  "boost_lexical \<Rightarrow> range_header \<Rightarrow> string \<Rightarrow> (bool \<times> range_header) cpp" where
  "http_translate_range_header bx rheader header =
     http_translate_range_header_text bx
       (rheader\<lparr>bstart_1 := range_bad, bend_1 := range_bad, bstart_2 := range_bad\<rparr>) header"

text \<open>The overload that takes the parsed header list (it does not reset the record).\<close>

definition http_translate_range_header_list ::
  "boost_lexical \<Rightarrow> range_header \<Rightarrow> http_header list \<Rightarrow> (bool \<times> range_header) cpp" where
  "http_translate_range_header_list bx rheader hdrs =
     (case http_get_header hdrs ''Range'' of
        (True, header) \<Rightarrow>
          (case find_first_of (CHR ''='') (hvalue header) of
             None \<Rightarrow> Ret (False, rheader)
           | Some start \<Rightarrow>
               (case find_first_of (CHR '','') (hvalue header) of
                  Some delim_pos \<Rightarrow>
                    if delim_pos + 1 = length (hvalue header) then Ret (False, rheader)
                    else cbind (http_range_header_value_parser bx rheader (hvalue header)
                                  (delim_pos + 1) (length (hvalue header)) True)
                           (\<lambda>(state, rheader).
                              if state then http_range_header_value_parser bx rheader (hvalue header)
                                              (start + 1) delim_pos False
                              else Ret (False, rheader))
                | None \<Rightarrow> http_range_header_value_parser bx rheader (hvalue header)
                            (start + 1) (length (hvalue header)) False))
      | (False, _) \<Rightarrow> Ret (False, rheader))"

definition http_translate_accept_header :: "range_header \<Rightarrow> bool \<times> range_header" where
  "http_translate_accept_header rheader =
     (True, rheader\<lparr>bstart_1 := range_all, bend_1 := range_all\<rparr>)"

subsection \<open>URIs, dates, etags\<close>

fun normalize_loop :: "string \<Rightarrow> nat \<Rightarrow> nat \<Rightarrow> string" where
  "normalize_loop n_uri first 0 = n_uri"
| "normalize_loop n_uri first (Suc k) =
     normalize_loop (if n_uri ! first = CHR ''+'' then n_uri[first := CHR '' ''] else n_uri) (Suc first) k"

definition http_normalize_uri :: "string \<Rightarrow> string" where
  "http_normalize_uri uri = normalize_loop uri 0 (length uri)"

fun hexadecimal :: "nat \<Rightarrow> string" where
  "hexadecimal n =
     (let d = (\<lambda>k. if k < 10 then char_of (48 + k) else char_of (87 + k))
      in if n < 16 then [d n] else hexadecimal (n div 16) @ [d (n mod 16)])"

declare hexadecimal.simps [simp del]

text \<open>
  \<open>snprintf\<close> of the quoted last-write time (as \<open>unsigned long\<close>, hexadecimal), a dot, the
  size and a quote into 2048 bytes: its result is the number of characters.
\<close>

definition etag_text :: "int \<Rightarrow> 64 word \<Rightarrow> string" where
  "etag_text file_size last_write_time =
     [DQUOTE] @ hexadecimal (unat last_write_time) @ ''.'' @ decimal_int file_size @ [DQUOTE]"

definition http_etag :: "int \<Rightarrow> 64 word \<Rightarrow> string" where
  "http_etag file_size last_write_time =
     (let written = length (etag_text file_size last_write_time)
      in if written > 0 then [] else take 2047 (etag_text file_size last_write_time))"

text \<open>
  The overload on a path. Both file system calls share the error code and the second call
  overwrites it, so only the failure of \<open>last_write_time\<close> is seen; a failed \<open>file_size\<close> is -1.
\<close>

definition http_etag_path ::
  "(string \<Rightarrow> int option) \<Rightarrow> (string \<Rightarrow> 64 word option) \<Rightarrow> string \<Rightarrow> string" where
  "http_etag_path file_size last_write_time file_path =
     (let s = (case file_size file_path of Some n \<Rightarrow> n | None \<Rightarrow> -1)
      in case last_write_time file_path of None \<Rightarrow> [] | Some t \<Rightarrow> http_etag s t)"

subsection \<open>MIME types\<close>

definition mappings :: "(string \<times> string) list" where
  "mappings =
     [(''gif'', ''image/gif''), (''htm'', ''text/html''), (''html'', ''text/html''),
      (''jpg'', ''image/jpeg''), (''png'', ''image/png''), (''txt'', ''text/plain'')]"

definition binary_data :: string where
  "binary_data = ''application/octet-stream''"

definition get_file_extension :: "('path \<Rightarrow> string) \<Rightarrow> 'path \<Rightarrow> string" where
  "get_file_extension extension file_path = extension file_path"

definition extension_to_type :: "string \<Rightarrow> string" where
  "extension_to_type extension =
     (if extension = [] then binary_data
      else case map_of mappings extension of Some t \<Rightarrow> t | None \<Rightarrow> binary_data)"

subsection \<open>Lemmas on URL decoding\<close>

text \<open>The encoder the decoder is checked against: percent-encode all but unreserved characters.\<close>

definition hex_digit :: "nat \<Rightarrow> char" where
  "hex_digit k = (if k < 10 then char_of (48 + k) else char_of (55 + k))"

definition unreserved :: "char \<Rightarrow> bool" where
  "unreserved c \<longleftrightarrow> c \<noteq> CHR ''%'' \<and> c \<noteq> CHR ''+''"

definition url_encode_char :: "(char \<Rightarrow> bool) \<Rightarrow> char \<Rightarrow> string" where
  "url_encode_char keep c =
     (if keep c \<and> unreserved c then [c]
      else [CHR ''%'', hex_digit (of_char c div 16), hex_digit (of_char c mod 16)])"

definition url_encode :: "(char \<Rightarrow> bool) \<Rightarrow> string \<Rightarrow> string" where
  "url_encode keep s = concat (map (url_encode_char keep) s)"

lemma of_char_hex_digit:
  "k < 16 \<Longrightarrow> of_char (hex_digit k) = (if k < 10 then 48 + k else 55 + k)"
  by (simp add: hex_digit_def)

lemma hex_value_hex_digit: "k < 16 \<Longrightarrow> hex_value (hex_digit k) = Some k"
  by (auto simp: hex_value_def of_char_hex_digit Let_def)

lemma hex_value_of_code: "hex_value c \<noteq> None \<Longrightarrow> 48 \<le> (of_char c :: nat) \<and> (of_char c :: nat) < 103"
  by (auto simp: hex_value_def Let_def split: if_splits)

lemma hex_digit_plain:
  assumes "hex_value c \<noteq> None"
  shows "\<not> is_space c" "c \<noteq> CHR ''-''" "c \<noteq> CHR ''+''" "c \<noteq> CHR ''x''" "c \<noteq> CHR ''X''"
  using assms by (auto simp: is_space_def hex_value_def)

lemma hex_extract_digits:
  assumes "hex_value a = Some m" and "hex_value b = Some n"
  shows "hex_extract [a, b] = Some (int m * 16 + int n)"
  using assms hex_digit_plain [of a] hex_digit_plain [of b]
  by (simp add: hex_extract_def hex_number_def)

lemma cast_char_of_char: "cast_char (of_char c) = c"
proof -
  have "(of_char c :: int) = int (of_char c)" by (simp add: of_nat_of_char)
  moreover have "(of_char c :: nat) < 256" by simp
  ultimately show ?thesis by (simp add: cast_char_def)
qed

lemma url_decode_loop_encoded_char:
  "url_decode_loop out (url_encode_char keep c @ cs) = url_decode_loop (out @ [c]) cs"
proof (cases "keep c \<and> unreserved c")
  case True
  then show ?thesis by (simp add: url_encode_char_def unreserved_def)
next
  case False
  let ?n = "of_char c :: nat"
  have "?n < 16 * 16" by simp
  then have "?n div 16 < 16" by (rule less_mult_imp_div_less)
  then have "hex_value (hex_digit (?n div 16)) = Some (?n div 16)"
    and "hex_value (hex_digit (?n mod 16)) = Some (?n mod 16)"
    by (simp_all add: hex_value_hex_digit)
  then have "hex_extract [hex_digit (?n div 16), hex_digit (?n mod 16)] =
      Some (int (?n div 16) * 16 + int (?n mod 16))"
    by (rule hex_extract_digits)
  also have "int (?n div 16) * 16 + int (?n mod 16) = int ?n"
    by (simp add: zdiv_int zmod_int)
  also have "int ?n = of_char c" by (simp add: of_nat_of_char)
  finally have dec: "hex_extract [hex_digit (?n div 16), hex_digit (?n mod 16)] = Some (of_char c)" .
  from False have "url_encode_char keep c = [CHR ''%'', hex_digit (?n div 16), hex_digit (?n mod 16)]"
    by (simp only: url_encode_char_def if_False)
  then show ?thesis using dec by (simp add: cast_char_of_char)
qed

lemma url_decode_loop_encoded:
  "url_decode_loop out (url_encode keep s @ cs) = url_decode_loop (out @ s) cs"
  by (induction s arbitrary: out) (simp_all add: url_encode_def url_decode_loop_encoded_char)

lemma url_decode_loop_length:
  "length (snd (url_decode_loop out s)) \<le> length out + length s"
proof (induction "length s" arbitrary: out s rule: less_induct)
  case less
  show ?case
  proof (cases s)
    case (Cons c cs)
    have step: "length (snd (url_decode_loop (out @ [x]) t)) \<le> length out + length s"
      if "Suc (length t) \<le> length s" for x t
      using less [of t "out @ [x]"] that by simp
    show ?thesis
      using step Cons by (auto split: list.split option.split)
  qed simp
qed

text \<open>C38. URL decoding inverts percent-encoding, whichever characters the encoder leaves as they
  are (except percent and plus signs, which it always escapes).\<close>

theorem url_decode_encode: "url_decode (url_encode keep s) = (True, s)"
  using url_decode_loop_encoded [of "[]" keep s "[]"] by (simp add: url_decode_def)

text \<open>Decoding never makes a string longer than its input, whether or not it succeeds, so the
  reserved capacity is enough.\<close>

theorem url_decode_no_longer: "length (snd (url_decode s)) \<le> length s"
  using url_decode_loop_length [of "[]" s] by (simp add: url_decode_def)

subsection \<open>Lemmas on range headers\<close>

lemma collect_chars_slice:
  "first \<le> stop \<Longrightarrow> stop \<le> length str \<Longrightarrow>
   collect_chars str first stop buf = Ret (buf @ take (stop - first) (drop first str))"
proof (induction "stop - first" arbitrary: first buf)
  case 0
  then show ?case by (subst collect_chars.simps) simp
next
  case (Suc k)
  then have lt: "first < stop" "first < length str" by linarith+
  have "collect_chars str first stop buf = collect_chars str (Suc first) stop (buf @ [str ! first])"
    using lt by (subst collect_chars.simps) simp
  also have "\<dots> = Ret ((buf @ [str ! first]) @ take (stop - Suc first) (drop (Suc first) str))"
    using Suc lt by (intro Suc.hyps(1)) linarith+
  also have "(buf @ [str ! first]) @ take (stop - Suc first) (drop (Suc first) str) =
      buf @ take (stop - first) (drop first str)"
    using lt by (simp add: Cons_nth_drop_Suc [symmetric] take_Cons')
  finally show ?case by simp
qed

lemma range_value_slice:
  assumes "first \<le> stop" and "stop \<le> length v"
    and "value_range = take (stop - first) (drop first v)"
  shows "http_range_header_value_parser bx rheader v first stop second =
     (case find_first_of (CHR ''-'') value_range of
        None \<Rightarrow> Ret (False, rheader)
      | Some d \<Rightarrow>
          let bstart = cast_string_range_to_int bx value_range 0 d;
              bend = cast_string_range_to_int bx value_range (d + 1) (length value_range)
          in if bstart = range_bad \<or> bend = range_bad then Ret (False, rheader)
             else Ret (True, if second then rheader\<lparr>bstart_2 := bstart, bend_2 := bend\<rparr>
                             else rheader\<lparr>bstart_1 := bstart, bend_1 := bend\<rparr>))"
  using assms(1,2) unfolding assms(3)
  by (simp add: http_range_header_value_parser_def collect_chars_slice cpp_simps)

definition range_cast :: "boost_lexical \<Rightarrow> string \<Rightarrow> int" where
  "range_cast bx t = (if t = ''*'' \<or> t = [] then range_all
                      else case to_i64 bx t of Some v \<Rightarrow> v | None \<Rightarrow> range_bad)"

lemma cast_string_range_slice:
  "first \<le> stop \<Longrightarrow> stop \<le> length str \<Longrightarrow>
   cast_string_range_to_int bx str first stop = range_cast bx (take (stop - first) (drop first str))"
  by (auto simp: cast_string_range_to_int_def range_cast_def collect_chars_slice)

text \<open>A single byte range \<open>first-last\<close>; either side may be left out.\<close>

definition print_bound :: "nat option \<Rightarrow> string" where
  "print_bound b = (case b of None \<Rightarrow> [] | Some n \<Rightarrow> decimal n)"

definition print_range :: "nat option \<Rightarrow> nat option \<Rightarrow> string" where
  "print_range a b = print_bound a @ ''-'' @ print_bound b"

definition bound_int :: "nat option \<Rightarrow> int" where
  "bound_int b = (case b of None \<Rightarrow> range_all | Some n \<Rightarrow> int n)"

definition bound_ok :: "nat option \<Rightarrow> bool" where
  "bound_ok b \<longleftrightarrow> (case b of None \<Rightarrow> True | Some n \<Rightarrow> int n < 2 ^ 63)"

lemma decimal_chars: "set (decimal n) \<subseteq> {c. 48 \<le> char_int c \<and> char_int c \<le> 57}"
  using decimal_all_digits [of n] by (auto simp: all_digits_def list_all_iff)

lemma decimal_no_delim:
  "CHR ''-'' \<notin> set (decimal n)" "CHR '','' \<notin> set (decimal n)" "CHR ''='' \<notin> set (decimal n)"
  "CHR ''*'' \<notin> set (decimal n)"
  using decimal_chars [of n] by (auto simp: char_int_def)

lemma print_bound_no_delim:
  "CHR ''-'' \<notin> set (print_bound b)" "CHR '','' \<notin> set (print_bound b)"
  "CHR ''='' \<notin> set (print_bound b)" "CHR ''*'' \<notin> set (print_bound b)"
  by (auto simp: print_bound_def decimal_no_delim split: option.splits)

lemma range_cast_bound:
  "lexical_ok bx \<Longrightarrow> bound_ok b \<Longrightarrow> range_cast bx (print_bound b) = bound_int b"
  using decimal_no_delim(4)
  by (auto simp: range_cast_def print_bound_def bound_int_def bound_ok_def lexical_to_i64
      split: option.splits) (metis list.set_intros(1))

lemma range_value_printed:
  assumes "lexical_ok bx" "bound_ok a" "bound_ok b"
    and "v = pre @ print_range a b @ post"
    and "start = length pre" and "stop = length pre + length (print_range a b)"
  shows "http_range_header_value_parser bx rheader v start stop second =
     Ret (True, if second then rheader\<lparr>bstart_2 := bound_int a, bend_2 := bound_int b\<rparr>
                else rheader\<lparr>bstart_1 := bound_int a, bend_1 := bound_int b\<rparr>)"
proof -
  have slice: "take (stop - start) (drop start v) = print_range a b"
    using assms by simp
  have find: "find_first_of (CHR ''-'') (print_range a b) = Some (length (print_bound a))"
    by (simp add: print_range_def print_bound_no_delim)
  have ca: "cast_string_range_to_int bx (print_range a b) 0 (length (print_bound a)) = bound_int a"
    using assms by (subst cast_string_range_slice) (simp_all add: print_range_def range_cast_bound)
  have cb: "cast_string_range_to_int bx (print_range a b) (length (print_bound a) + 1)
      (length (print_range a b)) = bound_int b"
    using assms by (subst cast_string_range_slice) (simp_all add: print_range_def range_cast_bound)
  have "bound_int a \<noteq> range_bad" "bound_int b \<noteq> range_bad"
    by (auto simp: bound_int_def split: option.splits)
  then show ?thesis
    using assms find ca cb
    by (subst range_value_slice [OF _ _ slice [symmetric]]) (simp_all add: Let_def)
qed

lemma find_first_of_after:
  "c \<notin> set xs \<Longrightarrow> find_first_of c (xs @ c # ys) = Some (length xs)"
  by simp

lemma print_range_no_delim: "CHR '','' \<notin> set (print_range a b)" "CHR ''='' \<notin> set (print_range a b)"
  by (auto simp: print_range_def print_bound_no_delim)

text \<open>The header's text: a unit name, an equals sign, one range, and optionally a second.\<close>

definition print_ranges :: "string \<Rightarrow> nat option \<times> nat option \<Rightarrow> (nat option \<times> nat option) option \<Rightarrow> string" where
  "print_ranges unit r1 r2 =
     unit @ ''='' @ print_range (fst r1) (snd r1) @
     (case r2 of None \<Rightarrow> [] | Some (c, d) \<Rightarrow> '','' @ print_range c d)"

text \<open>A range header with one range is read back field by field: a bound that is left out is
  \<open>all\<close>, and the second range keeps \<open>bad\<close> as its start and its old end.\<close>

theorem range_header_single:
  assumes "lexical_ok bx" and "bound_ok a" and "bound_ok b"
    and "CHR ''='' \<notin> set unit" and "CHR '','' \<notin> set unit"
  shows "http_translate_range_header bx rheader (print_ranges unit (a, b) None) =
     Ret (True, \<lparr>bstart_1 = bound_int a, bend_1 = bound_int b,
                 bstart_2 = range_bad, bend_2 = bend_2 rheader\<rparr>)"
proof -
  let ?h = "print_ranges unit (a, b) None"
  have h: "?h = (unit @ ''='') @ print_range a b @ []" by (simp add: print_ranges_def)
  have eq: "find_first_of (CHR ''='') ?h = Some (length unit)"
    using assms by (simp add: print_ranges_def)
  have comma: "find_first_of (CHR '','') ?h = None"
    using assms print_range_no_delim [of a b] by (simp add: find_first_of_None print_ranges_def)
  have len: "length ?h = length unit + 1 + length (print_range a b)" by (simp add: h)
  have "http_range_header_value_parser bx r ?h (length unit + 1) (length ?h) False =
      Ret (True, r\<lparr>bstart_1 := bound_int a, bend_1 := bound_int b\<rparr>)" for r
    using assms by (subst range_value_printed [OF _ _ _ h]) (simp_all add: len)
  then show ?thesis
    unfolding http_translate_range_header_def http_translate_range_header_text_def eq comma
    by simp
qed

theorem range_header_single_witness:
  "http_translate_range_header lexical_reference
     \<lparr>bstart_1 = 7, bend_1 = 7, bstart_2 = 7, bend_2 = 7\<rparr> (print_ranges ''bytes'' (Some 5, None) None) =
   Ret (True, \<lparr>bstart_1 = 5, bend_1 = -1, bstart_2 = -2, bend_2 = 7\<rparr>)"
  using range_header_single [OF lexical_ok_reference, of "Some 5" None "''bytes''"]
  by (simp add: bound_ok_def bound_int_def)

text \<open>A range header with two ranges is read back into all four fields.\<close>

theorem range_header_double:
  assumes "lexical_ok bx" and "bound_ok a" and "bound_ok b" and "bound_ok c" and "bound_ok d"
    and "CHR ''='' \<notin> set unit" and "CHR '','' \<notin> set unit"
  shows "http_translate_range_header bx rheader (print_ranges unit (a, b) (Some (c, d))) =
     Ret (True, \<lparr>bstart_1 = bound_int a, bend_1 = bound_int b,
                 bstart_2 = bound_int c, bend_2 = bound_int d\<rparr>)"
proof -
  let ?h = "print_ranges unit (a, b) (Some (c, d))"
  let ?r1 = "print_range a b" and ?r2 = "print_range c d"
  have h1: "?h = (unit @ ''='') @ ?r1 @ ('','' @ ?r2)" by (simp add: print_ranges_def)
  have h2: "?h = (unit @ ''='' @ ?r1 @ '','') @ ?r2 @ []" by (simp add: print_ranges_def)
  have eq: "find_first_of (CHR ''='') ?h = Some (length unit)"
    using assms by (simp add: print_ranges_def)
  have "?h = (unit @ ''='' @ ?r1) @ CHR '','' # ?r2" by (simp add: print_ranges_def)
  then have comma: "find_first_of (CHR '','') ?h = Some (length unit + 1 + length ?r1)"
    using assms print_range_no_delim [of a b] by (simp add: find_first_of_after)
  have len: "length ?h = length unit + 1 + length ?r1 + 1 + length ?r2" by (simp add: h1)
  have "?r2 \<noteq> []" by (simp add: print_range_def)
  then have more: "length unit + 1 + length ?r1 + 1 \<noteq> length ?h" by (simp add: len)
  have second: "http_range_header_value_parser bx r ?h (length unit + 1 + length ?r1 + 1)
      (length ?h) True = Ret (True, r\<lparr>bstart_2 := bound_int c, bend_2 := bound_int d\<rparr>)" for r
    using assms by (subst range_value_printed [OF _ _ _ h2]) (simp_all add: len)
  have first: "http_range_header_value_parser bx r ?h (length unit + 1)
      (length unit + 1 + length ?r1) False = Ret (True, r\<lparr>bstart_1 := bound_int a, bend_1 := bound_int b\<rparr>)" for r
    using assms by (subst range_value_printed [OF _ _ _ h1]) simp_all
  show ?thesis
    unfolding http_translate_range_header_def http_translate_range_header_text_def eq comma
    using more first second by (simp add: cpp_simps)
qed

theorem range_header_double_witness:
  "http_translate_range_header lexical_reference
     \<lparr>bstart_1 = 7, bend_1 = 7, bstart_2 = 7, bend_2 = 7\<rparr>
     (print_ranges ''bytes'' (Some 5, Some 9) (Some (Some 20, None))) =
   Ret (True, \<lparr>bstart_1 = 5, bend_1 = 9, bstart_2 = 20, bend_2 = -1\<rparr>)"
  using range_header_double [OF lexical_ok_reference, of "Some 5" "Some 9" "Some 20" None "''bytes''"]
  by (simp add: bound_ok_def bound_int_def)

lemma range_cast_delim:
  assumes "lexical_ok bx" and "c \<in> set t" and "c \<notin> number_chars" and "c \<noteq> CHR ''*''"
  shows "range_cast bx t = range_bad"
  using assms lexical_chars [OF assms(1), of t]
  by (auto simp: range_cast_def split: option.split)

lemma equals_not_number: "CHR ''='' \<notin> number_chars"
  by (simp add: number_chars_def char_int_def)

lemma find_first_of_nth: "find_first_of c xs = Some i \<Longrightarrow> xs ! i = c"
  by (induction xs arbitrary: i) (auto split: if_splits)

lemma range_value_returns:
  "first \<le> stop \<Longrightarrow> stop \<le> length v \<Longrightarrow>
   returns (http_range_header_value_parser bx rheader v first stop second)"
  by (simp add: range_value_slice [OF _ _ refl] Let_def split: option.split)

lemma cast_tail:
  "d < length w \<Longrightarrow>
   cast_string_range_to_int bx w (d + 1) (length w) = range_cast bx (drop (Suc d) w)"
  by (simp add: cast_string_range_slice)

text \<open>A slice that still contains the equals sign is never accepted as a range.\<close>

lemma range_value_rejects_equals:
  assumes "lexical_ok bx" and "first \<le> stop" and "stop \<le> length v"
    and "CHR ''='' \<in> set (take (stop - first) (drop first v))"
  shows "http_range_header_value_parser bx rheader v first stop second = Ret (False, rheader)"
proof (cases "find_first_of (CHR ''-'') (take (stop - first) (drop first v))")
  case None
  with assms show ?thesis by (simp add: range_value_slice [OF _ _ refl])
next
  case (Some d)
  let ?w = "take (stop - first) (drop first v)"
  have d: "d < length ?w" using Some by (rule find_first_of_bound)
  have "?w = take d ?w @ ?w ! d # drop (Suc d) ?w" using d by (rule id_take_nth_drop)
  then have "set ?w = set (take d ?w) \<union> {?w ! d} \<union> set (drop (Suc d) ?w)"
    by (metis Un_insert_right list.simps(15) set_append sup_bot.right_neutral Un_insert_left)
  then have "CHR ''='' \<in> set (take d ?w) \<or> CHR ''='' \<in> set (drop (Suc d) ?w)"
    using assms(4) find_first_of_nth [OF Some] by auto
  then have "range_cast bx (take d ?w) = range_bad \<or> range_cast bx (drop (Suc d) ?w) = range_bad"
    using range_cast_delim [OF assms(1) _ equals_not_number] by auto
  moreover have "cast_string_range_to_int bx ?w 0 d = range_cast bx (take d ?w)"
    using d by (subst cast_string_range_slice) simp_all
  moreover have "cast_string_range_to_int bx ?w (d + 1) (length ?w) = range_cast bx (drop (Suc d) ?w)"
    using d by (rule cast_tail)
  ultimately show ?thesis
    using Some assms(2,3) by (auto simp: range_value_slice [OF _ _ refl] Let_def)
qed

text \<open>No header text makes the range translation throw: when a comma precedes the equals sign,
  the second-range slice contains the equals sign and is rejected before the loop with swapped
  bounds is reached.\<close>

theorem range_header_never_throws:
  assumes "lexical_ok bx"
  shows "returns (http_translate_range_header bx rheader header)"
proof (cases "find_first_of (CHR ''='') header")
  case None
  then show ?thesis
    by (auto simp: http_translate_range_header_def http_translate_range_header_text_def)
next
  case (Some start)
  note start = Some find_first_of_bound [OF Some] find_first_of_nth [OF Some]
  show ?thesis
  proof (cases "find_first_of (CHR '','') header")
    case None
    with start show ?thesis
      by (simp add: http_translate_range_header_def http_translate_range_header_text_def
          range_value_returns)
  next
    case (Some delim)
    note delim = Some find_first_of_bound [OF Some] find_first_of_nth [OF Some]
    let ?r = "rheader\<lparr>bstart_1 := range_bad, bend_1 := range_bad, bstart_2 := range_bad\<rparr>"
    have bound: "delim + 1 \<le> length header" using delim by simp
    obtain st r where second: "http_range_header_value_parser bx ?r header (delim + 1)
        (length header) True = Ret (st, r)"
      using range_value_returns [OF bound le_refl, of bx ?r True] by (auto simp: returns_iff)
    have "start < delim" if "st"
    proof (rule ccontr)
      assume "\<not> start < delim"
      moreover have "start \<noteq> delim" using start delim by auto
      ultimately have "delim + 1 \<le> start" by simp
      then have "CHR ''='' \<in> set (drop (delim + 1) header)"
        using start by (metis in_set_conv_nth le_add_diff_inverse length_drop nth_drop bound
            diff_less_mono)
      then have "http_range_header_value_parser bx ?r header (delim + 1) (length header) True
          = Ret (False, ?r)"
        using bound by (intro range_value_rejects_equals [OF assms]) simp_all
      with second that show False by simp
    qed
    then have "returns (if st then http_range_header_value_parser bx r header (start + 1) delim False
        else Ret (st, r))"
      using range_value_returns [of "start + 1" delim header bx r False] delim by auto
    with start delim second show ?thesis
      by (simp add: http_translate_range_header_def http_translate_range_header_text_def cpp_simps)
  qed
qed

theorem range_header_never_throws_witness:
  "returns (http_translate_range_header lexical_reference
     \<lparr>bstart_1 = 0, bend_1 = 0, bstart_2 = 0, bend_2 = 0\<rparr> ''a,1-2=3-4'')"
  by (rule range_header_never_throws [OF lexical_ok_reference])

text \<open>Either a field is filled by a successful cast or the translation fails.\<close>

lemma range_value_success:
  assumes "http_range_header_value_parser bx rheader v first stop second = Ret (True, r)"
  shows "if second then bstart_2 r \<noteq> range_bad \<and> bend_2 r \<noteq> range_bad \<and>
           bstart_1 r = bstart_1 rheader \<and> bend_1 r = bend_1 rheader
         else bstart_1 r \<noteq> range_bad \<and> bend_1 r \<noteq> range_bad \<and>
           bstart_2 r = bstart_2 rheader \<and> bend_2 r = bend_2 rheader"
  using assms
  by (auto simp: http_range_header_value_parser_def Let_def cbind_eq_Ret split: option.splits if_splits)

text \<open>When the translation succeeds no bound of the first range is \<open>bad\<close>, and when the header
  has a comma no bound of the second range is either.\<close>

theorem range_header_success:
  assumes "http_translate_range_header bx rheader header = Ret (True, r)"
  shows "bstart_1 r \<noteq> range_bad \<and> bend_1 r \<noteq> range_bad \<and>
     (CHR '','' \<in> set header \<longrightarrow> bstart_2 r \<noteq> range_bad \<and> bend_2 r \<noteq> range_bad)"
proof (cases "find_first_of (CHR '','') header")
  case None
  then have "CHR '','' \<notin> set header" by (simp add: find_first_of_None)
  then show ?thesis
    using assms None by (auto simp: http_translate_range_header_def
        http_translate_range_header_text_def split: option.splits dest: range_value_success)
next
  case (Some delim)
  let ?r = "rheader\<lparr>bstart_1 := range_bad, bend_1 := range_bad, bstart_2 := range_bad\<rparr>"
  from assms Some obtain start st r1 where
      second: "http_range_header_value_parser bx ?r header (delim + 1) (length header) True = Ret (st, r1)"
    and last: "(if st then http_range_header_value_parser bx r1 header (start + 1) delim False
      else Ret (st, r1)) = Ret (True, r)"
    by (auto simp: http_translate_range_header_def http_translate_range_header_text_def
        cbind_eq_Ret split: option.splits if_splits)
  then have st by (auto split: if_splits)
  then show ?thesis
    using second last range_value_success [of bx ?r header "delim + 1" "length header" True r1]
      range_value_success [of bx r1 header "start + 1" delim False r]
    by simp
qed

theorem range_header_success_witness:
  "\<exists>r. http_translate_range_header lexical_reference
     \<lparr>bstart_1 = 7, bend_1 = 7, bstart_2 = 7, bend_2 = 7\<rparr> ''b=5-6'' = Ret (True, r) \<and>
   bstart_1 r \<noteq> range_bad"
proof -
  have "http_translate_range_header lexical_reference
     \<lparr>bstart_1 = 7, bend_1 = 7, bstart_2 = 7, bend_2 = 7\<rparr> ''b=5-6'' =
     Ret (True, \<lparr>bstart_1 = 5, bend_1 = 6, bstart_2 = -2, bend_2 = 7\<rparr>)" by code_simp
  from this range_header_success [OF this] show ?thesis by blast
qed

subsection \<open>URIs, etags and MIME types\<close>

definition plus_to_space :: "char \<Rightarrow> char" where
  "plus_to_space c = (if c = CHR ''+'' then CHR '' '' else c)"

lemma normalize_loop_map:
  "first + k = length u \<Longrightarrow>
   normalize_loop u first k = take first u @ map plus_to_space (drop first u)"
proof (induction k arbitrary: u first)
  case 0
  then show ?case by simp
next
  case (Suc k)
  let ?u = "if u ! first = CHR ''+'' then u[first := CHR '' ''] else u"
  have "?u = u[first := plus_to_space (u ! first)]" by (simp add: plus_to_space_def)
  then have "normalize_loop u first (Suc k) =
      take (Suc first) (u[first := plus_to_space (u ! first)])
        @ map plus_to_space (drop (Suc first) u)"
    using Suc.IH [of "Suc first" ?u] Suc.prems by simp
  then show ?case
    using Suc.prems by (simp add: take_Suc_conv_app_nth Cons_nth_drop_Suc [symmetric])
qed

text \<open>Normalising a URI turns every plus sign into a space and touches nothing else.\<close>

theorem normalize_uri_map: "http_normalize_uri uri = map plus_to_space uri"
  by (simp add: http_normalize_uri_def normalize_loop_map)

text \<open>The etag of every file is the empty string: the branches after the formatting call are
  swapped.\<close>

theorem etag_always_empty: "http_etag file_size last_write_time = []"
  by (simp add: http_etag_def etag_text_def)

text \<open>An extension that still has its leading dot, as the path library returns it, is always
  served as binary data.\<close>

theorem dotted_extension_is_binary:
  assumes "get_file_extension extension file_path = CHR ''.'' # e"
  shows "extension_to_type (get_file_extension extension file_path) = binary_data"
  using assms by (simp add: extension_to_type_def mappings_def)

theorem dotted_extension_is_binary_witness:
  "extension_to_type (get_file_extension (\<lambda>p. ''.html'') ''a.html'') = binary_data"
  by (rule dotted_extension_is_binary [where e = "''html''"]) (simp add: get_file_extension_def)

end
