(* ===== verification/Http_Reply.thy ===== *)
theory Http_Reply
  imports Http_Utility
begin

section \<open>Building an HTTP reply\<close>

text \<open>
  \<open>src/src/common/http_utility/http_reply.{hpp,cpp}\<close> and \<open>http_reply_resources.hpp\<close>. The
  reply's vector of characters is \<open>buf_ref\<close>; \<open>enable_buf_realocation\<close> decides whether an
  operation resizes it before writing. \<open>std::vector::at\<close> throws past the end; every public
  operation catches, so the outcome is its boolean result and the buffer it leaves.
\<close>

datatype status_type =
    status_ok | status_created | status_accepted | status_no_content | status_partial_content
  | status_multiple_choices | status_moved_permanently | status_moved_temporarily
  | status_not_modified | status_bad_request | status_unauthorized | status_forbidden
  | status_not_found | status_internal_server_error | status_not_implemented
  | status_bad_gateway | status_service_unavailable

fun status_code :: "status_type \<Rightarrow> nat" where
  "status_code status_ok = 200"
| "status_code status_created = 201"
| "status_code status_accepted = 202"
| "status_code status_no_content = 204"
| "status_code status_partial_content = 206"
| "status_code status_multiple_choices = 300"
| "status_code status_moved_permanently = 301"
| "status_code status_moved_temporarily = 302"
| "status_code status_not_modified = 304"
| "status_code status_bad_request = 400"
| "status_code status_unauthorized = 401"
| "status_code status_forbidden = 403"
| "status_code status_not_found = 404"
| "status_code status_internal_server_error = 500"
| "status_code status_not_implemented = 501"
| "status_code status_bad_gateway = 502"
| "status_code status_service_unavailable = 503"

text \<open>The status line's text (namespace \<open>status_strings\<close>).\<close>

fun status_string :: "status_type \<Rightarrow> string" where
  "status_string status_ok = ''HTTP/1.1 200 OK'' @ crlf"
| "status_string status_created = ''HTTP/1.1 201 Created'' @ crlf"
| "status_string status_accepted = ''HTTP/1.1 202 Accepted'' @ crlf"
| "status_string status_no_content = ''HTTP/1.1 204 No Content'' @ crlf"
| "status_string status_partial_content = ''HTTP/1.1 206 Partial Content'' @ crlf"
| "status_string status_multiple_choices = ''HTTP/1.1 300 Multiple Choices'' @ crlf"
| "status_string status_moved_permanently = ''HTTP/1.1 301 Moved Permanently'' @ crlf"
| "status_string status_moved_temporarily = ''HTTP/1.1 302 Moved Temporarily'' @ crlf"
| "status_string status_not_modified = ''HTTP/1.1 304 Not Modified'' @ crlf"
| "status_string status_bad_request = ''HTTP/1.1 400 Bad Request'' @ crlf"
| "status_string status_unauthorized = ''HTTP/1.1 401 Unauthorized'' @ crlf"
| "status_string status_forbidden = ''HTTP/1.1 403 Forbidden'' @ crlf"
| "status_string status_not_found = ''HTTP/1.1 404 Not Found'' @ crlf"
| "status_string status_internal_server_error = ''HTTP/1.1 500 Internal Server Error'' @ crlf"
| "status_string status_not_implemented = ''HTTP/1.1 501 Not Implemented'' @ crlf"
| "status_string status_bad_gateway = ''HTTP/1.1 502 Bad Gateway'' @ crlf"
| "status_string status_service_unavailable = ''HTTP/1.1 503 Service Unavailable'' @ crlf"

definition stock_page :: "string \<Rightarrow> string \<Rightarrow> string" where
  "stock_page title heading =
     ''<html>'' @ ''<head><title>'' @ title @ ''</title></head>'' @
     ''<body><h1>'' @ heading @ ''</h1></body>'' @ ''</html>''"

text \<open>The stock body (namespace \<open>stock_replies\<close>); \<open>partial_content\<close> takes the default branch.\<close>

fun stock_string :: "status_type \<Rightarrow> string" where
  "stock_string status_ok = []"
| "stock_string status_created = stock_page ''Created'' ''201 Created''"
| "stock_string status_accepted = stock_page ''Accepted'' ''202 Accepted''"
| "stock_string status_no_content = stock_page ''No Content'' ''204 Content''"
| "stock_string status_multiple_choices = stock_page ''Multiple Choices'' ''300 Multiple Choices''"
| "stock_string status_moved_permanently = stock_page ''Moved Permanently'' ''301 Moved Permanently''"
| "stock_string status_moved_temporarily = stock_page ''Moved Temporarily'' ''302 Moved Temporarily''"
| "stock_string status_not_modified = stock_page ''Not Modified'' ''304 Not Modified''"
| "stock_string status_bad_request = stock_page ''Bad Request'' ''400 Bad Request''"
| "stock_string status_unauthorized = stock_page ''Unauthorized'' ''401 Unauthorized''"
| "stock_string status_forbidden = stock_page ''Forbidden'' ''403 Forbidden''"
| "stock_string status_not_found = stock_page ''Not Found'' ''404 Not Found''"
| "stock_string status_internal_server_error =
     stock_page ''Internal Server Error'' ''500 Internal Server Error''"
| "stock_string status_not_implemented = stock_page ''Not Implemented'' ''501 Not Implemented''"
| "stock_string status_bad_gateway = stock_page ''Bad Gateway'' ''502 Bad Gateway''"
| "stock_string status_service_unavailable =
     stock_page ''Service Unavailable'' ''503 Service Unavailable''"
| "stock_string status_partial_content =
     stock_page ''Internal Server Error'' ''500 Internal Server Error''"

definition name_value_separator :: string where
  "name_value_separator = '': ''"

record http_reply =
  buf_ref :: string
  enable_buf_realocation :: bool

definition new_http_reply :: http_reply where
  "new_http_reply = \<lparr>buf_ref = [], enable_buf_realocation = True\<rparr>"

definition set_buf_realocation :: "http_reply \<Rightarrow> bool \<Rightarrow> http_reply" where
  "set_buf_realocation r state = r\<lparr>enable_buf_realocation := state\<rparr>"

definition reset_buffer :: "http_reply \<Rightarrow> http_reply" where
  "reset_buffer r = r\<lparr>buf_ref := []\<rparr>"

definition add_crlf :: "http_reply \<Rightarrow> http_reply" where
  "add_crlf r = r\<lparr>buf_ref := buf_ref r @ crlf\<rparr>"

text \<open>\<open>cast_helper\<close> grows the buffer and then writes from index 0.\<close>

definition cast_helper :: "string \<Rightarrow> string \<Rightarrow> string \<times> bool" where
  "cast_helper buffer message =
     (let new_b_size = length buffer + length message
      in copy_at new_b_size 0 message (vresize new_b_size (CHR 0x00) buffer))"

definition add_status :: "http_reply \<Rightarrow> status_type \<Rightarrow> bool \<times> http_reply" where
  "add_status r status =
     (case cast_helper (buf_ref r) (status_string status) of
        (b, threw) \<Rightarrow> (\<not> threw, r\<lparr>buf_ref := b\<rparr>))"

definition add_header_directly :: "http_reply \<Rightarrow> string \<Rightarrow> string \<Rightarrow> bool \<times> http_reply" where
  "add_header_directly r name val =
     (let prev = length (buf_ref r);
          new_size = prev + length name + length val + length name_value_separator;
          b0 = (if enable_buf_realocation r then vresize new_size (CHR 0x00) (buf_ref r) else buf_ref r);
          (b1, threw1) = copy_at new_size prev name b0
      in if threw1 then (True, r\<lparr>buf_ref := b1\<rparr>)
         else let prev1 = prev + length name;
                  (b2, threw2) = copy_at new_size prev1 name_value_separator b1
              in if threw2 then (True, r\<lparr>buf_ref := b2\<rparr>)
                 else let prev2 = prev1 + length name_value_separator;
                          (b3, threw3) = copy_at new_size prev2 val b2
                      in (threw3, r\<lparr>buf_ref := b3\<rparr>))"

definition add_header :: "http_reply \<Rightarrow> string \<Rightarrow> string \<Rightarrow> bool \<times> http_reply" where
  "add_header r name val =
     (case add_header_directly r name val of
        (True, r1) \<Rightarrow> (False, r1)
      | (False, r1) \<Rightarrow> (True, add_crlf r1))"

definition add_http_header :: "http_reply \<Rightarrow> http_header \<Rightarrow> bool \<times> http_reply" where
  "add_http_header r h =
     (case add_header_directly r (hname h) (hvalue h) of
        (True, r1) \<Rightarrow> (False, r1)
      | (False, r1) \<Rightarrow> (True, add_crlf r1))"

text \<open>\<open>None\<close> is a null pointer, \<open>Some\<close> the \<open>content_size\<close> characters it points to.\<close>

definition add_content :: "http_reply \<Rightarrow> string option \<Rightarrow> bool \<times> http_reply" where
  "add_content r content =
     (case content of
        None \<Rightarrow> (False, r)
      | Some c \<Rightarrow>
          if length c = 0 then (False, r)
          else let r1 = add_crlf r;
                   prev = length (buf_ref r1);
                   new_size = prev + length c;
                   b0 = (if enable_buf_realocation r1 then vresize new_size (CHR 0x00) (buf_ref r1)
                         else buf_ref r1);
                   (b1, threw) = copy_at new_size prev c b0
               in if threw then (False, reset_buffer (r1\<lparr>buf_ref := b1\<rparr>))
                  else (True, r1\<lparr>buf_ref := b1\<rparr>))"

text \<open>The results of the four additions are ignored, and they do not throw.\<close>

definition stock_reply :: "boost_lexical \<Rightarrow> http_reply \<Rightarrow> status_type \<Rightarrow> bool \<times> http_reply" where
  "stock_reply bx r status =
     (let r0 = reset_buffer r;
          content = stock_string status;
          r1 = snd (add_status r0 status);
          r2 = snd (add_header r1 ''Content-Length'' (num_text bx (int (length content))));
          r3 = snd (add_header r2 ''Content-Type'' ''text/html'');
          r4 = snd (add_content r3 (Some content))
      in (True, r4))"

subsection \<open>What each operation does to the buffer\<close>

lemma copy_at_resized_pair:
  "n = length buf + length src + k \<Longrightarrow> copy_at n (length buf) src (buf @ replicate (length src + k) z) =
   (buf @ src @ replicate k z, False)"
  using copy_at_resized [of n buf src k z] by (simp add: vresize_grow)

lemma add_header_directly_enabled:
  assumes "enable_buf_realocation r"
  shows "add_header_directly r name val =
     (False, r\<lparr>buf_ref := buf_ref r @ name @ name_value_separator @ val\<rparr>)"
proof -
  let ?b = "buf_ref r" and ?z = "CHR 0x00" and ?s = name_value_separator
  let ?n = "length ?b + length name + length val + length ?s"
  have c1: "copy_at ?n (length ?b) name (vresize ?n ?z ?b) =
      (?b @ name @ replicate (length ?s + length val) ?z, False)"
    by (rule copy_at_resized) simp
  have c2: "copy_at ?n (length ?b + length name) ?s (?b @ name @ replicate (length ?s + length val) ?z) =
      (?b @ name @ ?s @ replicate (length val) ?z, False)"
    using copy_at_resized_pair [of ?n "?b @ name" ?s "length val" ?z] by simp
  have c3: "copy_at ?n (length ?b + length name + length ?s) val
      (?b @ name @ ?s @ replicate (length val) ?z) = (?b @ name @ ?s @ val, False)"
    using copy_at_resized_pair [of ?n "?b @ name @ ?s" val 0 ?z] by (simp add: add.assoc)
  show ?thesis
    using assms by (simp add: add_header_directly_def Let_def c1 c2 c3)
qed

lemma add_header_enabled:
  "enable_buf_realocation r \<Longrightarrow>
   add_header r name val = (True, r\<lparr>buf_ref := buf_ref r @ name @ name_value_separator @ val @ crlf\<rparr>)"
  by (simp add: add_header_def add_header_directly_enabled add_crlf_def)

lemma add_content_enabled:
  assumes "enable_buf_realocation r" and "c \<noteq> []"
  shows "add_content r (Some c) = (True, r\<lparr>buf_ref := buf_ref r @ crlf @ c\<rparr>)"
proof -
  let ?b = "buf_ref r @ crlf"
  have "copy_at (length ?b + length c) (length ?b) c (vresize (length ?b + length c) (CHR 0x00) ?b) =
      (?b @ c @ replicate 0 (CHR 0x00), False)"
    by (rule copy_at_resized) simp
  then show ?thesis using assms by (simp add: add_content_def add_crlf_def Let_def)
qed

lemma add_status_buffer:
  "add_status r status =
     (True, r\<lparr>buf_ref := status_string status
        @ drop (length (status_string status))
            (buf_ref r @ replicate (length (status_string status)) (CHR 0x00))\<rparr>)"
  by (simp add: add_status_def cast_helper_def Let_def copy_at_fits vresize_grow)

text \<open>While reallocation is on, adding a header appends exactly its line to the buffer and adding
  a non-empty body appends the blank line and the body.\<close>

theorem reply_appends:
  assumes "enable_buf_realocation r" and "c \<noteq> []"
  shows "add_header r name val =
       (True, r\<lparr>buf_ref := buf_ref r @ name @ name_value_separator @ val @ crlf\<rparr>) \<and>
     add_content r (Some c) = (True, r\<lparr>buf_ref := buf_ref r @ crlf @ c\<rparr>)"
  using assms by (simp add: add_header_enabled add_content_enabled)

theorem reply_appends_witness:
  "snd (add_header new_http_reply ''A'' ''b'') = new_http_reply\<lparr>buf_ref := ''A: b'' @ crlf\<rparr>"
  using reply_appends [of new_http_reply "''x''" "''A''" "''b''"]
  by (simp add: new_http_reply_def name_value_separator_def)

text \<open>While reallocation is off, adding a header fails and leaves the buffer as it was, and adding
  a non-empty body fails and empties the buffer, whatever it held.\<close>

theorem reply_frozen:
  assumes "\<not> enable_buf_realocation r" and "c \<noteq> []"
  shows "add_header r name val = (False, r) \<and> add_content r (Some c) = (False, r\<lparr>buf_ref := []\<rparr>)"
proof -
  have "add_header_directly r name val = (True, r)"
    using assms(1) copy_at_end [of name "buf_ref r"]
      copy_at_end [of name_value_separator "buf_ref r"]
    by (cases "name = []") (simp_all add: add_header_directly_def Let_def name_value_separator_def)
  then show ?thesis
    using assms copy_at_end [of c "buf_ref r @ crlf"]
    by (simp add: add_header_def add_content_def add_crlf_def reset_buffer_def Let_def)
qed

theorem reply_frozen_witness:
  "add_content \<lparr>buf_ref = ''abc'', enable_buf_realocation = False\<rparr> (Some ''x'') =
   (False, \<lparr>buf_ref = [], enable_buf_realocation = False\<rparr>)"
  using reply_frozen [of "\<lparr>buf_ref = ''abc'', enable_buf_realocation = False\<rparr>" "''x''"] by simp

text \<open>The status line lands at the front of the buffer: it is appended to an empty buffer, and it
  overwrites what a non-empty buffer held there, leaving NUL characters at the end.\<close>

theorem add_status_front:
  "fst (add_status r status) \<and>
   (let m = status_string status
    in buf_ref (snd (add_status r status)) =
         m @ drop (length m) (buf_ref r @ replicate (length m) (CHR 0x00)))"
  by (simp add: add_status_buffer Let_def)

lemma stock_reply_text:
  assumes "lexical_ok bx" and "enable_buf_realocation r"
  shows "stock_reply bx r status =
     (True, r\<lparr>buf_ref := status_string status
        @ ''Content-Length: '' @ decimal (length (stock_string status)) @ crlf
        @ ''Content-Type: text/html'' @ crlf
        @ (if stock_string status = [] then [] else crlf @ stock_string status)\<rparr>)"
  using assms
  by (cases "stock_string status = []")
    (simp_all add: stock_reply_def Let_def reset_buffer_def add_status_buffer add_header_enabled
      add_content_enabled name_value_separator_def lexical_num_text decimal_int_def,
     simp add: add_content_def)

subsection \<open>Reading a reply back\<close>

text \<open>A client's framing: everything up to the first empty line is the head, the rest the body.\<close>

fun split_reply :: "string \<Rightarrow> (string \<times> string) option" where
  "split_reply [] = None"
| "split_reply (c # cs) =
     (if take 4 (c # cs) = crlf @ crlf then Some (crlf, drop 4 (c # cs))
      else map_option (\<lambda>(h, b). (c # h, b)) (split_reply cs))"

lemma split_reply_skip:
  "CR \<notin> set l \<Longrightarrow> split_reply (l @ xs) = map_option (\<lambda>(h, b). (l @ h, b)) (split_reply xs)"
proof (induction l)
  case Nil
  show ?case by (cases "split_reply xs") auto
next
  case (Cons c l)
  then show ?case by (cases "split_reply xs") auto
qed

lemma split_reply_line:
  "CR \<notin> set l \<Longrightarrow> x \<noteq> CR \<Longrightarrow>
   split_reply (l @ crlf @ x # xs) = map_option (\<lambda>(h, b). (l @ crlf @ h, b)) (split_reply (x # xs))"
  by (subst split_reply_skip, assumption)
    (cases "split_reply (x # xs)", auto)

lemma split_reply_blank:
  "CR \<notin> set l \<Longrightarrow> split_reply (l @ crlf @ crlf @ b) = Some (l @ crlf, b)"
  by (simp add: split_reply_skip)

definition status_text :: "status_type \<Rightarrow> string" where
  "status_text status = butlast (butlast (status_string status))"

lemma status_text: "status_string status = status_text status @ crlf" "CR \<notin> set (status_text status)"
  by (cases status; simp add: status_text_def)+

lemma stock_string_empty: "stock_string status = [] \<longleftrightarrow> status = status_ok"
  by (cases status) (simp_all add: stock_page_def)

lemma decimal_no_CR: "CR \<notin> set (decimal n)"
  using decimal_chars [of n] by (auto simp: char_int_def)

lemma split_three_lines:
  assumes "CR \<notin> set t" and "CR \<notin> set n"
  shows "split_reply (t @ crlf @ ''Content-Length: '' @ n @ crlf @ ''Content-Type: text/html'' @ crlf @ crlf @ b) =
    Some (t @ crlf @ ''Content-Length: '' @ n @ crlf @ ''Content-Type: text/html'' @ crlf, b)"
proof -
  let ?ty = "''Content-Type: text/html''" and ?len = "''Content-Length: '' @ n"
  have "split_reply (?ty @ crlf @ crlf @ b) = Some (?ty @ crlf, b)"
    by (rule split_reply_blank) simp
  then have "split_reply (?len @ crlf @ ?ty @ crlf @ crlf @ b) = Some (?len @ crlf @ ?ty @ crlf, b)"
    using split_reply_line [of ?len "CHR ''C''" "tl ?ty @ crlf @ crlf @ b"] assms(2) by simp
  then show ?thesis
    using split_reply_line [of t "CHR ''C''" "tl ?len @ crlf @ ?ty @ crlf @ crlf @ b"] assms(1) by simp
qed

text \<open>Every stock reply other than the 200 one is a framed message: its body is the stock page of
  the status, and the head carries the length of that body.\<close>

theorem stock_reply_framed:
  assumes "lexical_ok bx" and "enable_buf_realocation r" and "status \<noteq> status_ok"
  shows "split_reply (buf_ref (snd (stock_reply bx r status))) =
     Some (status_string status @ ''Content-Length: '' @ decimal (length (stock_string status)) @ crlf
             @ ''Content-Type: text/html'' @ crlf, stock_string status)"
  using assms split_three_lines [OF status_text(2) decimal_no_CR]
  by (simp add: stock_reply_text stock_string_empty status_text(1))

theorem stock_reply_framed_witness:
  "map_option snd (split_reply (buf_ref (snd (stock_reply lexical_reference new_http_reply status_not_found))))
   = Some (stock_page ''Not Found'' ''404 Not Found'')"
  using stock_reply_framed [OF lexical_ok_reference, of new_http_reply status_not_found]
  by (simp add: new_http_reply_def)

text \<open>The 200 stock reply has no empty line, so a client never sees the end of its head, although
  the operation reports success.\<close>

theorem stock_reply_ok_unframed:
  assumes "lexical_ok bx" and "enable_buf_realocation r"
  shows "fst (stock_reply bx r status_ok) \<and>
     split_reply (buf_ref (snd (stock_reply bx r status_ok))) = None"
  using assms by (simp add: stock_reply_text decimal.simps digit_char_def)

theorem stock_reply_ok_unframed_witness:
  "split_reply (buf_ref (snd (stock_reply lexical_reference new_http_reply status_ok))) = None"
  using stock_reply_ok_unframed [OF lexical_ok_reference, of new_http_reply]
  by (simp add: new_http_reply_def)

end
