(* ===== verification/Containers.thy ===== *)
theory Containers
  imports T2H_Prelude "HOL-Library.AList"
begin

section \<open>Locked containers, the factory, and the handle table\<close>

text \<open>
  \<open>src/src/common/utility/basic_safe_container.hpp\<close>, \<open>factory.hpp\<close> and
  \<open>src/src/core/external_api/handles_manager.hpp\<close>. Every operation runs under the object's own
  mutex, so it is one atomic function of the state. A map is its list of entries with distinct
  keys: \<open>map[k] = v\<close> is \<open>AList.update\<close>, \<open>erase\<close> is \<open>AList.delete\<close>, and an iteration visits
  the entries in list order. The container and the factory are insert-if-absent stores, and both
  interpret \<open>keyed_store\<close>.
\<close>

subsection \<open>basic_safe_container\<close>

record ('k, 'v) safe_container =
  cont :: "('k \<times> 'v) list"

definition container_find_unsafe :: "('k, 'v) safe_container \<Rightarrow> 'k \<Rightarrow> 'v option" where
  "container_find_unsafe object_ref what = map_of (cont object_ref) what"

text \<open>The callback gets an iterator and may change the item behind it.\<close>

definition container_safe_find ::
  "('k, 'v) safe_container \<Rightarrow> 'k \<Rightarrow> ('v \<Rightarrow> 'v) \<Rightarrow> bool \<times> ('k, 'v) safe_container" where
  "container_safe_find object_ref what callback =
     (case container_find_unsafe object_ref what of
        Some item \<Rightarrow> (True, object_ref\<lparr>cont := AList.update what (callback item) (cont object_ref)\<rparr>)
      | None \<Rightarrow> (False, object_ref))"

definition container_safe_insert ::
  "('k, 'v) safe_container \<Rightarrow> 'k \<Rightarrow> 'v \<Rightarrow> bool \<times> ('k, 'v) safe_container" where
  "container_safe_insert object_ref where_key val =
     (case container_find_unsafe object_ref where_key of
        None \<Rightarrow> (True, object_ref\<lparr>cont := AList.update where_key val (cont object_ref)\<rparr>)
      | Some _ \<Rightarrow> (False, object_ref))"

definition container_safe_remove ::
  "('k, 'v) safe_container \<Rightarrow> 'k \<Rightarrow> ('k, 'v) safe_container" where
  "container_safe_remove object_ref what =
     (case container_find_unsafe object_ref what of
        Some _ \<Rightarrow> object_ref\<lparr>cont := AList.delete what (cont object_ref)\<rparr>
      | None \<Rightarrow> object_ref)"

text \<open>\<open>std::for_each\<close> with a callback that threads a state of its own and may change the items.\<close>

fun for_each_entry :: "('k \<Rightarrow> 'v \<Rightarrow> 's \<Rightarrow> 'v \<times> 's) \<Rightarrow> ('k \<times> 'v) list \<Rightarrow> 's \<Rightarrow> ('k \<times> 'v) list \<times> 's" where
  "for_each_entry callback [] s = ([], s)"
| "for_each_entry callback ((k, v) # es) s =
     (let (v', s') = callback k v s; (es', s'') = for_each_entry callback es s' in ((k, v') # es', s''))"

definition container_safe_for_each ::
  "('k, 'v) safe_container \<Rightarrow> ('k \<Rightarrow> 'v \<Rightarrow> 's \<Rightarrow> 'v \<times> 's) \<Rightarrow> 's \<Rightarrow> ('k, 'v) safe_container \<times> 's" where
  "container_safe_for_each object_ref callback s =
     (let (es, s') = for_each_entry callback (cont object_ref) s in (object_ref\<lparr>cont := es\<rparr>, s'))"

definition container_put :: "('k, 'v) safe_container \<Rightarrow> 'k \<Rightarrow> 'v \<Rightarrow> ('k, 'v) safe_container" where
  "container_put c k v = snd (container_safe_insert c k v)"

lemma map_of_delete_fun: "map_of (AList.delete k al) = (map_of al)(k := None)"
  by (simp add: delete_conv')

lemma map_of_update_fun: "map_of (AList.update k v al) = (map_of al)(k \<mapsto> v)"
  by (simp add: update_conv')

lemma update_append: "map_of al k = None \<Longrightarrow> AList.update k v al = al @ [(k, v)]"
  by (induction al) (auto split: if_splits)

interpretation safe_cont: keyed_store container_find_unsafe container_put container_safe_remove
  by unfold_locales
    (auto simp: container_find_unsafe_def container_put_def container_safe_insert_def
      container_safe_remove_def map_of_update_fun map_of_delete_fun fun_upd_idem_iff split: option.split)

text \<open>What the two flags say, and that keys stay distinct.\<close>

definition container_inv :: "('k, 'v) safe_container \<Rightarrow> bool" where
  "container_inv c \<longleftrightarrow> distinct (map fst (cont c))"

lemma container_inv_insert: "container_inv c \<Longrightarrow> container_inv (snd (container_safe_insert c k v))"
  by (auto simp: container_inv_def container_safe_insert_def distinct_update split: option.split)

lemma container_inv_remove: "container_inv c \<Longrightarrow> container_inv (container_safe_remove c k)"
  by (auto simp: container_inv_def container_safe_remove_def distinct_delete split: option.split)

lemma container_inv_find: "container_inv c \<Longrightarrow> container_inv (snd (container_safe_find c k f))"
  by (auto simp: container_inv_def container_safe_find_def distinct_update split: option.split)

lemma for_each_entry_keys: "map fst (fst (for_each_entry f es s)) = map fst es"
  by (induction f es s rule: for_each_entry.induct) (auto split: prod.split)

lemma container_inv_for_each: "container_inv c \<Longrightarrow> container_inv (fst (container_safe_for_each c f s))"
  using for_each_entry_keys [of f "cont c" s]
  by (auto simp: container_inv_def container_safe_for_each_def split: prod.split)

definition container_step :: "('k, 'v) safe_container \<Rightarrow> ('k, 'v) kv_op \<Rightarrow> ('k, 'v) safe_container" where
  "container_step c op =
     (case op of Put k v \<Rightarrow> snd (container_safe_insert c k v) | Del k \<Rightarrow> container_safe_remove c k)"

lemma container_step_store: "container_step = safe_cont.store_step"
proof (intro ext)
  fix c :: "('k, 'v) safe_container" and op
  show "container_step c op = safe_cont.store_step c op"
    by (cases op) (simp_all add: container_step_def container_put_def)
qed

lemma container_inv_steps: "container_inv c \<Longrightarrow> container_inv (foldl container_step c ops)"
proof (induction ops arbitrary: c)
  case (Cons op ops)
  have "container_inv (container_step c op)"
    using Cons.prems by (cases op)
      (simp_all add: container_step_def container_inv_insert container_inv_remove)
  with Cons.IH show ?case by simp
qed simp

text \<open>Any sequence of inserts and removals on a safe container acts on its contents as the
  insert-if-absent map specification, and keeps the keys distinct.\<close>

theorem safe_container_refines_map:
  assumes "container_inv c"
  shows "container_find_unsafe (foldl container_step c ops) =
       foldl kv_step (container_find_unsafe c) ops \<and>
     container_inv (foldl container_step c ops)"
  using assms by (simp add: container_step_store safe_cont.store_refines_map
      container_inv_steps [unfolded container_step_store])

theorem safe_container_refines_map_witness:
  "container_find_unsafe (foldl container_step \<lparr>cont = []\<rparr> [Put ''a'' (1::nat), Put ''a'' 2]) ''a'' = Some 1"
  using safe_container_refines_map [of "\<lparr>cont = []\<rparr>" "[Put ''a'' (1::nat), Put ''a'' 2]"]
  by (simp add: container_inv_def container_find_unsafe_def)

subsection \<open>factory\<close>

text \<open>
  \<open>reg<Derived>\<close> constructs the object once, when the name is new; \<open>get\<close> hands out that same
  object (a pointer), or a null pointer.
\<close>

record 'obj obj_factory =
  factories :: "(string \<times> 'obj) list"

definition factory_reg :: "'obj obj_factory \<Rightarrow> string \<Rightarrow> 'obj \<Rightarrow> 'obj obj_factory" where
  "factory_reg f name new_object =
     (case map_of (factories f) name of
        None \<Rightarrow> f\<lparr>factories := AList.update name new_object (factories f)\<rparr>
      | Some _ \<Rightarrow> f)"

definition factory_unreg :: "'obj obj_factory \<Rightarrow> string \<Rightarrow> 'obj obj_factory" where
  "factory_unreg f name =
     (case map_of (factories f) name of
        Some _ \<Rightarrow> f\<lparr>factories := AList.delete name (factories f)\<rparr>
      | None \<Rightarrow> f)"

definition factory_get :: "'obj obj_factory \<Rightarrow> string \<Rightarrow> 'obj option" where
  "factory_get f name = map_of (factories f) name"

definition factory_for_each :: "'obj obj_factory \<Rightarrow> ('obj \<Rightarrow> 's \<Rightarrow> 's) \<Rightarrow> 's \<Rightarrow> 's" where
  "factory_for_each f func s = fold (\<lambda>e. func (snd e)) (factories f) s"

interpretation fact: keyed_store factory_get factory_reg factory_unreg
  by unfold_locales
    (auto simp: factory_get_def factory_reg_def factory_unreg_def map_of_update_fun map_of_delete_fun
      fun_upd_idem_iff split: option.split)

subsection \<open>handles_manager\<close>

record 'h handles_manager =
  handles_map :: "(nat \<times> 'h) list"

definition registr_new_handle :: "'h handles_manager \<Rightarrow> 'h \<Rightarrow> nat \<times> 'h handles_manager" where
  "registr_new_handle m handle =
     (let new_id = length (handles_map m) + 1
      in (new_id, m\<lparr>handles_map := AList.update new_id handle (handles_map m)\<rparr>))"

definition unregistr_handle :: "'h handles_manager \<Rightarrow> nat \<Rightarrow> 'h option \<times> 'h handles_manager" where
  "unregistr_handle m handle_id =
     (case map_of (handles_map m) handle_id of
        Some handle \<Rightarrow> (Some handle, m\<lparr>handles_map := AList.delete handle_id (handles_map m)\<rparr>)
      | None \<Rightarrow> (None, m))"

definition get_handle :: "'h handles_manager \<Rightarrow> nat \<Rightarrow> 'h option" where
  "get_handle m handle_id = map_of (handles_map m) handle_id"

definition handles_inv :: "'h handles_manager \<Rightarrow> bool" where
  "handles_inv m \<longleftrightarrow> distinct (map fst (handles_map m)) \<and> 0 \<notin> fst ` set (handles_map m)"

definition live_handles :: "'h handles_manager \<Rightarrow> nat set" where
  "live_handles m = fst ` set (handles_map m)"

lemma handles_inv_registr: "handles_inv m \<Longrightarrow> handles_inv (snd (registr_new_handle m h))"
  by (auto simp: handles_inv_def registr_new_handle_def Let_def distinct_update update_conv'
      dom_update dom_map_of_conv_image_fst [symmetric])

lemma handles_inv_unregistr: "handles_inv m \<Longrightarrow> handles_inv (snd (unregistr_handle m i))"
  by (auto simp: handles_inv_def unregistr_handle_def distinct_delete
      delete_conv' dom_map_of_conv_image_fst [symmetric] split: option.split)

lemma get_registr:
  "get_handle (snd (registr_new_handle m h)) = (get_handle m)(fst (registr_new_handle m h) \<mapsto> h)"
  by (auto simp: get_handle_def registr_new_handle_def Let_def map_of_update_fun)

lemma get_unregistr: "get_handle (snd (unregistr_handle m i)) = (get_handle m)(i := None)"
  by (auto simp: get_handle_def unregistr_handle_def map_of_delete_fun fun_upd_idem_iff split: option.split)

lemma live_get: "i \<in> live_handles m \<longleftrightarrow> get_handle m i \<noteq> None"
  by (simp add: live_handles_def get_handle_def dom_map_of_conv_image_fst [symmetric] domIff)

lemma card_live: "handles_inv m \<Longrightarrow> card (live_handles m) = length (handles_map m)"
  unfolding handles_inv_def live_handles_def
  by (metis distinct_card length_map set_map)

text \<open>Handles that are closed in the reverse order of opening stay an initial segment.\<close>

definition handles_dense :: "'h handles_manager \<Rightarrow> bool" where
  "handles_dense m \<longleftrightarrow> live_handles m = {1..length (handles_map m)}"

text \<open>While the live handles are an initial segment, a registration returns a handle that was not
  live, finds its object under it, leaves the others alone, and keeps the segment.\<close>

theorem registr_fresh_when_dense:
  assumes "handles_inv m" and "handles_dense m"
  shows "get_handle m (fst (registr_new_handle m h)) = None \<and>
     get_handle (snd (registr_new_handle m h)) = (get_handle m)(fst (registr_new_handle m h) \<mapsto> h) \<and>
     handles_dense (snd (registr_new_handle m h))"
proof (intro conjI)
  let ?n = "length (handles_map m)"
  let ?m = "snd (registr_new_handle m h)"
  have id: "fst (registr_new_handle m h) = Suc ?n" by (simp add: registr_new_handle_def Let_def)
  have new: "Suc ?n \<notin> live_handles m" using assms(2) by (simp add: handles_dense_def)
  then show "get_handle m (fst (registr_new_handle m h)) = None" by (simp add: live_get id)
  show "get_handle ?m = (get_handle m)(fst (registr_new_handle m h) \<mapsto> h)" by (rule get_registr)
  have "live_handles ?m = insert (Suc ?n) (live_handles m)"
    by (auto simp: live_get get_registr id split: if_splits)
  moreover from this have "length (handles_map ?m) = Suc ?n"
    using card_live [OF handles_inv_registr [OF assms(1)], of h] card_live [OF assms(1)] new
    by (simp add: live_handles_def)
  ultimately show "handles_dense ?m"
    using assms(2) by (auto simp: handles_dense_def)
qed

theorem registr_fresh_when_dense_witness:
  "get_handle \<lparr>handles_map = [(1, ''a'')]\<rparr> (fst (registr_new_handle \<lparr>handles_map = [(1, ''a'')]\<rparr> ''b'')) = None"
  using registr_fresh_when_dense [of "\<lparr>handles_map = [(1, ''a'')]\<rparr>" "''b''"]
  by (simp add: handles_inv_def handles_dense_def live_handles_def)

text \<open>Closing a handle that is not the newest makes the next registration reuse the newest live
  handle's number: that handle's object is replaced by the new one.\<close>

theorem registr_overwrites_after_gap:
  assumes "handles_inv m" and "handles_dense m"
    and "1 \<le> k" and "k < length (handles_map m)"
  shows "\<exists>old. get_handle (snd (unregistr_handle m k)) (length (handles_map m)) = Some old \<and>
     fst (registr_new_handle (snd (unregistr_handle m k)) h) = length (handles_map m) \<and>
     get_handle (snd (registr_new_handle (snd (unregistr_handle m k)) h)) (length (handles_map m)) = Some h"
proof -
  let ?n = "length (handles_map m)" and ?m = "snd (unregistr_handle m k)"
  have live: "k \<in> live_handles m" "?n \<in> live_handles m" using assms by (auto simp: handles_dense_def)
  then obtain old where old: "get_handle m ?n = Some old" by (auto simp: live_get)
  have "live_handles ?m = live_handles m - {k}"
    by (auto simp: live_get get_unregistr split: if_splits)
  then have "length (handles_map ?m) = ?n - 1"
    using card_live [OF handles_inv_unregistr [OF assms(1)], of k] card_live [OF assms(1)] live(1)
    by (simp add: live_handles_def)
  then have id: "fst (registr_new_handle ?m h) = ?n"
    using assms(3,4) by (simp add: registr_new_handle_def Let_def)
  show ?thesis
    using old id assms(4) by (simp add: get_registr get_unregistr)
qed

theorem registr_overwrites_after_gap_witness:
  "fst (registr_new_handle (snd (unregistr_handle \<lparr>handles_map = [(1, ''a''), (2, ''b'')]\<rparr> 1)) ''c'') = 2"
proof -
  let ?m = "\<lparr>handles_map = [(1, ''a''), (2, ''b'')]\<rparr> :: string handles_manager"
  have "handles_dense ?m" by (auto simp: handles_dense_def live_handles_def)
  moreover have "handles_inv ?m" by (simp add: handles_inv_def)
  ultimately show ?thesis
    using registr_overwrites_after_gap [of ?m 1 "''c''"] by (simp add: numeral_2_eq_2)
qed

end
