(* ===== verification/Services.thy ===== *)
theory Services
  imports T2H_Prelude "HOL-Library.AList"
begin

section \<open>Services and the services manager\<close>

text \<open>
  \<open>src/src/common/base_service.{hpp,cpp}\<close> and \<open>services_manager.{hpp,cpp}\<close>. A service state is
  the value of the enumerator. The virtual interface of \<open>base_service\<close> is the record
  \<open>base_service\<close> of its operations; \<open>svc_wait\<close> is \<open>None\<close> when the caller blocks until some other
  thread acts. The locale \<open>service\<close> is what the manager relies on; the HTTP server core, the
  torrent core and their sum in the external API interpret it.
\<close>

type_synonym service_state = int

definition service_running :: service_state where "service_running = 1"
definition service_stoped :: service_state where "service_stoped = 2"
definition service_error :: service_state where "service_error = 3"
definition service_state_unknown :: service_state where "service_state_unknown = service_stoped + 1"

lemmas service_state_defs =
  service_running_def service_stoped_def service_error_def service_state_unknown_def

lemma states_distinct [simp]:
  "service_stoped \<noteq> service_running" "service_error \<noteq> service_running"
  "service_state_unknown \<noteq> service_running" "service_running \<noteq> service_stoped"
  by (simp_all add: service_state_defs)

lemma error_state_is_unknown: "service_error = service_state_unknown"
  by (simp add: service_state_defs)

record 's base_service =
  service_name :: "'s \<Rightarrow> string"
  launch_service :: "'s \<Rightarrow> bool \<times> 's"
  stop_service :: "'s \<Rightarrow> 's"
  wait_service :: "'s \<Rightarrow> 's option"
  get_state :: "'s \<Rightarrow> service_state"

record 's services_manager =
  services :: "(string \<times> 's) list"

definition registrate :: "'s base_service \<Rightarrow> 's services_manager \<Rightarrow> 's option \<Rightarrow> bool \<times> 's services_manager" where
  "registrate ops m service =
     (case service of
        Some s \<Rightarrow>
          (True,
           if map_of (services m) (service_name ops s) = None
           then m\<lparr>services := AList.update (service_name ops s) s (services m)\<rparr> else m)
      | None \<Rightarrow> (False, m))"

definition unregistrate :: "'s services_manager \<Rightarrow> string \<Rightarrow> 's option \<times> 's services_manager" where
  "unregistrate m name =
     (case map_of (services m) name of
        Some s \<Rightarrow> (Some s, m\<lparr>services := AList.delete name (services m)\<rparr>)
      | None \<Rightarrow> (None, m))"

definition get_service :: "'s services_manager \<Rightarrow> string \<Rightarrow> 's option" where
  "get_service m name = map_of (services m) name"

definition get_service_state :: "'s base_service \<Rightarrow> 's services_manager \<Rightarrow> string \<Rightarrow> service_state" where
  "get_service_state ops m name =
     (case map_of (services m) name of Some s \<Rightarrow> get_state ops s | None \<Rightarrow> service_state_unknown)"

text \<open>
  The loops of \<open>stop_all\<close> and \<open>wait_all\<close>; they return the service objects as the loop leaves
  them (they are shared: the manager drops its pointers, other owners keep theirs).
\<close>

fun stop_services :: "'s base_service \<Rightarrow> (string \<times> 's) list \<Rightarrow> (string \<times> 's) list option" where
  "stop_services ops [] = Some []"
| "stop_services ops ((name, s) # rest) =
     (case (if get_state ops s = service_running then wait_service ops (stop_service ops s) else Some s) of
        None \<Rightarrow> None
      | Some s' \<Rightarrow> map_option (Cons (name, s')) (stop_services ops rest))"

definition stop_all :: "'s base_service \<Rightarrow> 's services_manager \<Rightarrow> ('s services_manager \<times> (string \<times> 's) list) option" where
  "stop_all ops m = map_option (\<lambda>stopped. (m\<lparr>services := []\<rparr>, stopped)) (stop_services ops (services m))"

fun wait_services :: "'s base_service \<Rightarrow> (string \<times> 's) list \<Rightarrow> (string \<times> 's) list option" where
  "wait_services ops [] = Some []"
| "wait_services ops ((name, s) # rest) =
     (case (if get_state ops s = service_running then wait_service ops s else Some s) of
        None \<Rightarrow> None
      | Some s' \<Rightarrow> map_option (Cons (name, s')) (wait_services ops rest))"

definition wait_all :: "'s base_service \<Rightarrow> 's services_manager \<Rightarrow> 's services_manager option" where
  "wait_all ops m = map_option (\<lambda>ss. m\<lparr>services := ss\<rparr>) (wait_services ops (services m))"

subsection \<open>The registry\<close>

lemma registrate_get:
  "get_service (snd (registrate ops m (Some s))) =
     (case get_service m (service_name ops s) of
        None \<Rightarrow> (get_service m)(service_name ops s \<mapsto> s)
      | Some _ \<Rightarrow> get_service m)"
  by (auto simp: get_service_def registrate_def update_conv' split: option.split)

lemma unregistrate_get: "get_service (snd (unregistrate m name)) = (get_service m)(name := None)"
  by (auto simp: get_service_def unregistrate_def delete_conv' fun_upd_idem_iff split: option.split)

text \<open>Registering a service under a taken name reports success but drops it: the first one stays;
  under a free name it can be found, and unregistering hands it back and frees the name.\<close>

theorem registrate_keeps_first:
  "fst (registrate ops m (Some s)) \<and>
   get_service (snd (registrate ops m (Some s))) (service_name ops s) =
     (case get_service m (service_name ops s) of None \<Rightarrow> Some s | Some s0 \<Rightarrow> Some s0) \<and>
   fst (unregistrate m name) = get_service m name \<and>
   get_service (snd (unregistrate m name)) name = None"
  by (auto simp: registrate_get unregistrate_get registrate_def unregistrate_def get_service_def
      update_conv' delete_conv' split: option.split)

subsection \<open>What a service promises\<close>

locale service =
  fixes ops :: "'s base_service"
  assumes name_stop: "service_name ops (stop_service ops s) = service_name ops s"
    and stop_not_running: "get_state ops (stop_service ops s) \<noteq> service_running"
    and stop_idle: "get_state ops s \<noteq> service_running \<Longrightarrow> stop_service ops s = s"
    and wait_idle: "get_state ops s \<noteq> service_running \<Longrightarrow> wait_service ops s = Some s"
    and launch_once: "get_state ops s = service_running \<Longrightarrow> launch_service ops s = (False, s)"
    and launch_true: "launch_service ops s = (True, s') \<Longrightarrow> get_state ops s' = service_running"
begin

lemma stop_idem: "stop_service ops (stop_service ops s) = stop_service ops s"
  by (simp add: stop_idle stop_not_running)

lemma stop_services_stops:
  "stop_services ops ss = Some (map (\<lambda>(n, s). (n, stop_service ops s)) ss)"
  by (induction ss) (auto simp: wait_idle stop_not_running stop_idle)

lemma stop_all_stops:
  "\<exists>stopped. stop_all ops m = Some (m\<lparr>services := []\<rparr>, stopped) \<and>
     map fst stopped = map fst (services m) \<and>
     (\<forall>s \<in> snd ` set stopped. get_state ops s \<noteq> service_running)"
  by (auto simp: stop_all_def stop_services_stops stop_not_running)

lemma wait_all_idle:
  assumes "\<forall>s \<in> snd ` set (services m). get_state ops s \<noteq> service_running"
  shows "wait_all ops m = Some m"
proof -
  have "wait_services ops ss = Some ss" if "\<forall>s \<in> snd ` set ss. get_state ops s \<noteq> service_running" for ss
    using that by (induction ss) auto
  with assms show ?thesis by (simp add: wait_all_def)
qed

lemma stop_after_launch:
  assumes "launch_service ops s = (True, s')"
  shows "launch_service ops s' = (False, s') \<and> get_state ops (stop_service ops s') \<noteq> service_running"
  using assms by (simp add: launch_once launch_true stop_not_running)

end

subsection \<open>A manager of two kinds of services\<close>

text \<open>The manager of the program holds torrent cores and HTTP servers behind one interface.\<close>

definition sum_service :: "'s base_service \<Rightarrow> 't base_service \<Rightarrow> ('s + 't) base_service" where
  "sum_service l r =
     \<lparr>service_name = case_sum (service_name l) (service_name r),
      launch_service = case_sum (\<lambda>s. case launch_service l s of (ok, s') \<Rightarrow> (ok, Inl s'))
                                (\<lambda>t. case launch_service r t of (ok, t') \<Rightarrow> (ok, Inr t')),
      stop_service = map_sum (stop_service l) (stop_service r),
      wait_service = case_sum (\<lambda>s. map_option Inl (wait_service l s)) (\<lambda>t. map_option Inr (wait_service r t)),
      get_state = case_sum (get_state l) (get_state r)\<rparr>"

locale two_services =
  left: service opsl + right: service opsr
  for opsl :: "'s base_service" and opsr :: "'t base_service"

sublocale two_services \<subseteq> both: service "sum_service opsl opsr"
proof unfold_locales
  fix s s'
  show "service_name (sum_service opsl opsr) (stop_service (sum_service opsl opsr) s) =
      service_name (sum_service opsl opsr) s"
    by (cases s) (simp_all add: sum_service_def left.name_stop right.name_stop)
  show "get_state (sum_service opsl opsr) (stop_service (sum_service opsl opsr) s) \<noteq> service_running"
    by (cases s) (simp_all add: sum_service_def left.stop_not_running right.stop_not_running)
  show "get_state (sum_service opsl opsr) s \<noteq> service_running \<Longrightarrow>
      stop_service (sum_service opsl opsr) s = s"
    by (cases s) (simp_all add: sum_service_def left.stop_idle right.stop_idle)
  show "get_state (sum_service opsl opsr) s \<noteq> service_running \<Longrightarrow>
      wait_service (sum_service opsl opsr) s = Some s"
    by (cases s) (simp_all add: sum_service_def left.wait_idle right.wait_idle)
  show "get_state (sum_service opsl opsr) s = service_running \<Longrightarrow>
      launch_service (sum_service opsl opsr) s = (False, s)"
    by (cases s) (simp_all add: sum_service_def left.launch_once right.launch_once)
  show "launch_service (sum_service opsl opsr) s = (True, s') \<Longrightarrow>
      get_state (sum_service opsl opsr) s' = service_running"
    by (cases s) (auto simp: sum_service_def left.launch_true right.launch_true split: prod.splits)
qed

end
