(* ===== verification/Settings.thy ===== *)
theory Settings
  imports Containers Misc_Utility
begin

section \<open>The setting manager\<close>

text \<open>
  \<open>src/src/core/common/setting_manager.{hpp,cpp}\<close>. The key storage is the factory of
  \<open>Containers\<close> (\<open>None\<close> is the null pointer before the first configuration). The JSON reader is
  a parameter: it gives the message of a \<open>json_parser_error\<close> or a property tree, and a tree is
  what \<open>get<std::string>\<close> does for each name. A lookup that follows replacement names may loop,
  so it is a partial function; that it always returns is a theorem.
\<close>

record base_key =
  key_name :: string
  key_val :: string
  key_replacement_name :: string
  default_val :: string
  key_req :: bool

definition key_type_of :: "string \<Rightarrow> string \<Rightarrow> string \<Rightarrow> bool \<Rightarrow> base_key" where
  "key_type_of x y r s =
     \<lparr>key_name = x, key_val = [], key_replacement_name = r, default_val = y, key_req = s\<rparr>"

definition key_types :: "base_key list" where
  "key_types =
     [key_type_of ''workers'' ''20'' [] False,
      key_type_of ''doc_root'' [] [] True,
      key_type_of ''server_addr'' [] [] True,
      key_type_of ''server_port'' ''8080'' [] False,
      key_type_of ''tc_port_start'' [] [] True,
      key_type_of ''tc_port_end'' [] [] True,
      key_type_of ''cores_sync_timeout'' ''360'' [] False,
      key_type_of ''hc_chunked'' ''true'' [] False,
      key_type_of ''hc_max_chunk_size'' ''1024000'' [] False,
      key_type_of ''tc_max_alert_wait_time'' ''15'' [] False,
      key_type_of ''tc_max_partial_download_size'' ''22242880'' [] False,
      key_type_of ''tc_root'' [] ''doc_root'' False,
      key_type_of ''tc_futures_timeout'' ''10'' [] False,
      key_type_of ''tc_partial_files_download'' ''true'' [] False,
      key_type_of ''tc_max_connections_per_torrent'' ''50'' [] False,
      key_type_of ''tc_max_uploads'' ''-1'' [] False,
      key_type_of ''tc_upload_limit'' ''0'' [] False,
      key_type_of ''tc_download_limit'' ''0'' [] False,
      key_type_of ''tc_sequential_download'' ''true'' [] False,
      key_type_of ''tc_resolve_countries'' ''true'' [] False,
      key_type_of ''tc_resolve_checkout'' ''6'' [] False,
      key_type_of ''tc_auto_error_resolving'' ''true'' [] False,
      key_type_of ''tc_loadable_session'' ''true'' [] False]"

text \<open>\<open>parser.get<std::string>(name)\<close>: the text, or one of the exceptions \<open>set_key\<close> tells apart.\<close>

datatype ptree_result = Ptree_text string | Ptree_json_error string | Ptree_exception

type_synonym ptree = "string \<Rightarrow> ptree_result"

definition set_key :: "ptree \<Rightarrow> base_key \<Rightarrow> (string, base_key) sum" where
  "set_key parser key =
     (case parser (key_name key) of
        Ptree_text t \<Rightarrow> Inr (key\<lparr>key_val := t\<rparr>)
      | Ptree_json_error e \<Rightarrow>
          if key_req key \<and> default_val key = [] then Inl e else Inr (key\<lparr>key_val := []\<rparr>)
      | Ptree_exception \<Rightarrow> Inr (key\<lparr>key_val := []\<rparr>))"

text \<open>The \<open>for_each\<close> over the stored keys stops at the first exception; earlier keys stay set.\<close>

fun set_keys :: "ptree \<Rightarrow> (string \<times> base_key) list \<Rightarrow> (string \<times> base_key) list \<times> string option" where
  "set_keys parser [] = ([], None)"
| "set_keys parser ((n, key) # keys) =
     (case set_key parser key of
        Inl e \<Rightarrow> ((n, key) # keys, Some e)
      | Inr key' \<Rightarrow> let (keys', e) = set_keys parser keys in ((n, key') # keys', e))"

record setting_manager =
  key_storage :: "base_key obj_factory option"
  last_error :: string

definition new_setting_manager :: setting_manager where
  "new_setting_manager = \<lparr>key_storage = None, last_error = []\<rparr>"

definition registered_names :: "string list" where
  "registered_names =
     [''workers'', ''doc_root'', ''server_addr'', ''server_port'', ''cores_sync_timeout'',
      ''hc_max_chunk_size'', ''hc_chunked'', ''tc_port_start'', ''tc_port_end'',
      ''tc_max_alert_wait_time'', ''tc_max_partial_download_size'', ''tc_root'',
      ''tc_futures_timeout'', ''tc_partial_files_download'', ''tc_max_connections_per_torrent'',
      ''tc_max_uploads'', ''tc_upload_limit'', ''tc_download_limit'', ''tc_sequential_download'',
      ''tc_resolve_countries'', ''tc_resolve_checkout'', ''tc_auto_error_resolving'',
      ''tc_loadable_session'']"

definition key_struct :: "string \<Rightarrow> base_key" where
  "key_struct x = hd (filter (\<lambda>k. key_name k = x) key_types)"

definition init_keys_storage :: "base_key obj_factory" where
  "init_keys_storage =
     foldl (\<lambda>f x. factory_reg f x (key_struct x)) \<lparr>factories = []\<rparr> registered_names"

definition reset_configurations :: "setting_manager \<Rightarrow> setting_manager" where
  "reset_configurations m = m\<lparr>key_storage := Some init_keys_storage\<rparr>"

type_synonym json_reader = "string \<Rightarrow> (string, ptree) sum"

definition fill_config :: "json_reader \<Rightarrow> setting_manager \<Rightarrow> string \<Rightarrow> setting_manager cpp" where
  "fill_config read_json m json_stream =
     (case read_json json_stream of
        Inl e \<Rightarrow> Ret (m\<lparr>last_error := e\<rparr>)
      | Inr parser \<Rightarrow>
          (case key_storage m of
             None \<Rightarrow> Undef
           | Some f \<Rightarrow>
               let (keys, thrown) = set_keys parser (factories f);
                   m' = m\<lparr>key_storage := Some (f\<lparr>factories := keys\<rparr>)\<rparr>
               in (case thrown of None \<Rightarrow> Ret m' | Some e \<Rightarrow> Ret (m'\<lparr>last_error := e\<rparr>))))"

definition load_config ::
  "json_reader \<Rightarrow> (string \<Rightarrow> string option) \<Rightarrow> setting_manager \<Rightarrow> string \<Rightarrow> setting_manager cpp" where
  "load_config read_json file_text m conf_path =
     (let m1 = (reset_configurations m)\<lparr>last_error := []\<rparr>
      in case file_text conf_path of
           None \<Rightarrow> Ret (m1\<lparr>last_error := ''File at path '' @ [CHR 0x27] @ conf_path @ [CHR 0x27] @ '' not exist''\<rparr>)
         | Some txt \<Rightarrow> fill_config read_json m1 txt)"

definition init_config :: "json_reader \<Rightarrow> setting_manager \<Rightarrow> string \<Rightarrow> setting_manager cpp" where
  "init_config read_json m json =
     (let m1 = (reset_configurations m)\<lparr>last_error := []\<rparr>
      in if json = [] then Ret (m1\<lparr>last_error := ''bad json passed''\<rparr>)
         else fill_config read_json m1 json)"

definition get_last_error :: "setting_manager \<Rightarrow> string" where
  "get_last_error m = last_error m"

definition config_is_well :: "setting_manager \<Rightarrow> bool" where
  "config_is_well m \<longleftrightarrow> last_error m = []"

definition panic_if_default_not_exists :: "base_key \<Rightarrow> string cpp" where
  "panic_if_default_not_exists key =
     (if default_val key = []
      then Throw (Setting_manager_exception (''no default value for the key : '' @ key_name key))
      else Ret (default_val key))"

text \<open>The text that is then cast to the requested type; \<open>None\<close> is a lookup that never returns.\<close>

partial_function (option) get_value_unsafe :: "setting_manager \<Rightarrow> string \<Rightarrow> string cpp option" where
  "get_value_unsafe m name =
     (case key_storage m of
        None \<Rightarrow> Some (Throw (Setting_manager_exception ''setting manager was not init well''))
      | Some f \<Rightarrow>
          (case factory_get f name of
             None \<Rightarrow> Some (Throw (Setting_manager_exception (''Could not find a key'' @ name)))
           | Some key \<Rightarrow>
               if key_val key \<noteq> [] then Some (Ret (key_val key))
               else if key_replacement_name key \<noteq> [] then get_value_unsafe m (key_replacement_name key)
               else Some (panic_if_default_not_exists key)))"

definition get_setting :: "setting_manager \<Rightarrow> (string \<Rightarrow> 'a option) \<Rightarrow> 'a \<Rightarrow> string \<Rightarrow> 'a cpp option" where
  "get_setting m cast junk name =
     map_option (\<lambda>t. cbind t (\<lambda>s. Ret (safe_lexical_cast cast junk s))) (get_value_unsafe m name)"

definition get_setting_bool :: "setting_manager \<Rightarrow> string \<Rightarrow> bool cpp option" where
  "get_setting_bool m name =
     map_option (\<lambda>t. cbind t (\<lambda>s. Ret (safe_lexical_cast_bool s))) (get_value_unsafe m name)"

text \<open>A lookup as the components make it; a lookup that never returned would be \<open>Undef\<close>.\<close>

definition setting_or_undef :: "'a cpp option \<Rightarrow> 'a cpp" where
  "setting_or_undef r = (case r of Some m \<Rightarrow> m | None \<Rightarrow> Undef)"

subsection \<open>The key table\<close>

definition table_key :: "string \<Rightarrow> base_key option" where
  "table_key x = (if x \<in> set registered_names then Some (key_struct x) else None)"

lemma distinct_registered: "distinct registered_names"
  by (simp add: registered_names_def)

lemma reg_fold:
  "distinct xs \<Longrightarrow> set xs \<inter> fst ` set es = {} \<Longrightarrow>
   foldl (\<lambda>f x. factory_reg f x (k x)) \<lparr>factories = es\<rparr> xs = \<lparr>factories = es @ map (\<lambda>x. (x, k x)) xs\<rparr>"
proof (induction xs arbitrary: es)
  case Nil
  then show ?case by simp
next
  case (Cons x xs)
  then have new: "x \<notin> fst ` set es" by auto
  then have "map_of es x = None" by (simp add: map_of_eq_None_iff)
  then have "factory_reg \<lparr>factories = es\<rparr> x (k x) = \<lparr>factories = es @ [(x, k x)]\<rparr>"
    by (simp add: factory_reg_def update_append)
  then show ?case using Cons.IH [of "es @ [(x, k x)]"] Cons.prems by auto
qed

lemma init_keys_factories: "init_keys_storage = \<lparr>factories = map (\<lambda>x. (x, key_struct x)) registered_names\<rparr>"
  unfolding init_keys_storage_def
  by (subst reg_fold [OF distinct_registered]) simp_all

lemma key_struct_facts:
  assumes "x \<in> set registered_names"
  shows "key_name (key_struct x) = x" "key_val (key_struct x) = []"
    "key_replacement_name (key_struct x) = (if x = ''tc_root'' then ''doc_root'' else [])"
    "default_val (key_struct ''doc_root'') = []"
  using assms by (auto simp: registered_names_def key_struct_def key_types_def key_type_of_def)

subsection \<open>Every lookup returns\<close>

definition keys_inv :: "(string \<times> base_key) list \<Rightarrow> bool" where
  "keys_inv es \<longleftrightarrow>
     list_all (\<lambda>(n, k). key_replacement_name k = (if n = ''tc_root'' then ''doc_root'' else [])) es"

lemma keys_inv_get:
  "keys_inv es \<Longrightarrow> map_of es n = Some k \<Longrightarrow>
   key_replacement_name k = (if n = ''tc_root'' then ''doc_root'' else [])"
  by (drule map_of_SomeD) (auto simp: keys_inv_def list_all_iff)

lemma set_key_keeps: "set_key p k = Inr k' \<Longrightarrow> key_replacement_name k' = key_replacement_name k"
  by (auto simp: set_key_def split: ptree_result.splits if_splits)

lemma set_keys_inv: "keys_inv es \<Longrightarrow> keys_inv (fst (set_keys p es))"
  by (induction p es rule: set_keys.induct)
    (auto simp: keys_inv_def set_key_keeps split: sum.splits prod.splits)

lemma keys_inv_init: "keys_inv (factories init_keys_storage)"
  by (auto simp: keys_inv_def init_keys_factories list_all_iff key_struct_facts)

lemma get_value_returns:
  assumes "\<And>f. key_storage m = Some f \<Longrightarrow> keys_inv (factories f)"
  shows "get_value_unsafe m name \<noteq> None"
proof (cases "key_storage m")
  case None
  then show ?thesis by (subst get_value_unsafe.simps) simp
next
  case (Some f)
  note inv = assms [OF Some]
  have end_point: "get_value_unsafe m n \<noteq> None" if "n \<noteq> ''tc_root''" for n
    using Some keys_inv_get [OF inv, of n] that
    by (subst get_value_unsafe.simps) (auto simp: factory_get_def split: option.split)
  have "get_value_unsafe m ''tc_root'' \<noteq> None"
    using Some keys_inv_get [OF inv, of "''tc_root''"] end_point [of "''doc_root''"]
    by (subst get_value_unsafe.simps) (auto simp: factory_get_def split: option.split)
  then show ?thesis using end_point by (cases "name = ''tc_root''") simp_all
qed

lemma fill_config_returns:
  assumes "key_storage m = Some init_keys_storage"
  shows "\<exists>m' f. fill_config rj m s = Ret m' \<and> key_storage m' = Some f \<and> keys_inv (factories f)"
proof (cases "rj s")
  case (Inl e)
  then show ?thesis using assms keys_inv_init by (simp add: fill_config_def)
next
  case (Inr p)
  obtain keys thrown where "set_keys p (factories init_keys_storage) = (keys, thrown)" by fastforce
  moreover from this have "keys_inv keys" using set_keys_inv [OF keys_inv_init, of p] by simp
  ultimately show ?thesis using assms Inr by (simp add: fill_config_def Let_def split: option.split)
qed

lemma init_config_returns:
  "\<exists>m' f. init_config rj m json = Ret m' \<and> key_storage m' = Some f \<and> keys_inv (factories f)"
proof (cases "json = []")
  case True
  then show ?thesis using keys_inv_init by (simp add: init_config_def reset_configurations_def)
next
  case False
  then show ?thesis
    using fill_config_returns [of "(reset_configurations m)\<lparr>last_error := []\<rparr>" rj json]
    by (simp add: init_config_def reset_configurations_def Let_def)
qed

text \<open>Whatever text the manager is configured with, the configuration returns (it dereferences no
  null storage), and after it every lookup returns: the chain of replacement names ends.\<close>

theorem settings_lookup_returns:
  "\<exists>m'. init_config rj m json = Ret m' \<and> (\<forall>name. get_value_unsafe m' name \<noteq> None)"
proof -
  obtain m' f where "init_config rj m json = Ret m'" "key_storage m' = Some f" "keys_inv (factories f)"
    using init_config_returns by blast
  then show ?thesis using get_value_returns [of m'] by auto
qed

lemma load_config_returns:
  "\<exists>m'. load_config rj files m path = Ret m' \<and> (\<forall>name. get_value_unsafe m' name \<noteq> None)"
proof -
  obtain m' f where "load_config rj files m path = Ret m'" "key_storage m' = Some f" "keys_inv (factories f)"
  proof (cases "files path")
    case None
    then show ?thesis using that keys_inv_init by (simp add: load_config_def reset_configurations_def)
  next
    case (Some content)
    then show ?thesis
      using that fill_config_returns [of "(reset_configurations m)\<lparr>last_error := []\<rparr>" rj content]
      by (auto simp: load_config_def reset_configurations_def Let_def)
  qed
  then show ?thesis using get_value_returns [of m'] by auto
qed

subsection \<open>What a lookup gives\<close>

text \<open>
  The documented behaviour of a property tree used below: \<open>get\<close> on a parsed tree never throws a
  \<open>json_parser_error\<close> (a missing path is a \<open>ptree_bad_path\<close>).
\<close>

definition tree_ok :: "ptree \<Rightarrow> bool" where
  "tree_ok p \<longleftrightarrow> (\<forall>n e. p n \<noteq> Ptree_json_error e)"

definition tree_text :: "ptree \<Rightarrow> string \<Rightarrow> string" where
  "tree_text p n = (case p n of Ptree_text t \<Rightarrow> t | _ \<Rightarrow> [])"

definition filled :: "ptree \<Rightarrow> base_key \<Rightarrow> base_key" where
  "filled p k = k\<lparr>key_val := tree_text p (key_name k)\<rparr>"

definition configured :: "ptree \<Rightarrow> setting_manager" where
  "configured p =
     \<lparr>key_storage = Some \<lparr>factories = map (\<lambda>x. (x, filled p (key_struct x))) registered_names\<rparr>,
      last_error = []\<rparr>"

lemma filled_simps [simp]:
  "key_val (filled p k) = tree_text p (key_name k)" "key_name (filled p k) = key_name k"
  "key_replacement_name (filled p k) = key_replacement_name k" "default_val (filled p k) = default_val k"
  by (simp_all add: filled_def)

text \<open>The specification: the configured text, else the replacement's text, else the default.\<close>

definition settings_spec :: "ptree \<Rightarrow> string \<Rightarrow> string cpp" where
  "settings_spec p name =
     (if name \<notin> set registered_names then Throw (Setting_manager_exception (''Could not find a key'' @ name))
      else let v = tree_text p name; src = (if name = ''tc_root'' then ''doc_root'' else name)
           in if v \<noteq> [] then Ret v
              else if tree_text p src \<noteq> [] then Ret (tree_text p src)
              else if default_val (key_struct src) = []
                   then Throw (Setting_manager_exception (''no default value for the key : '' @ src))
                   else Ret (default_val (key_struct src)))"

lemma set_keys_filled:
  "tree_ok p \<Longrightarrow> set_keys p es = (map (\<lambda>(n, k). (n, filled p k)) es, None)"
  by (induction es)
    (auto simp: set_key_def filled_def tree_text_def tree_ok_def split: ptree_result.split)

lemma init_config_configured:
  assumes "json \<noteq> []" and "rj json = Inr p" and "tree_ok p"
  shows "init_config rj m json = Ret (configured p)"
  using assms
  by (simp add: init_config_def reset_configurations_def fill_config_def Let_def set_keys_filled
      init_keys_factories configured_def comp_def)

lemma configured_get:
  "factory_get \<lparr>factories = map (\<lambda>x. (x, filled p (key_struct x))) names\<rparr> n =
     (if n \<in> set names then Some (filled p (key_struct n)) else None)"
  by (induction names) (auto simp: factory_get_def)

lemma doc_root_registered: "''doc_root'' \<in> set registered_names"
  by (simp add: registered_names_def)

lemma configured_plain:
  assumes "n \<in> set registered_names" and "n \<noteq> ''tc_root''"
  shows "get_value_unsafe (configured p) n = Some (settings_spec p n)"
  using assms key_struct_facts [OF assms(1)]
  by (subst get_value_unsafe.simps)
    (simp add: configured_def configured_get settings_spec_def
      panic_if_default_not_exists_def Let_def)

lemma configured_value: "get_value_unsafe (configured p) name = Some (settings_spec p name)"
proof (cases "name \<in> set registered_names")
  case False
  then show ?thesis
    by (subst get_value_unsafe.simps) (simp add: configured_def configured_get settings_spec_def)
next
  case True
  show ?thesis
  proof (cases "name = ''tc_root''")
    case tc: True
    have "get_value_unsafe (configured p) name =
        (if tree_text p name \<noteq> [] then Some (Ret (tree_text p name))
         else get_value_unsafe (configured p) ''doc_root'')"
      using True tc key_struct_facts [OF True]
      by (subst get_value_unsafe.simps) (simp add: configured_def configured_get)
    then show ?thesis
      using True tc configured_plain [OF doc_root_registered, of p] doc_root_registered
      by (simp add: settings_spec_def Let_def)
  qed (use True configured_plain in simp)
qed

text \<open>After a configuration with a parsed tree, a lookup gives the tree's text for the name if it
  is not empty, else (for the torrent root only) that of the document root, else the default, and
  throws when there is none or the name is not a key.\<close>

theorem settings_lookup_value:
  assumes "json \<noteq> []" and "rj json = Inr p" and "tree_ok p"
  shows "\<exists>m'. init_config rj m json = Ret m' \<and> get_value_unsafe m' name = Some (settings_spec p name)"
  using configured_value [of p name] init_config_configured [of json rj p m] assms by blast

definition sample_tree :: ptree where
  "sample_tree n = (if n = ''doc_root'' then Ptree_text ''/srv'' else Ptree_exception)"

lemma sample_tree_ok: "tree_ok sample_tree"
  by (simp add: tree_ok_def sample_tree_def)

theorem settings_lookup_value_witness:
  "\<exists>m'. init_config (\<lambda>s. Inr sample_tree) new_setting_manager ''{}'' = Ret m' \<and>
     get_value_unsafe m' ''tc_root'' = Some (Ret ''/srv'')"
  using settings_lookup_value [of "''{}''" "\<lambda>s. Inr sample_tree" sample_tree new_setting_manager "''tc_root''"]
  by (simp add: sample_tree_ok settings_spec_def registered_names_def tree_text_def sample_tree_def Let_def)

text \<open>A required key without a default is not enforced: a parsed configuration that lacks the
  document root leaves the manager well configured, and its lookup throws.\<close>

theorem required_key_not_enforced:
  assumes "json \<noteq> []" and "rj json = Inr p" and "tree_ok p" and "p ''doc_root'' = Ptree_exception"
  shows "\<exists>m'. init_config rj m json = Ret m' \<and> config_is_well m' \<and>
     key_req (key_struct ''doc_root'') \<and>
     get_value_unsafe m' ''doc_root'' =
       Some (Throw (Setting_manager_exception ''no default value for the key : doc_root''))"
proof -
  have "key_req (key_struct ''doc_root'')"
    by (simp add: key_struct_def key_types_def key_type_of_def)
  moreover have "get_value_unsafe (configured p) ''doc_root'' =
      Some (Throw (Setting_manager_exception ''no default value for the key : doc_root''))"
    using assms(4) doc_root_registered configured_plain [OF doc_root_registered, of p]
      key_struct_facts(4) [OF doc_root_registered]
    by (simp add: settings_spec_def Let_def tree_text_def)
  ultimately show ?thesis
    using init_config_configured [of json rj p m] assms
    by (auto simp: config_is_well_def configured_def)
qed

theorem required_key_not_enforced_witness:
  "\<exists>m'. init_config (\<lambda>s. Inr (\<lambda>n. Ptree_exception)) new_setting_manager ''{}'' = Ret m' \<and> config_is_well m'"
  using required_key_not_enforced [of "''{}''" "\<lambda>s. Inr (\<lambda>n. Ptree_exception)" "\<lambda>n. Ptree_exception" new_setting_manager]
  by (auto simp: tree_ok_def)

end
