(* ===== verification/Notification.thy ===== *)
theory Notification
  imports Containers
begin

section \<open>The notification model\<close>

text \<open>
  \<open>src/src/common/notification_model\<close> and \<open>src/src/core/common/core_notification_center.cpp\<close>.
  A unit's worker thread is a program counter in the unit's state; one step of the thread is one
  critical section or one delivery. The client's calls run under \<open>pn_lock_\<close> and are atomic, so
  an execution is any interleaving of thread steps and calls (\<open>unit_step\<close>). \<open>delivered\<close> logs
  the receiver's \<open>on_notify\<close> calls and \<open>accepted\<close> is a history variable for the notifications
  that were queued; the receiver is assumed to return from \<open>on_notify\<close>.
\<close>

subsection \<open>Notifications and units\<close>

datatype notification_state = notif_ignore | notif_executeable | notif_done | notif_unknown

record 'p notification =
  notif_state :: notification_state
  notif_body :: 'p

record notification_unit_param =
  change_state_auto :: bool
  execute_all_notification_at_exit :: bool
  notification_check_timeout :: nat
  max_notifications :: nat
  recv_name :: string

datatype loop_pc =
  No_thread | At_check bool | At_wait | At_notify | At_copy | At_exit | At_exit_notify | Loop_done

record 'p notification_unit =
  unit_name :: string
  unit_id :: nat
  notifications :: "'p notification list"
  pending_notifications :: "'p notification list"
  stop_work :: bool
  unit_param :: notification_unit_param
  loop_at :: loop_pc
  delivered :: "'p list"
  accepted :: "'p list"

definition new_notification_unit ::
  "(string \<Rightarrow> nat) \<Rightarrow> notification_unit_param \<Rightarrow> 'p notification_unit" where
  "new_notification_unit hasher p =
     \<lparr>unit_name = recv_name p, unit_id = hasher (recv_name p), notifications = [],
      pending_notifications = [], stop_work = True, unit_param = p, loop_at = No_thread,
      delivered = [], accepted = []\<rparr>"

definition add_notification :: "'p notification_unit \<Rightarrow> 'p notification \<Rightarrow> 'p notification_unit" where
  "add_notification u n =
     (if \<not> stop_work u \<and> length (pending_notifications u) \<le> max_notifications (unit_param u)
      then u\<lparr>pending_notifications := pending_notifications u @ [n],
             accepted := accepted u @ [notif_body n]\<rparr>
      else u)"

definition execution_loop_run :: "'p notification_unit \<Rightarrow> 'p notification_unit" where
  "execution_loop_run u =
     (if stop_work u then u\<lparr>stop_work := False, loop_at := At_check False\<rparr> else u)"

text \<open>The first half of the destructor; the second half joins the thread.\<close>

definition unit_stop :: "'p notification_unit \<Rightarrow> 'p notification_unit" where
  "unit_stop u = (if loop_at u = No_thread then u else u\<lparr>stop_work := True\<rparr>)"

definition copy_pending_notifications :: "'p notification_unit \<Rightarrow> bool \<times> 'p notification_unit" where
  "copy_pending_notifications u =
     (if pending_notifications u = [] then (False, u)
      else (True, u\<lparr>notifications := notifications u @ pending_notifications u,
                   pending_notifications := []\<rparr>))"

text \<open>One iteration of \<open>notify_receiver\<close>; with \<open>change_state_auto\<close> the delivered object is then done.\<close>

definition notify_one :: "'p notification_unit \<Rightarrow> 'p notification_unit" where
  "notify_one u =
     (case notifications u of
        [] \<Rightarrow> u
      | n # rest \<Rightarrow>
          if notif_state n \<noteq> notif_ignore \<or> notif_state n \<noteq> notif_done
          then u\<lparr>notifications := rest, delivered := delivered u @ [notif_body n]\<rparr>
          else u\<lparr>notifications := rest\<rparr>)"

definition execution_loop_step :: "'p notification_unit \<Rightarrow> 'p notification_unit" where
  "execution_loop_step u =
     (case loop_at u of
        No_thread \<Rightarrow> u
      | At_check has \<Rightarrow>
          if stop_work u then u\<lparr>loop_at := At_exit\<rparr>
          else if has then u\<lparr>loop_at := At_notify\<rparr> else u\<lparr>loop_at := At_wait\<rparr>
      | At_wait \<Rightarrow> u\<lparr>loop_at := At_copy\<rparr>
      | At_notify \<Rightarrow> if notifications u = [] then u\<lparr>loop_at := At_copy\<rparr> else notify_one u
      | At_copy \<Rightarrow> (case copy_pending_notifications u of (has, u') \<Rightarrow> u'\<lparr>loop_at := At_check has\<rparr>)
      | At_exit \<Rightarrow>
          if execute_all_notification_at_exit (unit_param u)
          then (case copy_pending_notifications u of
                  (True, u') \<Rightarrow> u'\<lparr>loop_at := At_exit_notify\<rparr>
                | (False, u') \<Rightarrow> u'\<lparr>loop_at := Loop_done\<rparr>)
          else u\<lparr>loop_at := Loop_done\<rparr>
      | At_exit_notify \<Rightarrow> if notifications u = [] then u\<lparr>loop_at := Loop_done\<rparr> else notify_one u
      | Loop_done \<Rightarrow> u)"

text \<open>The destructor: stop, then run the thread to its end (\<open>join\<close>); \<open>fuel\<close> bounds the thread's steps.\<close>

fun join_loop :: "nat \<Rightarrow> 'p notification_unit \<Rightarrow> 'p notification_unit option" where
  "join_loop 0 u = (if loop_at u \<in> {No_thread, Loop_done} then Some u else None)"
| "join_loop (Suc fuel) u =
     (if loop_at u \<in> {No_thread, Loop_done} then Some u else join_loop fuel (execution_loop_step u))"

definition unit_destroy :: "nat \<Rightarrow> 'p notification_unit \<Rightarrow> 'p notification_unit option" where
  "unit_destroy fuel u = join_loop fuel (unit_stop u)"

subsection \<open>Interleavings\<close>

inductive unit_step :: "'p notification_unit \<Rightarrow> 'p notification_unit \<Rightarrow> bool" where
  thread: "unit_step u (execution_loop_step u)"
| add: "unit_step u (add_notification u n)"
| stop: "unit_step u (unit_stop u)"

inductive unit_reach :: "notification_unit_param \<Rightarrow> 'p notification_unit \<Rightarrow> bool" where
  start: "unit_reach p (execution_loop_run (new_notification_unit hasher p))"
| step: "unit_reach p u \<Longrightarrow> unit_step u u' \<Longrightarrow> unit_reach p u'"

inductive_cases unit_stepE: "unit_step u u'"

definition in_flight :: "'p notification_unit \<Rightarrow> 'p list" where
  "in_flight u = delivered u @ map notif_body (notifications u) @ map notif_body (pending_notifications u)"

definition unit_inv :: "notification_unit_param \<Rightarrow> 'p notification_unit \<Rightarrow> bool" where
  "unit_inv p u \<longleftrightarrow>
     unit_param u = p \<and> loop_at u \<noteq> No_thread \<and> in_flight u = accepted u \<and>
     length (pending_notifications u) \<le> max_notifications p + 1 \<and>
     (loop_at u \<in> {At_exit, At_exit_notify, Loop_done} \<longrightarrow> stop_work u) \<and>
     (loop_at u \<in> {At_wait, At_copy, At_check False} \<longrightarrow> notifications u = [])"

lemma always_delivered: "notif_state n \<noteq> notif_ignore \<or> notif_state n \<noteq> notif_done"
  by (cases "notif_state n") simp_all

lemma notify_one_delivers:
  "notifications u = n # rest \<Longrightarrow>
   notify_one u = u\<lparr>notifications := rest, delivered := delivered u @ [notif_body n]\<rparr>"
  using always_delivered [of n] by (simp add: notify_one_def)

lemma unit_inv_thread: "unit_inv p u \<Longrightarrow> unit_inv p (execution_loop_step u)"
  by (cases "loop_at u"; cases "notifications u")
    (auto simp: unit_inv_def in_flight_def execution_loop_step_def notify_one_delivers
      copy_pending_notifications_def split: if_splits)

lemma unit_inv_add: "unit_inv p u \<Longrightarrow> unit_inv p (add_notification u n)"
  by (auto simp: unit_inv_def in_flight_def add_notification_def)

lemma unit_inv_stop: "unit_inv p u \<Longrightarrow> unit_inv p (unit_stop u)"
  by (auto simp: unit_inv_def in_flight_def unit_stop_def)

lemma unit_inv_start: "unit_inv p (execution_loop_run (new_notification_unit hasher p))"
  by (simp add: unit_inv_def in_flight_def execution_loop_run_def new_notification_unit_def)

lemma unit_reach_inv: "unit_reach p u \<Longrightarrow> unit_inv p u"
  by (induction rule: unit_reach.induct)
    (auto simp: unit_inv_start elim!: unit_stepE intro: unit_inv_thread unit_inv_add unit_inv_stop)

text \<open>C26. In every interleaving of the worker thread with its clients, the notifications delivered so
  far, those copied for delivery and those pending are, in this order, exactly the accepted ones:
  nothing is lost, duplicated or reordered; and at most one more than the configured maximum is
  pending.\<close>

theorem unit_fifo:
  assumes "unit_reach p u"
  shows "delivered u @ map notif_body (notifications u) @ map notif_body (pending_notifications u) = accepted u \<and>
     length (pending_notifications u) \<le> max_notifications p + 1"
  using unit_reach_inv [OF assms] by (simp add: unit_inv_def in_flight_def)

lemmas loop_defs = execution_loop_step_def copy_pending_notifications_def notify_one_delivers

lemma unit_fifo_witness_state:
  "unit_reach p (add_notification (execution_loop_run (new_notification_unit hasher p)) n)"
  by (rule unit_reach.step [OF unit_reach.start unit_step.add])

theorem unit_fifo_witness:
  "accepted (add_notification (execution_loop_run (new_notification_unit (\<lambda>s. 7)
      \<lparr>change_state_auto = True, execute_all_notification_at_exit = False,
       notification_check_timeout = 3000, max_notifications = 5, recv_name = ''r''\<rparr>))
      \<lparr>notif_state = notif_executeable, notif_body = ''hello''\<rparr>) = [''hello'']"
  using unit_fifo [OF unit_fifo_witness_state
      [of "\<lparr>change_state_auto = True, execute_all_notification_at_exit = False,
       notification_check_timeout = 3000, max_notifications = 5, recv_name = ''r''\<rparr>" "\<lambda>s. 7"
       "\<lparr>notif_state = notif_executeable, notif_body = ''hello''\<rparr>"]]
  by (simp add: add_notification_def execution_loop_run_def new_notification_unit_def)

subsection \<open>Delivery and termination of the worker thread\<close>

fun pc_rank :: "loop_pc \<Rightarrow> nat" where
  "pc_rank No_thread = 0"
| "pc_rank (At_check True) = 6"
| "pc_rank At_notify = 5"
| "pc_rank (At_check False) = 4"
| "pc_rank At_wait = 3"
| "pc_rank At_copy = 2"
| "pc_rank At_exit = 1"
| "pc_rank At_exit_notify = 1"
| "pc_rank Loop_done = 0"

definition drained :: "'p notification_unit \<Rightarrow> bool" where
  "drained u \<longleftrightarrow> notifications u = [] \<and> pending_notifications u = []"

definition drain_measure :: "'p notification_unit \<Rightarrow> nat" where
  "drain_measure u = length (notifications u) + pc_rank (loop_at u)
     + (if pending_notifications u = [] then 0 else length (pending_notifications u) + 10)"

lemma drain_step:
  assumes "unit_inv p u" and "\<not> stop_work u" and "\<not> drained u"
  shows "drain_measure (execution_loop_step u) < drain_measure u \<and>
     \<not> stop_work (execution_loop_step u) \<and> accepted (execution_loop_step u) = accepted u"
proof (cases "loop_at u")
  case (At_check b)
  then show ?thesis using assms
    by (cases b) (auto simp: unit_inv_def loop_defs drain_measure_def drained_def)
next
  case At_notify
  then show ?thesis using assms
    by (cases "notifications u") (auto simp: unit_inv_def loop_defs drain_measure_def drained_def)
qed (use assms in \<open>auto simp: unit_inv_def loop_defs drain_measure_def drained_def\<close>)

lemma drains:
  assumes "unit_inv p u" and "\<not> stop_work u"
  shows "\<exists>k. drained ((execution_loop_step ^^ k) u) \<and>
     unit_inv p ((execution_loop_step ^^ k) u) \<and> accepted ((execution_loop_step ^^ k) u) = accepted u"
  using assms
proof (induction "drain_measure u" arbitrary: u rule: less_induct)
  case less
  show ?case
  proof (cases "drained u")
    case True
    then show ?thesis using less.prems by (intro exI [of _ 0]) simp
  next
    case False
    let ?u = "execution_loop_step u"
    note st = drain_step [OF less.prems False]
    obtain k where k: "drained ((execution_loop_step ^^ k) ?u)"
      "unit_inv p ((execution_loop_step ^^ k) ?u)"
      "accepted ((execution_loop_step ^^ k) ?u) = accepted ?u"
      using less.hyps [of ?u] st unit_inv_thread [OF less.prems(1)] by blast
    then show ?thesis
      using st by (intro exI [of _ "Suc k"]) (simp add: funpow_Suc_right del: funpow.simps)
  qed
qed

text \<open>C27. As long as the unit is not stopped, finitely many steps of its thread deliver everything that
  was accepted.\<close>

theorem unit_delivers_all:
  assumes "unit_reach p u" and "\<not> stop_work u"
  shows "\<exists>k. delivered ((execution_loop_step ^^ k) u) = accepted u"
proof -
  obtain k where "drained ((execution_loop_step ^^ k) u)" "unit_inv p ((execution_loop_step ^^ k) u)"
    "accepted ((execution_loop_step ^^ k) u) = accepted u"
    using drains [OF unit_reach_inv [OF assms(1)] assms(2)] by blast
  then show ?thesis by (intro exI [of _ k]) (simp add: unit_inv_def in_flight_def drained_def)
qed

theorem unit_delivers_all_witness:
  "\<exists>k. delivered ((execution_loop_step ^^ k) (execution_loop_run (new_notification_unit (\<lambda>s. 7)
      \<lparr>change_state_auto = True, execute_all_notification_at_exit = False,
       notification_check_timeout = 3000, max_notifications = 5, recv_name = ''r''\<rparr>))) = ([] :: nat list)"
  using unit_delivers_all [OF unit_reach.start, of "\<lambda>s. 7"
      "\<lparr>change_state_auto = True, execute_all_notification_at_exit = False,
       notification_check_timeout = 3000, max_notifications = 5, recv_name = ''r''\<rparr>"]
  by (simp add: execution_loop_run_def new_notification_unit_def)

text \<open>The destructor's join ends.\<close>

fun exit_rank :: "loop_pc \<Rightarrow> nat" where
  "exit_rank No_thread = 0"
| "exit_rank At_notify = 6"
| "exit_rank At_wait = 5"
| "exit_rank At_copy = 4"
| "exit_rank (At_check b) = 3"
| "exit_rank At_exit = 2"
| "exit_rank At_exit_notify = 1"
| "exit_rank Loop_done = 0"

definition exit_measure :: "'p notification_unit \<Rightarrow> nat" where
  "exit_measure u =
     length (notifications u) + length (pending_notifications u) + exit_rank (loop_at u)"

lemma exit_step:
  assumes "stop_work u" and "loop_at u \<notin> {No_thread, Loop_done}"
  shows "exit_measure (execution_loop_step u) < exit_measure u \<and> stop_work (execution_loop_step u)"
  using assms
  by (cases "loop_at u"; cases "notifications u") (auto simp: loop_defs exit_measure_def)

lemma join_loop_returns:
  "stop_work u \<Longrightarrow> exit_measure u \<le> fuel \<Longrightarrow> join_loop fuel u \<noteq> None"
proof (induction fuel u rule: join_loop.induct)
  case (1 u)
  then show ?case
    using exit_step [of u] by (cases "loop_at u") (auto simp: exit_measure_def)
next
  case (2 fuel u)
  then show ?case using exit_step [of u] by (auto simp: le_Suc_eq)
qed

lemma unit_destroy_returns:
  assumes "unit_reach p u" and "exit_measure u \<le> fuel"
  shows "unit_destroy fuel u \<noteq> None"
proof -
  have "stop_work (unit_stop u)" "exit_measure (unit_stop u) = exit_measure u"
    using unit_reach_inv [OF assms(1)] by (auto simp: unit_inv_def unit_stop_def exit_measure_def)
  then show ?thesis
    using join_loop_returns [of "unit_stop u" fuel] assms(2) by (simp add: unit_destroy_def)
qed

text \<open>What is pending when the destructor stops a waiting or a delivering thread.\<close>

definition doomed :: "'p list \<Rightarrow> 'p notification_unit \<Rightarrow> bool" where
  "doomed xs u \<longleftrightarrow> stop_work u \<and>
     (loop_at u \<in> {At_wait, At_notify, At_copy} \<and> map notif_body (pending_notifications u) = xs \<and>
        (loop_at u \<noteq> At_notify \<longrightarrow> notifications u = []) \<or>
      loop_at u \<in> {At_check True, At_exit, Loop_done} \<and> pending_notifications u = [] \<and>
        map notif_body (notifications u) = xs)"

lemma doomed_step: "doomed xs u \<Longrightarrow> xs \<noteq> [] \<Longrightarrow> doomed xs (execution_loop_step u)"
  by (cases "loop_at u"; cases "notifications u") (auto simp: doomed_def loop_defs)

lemma doomed_join: "doomed xs u \<Longrightarrow> xs \<noteq> [] \<Longrightarrow> join_loop fuel u = Some u' \<Longrightarrow> doomed xs u' \<and> loop_at u' = Loop_done"
  by (induction fuel u rule: join_loop.induct)
    (auto simp: doomed_step split: if_splits, auto simp: doomed_def)

lemma unit_inv_join: "unit_inv p u \<Longrightarrow> join_loop fuel u = Some u' \<Longrightarrow> unit_inv p u'"
  by (induction fuel u rule: join_loop.induct) (auto simp: unit_inv_thread split: if_splits)

lemma accepted_step: "accepted (execution_loop_step u) = accepted u"
  by (cases "loop_at u"; cases "notifications u") (auto simp: loop_defs)

lemma accepted_join: "join_loop fuel u = Some u' \<Longrightarrow> accepted u' = accepted u"
  by (induction fuel u rule: join_loop.induct) (auto simp: accepted_step split: if_splits)

text \<open>C28. The destructor always finishes its join, but whatever is still pending when it stops a
  waiting or delivering thread is never delivered, even if the unit is configured to execute all
  notifications at exit.\<close>

theorem destroy_drops_pending:
  assumes "unit_reach p u" and "loop_at u \<in> {At_wait, At_notify, At_copy}"
    and "pending_notifications u \<noteq> []" and "exit_measure u \<le> fuel"
  shows "\<exists>u'. unit_destroy fuel u = Some u' \<and> loop_at u' = Loop_done \<and>
     accepted u = delivered u' @ map notif_body (pending_notifications u)"
proof -
  let ?xs = "map notif_body (pending_notifications u)"
  obtain u' where u': "unit_destroy fuel u = Some u'"
    using unit_destroy_returns [OF assms(1,4)] by auto
  have inv: "unit_inv p u" by (rule unit_reach_inv [OF assms(1)])
  have "doomed ?xs (unit_stop u)"
    using assms(2) inv by (auto simp: doomed_def unit_stop_def unit_inv_def)
  then have d: "doomed ?xs u'" "loop_at u' = Loop_done"
    using doomed_join [of ?xs "unit_stop u" fuel u'] assms(3) u' by (simp_all add: unit_destroy_def)
  have "unit_inv p u'"
    using unit_inv_join [OF unit_inv_stop [OF inv]] u' by (simp add: unit_destroy_def)
  moreover have "accepted u' = accepted u"
    using accepted_join [of fuel "unit_stop u" u'] u' by (simp add: unit_destroy_def unit_stop_def split: if_splits)
  ultimately have "accepted u = delivered u' @ ?xs"
    using d by (simp add: unit_inv_def in_flight_def doomed_def)
  with u' d show ?thesis by blast
qed

definition sample_param :: notification_unit_param where
  "sample_param = \<lparr>change_state_auto = True, execute_all_notification_at_exit = True,
     notification_check_timeout = 3000, max_notifications = 5, recv_name = ''r''\<rparr>"

definition sample_waiting :: "nat notification_unit" where
  "sample_waiting =
     add_notification (execution_loop_step (execution_loop_run (new_notification_unit (\<lambda>s. 7) sample_param)))
       \<lparr>notif_state = notif_executeable, notif_body = 42\<rparr>"

lemma sample_waiting_reach: "unit_reach sample_param sample_waiting"
  unfolding sample_waiting_def
  by (rule unit_reach.step [OF unit_reach.step [OF unit_reach.start unit_step.thread] unit_step.add])

lemma sample_waiting_state:
  "loop_at sample_waiting = At_wait" "map notif_body (pending_notifications sample_waiting) = [42]"
  "accepted sample_waiting = [42]" "exit_measure sample_waiting = 6"
  by code_simp+

theorem destroy_drops_pending_witness:
  "\<exists>u'. unit_destroy 10 sample_waiting = Some u' \<and> accepted sample_waiting = [42] \<and> delivered u' = []"
proof -
  have "pending_notifications sample_waiting \<noteq> []" using sample_waiting_state(2) by auto
  then show ?thesis
    using destroy_drops_pending [OF sample_waiting_reach, of 10] sample_waiting_state by auto
qed

subsection \<open>notification_center\<close>

record notification_center_config =
  max_notifications_per_recv :: nat
  execute_notification_at_recv_gone :: bool

record 'p notification_center =
  center_config :: notification_center_config
  receivers :: "(string \<times> 'p notification_unit) list"
  center_stop :: bool

definition new_notification_center :: "notification_center_config \<Rightarrow> 'p notification_center" where
  "new_notification_center config = \<lparr>center_config = config, receivers = [], center_stop = False\<rparr>"

definition change_configuration ::
  "'p notification_center \<Rightarrow> notification_center_config \<Rightarrow> 'p notification_center" where
  "change_configuration c config = c\<lparr>center_config := config\<rparr>"

text \<open>
  The receiver is its name, or \<open>None\<close> for a null pointer. The code returns the tuple
  \<open>(state, object_id)\<close> where the declared type is \<open>(size_t, bool)\<close>: the caller gets the state as the
  identifier, 1 or 0, and whether the identifier is not 0.
\<close>

definition registration :: "bool \<Rightarrow> nat \<Rightarrow> nat \<times> bool" where
  "registration state object_id = (of_bool state, object_id \<noteq> 0)"

definition add_notification_receiver ::
  "(string \<Rightarrow> nat) \<Rightarrow> 'p notification_center \<Rightarrow> string option \<Rightarrow> (nat \<times> bool) \<times> 'p notification_center" where
  "add_notification_receiver hasher c receiver =
     (case receiver of
        Some name \<Rightarrow>
          if \<not> center_stop c \<and> map_of (receivers c) name = None then
            let p = \<lparr>change_state_auto = True,
                     execute_all_notification_at_exit = execute_notification_at_recv_gone (center_config c),
                     notification_check_timeout = 3000,
                     max_notifications = max_notifications_per_recv (center_config c),
                     recv_name = name\<rparr>;
                unit = new_notification_unit hasher p
            in (registration True (unit_id unit),
                c\<lparr>receivers := receivers c @ [(name, execution_loop_run unit)]\<rparr>)
          else (registration False 0, c)
      | None \<Rightarrow> (registration False 0, c))"

lemma registered_id_is_one:
  "\<not> center_stop c \<Longrightarrow> map_of (receivers c) name = None \<Longrightarrow>
    fst (add_notification_receiver hasher c (Some name)) = (1, hasher name \<noteq> 0)"
  by (simp add: add_notification_receiver_def registration_def Let_def new_notification_unit_def)

text \<open>Erasing the entry drops the last pointer to the unit: its destructor runs to its end.\<close>

definition remove_notification_receiver ::
  "nat \<Rightarrow> 'p notification_center \<Rightarrow> string \<Rightarrow> ('p notification_unit option \<times> 'p notification_center) option" where
  "remove_notification_receiver fuel c name =
     (if center_stop c then Some (None, c)
      else case map_of (receivers c) name of
             None \<Rightarrow> Some (None, c)
           | Some u \<Rightarrow> map_option (\<lambda>u'. (Some u', c\<lparr>receivers := AList.delete name (receivers c)\<rparr>))
                         (unit_destroy fuel u))"

definition remove_notification_receiver_id :: "'p notification_center \<Rightarrow> nat \<Rightarrow> 'p notification_center" where
  "remove_notification_receiver_id c i = c"

definition send_message ::
  "'p notification_center \<Rightarrow> string \<Rightarrow> 'p notification option \<Rightarrow> bool \<times> 'p notification_center" where
  "send_message c rname notification =
     (case notification of
        Some n \<Rightarrow>
          if center_stop c then (False, c)
          else (case map_of (receivers c) rname of
                  Some u \<Rightarrow> (True, c\<lparr>receivers := AList.update rname (add_notification u n) (receivers c)\<rparr>)
                | None \<Rightarrow> (False, c))
      | None \<Rightarrow> (False, c))"

definition post_message ::
  "'p notification_center \<Rightarrow> string \<Rightarrow> 'p notification option \<Rightarrow> bool \<times> 'p notification_center" where
  "post_message c rname notification =
     (case notification of
        Some n \<Rightarrow>
          if center_stop c then (False, c)
          else (case map_of (receivers c) rname of
                  Some u \<Rightarrow> (True, c\<lparr>receivers := AList.update rname (add_notification u n) (receivers c)\<rparr>)
                | None \<Rightarrow> (False, c))
      | None \<Rightarrow> (False, c))"

text \<open>The process-wide center: created on first use, with room for 1000 notifications per receiver.\<close>

definition core_notification_center :: "'p notification_center option \<Rightarrow> 'p notification_center" where
  "core_notification_center center =
     (case center of
        None \<Rightarrow> new_notification_center
                  \<lparr>max_notifications_per_recv = 1000, execute_notification_at_recv_gone = False\<rparr>
      | Some c \<Rightarrow> c)"

lemma send_is_post: "send_message = post_message"
  by (intro ext) (simp add: send_message_def post_message_def)

text \<open>A message is reported as sent exactly when its receiver is registered, it is then queued at
  that receiver only, and it is silently dropped (but still reported as sent) when the receiver's
  queue is over its limit.\<close>

theorem post_message_effect:
  assumes "\<not> center_stop c"
  shows "(fst (post_message c rname (Some n)) \<longleftrightarrow> map_of (receivers c) rname \<noteq> None) \<and>
     map_of (receivers (snd (post_message c rname (Some n)))) =
       (case map_of (receivers c) rname of
          None \<Rightarrow> map_of (receivers c)
        | Some u \<Rightarrow> (map_of (receivers c))
            (rname \<mapsto> (if stop_work u \<or> max_notifications (unit_param u) < length (pending_notifications u)
                       then u
                       else u\<lparr>pending_notifications := pending_notifications u @ [n],
                              accepted := accepted u @ [notif_body n]\<rparr>)))"
  using assms
  by (auto simp: post_message_def update_conv' add_notification_def fun_upd_idem_iff split: option.split)

theorem post_message_effect_witness:
  "fst (post_message (new_notification_center
      \<lparr>max_notifications_per_recv = 3, execute_notification_at_recv_gone = False\<rparr>)
      ''x'' (Some \<lparr>notif_state = notif_executeable, notif_body = 1 :: nat\<rparr>)) = False"
  using post_message_effect [of "new_notification_center
      \<lparr>max_notifications_per_recv = 3, execute_notification_at_recv_gone = False\<rparr>" "''x''"
      "\<lparr>notif_state = notif_executeable, notif_body = 1 :: nat\<rparr>"]
  by (simp add: new_notification_center_def)

lemma receiver_distinct:
  "distinct (map fst (receivers c)) \<Longrightarrow>
   distinct (map fst (receivers (snd (add_notification_receiver hasher c r))))"
  by (auto simp: add_notification_receiver_def Let_def map_of_eq_None_iff split: option.split)

end
