(* ===== verification/File_Info_Buffer.thy ===== *)
theory File_Info_Buffer
  imports Notification
begin

section \<open>The file info buffer and its event source\<close>

text \<open>
  \<open>src/src/core/http_server/details/file_info_buffer.{hpp,cpp}\<close>,
  \<open>file_info_buffer_realtime_updater.cpp\<close>, \<open>src/src/core/common/core_file_change_notification.hpp\<close>
  and \<open>src/src/core/external_api/hc_event_source_adapter.cpp\<close>. File infos are shared objects: a
  request handler keeps its pointer when the entry leaves the map, so they live in a heap
  \<open>info_heap\<close> and \<open>infos\<close> maps paths to heap addresses. A subscriber is an address too; the
  calls made on subscribers are logged in \<open>sub_calls\<close>. All operations hold the buffer's lock.
\<close>

record hc_file_info =
  file_path :: string
  file_size :: int
  avaliable_bytes :: int
  subscribers :: "nat list"

datatype sub_call = On_bytes_avaliable_change nat int | On_break nat

record file_info_buffer =
  is_stoped :: bool
  infos :: "(string \<times> nat) list"
  info_heap :: "nat \<Rightarrow> hc_file_info option"
  next_info :: nat
  sub_calls :: "sub_call list"
  closed_fds :: "int list"
  updater_name :: string
  updater_registered :: bool

definition recv_name_updater :: string where
  "recv_name_updater = ''hcore_notification_recv''"

definition new_file_info_buffer :: file_info_buffer where
  "new_file_info_buffer =
     \<lparr>is_stoped = False, infos = [], info_heap = (\<lambda>i. None), next_info = 0, sub_calls = [],
      closed_fds = [], updater_name = recv_name_updater, updater_registered = True\<rparr>"

definition registr_subscriber :: "file_info_buffer \<Rightarrow> nat \<Rightarrow> nat \<Rightarrow> (nat \<times> file_info_buffer) cpp" where
  "registr_subscriber b fi subscriber =
     (case info_heap b fi of
        None \<Rightarrow> Undef
      | Some info \<Rightarrow>
          let info' = info\<lparr>subscribers := subscribers info @ [subscriber]\<rparr>
          in Ret (length (subscribers info'),
                  b\<lparr>info_heap := (info_heap b)(fi \<mapsto> info'),
                    sub_calls := sub_calls b @ [On_bytes_avaliable_change subscriber (avaliable_bytes info')]\<rparr>))"

text \<open>
  \<open>sid > size\<close> compares as unsigned, so a negative id is larger than every size; erasing at or
  past the end is undefined.
\<close>

definition unregistr_subscriber_id :: "file_info_buffer \<Rightarrow> nat \<Rightarrow> int \<Rightarrow> file_info_buffer cpp" where
  "unregistr_subscriber_id b fi sid =
     (case info_heap b fi of
        None \<Rightarrow> Undef
      | Some info \<Rightarrow>
          if sid < 0 \<or> int (length (subscribers info)) < sid then
            if 0 \<le> sid \<and> sid < int (length (subscribers info))
            then Ret (b\<lparr>info_heap := (info_heap b)(fi \<mapsto> info\<lparr>subscribers :=
                        take (nat sid) (subscribers info) @ drop (Suc (nat sid)) (subscribers info)\<rparr>)\<rparr>)
            else Undef
          else Ret b)"

fun erase_first :: "nat \<Rightarrow> nat list \<Rightarrow> nat list \<times> sub_call list" where
  "erase_first subscriber [] = ([], [])"
| "erase_first subscriber (s # ss) =
     (if s = subscriber then (ss, [On_break s])
      else let (ss', cs) = erase_first subscriber ss in (s # ss', cs))"

definition unregistr_subscriber :: "file_info_buffer \<Rightarrow> nat \<Rightarrow> nat \<Rightarrow> file_info_buffer cpp" where
  "unregistr_subscriber b fi subscriber =
     (case info_heap b fi of
        None \<Rightarrow> Undef
      | Some info \<Rightarrow>
          (case erase_first subscriber (subscribers info) of
             (ss, cs) \<Rightarrow> Ret (b\<lparr>info_heap := (info_heap b)(fi \<mapsto> info\<lparr>subscribers := ss\<rparr>),
                                sub_calls := sub_calls b @ cs\<rparr>)))"

text \<open>An iterator into \<open>infos\<close>: at an entry, past the end, or at an entry that was erased.\<close>

datatype info_iter = Iter_at string | Iter_end | Iter_erased

definition iter_find :: "file_info_buffer \<Rightarrow> string \<Rightarrow> info_iter" where
  "iter_find b path = (if map_of (infos b) path = None then Iter_end else Iter_at path)"

definition iter_erase :: "file_info_buffer \<Rightarrow> info_iter \<Rightarrow> info_iter \<times> file_info_buffer" where
  "iter_erase b it =
     (case it of
        Iter_at path \<Rightarrow> (Iter_erased, b\<lparr>infos := AList.delete path (infos b)\<rparr>)
      | _ \<Rightarrow> (it, b))"

definition iter_second :: "file_info_buffer \<Rightarrow> info_iter \<Rightarrow> nat cpp" where
  "iter_second b it =
     (case it of
        Iter_at path \<Rightarrow> (case map_of (infos b) path of Some i \<Rightarrow> Ret i | None \<Rightarrow> Undef)
      | _ \<Rightarrow> Undef)"

definition notify_break :: "file_info_buffer \<Rightarrow> nat \<Rightarrow> file_info_buffer" where
  "notify_break b i =
     (case info_heap b i of
        Some info \<Rightarrow> b\<lparr>sub_calls := sub_calls b @ map On_break (subscribers info)\<rparr>
      | None \<Rightarrow> b)"

definition remove_info :: "file_info_buffer \<Rightarrow> string \<Rightarrow> file_info_buffer cpp" where
  "remove_info b path =
     (if is_stoped b then Ret b
      else case iter_erase b (iter_find b path) of
             (found, b1) \<Rightarrow> cbind (iter_second b1 found) (\<lambda>i. Ret (notify_break b1 i)))"

definition update_info :: "file_info_buffer \<Rightarrow> string \<Rightarrow> int \<Rightarrow> file_info_buffer cpp" where
  "update_info b path avaliable =
     (if is_stoped b then Ret b
      else case map_of (infos b) path of
             None \<Rightarrow> Ret b
           | Some i \<Rightarrow>
               (case info_heap b i of
                  None \<Rightarrow> Undef
                | Some info \<Rightarrow>
                    Ret (b\<lparr>info_heap := (info_heap b)(i \<mapsto> info\<lparr>avaliable_bytes := avaliable\<rparr>),
                           sub_calls := sub_calls b
                             @ map (\<lambda>s. On_bytes_avaliable_change s avaliable) (subscribers info)\<rparr>)))"

definition get_info :: "file_info_buffer \<Rightarrow> string \<Rightarrow> nat option" where
  "get_info b path = (if is_stoped b then None else map_of (infos b) path)"

definition stop_buffer :: "file_info_buffer \<Rightarrow> file_info_buffer" where
  "stop_buffer b =
     (let b1 = b\<lparr>updater_registered := False, is_stoped := True\<rparr>;
          b2 = foldl (\<lambda>b e. notify_break b (snd e)) b1 (infos b1)
      in b2\<lparr>infos := [], is_stoped := False\<rparr>)"

text \<open>
  \<open>stop_graceful\<close> and \<open>stop_force\<close> call \<open>close\<close>, which is no member of the class: the call is
  the POSIX one, on descriptor 1 and 0.
\<close>

definition stop_graceful :: "file_info_buffer \<Rightarrow> file_info_buffer" where
  "stop_graceful b = b\<lparr>closed_fds := closed_fds b @ [1]\<rparr>"

definition stop_force :: "file_info_buffer \<Rightarrow> file_info_buffer" where
  "stop_force b = b\<lparr>closed_fds := closed_fds b @ [0]\<rparr>"

definition on_file_add :: "file_info_buffer \<Rightarrow> string \<Rightarrow> int \<Rightarrow> int \<Rightarrow> file_info_buffer cpp" where
  "on_file_add b path fsize avaliable =
     (case map_of (infos b) path of
        Some i \<Rightarrow>
          (case info_heap b i of
             Some info \<Rightarrow>
               Ret (b\<lparr>info_heap := (info_heap b)(i \<mapsto> info\<lparr>file_size := fsize, avaliable_bytes := avaliable\<rparr>)\<rparr>)
           | None \<Rightarrow> Undef)
      | None \<Rightarrow>
          Ret (b\<lparr>infos := AList.update path (next_info b) (infos b),
                 info_heap := (info_heap b)(next_info b \<mapsto>
                   \<lparr>file_path = path, file_size = fsize, avaliable_bytes = avaliable, subscribers = []\<rparr>),
                 next_info := Suc (next_info b)\<rparr>))"

definition on_file_remove :: "file_info_buffer \<Rightarrow> string \<Rightarrow> file_info_buffer cpp" where
  "on_file_remove b path = remove_info b path"

definition on_file_update :: "file_info_buffer \<Rightarrow> string \<Rightarrow> int \<Rightarrow> int \<Rightarrow> file_info_buffer cpp" where
  "on_file_update b path fsize avaliable = update_info b path avaliable"

subsection \<open>File change notifications\<close>

datatype change_state = file_update | file_remove | file_add

record core_file_change =
  event_type :: change_state
  change_path :: string
  change_size :: int
  change_avaliable :: int

definition updater_on_notify :: "file_info_buffer \<Rightarrow> core_file_change \<Rightarrow> file_info_buffer cpp" where
  "updater_on_notify fib n =
     (case event_type n of
        file_remove \<Rightarrow> on_file_remove fib (change_path n)
      | file_add \<Rightarrow> on_file_add fib (change_path n) (change_size n) (change_avaliable n)
      | file_update \<Rightarrow> on_file_update fib (change_path n) (change_size n) (change_avaliable n))"

text \<open>
  The adapter the torrent core reports to: each event becomes one message to the updater.
  A new notification object is executable; \<open>junk\<close> is the size an update leaves uninitialised.
\<close>

definition file_notification :: "change_state \<Rightarrow> string \<Rightarrow> int \<Rightarrow> int \<Rightarrow> core_file_change notification" where
  "file_notification ev path fsize avaliable =
     \<lparr>notif_state = notif_executeable,
      notif_body = \<lparr>event_type = ev, change_path = path, change_size = fsize, change_avaliable = avaliable\<rparr>\<rparr>"

definition adapter_on_file_add ::
  "core_file_change notification_center \<Rightarrow> string \<Rightarrow> int \<Rightarrow> core_file_change notification_center" where
  "adapter_on_file_add c path fsize =
     snd (send_message c recv_name_updater (Some (file_notification file_add path fsize 0)))"

definition adapter_on_file_remove ::
  "core_file_change notification_center \<Rightarrow> string \<Rightarrow> core_file_change notification_center" where
  "adapter_on_file_remove c path =
     snd (send_message c recv_name_updater (Some (file_notification file_remove path 0 0)))"

definition adapter_on_progress_update ::
  "int \<Rightarrow> core_file_change notification_center \<Rightarrow> string \<Rightarrow> int \<Rightarrow> core_file_change notification_center" where
  "adapter_on_progress_update junk c path avaliable =
     snd (send_message c recv_name_updater (Some (file_notification file_update path junk avaliable)))"

definition adapter_on_file_complete ::
  "int \<Rightarrow> core_file_change notification_center \<Rightarrow> string \<Rightarrow> int \<Rightarrow> core_file_change notification_center" where
  "adapter_on_file_complete junk c path avaliable = adapter_on_progress_update junk c path avaliable"

definition adapter_on_pause ::
  "core_file_change notification_center \<Rightarrow> string \<Rightarrow> core_file_change notification_center" where
  "adapter_on_pause c path = c"

subsection \<open>Well-formed buffers and the abstract view\<close>

definition fib_inv :: "file_info_buffer \<Rightarrow> bool" where
  "fib_inv b \<longleftrightarrow>
     \<not> is_stoped b \<and> distinct (map fst (infos b)) \<and> distinct (map snd (infos b)) \<and>
     (\<forall>i. info_heap b i \<noteq> None \<longrightarrow> i < next_info b) \<and>
     (\<forall>i \<in> snd ` set (infos b). info_heap b i \<noteq> None)"

text \<open>The abstract contents: path to size and number of available bytes.\<close>

definition fib_abs :: "file_info_buffer \<Rightarrow> string \<Rightarrow> (int \<times> int) option" where
  "fib_abs b path =
     (case map_of (infos b) path of
        None \<Rightarrow> None
      | Some i \<Rightarrow> map_option (\<lambda>info. (file_size info, avaliable_bytes info)) (info_heap b i))"

definition change_spec :: "(string \<Rightarrow> (int \<times> int) option) \<Rightarrow> core_file_change \<Rightarrow> (string \<Rightarrow> (int \<times> int) option)" where
  "change_spec m n =
     (case event_type n of
        file_add \<Rightarrow> m(change_path n \<mapsto> (change_size n, change_avaliable n))
      | file_update \<Rightarrow> (case m (change_path n) of
            None \<Rightarrow> m | Some (s, a) \<Rightarrow> m(change_path n \<mapsto> (s, change_avaliable n)))
      | file_remove \<Rightarrow> m(change_path n := None))"

lemma fib_inv_new: "fib_inv new_file_info_buffer"
  by (simp add: fib_inv_def new_file_info_buffer_def)

lemma fib_lookup:
  assumes "fib_inv b" and "map_of (infos b) path = Some i"
  obtains info where "info_heap b i = Some info" "i < next_info b"
  using assms by (fastforce simp: fib_inv_def dest: map_of_SomeD)

lemma fib_other_address:
  assumes "fib_inv b" and "map_of (infos b) p = Some i" and "map_of (infos b) q = Some j" and "p \<noteq> q"
  shows "i \<noteq> j"
proof
  assume "i = j"
  with assms have "(p, i) \<in> set (infos b)" "(q, i) \<in> set (infos b)" by (auto dest: map_of_SomeD)
  moreover have "inj_on snd (set (infos b))"
    using assms(1) by (simp add: fib_inv_def distinct_map)
  ultimately show False using assms(4) by (metis inj_onD snd_conv prod.inject)
qed

lemma fib_add_existing:
  assumes "fib_inv b" and "map_of (infos b) path = Some i" and "info_heap b i = Some info"
    and "b' = b\<lparr>info_heap := (info_heap b)(i \<mapsto> info'), sub_calls := cs\<rparr>"
  shows "fib_inv b' \<and> fib_abs b' = (fib_abs b)(path \<mapsto> (file_size info', avaliable_bytes info'))"
proof
  show "fib_inv b'" using assms by (auto simp: fib_inv_def)
  show "fib_abs b' = (fib_abs b)(path \<mapsto> (file_size info', avaliable_bytes info'))"
  proof
    fix q
    show "fib_abs b' q = ((fib_abs b)(path \<mapsto> (file_size info', avaliable_bytes info'))) q"
      using assms fib_other_address [OF assms(1,2), of q]
      by (cases "map_of (infos b) q"; cases "q = path") (auto simp: fib_abs_def)
  qed
qed

lemma fib_add_new:
  assumes "fib_inv b" and "map_of (infos b) path = None"
    and "on_file_add b path fsize avaliable = Ret b'"
  shows "fib_inv b' \<and> fib_abs b' = (fib_abs b)(path \<mapsto> (fsize, avaliable))"
proof -
  have fresh: "next_info b \<notin> snd ` set (infos b)"
    using assms(1) unfolding fib_inv_def by (metis less_irrefl)
  have b': "b' = b\<lparr>infos := infos b @ [(path, next_info b)],
      info_heap := (info_heap b)(next_info b \<mapsto>
        \<lparr>file_path = path, file_size = fsize, avaliable_bytes = avaliable, subscribers = []\<rparr>),
      next_info := Suc (next_info b)\<rparr>"
    using assms(2,3) by (simp add: on_file_add_def update_append)
  have new: "path \<notin> fst ` set (infos b)" using assms(2) by (simp add: map_of_eq_None_iff)
  have "fib_inv b'"
    using assms(1) fresh new unfolding fib_inv_def b' by (auto simp: less_Suc_eq)
  moreover have "fib_abs b' q = ((fib_abs b)(path \<mapsto> (fsize, avaliable))) q" for q
  proof (cases "q = path")
    case True
    then show ?thesis using assms(2) by (simp add: b' fib_abs_def map_add_def)
  next
    case False
    have "map_of (infos b) q = Some i \<Longrightarrow> i \<noteq> next_info b" for i
      using fresh by (metis imageI map_of_SomeD snd_conv)
    then show ?thesis using False
      by (auto simp: b' fib_abs_def map_add_def split: option.split)
  qed
  ultimately show ?thesis by blast
qed

subsection \<open>The buffer follows the notifications\<close>

lemma updater_add:
  assumes "fib_inv b" and "event_type n = file_add"
  shows "\<exists>b'. updater_on_notify b n = Ret b' \<and> fib_inv b' \<and> fib_abs b' = change_spec (fib_abs b) n"
proof (cases "map_of (infos b) (change_path n)")
  case None
  then obtain b' where "on_file_add b (change_path n) (change_size n) (change_avaliable n) = Ret b'"
    by (simp add: on_file_add_def)
  with fib_add_new [OF assms(1) None] show ?thesis
    using assms(2) by (auto simp: updater_on_notify_def change_spec_def)
next
  case (Some i)
  then obtain info where info: "info_heap b i = Some info" using fib_lookup [OF assms(1)] by metis
  let ?info = "info\<lparr>file_size := change_size n, avaliable_bytes := change_avaliable n\<rparr>"
  let ?b = "b\<lparr>info_heap := (info_heap b)(i \<mapsto> ?info)\<rparr>"
  have "?b = b\<lparr>info_heap := (info_heap b)(i \<mapsto> ?info), sub_calls := sub_calls b\<rparr>" by simp
  from fib_add_existing [OF assms(1) Some info this] show ?thesis
    using Some info assms(2) by (simp add: updater_on_notify_def on_file_add_def change_spec_def)
qed

lemma updater_update:
  assumes "fib_inv b" and "event_type n = file_update"
  shows "\<exists>b'. updater_on_notify b n = Ret b' \<and> fib_inv b' \<and> fib_abs b' = change_spec (fib_abs b) n"
proof (cases "map_of (infos b) (change_path n)")
  case None
  then show ?thesis
    using assms by (auto simp: updater_on_notify_def on_file_update_def update_info_def fib_abs_def change_spec_def)
next
  case (Some i)
  then obtain info where info: "info_heap b i = Some info" using fib_lookup [OF assms(1)] by metis
  let ?info = "info\<lparr>avaliable_bytes := change_avaliable n\<rparr>"
  let ?cs = "sub_calls b @ map (\<lambda>s. On_bytes_avaliable_change s (change_avaliable n)) (subscribers info)"
  have "fib_abs b (change_path n) = Some (file_size info, avaliable_bytes info)"
    using Some info by (simp add: fib_abs_def)
  moreover have "\<not> is_stoped b" using assms(1) by (simp add: fib_inv_def)
  ultimately show ?thesis
    using fib_add_existing [OF assms(1) Some info refl, where info' = ?info and cs = ?cs] Some info assms(2)
    by (simp add: updater_on_notify_def on_file_update_def update_info_def change_spec_def)
qed

fun run_updater :: "file_info_buffer \<Rightarrow> core_file_change list \<Rightarrow> file_info_buffer cpp" where
  "run_updater b [] = Ret b"
| "run_updater b (n # ns) = cbind (updater_on_notify b n) (\<lambda>b'. run_updater b' ns)"

lemma run_updater_refines:
  "fib_inv b \<Longrightarrow> file_remove \<notin> event_type ` set ns \<Longrightarrow>
   \<exists>b'. run_updater b ns = Ret b' \<and> fib_inv b' \<and> fib_abs b' = foldl change_spec (fib_abs b) ns"
proof (induction ns arbitrary: b)
  case Nil
  then show ?case by simp
next
  case (Cons n ns)
  then have "event_type n = file_add \<or> event_type n = file_update"
    by (cases "event_type n") auto
  then obtain b1 where b1: "updater_on_notify b n = Ret b1" "fib_inv b1"
    "fib_abs b1 = change_spec (fib_abs b) n"
    using updater_add [OF Cons.prems(1)] updater_update [OF Cons.prems(1)] by blast
  obtain b' where "run_updater b1 ns = Ret b'" "fib_inv b'" "fib_abs b' = foldl change_spec (fib_abs b1) ns"
    using Cons.IH [OF b1(2)] Cons.prems(2) by auto
  with b1 show ?case by simp
qed

text \<open>C29. Any sequence of add and update notifications is applied without undefined behaviour, keeps
  the buffer well formed, and leaves for every path the size of its last add and the available
  bytes of its last add or update.\<close>

theorem buffer_follows_changes:
  assumes "fib_inv b" and "file_remove \<notin> event_type ` set ns"
  shows "\<exists>b'. run_updater b ns = Ret b' \<and> fib_inv b' \<and> fib_abs b' = foldl change_spec (fib_abs b) ns"
  using run_updater_refines [OF assms] .

theorem buffer_follows_changes_witness:
  "\<exists>b'. run_updater new_file_info_buffer
      [\<lparr>event_type = file_add, change_path = ''f'', change_size = 100, change_avaliable = 0\<rparr>,
       \<lparr>event_type = file_update, change_path = ''f'', change_size = 0, change_avaliable = 40\<rparr>] = Ret b' \<and>
     fib_abs b' ''f'' = Some (100, 40)"
proof -
  let ?ns = "[\<lparr>event_type = file_add, change_path = ''f'', change_size = 100, change_avaliable = 0\<rparr>,
       \<lparr>event_type = file_update, change_path = ''f'', change_size = 0, change_avaliable = 40\<rparr>]"
  have "foldl change_spec (fib_abs new_file_info_buffer) ?ns ''f'' = Some (100, 40)"
    by (simp add: change_spec_def)
  then show ?thesis
    using buffer_follows_changes [OF fib_inv_new, of ?ns] by auto
qed

text \<open>Removing a file is undefined behaviour on every well-formed buffer, whether or not the path
  is known: the iterator is used after its entry was erased, or at the end.\<close>

theorem remove_info_undefined:
  assumes "fib_inv b"
  shows "remove_info b path = Undef"
  using assms
  by (auto simp: fib_inv_def remove_info_def iter_find_def iter_erase_def iter_second_def)

theorem remove_info_undefined_witness: "remove_info new_file_info_buffer ''f'' = Undef"
  by (rule remove_info_undefined [OF fib_inv_new])

subsection \<open>Subscribers\<close>

text \<open>Registering a subscriber on a file tells it the available bytes at once, and the following
  updates of that file reach it.\<close>

theorem subscriber_notified:
  assumes "fib_inv b" and "get_info b path = Some i" and "info_heap b i = Some info"
  shows "\<exists>sid b1 b2. registr_subscriber b i s = Ret (sid, b1) \<and>
     sub_calls b1 = sub_calls b @ [On_bytes_avaliable_change s (avaliable_bytes info)] \<and>
     update_info b1 path n = Ret b2 \<and>
     sub_calls b2 = sub_calls b1 @ map (\<lambda>s. On_bytes_avaliable_change s n) (subscribers info @ [s])"
  using assms
  by (auto simp: fib_inv_def registr_subscriber_def update_info_def get_info_def Let_def)

definition sample_buffer :: file_info_buffer where
  "sample_buffer = new_file_info_buffer\<lparr>infos := [(''f'', 0)], next_info := 1,
     info_heap := [0 \<mapsto> \<lparr>file_path = ''f'', file_size = 9, avaliable_bytes = 4, subscribers = []\<rparr>]\<rparr>"

lemma sample_buffer_inv: "fib_inv sample_buffer"
  by (simp add: fib_inv_def sample_buffer_def new_file_info_buffer_def)

theorem subscriber_notified_witness:
  "\<exists>sid b1. registr_subscriber sample_buffer 0 7 = Ret (sid, b1) \<and>
     sub_calls b1 = [On_bytes_avaliable_change 7 4]"
  using subscriber_notified [OF sample_buffer_inv, of "''f''" 0
      "\<lparr>file_path = ''f'', file_size = 9, avaliable_bytes = 4, subscribers = []\<rparr>" 7 5]
  by (auto simp: sample_buffer_def new_file_info_buffer_def get_info_def)

text \<open>Unregistering by the number that the registration returned, or any later in-range number,
  changes nothing: a finished request's stream stays subscribed.\<close>

theorem unregistr_id_keeps_subscriber:
  assumes "registr_subscriber b i s = Ret (sid, b1)"
  shows "unregistr_subscriber_id b1 i (int sid) = Ret b1"
  using assms by (auto simp: registr_subscriber_def unregistr_subscriber_id_def Let_def split: option.splits)

theorem unregistr_id_keeps_subscriber_witness:
  "\<exists>sid b1. registr_subscriber sample_buffer 0 7 = Ret (sid, b1) \<and>
     unregistr_subscriber_id b1 0 (int sid) = Ret b1"
proof -
  obtain sid b1 where r: "registr_subscriber sample_buffer 0 7 = Ret (sid, b1)"
    by (simp add: registr_subscriber_def sample_buffer_def new_file_info_buffer_def Let_def)
  from r unregistr_id_keeps_subscriber [OF r] show ?thesis by blast
qed

lemma erase_first_removes: "s \<in> set ss \<Longrightarrow> erase_first s ss = (remove1 s ss, [On_break s])"
  by (induction ss) auto

lemma unregistr_subscriber_removes:
  "info_heap b i = Some info \<Longrightarrow> s \<in> set (subscribers info) \<Longrightarrow>
   unregistr_subscriber b i s =
     Ret (b\<lparr>info_heap := (info_heap b)(i \<mapsto> info\<lparr>subscribers := remove1 s (subscribers info)\<rparr>),
           sub_calls := sub_calls b @ [On_break s]\<rparr>)"
  by (simp add: unregistr_subscriber_def erase_first_removes)

lemma stop_buffer_empty: "infos (stop_buffer b) = [] \<and> \<not> is_stoped (stop_buffer b)"
  by (simp add: stop_buffer_def Let_def)

lemma stop_graceful_keeps_infos: "infos (stop_graceful b) = infos b \<and> sub_calls (stop_graceful b) = sub_calls b"
  by (simp add: stop_graceful_def)

end
