(* ===== verification/Http_Stream.thy ===== *)
theory Http_Stream
  imports Http_Reply File_Info_Buffer
begin

section \<open>Sending files: sockets, reply heads and the chunked stream\<close>

text \<open>
  The socket stream (\<open>src/src/common/network/details/http_mongoose_socket_ostream.cpp\<close> over
  \<open>push\<close> and \<open>mg_write\<close> of \<open>mongoose.c\<close>), the three reply heads
  (\<open>src/src/core/http_server/details/replies\<close>, \<open>http_server_utility.hpp\<close>), the output policy
  (\<open>http_server_ostream_policy.cpp\<close>) and the chunked stream
  (\<open>details/hs_chunked_ostream_impl.cpp\<close>). The stream's writes go through any \<open>octet_sink\<close>;
  the socket stream interprets it.
\<close>

subsection \<open>The octet sink interface\<close>

locale octet_sink =
  fixes sink_write :: "'s \<Rightarrow> string \<Rightarrow> nat \<times> 's"
    and sent :: "'s \<Rightarrow> string"
    and limit :: nat
  assumes write_prefix:
    "length bs < limit \<Longrightarrow> sink_write s bs = (n, s') \<Longrightarrow> n \<le> length bs \<and> sent s' = sent s @ take n bs"
begin

lemma write_all:
  "length bs < limit \<Longrightarrow> sink_write s bs = (length bs, s') \<Longrightarrow> sent s' = sent s @ bs"
  using write_prefix [of bs s "length bs" s'] by simp

end

subsection \<open>The mongoose socket\<close>

text \<open>
  The results of the connection's future \<open>send\<close> calls are a script; a script that runs out is a
  closed connection (an error). Throttling is off: the transport never sets that option.
\<close>

record mg_connection =
  send_results :: "int list"
  peer_received :: string

definition INT_MAX :: nat where "INT_MAX = 2147483647"

fun push :: "int list \<Rightarrow> string \<Rightarrow> nat \<Rightarrow> nat \<times> int list" where
  "push [] buf n_sent = (n_sent, [])"
| "push (r # rs) buf n_sent =
     (if length buf \<le> n_sent then (n_sent, r # rs)
      else let k = (if length buf - n_sent > INT_MAX then INT_MAX else length buf - n_sent)
           in if r < 0 then (n_sent, rs) else push rs buf (n_sent + min (nat r) k))"

definition mg_write :: "mg_connection \<Rightarrow> string \<Rightarrow> int \<times> mg_connection" where
  "mg_write conn buf =
     (case push (send_results conn) buf 0 of
        (n_total, rs) \<Rightarrow>
          (sint (word_of_nat n_total :: 32 word),
           conn\<lparr>send_results := rs, peer_received := peer_received conn @ take n_total buf\<rparr>))"

definition socket_write :: "mg_connection \<Rightarrow> string \<Rightarrow> nat \<times> mg_connection" where
  "socket_write conn bytes =
     (case mg_write conn bytes of
        (writed, conn') \<Rightarrow> if writed \<le> 0 then (0, conn') else (nat writed, conn'))"

text \<open>\<open>async_write\<close> writes, then reports failure and size 0 to the completion routine.\<close>

definition socket_async_write ::
  "mg_connection \<Rightarrow> string \<Rightarrow> (int \<Rightarrow> nat \<Rightarrow> 'r) \<Rightarrow> 'r \<times> mg_connection" where
  "socket_async_write conn bytes com_routine =
     (case mg_write conn bytes of (writed, conn') \<Rightarrow> (com_routine (-1) 0, conn'))"

lemma push_bound: "n_sent \<le> length buf \<Longrightarrow> push rs buf n_sent = (t, rs') \<Longrightarrow> t \<le> length buf"
  by (induction rs buf n_sent rule: push.induct) (auto simp: Let_def split: if_splits)

lemma sint_small:
  assumes "n < 2 ^ 31"
  shows "sint (word_of_nat n :: 32 word) = int n"
proof -
  have "take_bit 31 (int n) = int n" using assms by (intro take_bit_int_eq_self) simp_all
  then show ?thesis
    using assms by (simp add: sint_uint unsigned_of_nat take_bit_nat_eq_self
        signed_take_bit_eq_if_positive bit_iff_odd)
qed

lemma socket_write_prefix:
  assumes "length bs < 2 ^ 31" and "socket_write conn bs = (n, conn')"
  shows "n \<le> length bs \<and> peer_received conn' = peer_received conn @ take n bs"
proof -
  obtain t rs where p: "push (send_results conn) bs 0 = (t, rs)" by fastforce
  then have t: "t \<le> length bs" using push_bound by force
  then have "sint (word_of_nat t :: 32 word) = int t" using assms(1) by (intro sint_small) linarith
  then show ?thesis using assms(2) p t
    by (auto simp: socket_write_def mg_write_def split: if_splits)
qed

interpretation mongoose: octet_sink socket_write peer_received "2 ^ 31"
  by unfold_locales (rule socket_write_prefix)

subsection \<open>Reply heads\<close>

text \<open>\<open>gmt\<close> is the formatted current time (empty when formatting fails), \<open>now\<close> the clock.\<close>

record http_data =
  hd_fi :: hc_file_info
  read_start :: int
  read_end :: int

definition add_etag_date_headers :: "string \<Rightarrow> 64 word \<Rightarrow> string \<Rightarrow> hc_file_info \<Rightarrow> string" where
  "add_etag_date_headers gmt now out fi =
     (let etag = http_etag (file_size fi) now;
          out1 = (if gmt \<noteq> [] then out @ ''Date: '' @ gmt @ crlf else out)
      in if etag \<noteq> [] then out1 @ ''Etag: '' @ etag @ crlf else out1)"

definition head_reply :: "boost_lexical \<Rightarrow> string \<Rightarrow> 64 word \<Rightarrow> http_data \<Rightarrow> string \<times> bool" where
  "head_reply bx gmt now hdata =
     (let content_size = file_size (hd_fi hdata);
          h = add_etag_date_headers gmt now (''HTTP/1.1 200 Ok'' @ crlf) (hd_fi hdata)
      in (h @ ''Content-Type: application/octet-stream'' @ crlf
            @ ''Content-Length: '' @ num_text bx content_size @ crlf @ crlf, False))"

definition partial_content_reply :: "boost_lexical \<Rightarrow> string \<Rightarrow> 64 word \<Rightarrow> http_data \<Rightarrow> string \<times> bool" where
  "partial_content_reply bx gmt now hdata =
     (let size0 = 1 * ((read_end hdata - read_start hdata) + 1);
          content_size = (if size0 > file_size (hd_fi hdata) then file_size (hd_fi hdata) else size0);
          end_pos = (if read_end hdata = file_size (hd_fi hdata) then read_end hdata - 1 else read_end hdata);
          h = add_etag_date_headers gmt now (''HTTP/1.1 206 Partial-Content'' @ crlf) (hd_fi hdata)
      in (h @ ''Content-Type: application/octet-stream'' @ crlf
            @ ''Accept-Ranges: bytes'' @ crlf
            @ ''Content-Range: '' @ ''bytes '' @ num_text bx (read_start hdata) @ ''-'' @ num_text bx end_pos
            @ ''/'' @ num_text bx (file_size (hd_fi hdata)) @ crlf
            @ ''Content-Length: '' @ num_text bx content_size @ crlf @ crlf, True))"

definition send_content_reply :: "boost_lexical \<Rightarrow> string \<Rightarrow> 64 word \<Rightarrow> http_data \<Rightarrow> string \<times> bool" where
  "send_content_reply bx gmt now hdata =
     (let h = add_etag_date_headers gmt now (''HTTP/1.1 200 OK'' @ crlf) (hd_fi hdata)
      in (h @ ''Content-Type: application/octet-stream'' @ crlf
            @ ''Accept-Ranges: bytes'' @ crlf
            @ ''Content-Length: '' @ num_text bx (file_size (hd_fi hdata)) @ crlf @ crlf, True))"

subsection \<open>The chunked stream\<close>

text \<open>
  \<open>ex_data\<close> is what the subscriber's callbacks write and the sending thread reads. The rest of
  the world during one iteration of the send loop is an \<open>io_env\<close>: the callbacks that arrive
  before the loop condition is read, what wakes the waits (a callback, a spurious wake-up or the
  deadline; a script that runs out is the deadline), and the files on disk by their paths, \<open>None\<close> for
  one that cannot be opened or read.
\<close>

datatype stream_state = Is_breaked | State_default

record ex_data =
  ex_avaliable :: int
  ex_state :: stream_state

definition initial_ex_data :: ex_data where
  "initial_ex_data = \<lparr>ex_avaliable = 0, ex_state = State_default\<rparr>"

definition on_bytes_avaliable_change :: "ex_data \<Rightarrow> int \<Rightarrow> ex_data" where
  "on_bytes_avaliable_change d n = d\<lparr>ex_avaliable := n\<rparr>"

definition on_break :: "ex_data \<Rightarrow> ex_data" where
  "on_break d = d\<lparr>ex_state := Is_breaked\<rparr>"

datatype stream_event = Ev_bytes int | Ev_break | Ev_spurious

fun apply_event :: "ex_data \<Rightarrow> stream_event \<Rightarrow> ex_data" where
  "apply_event d (Ev_bytes n) = on_bytes_avaliable_change d n"
| "apply_event d Ev_break = on_break d"
| "apply_event d Ev_spurious = d"

record io_env =
  env_events :: "stream_event list"
  env_wakes :: "stream_event list"
  env_disk :: "string \<Rightarrow> string option"

fun wait_for_bytes :: "stream_event list \<Rightarrow> ex_data \<Rightarrow> int \<Rightarrow> bool \<times> ex_data" where
  "wait_for_bytes [] d bytes =
     (if ex_state d = Is_breaked then (False, d)
      else if bytes \<le> ex_avaliable d then (True, d) else (False, d))"
| "wait_for_bytes (w # ws) d bytes =
     (if ex_state d = Is_breaked then (False, d)
      else if bytes \<le> ex_avaliable d then (True, d)
      else wait_for_bytes ws (apply_event d w) bytes)"

text \<open>
  Open, seek and read \<open>read_offset\<close> characters. The devices of boost::iostreams throw where opening, seeking
  or reading fails, so the tests for a closed file or a negative position never fire; a read of nothing, at
  the end of the file, is a failure of the call.
\<close>

definition read_block :: "io_env \<Rightarrow> string \<Rightarrow> int \<Rightarrow> int \<Rightarrow> string option cpp" where
  "read_block e path seek_pos read_offset =
     (case env_disk e path of
        None \<Rightarrow> Throw (Std_exception ''failed opening file'')
      | Some disk \<Rightarrow>
          if seek_pos < 0 then Throw (Std_exception ''failed seeking'')
          else let block = take (nat read_offset) (drop (nat seek_pos) disk)
               in Ret (if block = [] then None else Some block))"

lemma read_block_Some:
  "read_block e path seek ro = Ret (Some block) \<longleftrightarrow>
     (\<exists>disk. env_disk e path = Some disk \<and> 0 \<le> seek \<and> block = take (nat ro) (drop (nat seek) disk) \<and> block \<noteq> [])"
  by (auto simp: read_block_def Let_def split: option.split)

function write_content_loop ::
  "('s \<Rightarrow> string \<Rightarrow> nat \<times> 's) \<Rightarrow> (nat \<Rightarrow> io_env) \<Rightarrow> string \<Rightarrow> int \<Rightarrow> int \<Rightarrow> nat \<Rightarrow> int \<Rightarrow> ex_data \<Rightarrow> 's
     \<Rightarrow> (bool \<times> ex_data \<times> 's) cpp" where
  "write_content_loop sink_write env path read_offset bytes_end i seek_pos d s =
     (let e = env i; d0 = foldl apply_event d (env_events e)
      in if ex_state d0 = Is_breaked then Ret (False, d0, s)
         else let eof = seek_pos + read_offset \<ge> bytes_end;
                  bytes_wait = (if eof then bytes_end else seek_pos + read_offset);
                  (ok, d1) = wait_for_bytes (env_wakes e) d0 bytes_wait
              in if \<not> ok then Ret (False, d1, s)
                 else case read_block e path seek_pos read_offset of
                   Throw x \<Rightarrow> Throw x
                 | Undef \<Rightarrow> Undef
                 | Ret None \<Rightarrow> Ret (False, d1, s)
                 | Ret (Some block) \<Rightarrow>
                     let (writed, s') = sink_write s block
                     in if writed \<noteq> length block then Ret (False, d1, s')
                        else if eof then Ret (True, d1, s')
                        else write_content_loop sink_write env path read_offset bytes_end (Suc i)
                               (seek_pos + int writed) d1 s')"
  by pat_completeness auto
termination
  by (relation "measure (\<lambda>(sw, env, path, ro, be, i, seek, d, s). nat (be - seek))")
    (auto simp: read_block_Some split: if_splits)

declare write_content_loop.simps [simp del]

definition write_content_impl ::
  "('s \<Rightarrow> string \<Rightarrow> nat \<times> 's) \<Rightarrow> (nat \<Rightarrow> io_env) \<Rightarrow> int \<Rightarrow> http_data \<Rightarrow> ex_data \<Rightarrow> 's
     \<Rightarrow> (bool \<times> ex_data \<times> 's) cpp" where
  "write_content_impl sink_write env max_chunk_size hdata d s =
     write_content_loop sink_write env (file_path (hd_fi hdata)) max_chunk_size (read_end hdata) 0
       (read_start hdata) d s"

text \<open>
  \<open>http_server_ostream_policy::perform\<close>: the policy holds a stream pointer and drops it at the
  end when \<open>reset_stream_at_end_of_io\<close>. An exception of the content loop passes through.
\<close>

record 's ostream_policy =
  ostream_impl :: "'s option"
  ex :: ex_data
  reset_stream_at_end_of_io :: bool
  max_chunk_size :: int

definition perform ::
  "('s \<Rightarrow> string \<Rightarrow> nat \<times> 's) \<Rightarrow> (nat \<Rightarrow> io_env) \<Rightarrow> (http_data \<Rightarrow> string \<times> bool) \<Rightarrow> http_data
     \<Rightarrow> 's ostream_policy \<Rightarrow> (bool \<times> 's option \<times> 's ostream_policy) cpp" where
  "perform sink_write env get_reply_headers hdata p =
     (let finish = (\<lambda>p. if reset_stream_at_end_of_io p then p\<lparr>ostream_impl := None\<rparr> else p)
      in case ostream_impl p of
           None \<Rightarrow> Ret (False, None, finish p)
         | Some s \<Rightarrow>
             (case get_reply_headers hdata of
                (reply_headers, is_need_perform_content) \<Rightarrow>
                  (case sink_write s reply_headers of
                     (n, s1) \<Rightarrow>
                       if is_need_perform_content \<and> n > 0
                       then cbind (write_content_impl sink_write env (max_chunk_size p) hdata (ex p) s1)
                              (\<lambda>(st, d, s2). Ret (st, Some s2, finish (p\<lparr>ostream_impl := Some s2, ex := d\<rparr>)))
                       else Ret (n > 0, Some s1, finish (p\<lparr>ostream_impl := Some s1\<rparr>)))))"

subsection \<open>What the waits guarantee\<close>

text \<open>
  The availability values the stream may have been told by iteration \<open>i\<close>; the blocks it delivers: each is
  what the disk held at its position when it was read, each follows the previous one, and each was read after
  enough bytes for it had been announced; and an honest world, in which every announced value is true of the
  file on disk, whose final contents are \<open>content\<close>.
\<close>

definition announced :: "(nat \<Rightarrow> io_env) \<Rightarrow> ex_data \<Rightarrow> nat \<Rightarrow> int set" where
  "announced env d i =
     {ex_avaliable d} \<union> {n. \<exists>j < i. Ev_bytes n \<in> set (env_events (env j)) \<union> set (env_wakes (env j))}"

fun block_trace ::
  "(nat \<Rightarrow> io_env) \<Rightarrow> string \<Rightarrow> ex_data \<Rightarrow> int \<Rightarrow> int \<Rightarrow> nat \<Rightarrow> int \<Rightarrow> string list \<Rightarrow> bool" where
  "block_trace env path d chunk bytes_end i seek [] = False"
| "block_trace env path d chunk bytes_end i seek (block # blocks) =
     ((\<exists>disk. env_disk (env i) path = Some disk \<and> block = take (nat chunk) (drop (nat seek) disk)) \<and> block \<noteq> [] \<and>
      (\<exists>n \<in> announced env d (Suc i). min (seek + chunk) bytes_end \<le> n) \<and>
      (if bytes_end \<le> seek + chunk then blocks = []
       else block_trace env path d chunk bytes_end (Suc i) (seek + int (length block)) blocks))"

definition honest :: "string \<Rightarrow> string \<Rightarrow> (nat \<Rightarrow> io_env) \<Rightarrow> ex_data \<Rightarrow> bool" where
  "honest path content env d \<longleftrightarrow>
     (\<forall>i disk. env_disk (env i) path = Some disk \<longrightarrow> length disk = length content \<and>
        (\<forall>n \<in> announced env d (Suc i). take (nat n) disk = take (nat n) content))"

lemma honest_block:
  assumes "honest path content env d0" and "env_disk (env i) path = Some disk" and "n \<in> announced env d0 (Suc i)"
    and "0 \<le> seek" and "seek + ro \<le> n \<or> int (length content) \<le> n" and "0 \<le> ro"
  shows "take (nat ro) (drop (nat seek) disk) = take (nat ro) (drop (nat seek) content)"
proof (cases "int (length content) \<le> n")
  case True
  then have "disk = content"
    using assms(1-3) unfolding honest_def by (metis nat_le_iff nat_int nat_mono take_all)
  then show ?thesis by simp
next
  case False
  then have le: "seek + ro \<le> n" using assms(5) by simp
  have agree: "take (nat n) disk = take (nat n) content"
    using assms(1-3) by (simp add: honest_def)
  have m: "min (nat (seek + ro)) (nat n) = nat (seek + ro)" using le by linarith
  have "take (nat (seek + ro)) disk = take (nat (seek + ro)) content"
    using arg_cong [OF agree, of "take (nat (seek + ro))"] by (simp add: m)
  moreover have "take (nat ro) (drop (nat seek) xs) = drop (nat seek) (take (nat (seek + ro)) xs)" for xs :: string
    using assms(4,6) by (simp add: take_drop nat_add_distrib add.commute)
  ultimately show ?thesis by simp
qed

lemma honest_blocks:
  "honest path content env d0 \<Longrightarrow> 0 \<le> seek \<Longrightarrow> 0 < chunk \<Longrightarrow>
   block_trace env path d0 chunk (int (length content)) i seek blocks \<Longrightarrow>
   concat blocks = drop (nat seek) content"
proof (induction blocks arbitrary: i seek)
  case (Cons block blocks)
  let ?eof = "int (length content) \<le> seek + chunk"
  from Cons.prems(4) obtain disk n where disk: "env_disk (env i) path = Some disk"
    "block = take (nat chunk) (drop (nat seek) disk)" and n: "n \<in> announced env d0 (Suc i)"
    "min (seek + chunk) (int (length content)) \<le> n"
    and rest: "if ?eof then blocks = []
       else block_trace env path d0 chunk (int (length content)) (Suc i) (seek + int (length block)) blocks"
    by auto
  have slice: "block = take (nat chunk) (drop (nat seek) content)"
    using honest_block [OF Cons.prems(1) disk(1) n(1) Cons.prems(2), of chunk] n(2) Cons.prems(3) disk(2)
    by (simp add: min_le_iff_disj)
  show ?case
  proof (cases ?eof)
    case True
    then show ?thesis using rest slice Cons.prems(2,3) by (simp add: nat_le_iff)
  next
    case False
    then have len: "length block = nat chunk" using slice Cons.prems(2,3) by simp
    have "concat blocks = drop (nat (seek + int (length block))) content"
      using rest False Cons.prems len by (intro Cons.IH [where i = "Suc i"]) simp_all
    moreover have "nat (seek + int (length block)) = nat chunk + nat seek"
      using len Cons.prems(2,3) by simp
    ultimately show ?thesis
      using slice by (simp add: drop_drop [symmetric] del: drop_drop)
  qed
qed simp

lemma events_avaliable:
  "ex_avaliable (foldl apply_event d es) \<in> {ex_avaliable d} \<union> {n. Ev_bytes n \<in> set es}"
proof (induction es arbitrary: d)
  case (Cons e es)
  have "ex_avaliable (apply_event d e) \<in> {ex_avaliable d} \<union> {n. Ev_bytes n = e}"
    by (cases e) (auto simp: on_bytes_avaliable_change_def on_break_def)
  with Cons.IH [of "apply_event d e"] show ?case by auto
qed simp

lemma wait_avaliable:
  "ex_avaliable (snd (wait_for_bytes ws d b)) \<in> {ex_avaliable d} \<union> {n. Ev_bytes n \<in> set ws}"
proof (induction ws d b rule: wait_for_bytes.induct)
  case (2 w ws d b)
  have "ex_avaliable (apply_event d w) \<in> {ex_avaliable d} \<union> {n. Ev_bytes n = w}"
    by (cases w) (auto simp: on_bytes_avaliable_change_def on_break_def)
  with 2 show ?case by auto
qed simp

lemma wait_ok: "wait_for_bytes ws d b = (True, d') \<Longrightarrow> b \<le> ex_avaliable d' \<and> ex_state d' \<noteq> Is_breaked"
  by (induction ws d b rule: wait_for_bytes.induct) (auto split: if_splits)

lemma wait_broken: "ex_state d = Is_breaked \<Longrightarrow> wait_for_bytes ws d b = (False, d)"
  by (cases ws) simp_all

lemma announced_mono: "i \<le> j \<Longrightarrow> announced env d i \<subseteq> announced env d j"
  by (auto simp: announced_def intro: less_le_trans)

lemma announced_iteration:
  assumes "ex_avaliable d \<in> announced env d0 i"
    and "wait_for_bytes (env_wakes (env i)) (foldl apply_event d (env_events (env i))) b = (ok, d1)"
  shows "ex_avaliable d1 \<in> announced env d0 (Suc i)"
proof -
  have "ex_avaliable d1 \<in> {ex_avaliable d} \<union> {n. Ev_bytes n \<in> set (env_events (env i))}
      \<union> {n. Ev_bytes n \<in> set (env_wakes (env i))}"
    using wait_avaliable [of "env_wakes (env i)" "foldl apply_event d (env_events (env i))" b]
      events_avaliable [of d "env_events (env i)"] assms(2) by auto
  then show ?thesis
    using assms(1) announced_mono [of i "Suc i" env d0] by (auto simp: announced_def)
qed

context octet_sink
begin

lemma write_content_exact:
  "write_content_loop sink_write env path ro be i seek d s = Ret (True, d', s') \<Longrightarrow>
   ex_avaliable d \<in> announced env d0 i \<Longrightarrow> nat ro < limit \<Longrightarrow>
   \<exists>blocks. block_trace env path d0 ro be i seek blocks \<and> sent s' = sent s @ concat blocks"
proof (induction "nat (be - seek)" arbitrary: i seek d s rule: less_induct)
  case less
  let ?eof = "seek + ro \<ge> be"
  let ?wait = "if ?eof then be else seek + ro"
  obtain d1 where w: "wait_for_bytes (env_wakes (env i)) (foldl apply_event d (env_events (env i))) ?wait
      = (True, d1)"
    using less.prems(1) by (subst (asm) write_content_loop.simps) (auto simp: Let_def split: if_splits prod.splits)
  obtain block where block: "read_block (env i) path seek ro = Ret (Some block)"
    using less.prems(1) w
    by (subst (asm) write_content_loop.simps) (auto simp: Let_def split: if_splits option.splits cpp.splits)
  obtain s1 where s1: "sink_write s block = (length block, s1)"
    using less.prems(1) w block
    by (subst (asm) write_content_loop.simps) (auto simp: Let_def split: if_splits prod.splits)
  have rest: "(if ?eof then Ret (True, d1, s1)
      else write_content_loop sink_write env path ro be (Suc i) (seek + int (length block)) d1 s1)
      = Ret (True, d', s')"
    using less.prems(1) w block s1
    by (subst (asm) write_content_loop.simps) (auto simp: Let_def split: if_splits)
  have known: "ex_avaliable d1 \<in> announced env d0 (Suc i)"
    using announced_iteration [OF less.prems(2) w] .
  then have told: "\<exists>n \<in> announced env d0 (Suc i). min (seek + ro) be \<le> n"
    using wait_ok [OF w] by (intro bexI [OF _ known]) (auto split: if_splits)
  have b: "block \<noteq> []" "length block \<le> nat ro" using block by (auto simp: read_block_Some)
  then have sent1: "sent s1 = sent s @ block" using write_all [OF _ s1] less.prems(3) by simp
  show ?case
  proof (cases ?eof)
    case True
    then show ?thesis
      using rest sent1 block told by (intro exI [of _ "[block]"]) (auto simp: read_block_Some)
  next
    case False
    then have "nat (be - (seek + int (length block))) < nat (be - seek)" using b by (cases block) simp_all
    then obtain blocks where "block_trace env path d0 ro be (Suc i) (seek + int (length block)) blocks"
      "sent s' = sent s1 @ concat blocks"
      using less.hyps [of "seek + int (length block)" "Suc i" d1 s1] rest False known less.prems(3) by auto
    then show ?thesis
      using sent1 block told False by (intro exI [of _ "block # blocks"]) (auto simp: read_block_Some)
  qed
qed

end

text \<open>A sink that takes the next \<open>n\<close> writes in full, and a world in which all is on disk.\<close>

primrec accepts :: "('s \<Rightarrow> string \<Rightarrow> nat \<times> 's) \<Rightarrow> nat \<Rightarrow> int \<Rightarrow> 's \<Rightarrow> bool" where
  "accepts sink_write 0 ro s = True"
| "accepts sink_write (Suc n) ro s =
     (\<forall>b. b \<noteq> [] \<and> length b \<le> nat ro \<longrightarrow> (\<exists>s'. sink_write s b = (length b, s') \<and> accepts sink_write n ro s'))"

lemma accepts_mono: "n \<le> m \<Longrightarrow> accepts sink_write m ro s \<Longrightarrow> accepts sink_write n ro s"
proof (induction m arbitrary: n s)
  case 0
  then show ?case by simp
next
  case (Suc m)
  show ?case
  proof (cases n)
    case (Suc k)
    then show ?thesis using Suc.prems Suc.IH [of k] by fastforce
  qed simp
qed

definition quiet :: "string \<Rightarrow> string \<Rightarrow> (nat \<Rightarrow> io_env) \<Rightarrow> bool" where
  "quiet path content env \<longleftrightarrow>
     (\<forall>i. env_events (env i) = [] \<and> env_wakes (env i) = [] \<and> env_disk (env i) path = Some content)"

lemma quiet_wait:
  "ex_state d \<noteq> Is_breaked \<Longrightarrow> b \<le> ex_avaliable d \<Longrightarrow> wait_for_bytes [] d b = (True, d)"
  by simp

lemma write_content_succeeds:
  "accepts sink_write (nat (int (length content) - seek)) ro s \<Longrightarrow> quiet path content env \<Longrightarrow>
   int (length content) \<le> ex_avaliable d \<Longrightarrow> ex_state d \<noteq> Is_breaked \<Longrightarrow>
   0 \<le> seek \<Longrightarrow> seek < int (length content) \<Longrightarrow> 0 < ro \<Longrightarrow>
   \<exists>s'. write_content_loop sink_write env path ro (int (length content)) i seek d s = Ret (True, d, s')"
proof (induction "nat (int (length content) - seek)" arbitrary: i seek s rule: less_induct)
  case less
  let ?eof = "seek + ro \<ge> int (length content)"
  have env: "env_events (env i) = []" "env_wakes (env i) = []" "env_disk (env i) path = Some content"
    using less.prems(2) by (simp_all add: quiet_def)
  define block where "block = take (nat ro) (drop (nat seek) content)"
  have ne: "block \<noteq> []" using less.prems(5-7) by (simp add: block_def nat_less_iff)
  have rb: "read_block (env i) path seek ro = Ret (Some block)"
    using less.prems(5) ne by (simp add: read_block_def env block_def)
  have lb: "length block \<le> nat ro" by (simp add: block_def)
  obtain k where k: "nat (int (length content) - seek) = Suc k"
    using less.prems(6) by (metis diff_gt_0_iff_gt gr0_conv_Suc zero_less_nat_eq)
  obtain s1 where s1: "sink_write s block = (length block, s1)" "accepts sink_write k ro s1"
    using less.prems(1) lb ne by (auto simp: k)
  have wait: "wait_for_bytes [] d (if ?eof then int (length content) else seek + ro) = (True, d)"
    using less.prems(3,4) by (intro quiet_wait) auto
  have unfold: "write_content_loop sink_write env path ro (int (length content)) i seek d s =
      (if ?eof then Ret (True, d, s1)
       else write_content_loop sink_write env path ro (int (length content)) (Suc i) (seek + int (length block)) d s1)"
    using wait less.prems(4) rb s1
    by (subst write_content_loop.simps) (simp add: env Let_def)
  show ?case
  proof (cases ?eof)
    case True
    then show ?thesis using unfold by simp
  next
    case False
    then have len: "length block = nat ro" using less.prems(5) by (simp add: block_def)
    have next_seek: "0 \<le> seek + int (length block)" "seek + int (length block) < int (length content)"
      "nat (int (length content) - (seek + int (length block))) < nat (int (length content) - seek)"
      using len False less.prems(5-7) by linarith+
    have "nat (int (length content) - (seek + int (length block))) \<le> k"
      using next_seek(3) k by linarith
    then have acc: "accepts sink_write (nat (int (length content) - (seek + int (length block)))) ro s1"
      using s1(2) by (rule accepts_mono)
    have "\<exists>s'. write_content_loop sink_write env path ro (int (length content)) (Suc i)
        (seek + int (length block)) d s1 = Ret (True, d, s')"
      by (rule less.hyps [OF next_seek(3) acc less.prems(2-4) next_seek(1,2) less.prems(7)])
    then show ?thesis using unfold False by simp
  qed
qed

subsection \<open>Heads, bodies and the socket\<close>

definition date_line :: "string \<Rightarrow> string" where
  "date_line gmt = (if gmt = [] then [] else ''Date: '' @ gmt @ crlf)"

lemma etag_date_headers: "add_etag_date_headers gmt now out fi = out @ date_line gmt"
  by (simp add: add_etag_date_headers_def date_line_def Let_def http_etag_def etag_text_def)

text \<open>The head of a whole-file reply announces the file's size, and the HEAD reply announces the
  same size without asking for a body.\<close>

theorem content_reply_head:
  assumes "lexical_ok bx"
  shows "send_content_reply bx gmt now hdata =
       (''HTTP/1.1 200 OK'' @ crlf @ date_line gmt @ ''Content-Type: application/octet-stream'' @ crlf
          @ ''Accept-Ranges: bytes'' @ crlf
          @ ''Content-Length: '' @ decimal_int (file_size (hd_fi hdata)) @ crlf @ crlf, True) \<and>
     head_reply bx gmt now hdata =
       (''HTTP/1.1 200 Ok'' @ crlf @ date_line gmt @ ''Content-Type: application/octet-stream'' @ crlf
          @ ''Content-Length: '' @ decimal_int (file_size (hd_fi hdata)) @ crlf @ crlf, False)"
  using assms
  by (simp add: send_content_reply_def head_reply_def Let_def etag_date_headers lexical_num_text)

definition sample_info :: hc_file_info where
  "sample_info = \<lparr>file_path = ''f'', file_size = 3, avaliable_bytes = 3, subscribers = []\<rparr>"

theorem content_reply_head_witness:
  "snd (send_content_reply lexical_reference [] 0 \<lparr>hd_fi = sample_info, read_start = 0, read_end = 3\<rparr>)"
  using content_reply_head [OF lexical_ok_reference, of "[]" 0
      "\<lparr>hd_fi = sample_info, read_start = 0, read_end = 3\<rparr>"] by simp

definition partial_head :: "string \<Rightarrow> int \<Rightarrow> int \<Rightarrow> int \<Rightarrow> int \<Rightarrow> string" where
  "partial_head gmt fpos lpos fsize len =
     ''HTTP/1.1 206 Partial-Content'' @ crlf @ date_line gmt @ ''Content-Type: application/octet-stream'' @ crlf
       @ ''Accept-Ranges: bytes'' @ crlf
       @ ''Content-Range: bytes '' @ decimal_int fpos @ ''-'' @ decimal_int lpos @ ''/'' @ decimal_int fsize
       @ crlf @ ''Content-Length: '' @ decimal_int len @ crlf @ crlf"

text \<open>The head of a range reply: for a range that ends before the end of the file the announced
  range and length agree; for a range that runs to the end (an open range, whose end the server
  sets to the size) and does not start at 0, the announced length is one more than the range.\<close>

theorem partial_reply_head:
  assumes "lexical_ok bx" and "0 < read_start hdata" and "read_start hdata \<le> read_end hdata"
    and "read_end hdata \<le> file_size (hd_fi hdata)"
  shows "fst (partial_content_reply bx gmt now hdata) =
     (if read_end hdata < file_size (hd_fi hdata)
      then partial_head gmt (read_start hdata) (read_end hdata) (file_size (hd_fi hdata))
             (read_end hdata - read_start hdata + 1)
      else partial_head gmt (read_start hdata) (read_end hdata - 1) (file_size (hd_fi hdata))
             (((read_end hdata - 1) - read_start hdata + 1) + 1))"
  using assms
  by (simp add: partial_content_reply_def partial_head_def Let_def etag_date_headers lexical_num_text)

theorem partial_reply_head_witness:
  "fst (partial_content_reply lexical_reference [] 0 \<lparr>hd_fi = sample_info, read_start = 1, read_end = 3\<rparr>) =
   partial_head [] 1 2 3 3"
  using partial_reply_head [OF lexical_ok_reference, of
      "\<lparr>hd_fi = sample_info, read_start = 1, read_end = 3\<rparr>" "[]" 0]
  by (simp add: sample_info_def)

lemma push_all:
  "buf \<noteq> [] \<Longrightarrow> r \<ge> int (length buf) \<Longrightarrow> length buf \<le> INT_MAX \<Longrightarrow> push (r # rs) buf 0 = (length buf, rs)"
  by (cases rs) (auto simp: Let_def)

lemma socket_write_all:
  assumes "send_results conn = r # rs" and "r \<ge> int (length b)" and "length b \<le> INT_MAX" and "b \<noteq> []"
  shows "socket_write conn b =
     (length b, \<lparr>send_results = rs, peer_received = peer_received conn @ b\<rparr>)"
proof -
  have "sint (word_of_nat (length b) :: 32 word) = int (length b)"
    using assms(3) by (intro sint_small) (simp add: INT_MAX_def)
  then show ?thesis
    using assms push_all [OF assms(4,2,3), of rs]
    by (cases conn) (auto simp: socket_write_def mg_write_def)
qed

lemma socket_accepts:
  "n \<le> length (send_results conn) \<Longrightarrow> \<forall>r \<in> set (send_results conn). ro \<le> r \<Longrightarrow> 0 \<le> ro \<Longrightarrow>
   ro \<le> int INT_MAX \<Longrightarrow> accepts socket_write n ro conn"
proof (induction n arbitrary: conn)
  case (Suc n)
  then obtain r rs where rs: "send_results conn = r # rs" by (cases "send_results conn") auto
  show ?case
    using Suc.prems rs Suc.IH [of "\<lparr>send_results = rs, peer_received = peer_received conn @ b\<rparr>" for b]
    by (auto simp: socket_write_all [OF rs] le_nat_iff)
qed simp


text \<open>When the whole file is already available, the connection stays open and nothing interrupts
  the stream, the request succeeds: the client gets the full head and the full contents, for any
  positive chunk size.\<close>

theorem stream_completes:
  assumes "ostream_impl p = Some conn" and "reply hdata = (head, True)" and "head \<noteq> []"
    and "int (length head) \<le> int INT_MAX" and "quiet (file_path (hd_fi hdata)) content env"
    and "read_end hdata = int (length content)" and "read_start hdata = 0" and "content \<noteq> []"
    and "int (length content) \<le> ex_avaliable (ex p)" and "ex_state (ex p) \<noteq> Is_breaked"
    and "0 < max_chunk_size p" and "max_chunk_size p \<le> int INT_MAX"
    and "length content < length (send_results conn)"
    and "\<forall>r \<in> set (send_results conn). max (int (length head)) (max_chunk_size p) \<le> r"
  shows "\<exists>conn' p'. perform socket_write env reply hdata p = Ret (True, Some conn', p') \<and>
     peer_received conn' = peer_received conn @ head @ content"
proof -
  let ?path = "file_path (hd_fi hdata)"
  obtain r rs where rs: "send_results conn = r # rs" using assms(13) by (cases "send_results conn") auto
  let ?conn1 = "\<lparr>send_results = rs, peer_received = peer_received conn @ head\<rparr>"
  have w: "socket_write conn head = (length head, ?conn1)"
    using assms(3,4,14) rs by (intro socket_write_all) auto
  have acc: "accepts socket_write (nat (int (length content) - 0)) (max_chunk_size p) ?conn1"
    using assms(11-14) rs by (intro socket_accepts) auto
  obtain conn' where loop: "write_content_loop socket_write env ?path (max_chunk_size p) (int (length content)) 0 0
      (ex p) ?conn1 = Ret (True, ex p, conn')"
    using write_content_succeeds [OF acc assms(5,9,10)] assms(8,11) by auto
  have "honest ?path content env (ex p)" using assms(5) by (simp add: honest_def quiet_def)
  moreover have "nat (max_chunk_size p) < 2 ^ 31" using assms(11,12) by (simp add: nat_less_iff INT_MAX_def)
  then obtain blocks where "block_trace env ?path (ex p) (max_chunk_size p) (int (length content)) 0 0 blocks"
    "peer_received conn' = peer_received ?conn1 @ concat blocks"
    using mongoose.write_content_exact [OF loop, of "ex p"] by (auto simp: announced_def)
  ultimately have "peer_received conn' = peer_received ?conn1 @ content"
    using honest_blocks [of ?path content env "ex p" 0 "max_chunk_size p" 0 blocks] assms(11) by simp
  then show ?thesis
    using assms(1-3,6,7) w loop by (auto simp: perform_def Let_def write_content_impl_def)
qed

definition sample_env :: "string \<Rightarrow> nat \<Rightarrow> io_env" where
  "sample_env content i = \<lparr>env_events = [], env_wakes = [], env_disk = (\<lambda>_. Some content)\<rparr>"

lemma sample_env_quiet: "quiet path content (sample_env content)"
  by (simp add: quiet_def sample_env_def)

definition sample_policy :: "mg_connection ostream_policy" where
  "sample_policy = \<lparr>ostream_impl = Some \<lparr>send_results = [9, 9, 9, 9, 9], peer_received = []\<rparr>,
     ex = \<lparr>ex_avaliable = 3, ex_state = State_default\<rparr>, reset_stream_at_end_of_io = True,
     max_chunk_size = 2\<rparr>"

definition sample_request :: http_data where
  "sample_request = \<lparr>hd_fi = sample_info, read_start = 0, read_end = 3\<rparr>"

lemma small_max: "4 \<le> int INT_MAX" "2 \<le> int INT_MAX" "1 \<le> int INT_MAX"
  by (simp_all add: INT_MAX_def)

theorem stream_completes_witness:
  "\<exists>conn' p'. perform socket_write (sample_env ''abc'') (\<lambda>h. (''H'', True)) sample_request sample_policy =
     Ret (True, Some conn', p') \<and> peer_received conn' = ''Habc''"
proof -
  have "ostream_impl sample_policy = Some \<lparr>send_results = [9, 9, 9, 9, 9], peer_received = []\<rparr>"
    by (simp add: sample_policy_def)
  from stream_completes [OF this, of "\<lambda>h. (''H'', True)" sample_request "''H''" "''abc''" "sample_env ''abc''"]
  show ?thesis
    using sample_env_quiet [of _ "''abc''"] small_max
    by (simp add: sample_policy_def sample_request_def)
qed





text \<open>The last read of a range takes a whole chunk: a range that ends inside a chunk is answered
  with all of that chunk's bytes, beyond the end the head announces, also bytes whose arrival was
  not waited for.\<close>

theorem range_reply_overruns:
  assumes "quiet (file_path (hd_fi hdata)) content env" and "ex_state d \<noteq> Is_breaked" and "read_end hdata \<le> ex_avaliable d"
    and "0 \<le> read_start hdata" and "read_end hdata \<le> read_start hdata + chunk"
    and "read_start hdata + chunk \<le> int (length content)"
    and "0 < chunk" and "chunk \<le> int INT_MAX"
    and "send_results conn = r # rs" and "chunk \<le> r"
  shows "\<exists>conn'. write_content_impl socket_write env chunk hdata d conn = Ret (True, d, conn') \<and>
     peer_received conn' = peer_received conn @ take (nat chunk) (drop (nat (read_start hdata)) content)"
proof -
  define block where "block = take (nat chunk) (drop (nat (read_start hdata)) content)"
  have len: "int (length block) = chunk" using assms(4,6,7) by (simp add: block_def)
  then have ne: "block \<noteq> []" using assms(7) by auto
  have env: "env_events (env 0) = []" "env_wakes (env 0) = []" "env_disk (env 0) (file_path (hd_fi hdata)) = Some content"
    using assms(1) by (simp_all add: quiet_def)
  have "read_block (env 0) (file_path (hd_fi hdata)) (read_start hdata) chunk = Ret (Some block)"
    using assms(4) ne by (simp add: read_block_def env block_def)
  moreover have "socket_write conn block =
      (length block, \<lparr>send_results = rs, peer_received = peer_received conn @ block\<rparr>)"
    using assms(8,10) len ne by (intro socket_write_all [OF assms(9)]) linarith+
  ultimately have "write_content_impl socket_write env chunk hdata d conn =
      Ret (True, d, \<lparr>send_results = rs, peer_received = peer_received conn @ block\<rparr>)"
    unfolding write_content_impl_def
    using assms(2,3,5) by (subst write_content_loop.simps) (simp add: env Let_def)
  then show ?thesis by (simp add: block_def)
qed

theorem range_reply_overruns_witness:
  "\<exists>conn'. write_content_impl socket_write (sample_env ''abcdef'') 4
      \<lparr>hd_fi = sample_info, read_start = 1, read_end = 2\<rparr> \<lparr>ex_avaliable = 2, ex_state = State_default\<rparr>
      \<lparr>send_results = [9], peer_received = []\<rparr> =
     Ret (True, \<lparr>ex_avaliable = 2, ex_state = State_default\<rparr>, conn') \<and> peer_received conn' = ''bcde''"
  using range_reply_overruns [OF sample_env_quiet, of "\<lparr>ex_avaliable = 2, ex_state = State_default\<rparr>"
      "\<lparr>hd_fi = sample_info, read_start = 1, read_end = 2\<rparr>" 4 "''abcdef''"
      "\<lparr>send_results = [9], peer_received = []\<rparr>" 9 "[]"] small_max
  by simp

lemma break_stops_stream:
  "ex_state d = Is_breaked \<Longrightarrow> env_events (env i) = [] \<Longrightarrow>
   write_content_loop sink_write env path ro be i seek d s = Ret (False, d, s)"
  by (subst write_content_loop.simps) (simp add: Let_def)

end
