(* ===== verification/Http_Server.thy ===== *)
theory Http_Server
  imports Http_Stream Services Settings
begin

section \<open>The HTTP transport and the HTTP server core\<close>

text \<open>
  \<open>src/src/common/network/details/http_mongoose_transport.cpp\<close> and
  \<open>src/src/core/http_server/http_server_core.{hpp,cpp}\<close>. The mongoose server itself is a
  parameter (whether it starts, and the requests it hands over); an event dispatch runs the
  registered context's handlers on a state of the caller's choice. The core interprets the
  \<open>service\<close> interface.
\<close>

subsection \<open>Request dispatch\<close>

record mg_request_info =
  request_method :: string
  ri_uri :: string
  http_version :: string

datatype mg_event = MG_NEW_REQUEST | MG_REQUEST_COMPLETE | MG_HTTP_ERROR | MG_EVENT_LOG | MG_OTHER_EVENT

text \<open>\<open>mg_get_header\<close> is a parameter: \<open>None\<close> is a null pointer.\<close>

definition mon_is_range_request ::
  "boost_lexical \<Rightarrow> (string \<Rightarrow> string option) \<Rightarrow> mg_request_info \<Rightarrow> range_header \<Rightarrow> (bool \<times> range_header) cpp" where
  "mon_is_range_request bx mg_get_header ri rheader =
     (if http_version ri \<noteq> ''1.1'' then Ret (False, rheader)
      else if request_method ri \<noteq> ''GET'' then Ret (False, rheader)
      else case mg_get_header ''Range'' of
             Some h \<Rightarrow> http_translate_range_header bx rheader h
           | None \<Rightarrow> Ret (False, rheader))"

definition mon_is_head_request :: "mg_request_info \<Rightarrow> bool" where
  "mon_is_head_request ri =
     (if http_version ri = ''1.1'' \<or> http_version ri = ''1.0''
      then (if request_method ri = ''HEAD'' then True else False) else False)"

definition mon_is_content_requst :: "mg_request_info \<Rightarrow> bool" where
  "mon_is_content_requst ri =
     (if http_version ri = ''1.1'' \<or> http_version ri = ''1.0''
      then (if request_method ri = ''GET'' \<or> request_method ri = ''POST'' then True else False) else False)"

text \<open>The three operations of \<open>http_transport_event_handler\<close>, on a state \<open>'s\<close>.\<close>

record 's event_handler =
  on_partial_content_request :: "string \<Rightarrow> range_header \<Rightarrow> 's \<Rightarrow> 's cpp"
  on_head_request :: "string \<Rightarrow> 's \<Rightarrow> 's cpp"
  on_content_request :: "string \<Rightarrow> 's \<Rightarrow> 's cpp"

definition handle_new_request ::
  "boost_lexical \<Rightarrow> 's event_handler \<Rightarrow> (string \<Rightarrow> string option) \<Rightarrow> mg_request_info \<Rightarrow> range_header
     \<Rightarrow> 's \<Rightarrow> 's cpp" where
  "handle_new_request bx h mg_get_header ri rheader0 s =
     (let uri = http_normalize_uri (ri_uri ri)
      in cbind (mon_is_range_request bx mg_get_header ri rheader0) (\<lambda>(is_range, rheader).
         cbind (if is_range then on_partial_content_request h uri rheader s else Ret s) (\<lambda>s.
         cbind (if mon_is_head_request ri then on_head_request h uri s else Ret s) (\<lambda>s.
                if mon_is_content_requst ri then on_content_request h uri s else Ret s))))"

text \<open>
  The result tells mongoose whether the request was handled; exceptions are swallowed. The warning of
  an HTTP error prints \<open>ev_data\<close>, in which mongoose passes the status number, as a C string.
\<close>

definition dispatch_http_message ::
  "boost_lexical \<Rightarrow> 's event_handler \<Rightarrow> (string \<Rightarrow> string option) \<Rightarrow> mg_event \<Rightarrow> mg_request_info
     \<Rightarrow> range_header \<Rightarrow> 's \<Rightarrow> (bool \<times> 's option) cpp" where
  "dispatch_http_message bx h mg_get_header event ri rheader0 s =
     (case event of
        MG_NEW_REQUEST \<Rightarrow>
          (case handle_new_request bx h mg_get_header ri rheader0 s of
             Ret s' \<Rightarrow> Ret (True, Some s')
           | Throw e \<Rightarrow> Ret (False, None)
           | Undef \<Rightarrow> Undef)
      | MG_HTTP_ERROR \<Rightarrow> Undef
      | MG_REQUEST_COMPLETE \<Rightarrow> Ret (False, Some s)
      | MG_EVENT_LOG \<Rightarrow> Ret (True, Some s)
      | MG_OTHER_EVENT \<Rightarrow> Ret (False, Some s))"

text \<open>\<open>redirect_to_...\<close>: the user data is the transport object (its connected flag), or null.\<close>

definition redirect_to_dispatcher ::
  "boost_lexical \<Rightarrow> 's event_handler \<Rightarrow> (string \<Rightarrow> string option) \<Rightarrow> bool option \<Rightarrow> mg_event
     \<Rightarrow> mg_request_info \<Rightarrow> range_header \<Rightarrow> 's \<Rightarrow> (bool \<times> 's option) cpp" where
  "redirect_to_dispatcher bx h mg_get_header user_data event ri rheader0 s =
     (case user_data of
        None \<Rightarrow> Ret (False, Some s)
      | Some connected \<Rightarrow>
          if \<not> connected then Ret (False, Some s)
          else dispatch_http_message bx h mg_get_header event ri rheader0 s)"

subsection \<open>Transport lifecycle\<close>

record transport_config =
  tr_doc_root :: string
  tr_ip_addr :: string
  tr_port :: string
  tr_max_threads :: nat
  tr_context :: bool

record transport =
  mg_handle :: "nat option"
  tr_config :: transport_config
  http_context :: bool
  tr_stop :: bool

definition new_transport :: "transport_config \<Rightarrow> transport" where
  "new_transport config = \<lparr>mg_handle = None, tr_config = config, http_context = False, tr_stop = True\<rparr>"

definition transport_initialize :: "transport \<Rightarrow> transport" where
  "transport_initialize t = t"

text \<open>
  The test after \<open>mg_start\<close> is on the function's address, which is never null: \<open>started\<close> may be
  \<open>None\<close> and the call goes on.
\<close>

definition mg_start_is_null :: bool where "mg_start_is_null = False"

definition establish_connection :: "nat option \<Rightarrow> transport \<Rightarrow> transport cpp" where
  "establish_connection started t =
     (if mg_handle t \<noteq> None then Throw (Transport_exception ''this transport already in use'')
      else let t1 = t\<lparr>mg_handle := started\<rparr>
           in if mg_start_is_null then Throw (Transport_exception ''can not start mongoose'')
              else if \<not> tr_context (tr_config t1)
              then Throw (Transport_exception ''http_*_transport::context not valid or ill configurated'')
              else Ret (t1\<lparr>http_context := True, tr_stop := False\<rparr>))"

definition is_connected :: "transport \<Rightarrow> bool" where
  "is_connected t \<longleftrightarrow> \<not> tr_stop t"

definition stop_connection :: "transport \<Rightarrow> transport" where
  "stop_connection t =
     (if mg_handle t \<noteq> None then t\<lparr>tr_stop := True, mg_handle := None\<rparr> else t)"

text \<open>
  \<open>wait\<close> first waits for a notification, whatever the state: the list holds the transport's
  state at each wake-up, and \<open>None\<close> is a caller that is still blocked.
\<close>

fun transport_wait :: "transport list \<Rightarrow> transport option" where
  "transport_wait [] = None"
| "transport_wait (t # ts) = (if mg_handle t = None then Some t else transport_wait ts)"

subsection \<open>http_server_core\<close>

record hsc_local_config =
  doc_root :: string
  chunked_ostream :: bool
  hsc_max_chunk_size :: int
  cores_sync_timeout :: nat

record http_server_core =
  cur_state :: service_state
  transport_ptr :: "transport option"
  core_settings :: setting_manager
  core_fib :: "file_info_buffer option"
  local_config :: hsc_local_config

definition new_http_server_core :: "setting_manager \<Rightarrow> http_server_core" where
  "new_http_server_core sm =
     \<lparr>cur_state = 0, transport_ptr = None, core_settings = sm, core_fib = None,
      local_config = \<lparr>doc_root = [], chunked_ostream = False, hsc_max_chunk_size = 0, cores_sync_timeout = 0\<rparr>\<rparr>"

text \<open>
  The numbers that a failed cast leaves are \<open>junk_int\<close> and \<open>junk_size\<close>; \<open>exists\<close> and
  \<open>is_directory\<close> are the file system.
\<close>

record platform =
  pf_lexical :: boost_lexical
  junk_int :: int
  junk_size :: nat
  exists_path :: "string \<Rightarrow> bool"
  is_directory :: "string \<Rightarrow> bool"
  mg_start_result :: "nat option"

definition from_setting_manager :: "platform \<Rightarrow> setting_manager \<Rightarrow> transport_config cpp" where
  "from_setting_manager pf sm =
     cbind (setting_or_undef (get_setting sm Some [] ''doc_root'')) (\<lambda>root.
     cbind (setting_or_undef (get_setting sm Some [] ''server_addr'')) (\<lambda>addr.
     cbind (setting_or_undef (get_setting sm Some [] ''server_port'')) (\<lambda>port.
     cbind (setting_or_undef (get_setting sm (to_size (pf_lexical pf)) (junk_size pf) ''workers'')) (\<lambda>workers.
       if workers = 0 then Throw (Transport_exception ''need more workers for http server(> 0)'')
       else Ret \<lparr>tr_doc_root = root, tr_ip_addr = addr, tr_port = port, tr_max_threads = workers,
                 tr_context = False\<rparr>))))"

definition hcs_from_setting_manager :: "platform \<Rightarrow> setting_manager \<Rightarrow> hsc_local_config cpp" where
  "hcs_from_setting_manager pf sm =
     cbind (setting_or_undef (get_setting sm Some [] ''doc_root'')) (\<lambda>root.
     cbind (setting_or_undef (get_setting sm (to_i64 (pf_lexical pf)) (junk_int pf) ''hc_max_chunk_size'')) (\<lambda>chunk.
     cbind (setting_or_undef (get_setting sm (to_size (pf_lexical pf)) (junk_size pf) ''cores_sync_timeout'')) (\<lambda>tmo.
       if \<not> exists_path pf root \<or> \<not> is_directory pf root
       then Throw (Transport_exception ''invalid settings doc_root not exist or not directory'')
       else if True \<and> chunk < 1000
       then Throw (Transport_exception ''chunked ostream is enable but max_chunk_size value low for correct work'')
       else Ret \<lparr>doc_root = root, chunked_ostream = True, hsc_max_chunk_size = chunk, cores_sync_timeout = tmo\<rparr>)))"

text \<open>
  The constructor of the file info buffer runs on the first launch in the process: \<open>shared_fib\<close>
  is the process-wide buffer. What was assigned before an exception stays assigned.
\<close>

definition http_launch_service ::
  "platform \<Rightarrow> file_info_buffer \<Rightarrow> http_server_core \<Rightarrow> (bool \<times> http_server_core) cpp" where
  "http_launch_service pf shared_fib c =
     (if cur_state c = service_running then Ret (False, c)
      else case hcs_from_setting_manager pf (core_settings c) of
        Undef \<Rightarrow> Undef
      | Throw e \<Rightarrow> Ret (False, c)
      | Ret lc \<Rightarrow>
          let c1 = c\<lparr>local_config := lc\<rparr>
          in case from_setting_manager pf (core_settings c1) of
               Undef \<Rightarrow> Undef
             | Throw e \<Rightarrow> Ret (False, c1)
             | Ret tc \<Rightarrow>
                 let t = transport_initialize (new_transport (tc\<lparr>tr_context := True\<rparr>));
                     c2 = c1\<lparr>core_fib := Some shared_fib, transport_ptr := Some t\<rparr>
                 in case establish_connection (mg_start_result pf) t of
                      Undef \<Rightarrow> Undef
                    | Throw e \<Rightarrow> Ret (False, c2)
                    | Ret t' \<Rightarrow> Ret (True, c2\<lparr>transport_ptr := Some t', cur_state := service_running\<rparr>))"

definition http_stop_service :: "http_server_core \<Rightarrow> http_server_core" where
  "http_stop_service c =
     (if cur_state c = service_running
      then c\<lparr>cur_state := service_stoped,
             core_fib := map_option stop_graceful (core_fib c),
             transport_ptr := map_option stop_connection (transport_ptr c)\<rparr>
      else c)"

text \<open>A running server's \<open>wait\<close> blocks until another thread stops it.\<close>

definition http_wait_service :: "http_server_core \<Rightarrow> http_server_core option" where
  "http_wait_service c = (if cur_state c = service_running then None else Some c)"

definition http_clone :: "http_server_core \<Rightarrow> http_server_core" where
  "http_clone c = new_http_server_core (core_settings c)"

definition http_get_service_state :: "http_server_core \<Rightarrow> service_state" where
  "http_get_service_state c = cur_state c"

definition http_core_service_name :: string where
  "http_core_service_name = ''t2h_http_core''"

subsection \<open>Request handlers\<close>

text \<open>
  A handler runs on the core, the client's connection and the next free subscriber address. The
  stream it builds is subscribed to the file for the time of the reply; \<open>env\<close> is what happens to
  that stream and on disk meanwhile. An exception of the stream leaves the subscription in place. \<open>gmt\<close> and \<open>now\<close> are the clock.
\<close>

record request_state =
  rq_core :: http_server_core
  rq_conn :: mg_connection
  rq_sub :: nat

record request_world =
  w_bx :: boost_lexical
  w_env :: "nat \<Rightarrow> io_env"
  w_gmt :: string
  w_now :: "64 word"

definition get_ostream_policy :: "http_server_core \<Rightarrow> mg_connection \<Rightarrow> mg_connection ostream_policy" where
  "get_ostream_policy c tostream =
     \<lparr>ostream_impl = Some tostream, ex = initial_ex_data, reset_stream_at_end_of_io = True,
      max_chunk_size = hsc_max_chunk_size (local_config c)\<rparr>"

definition send_reply_for ::
  "request_world \<Rightarrow> (http_data \<Rightarrow> string \<times> bool) \<Rightarrow> nat \<Rightarrow> http_data \<Rightarrow> file_info_buffer \<Rightarrow> request_state
     \<Rightarrow> request_state cpp" where
  "send_reply_for w reply fi hdata b rs =
     (let policy = get_ostream_policy (rq_core rs) (rq_conn rs)
      in cbind (registr_subscriber b fi (rq_sub rs)) (\<lambda>(sid, b1).
         let policy1 = policy\<lparr>ex := on_bytes_avaliable_change (ex policy) (avaliable_bytes (hd_fi hdata))\<rparr>
         in cbind (perform socket_write (w_env w) reply hdata policy1) (\<lambda>(state, conn', policy2).
              cbind (unregistr_subscriber_id b1 fi (int sid)) (\<lambda>b2.
                Ret (rs\<lparr>rq_core := (rq_core rs)\<lparr>core_fib := Some b2\<rparr>,
                        rq_conn := (case conn' of Some cn \<Rightarrow> cn | None \<Rightarrow> rq_conn rs),
                        rq_sub := Suc (rq_sub rs)\<rparr>)))))"

definition core_on_partial_content_request ::
  "request_world \<Rightarrow> string \<Rightarrow> range_header \<Rightarrow> request_state \<Rightarrow> request_state cpp" where
  "core_on_partial_content_request w uri rheader rs =
     (case core_fib (rq_core rs) of
        None \<Rightarrow> Undef
      | Some b \<Rightarrow>
          (case get_info b (doc_root (local_config (rq_core rs)) @ uri) of
             None \<Rightarrow> Ret rs
           | Some fi \<Rightarrow>
               (case info_heap b fi of
                  None \<Rightarrow> Undef
                | Some info \<Rightarrow>
                    let start = (if bstart_1 rheader = range_all then 0 else bstart_1 rheader);
                        last = (if bend_1 rheader = range_all then file_size info else bend_1 rheader)
                    in send_reply_for w (partial_content_reply (w_bx w) (w_gmt w) (w_now w)) fi
                         \<lparr>hd_fi = info, read_start = start, read_end = last\<rparr> b rs)))"

definition core_on_head_request :: "request_world \<Rightarrow> string \<Rightarrow> request_state \<Rightarrow> request_state cpp" where
  "core_on_head_request w uri rs =
     (case core_fib (rq_core rs) of
        None \<Rightarrow> Undef
      | Some b \<Rightarrow>
          (case get_info b (doc_root (local_config (rq_core rs)) @ uri) of
             None \<Rightarrow> Ret rs
           | Some fi \<Rightarrow>
               (case info_heap b fi of
                  None \<Rightarrow> Undef
                | Some info \<Rightarrow>
                    send_reply_for w (head_reply (w_bx w) (w_gmt w) (w_now w)) fi
                      \<lparr>hd_fi = info, read_start = 0, read_end = file_size info\<rparr> b rs)))"

definition core_on_content_request :: "request_world \<Rightarrow> string \<Rightarrow> request_state \<Rightarrow> request_state cpp" where
  "core_on_content_request w uri rs =
     (case core_fib (rq_core rs) of
        None \<Rightarrow> Undef
      | Some b \<Rightarrow>
          (case get_info b (doc_root (local_config (rq_core rs)) @ uri) of
             None \<Rightarrow> Ret rs
           | Some fi \<Rightarrow>
               (case info_heap b fi of
                  None \<Rightarrow> Undef
                | Some info \<Rightarrow>
                    send_reply_for w (send_content_reply (w_bx w) (w_gmt w) (w_now w)) fi
                      \<lparr>hd_fi = info, read_start = 0, read_end = file_size info\<rparr> b rs)))"

definition core_handler :: "request_world \<Rightarrow> request_state event_handler" where
  "core_handler w =
     \<lparr>on_partial_content_request = core_on_partial_content_request w,
      on_head_request = core_on_head_request w,
      on_content_request = core_on_content_request w\<rparr>"

subsection \<open>Which handlers run\<close>

text \<open>Without an acceptable range header, a GET or POST of HTTP 1.0 or 1.1 runs the content handler
  only, a HEAD the head handler only, and any other request none; the URI is the normalised one.\<close>

theorem dispatch_plain_request:
  assumes "mon_is_range_request bx get_header ri rheader0 = Ret (False, r)"
  shows "handle_new_request bx h get_header ri rheader0 s =
     (if http_version ri \<in> {''1.0'', ''1.1''} \<and> request_method ri \<in> {''GET'', ''POST''}
      then on_content_request h (http_normalize_uri (ri_uri ri)) s
      else if http_version ri \<in> {''1.0'', ''1.1''} \<and> request_method ri = ''HEAD''
      then on_head_request h (http_normalize_uri (ri_uri ri)) s
      else Ret s)"
  using assms
  by (auto simp: handle_new_request_def Let_def mon_is_head_request_def mon_is_content_requst_def)

definition echo_handler :: "string event_handler" where
  "echo_handler = \<lparr>on_partial_content_request = (\<lambda>u r s. Ret (s @ ''P'' @ u)),
     on_head_request = (\<lambda>u s. Ret (s @ ''H'' @ u)), on_content_request = (\<lambda>u s. Ret (s @ ''C'' @ u))\<rparr>"

definition get_request :: mg_request_info where
  "get_request = \<lparr>request_method = ''GET'', ri_uri = ''/a+b'', http_version = ''1.1''\<rparr>"

definition zero_range :: range_header where
  "zero_range = \<lparr>bstart_1 = 0, bend_1 = 0, bstart_2 = 0, bend_2 = 0\<rparr>"

theorem dispatch_plain_request_witness:
  "handle_new_request lexical_reference echo_handler (\<lambda>n. None) get_request zero_range [] = Ret ''C/a b''"
proof -
  have "mon_is_range_request lexical_reference (\<lambda>n. None) get_request zero_range = Ret (False, zero_range)"
    by (simp add: mon_is_range_request_def)
  from dispatch_plain_request [OF this, of echo_handler "[]"] show ?thesis
    by (simp add: get_request_def echo_handler_def normalize_loop_map http_normalize_uri_def plus_to_space_def)
qed

text \<open>A GET with an acceptable range header is answered twice on the same connection: the partial
  reply is followed by the reply with the whole content.\<close>

theorem range_request_answered_twice:
  assumes "mon_is_range_request bx get_header ri rheader0 = Ret (True, r)"
  shows "handle_new_request bx h get_header ri rheader0 s =
     cbind (on_partial_content_request h (http_normalize_uri (ri_uri ri)) r s)
           (on_content_request h (http_normalize_uri (ri_uri ri)))"
proof -
  have "http_version ri = ''1.1''" "request_method ri = ''GET''"
    using assms by (auto simp: mon_is_range_request_def split: if_splits)
  then have "\<not> mon_is_head_request ri" "mon_is_content_requst ri"
    by (simp_all add: mon_is_head_request_def mon_is_content_requst_def)
  then show ?thesis using assms by (simp add: handle_new_request_def Let_def)
qed

theorem range_request_answered_twice_witness:
  "handle_new_request lexical_reference echo_handler (\<lambda>n. Some ''bytes=1-2'') get_request zero_range [] =
   Ret ''P/a bC/a b''"
proof -
  have "mon_is_range_request lexical_reference (\<lambda>n. Some ''bytes=1-2'') get_request zero_range =
      Ret (True, \<lparr>bstart_1 = 1, bend_1 = 2, bstart_2 = -2, bend_2 = 0\<rparr>)"
    by code_simp
  from range_request_answered_twice [OF this, of echo_handler "[]"] show ?thesis
    by (simp add: get_request_def echo_handler_def normalize_loop_map http_normalize_uri_def plus_to_space_def)
qed

text \<open>When mongoose does not start, the connection is still reported as established and the
  transport as connected; stopping it then changes nothing.\<close>

theorem failed_start_is_connected:
  assumes "mg_handle t = None" and "tr_context (tr_config t)"
  shows "\<exists>t'. establish_connection None t = Ret t' \<and> is_connected t' \<and> stop_connection t' = t'"
  using assms
  by (simp add: establish_connection_def mg_start_is_null_def is_connected_def stop_connection_def)

theorem failed_start_is_connected_witness:
  "\<exists>t'. establish_connection None (new_transport \<lparr>tr_doc_root = [], tr_ip_addr = [], tr_port = [],
      tr_max_threads = 1, tr_context = True\<rparr>) = Ret t' \<and> is_connected t'"
  using failed_start_is_connected [of "new_transport \<lparr>tr_doc_root = [], tr_ip_addr = [], tr_port = [],
      tr_max_threads = 1, tr_context = True\<rparr>"]
  by (auto simp: new_transport_def)

subsection \<open>The server core as a service\<close>

definition http_service :: "platform \<Rightarrow> file_info_buffer \<Rightarrow> http_server_core base_service" where
  "http_service pf fib =
     \<lparr>service_name = (\<lambda>c. http_core_service_name),
      launch_service = (\<lambda>c. case http_launch_service pf fib c of Ret r \<Rightarrow> r | _ \<Rightarrow> (False, c)),
      stop_service = http_stop_service, wait_service = http_wait_service,
      get_state = http_get_service_state\<rparr>"

lemma http_launch_true:
  assumes "http_launch_service pf fib c = Ret (True, c')"
  shows "cur_state c' = service_running \<and> 1000 \<le> hsc_max_chunk_size (local_config c') \<and>
     is_directory pf (doc_root (local_config c')) \<and> core_fib c' = Some fib \<and>
     (\<exists>t. transport_ptr c' = Some t \<and> is_connected t \<and> tr_max_threads (tr_config t) \<noteq> 0)"
  using assms
  by (auto simp: http_launch_service_def hcs_from_setting_manager_def from_setting_manager_def
      establish_connection_def new_transport_def transport_initialize_def is_connected_def Let_def
      cbind_eq_Ret split: if_splits cpp.splits)

interpretation http: service "http_service pf fib" for pf fib
proof unfold_locales
  fix s s'
  show "launch_service (http_service pf fib) s = (True, s') \<Longrightarrow>
      get_state (http_service pf fib) s' = service_running"
    using http_launch_true [of pf fib s s']
    by (auto simp: http_service_def http_get_service_state_def split: cpp.splits)
qed (simp_all add: http_service_def http_stop_service_def http_wait_service_def
    http_get_service_state_def http_launch_service_def)

text \<open>A launch that succeeds leaves a running core with a connected transport, at least one
  worker, an existing document root and a chunk size of at least 1000; launching it again fails
  and changes nothing, and stopping it makes it stopped.\<close>

theorem http_launch_checked:
  assumes "http_launch_service pf fib c = Ret (True, c')"
  shows "cur_state c' = service_running \<and> 1000 \<le> hsc_max_chunk_size (local_config c') \<and>
     is_directory pf (doc_root (local_config c')) \<and>
     (\<exists>t. transport_ptr c' = Some t \<and> is_connected t \<and> tr_max_threads (tr_config t) \<noteq> 0) \<and>
     http_launch_service pf fib c' = Ret (False, c') \<and>
     http_get_service_state (http_stop_service c') = service_stoped"
  using http_launch_true [OF assms]
  by (auto simp: http_launch_service_def http_stop_service_def http_get_service_state_def)

definition server_tree :: ptree where
  "server_tree n = (if n = ''doc_root'' then Ptree_text ''/srv''
     else if n = ''server_addr'' then Ptree_text ''h'' else Ptree_exception)"

definition sample_platform :: platform where
  "sample_platform = \<lparr>pf_lexical = lexical_reference, junk_int = 0, junk_size = 0,
     exists_path = (\<lambda>p. p = ''/srv''), is_directory = (\<lambda>p. p = ''/srv''), mg_start_result = Some 1\<rparr>"

lemma server_settings:
  "get_value_unsafe (configured server_tree) ''doc_root'' = Some (Ret ''/srv'')"
  "get_value_unsafe (configured server_tree) ''server_addr'' = Some (Ret ''h'')"
  "get_value_unsafe (configured server_tree) ''server_port'' = Some (Ret ''8080'')"
  "get_value_unsafe (configured server_tree) ''workers'' = Some (Ret ''20'')"
  "get_value_unsafe (configured server_tree) ''hc_max_chunk_size'' = Some (Ret ''1024000'')"
  "get_value_unsafe (configured server_tree) ''cores_sync_timeout'' = Some (Ret ''360'')"
  by (subst configured_plain; simp add: registered_names_def settings_spec_def server_tree_def
      tree_text_def key_struct_def key_types_def key_type_of_def)+

lemma reference_numbers:
  "to_size lexical_reference ''20'' = Some 20" "to_i64 lexical_reference ''1024000'' = Some 1024000"
  "to_size lexical_reference ''360'' = Some 360"
  by code_simp+

lemma sample_launch:
  "\<exists>c'. http_launch_service sample_platform new_file_info_buffer
      (new_http_server_core (configured server_tree)) = Ret (True, c')"
  using server_settings
  by (simp add: http_launch_service_def hcs_from_setting_manager_def from_setting_manager_def
      establish_connection_def mg_start_is_null_def new_transport_def transport_initialize_def Let_def
      get_setting_def setting_or_undef_def new_http_server_core_def sample_platform_def
      safe_lexical_cast_def reference_numbers service_running_def)

theorem http_launch_checked_witness:
  "\<exists>c'. http_launch_service sample_platform new_file_info_buffer
      (new_http_server_core (configured server_tree)) = Ret (True, c') \<and> cur_state c' = service_running"
  using sample_launch http_launch_checked by blast

text \<open>Stopping all services of a manager over HTTP server cores always completes: it empties the
  manager and leaves none of the services running.\<close>

theorem stop_all_servers:
  "\<exists>stopped. stop_all (http_service pf fib) m = Some (m\<lparr>services := []\<rparr>, stopped) \<and>
     map fst stopped = map fst (services m) \<and>
     list_all (\<lambda>(n, c). cur_state c \<noteq> service_running) stopped"
proof -
  obtain stopped where "stop_all (http_service pf fib) m = Some (m\<lparr>services := []\<rparr>, stopped)"
    "map fst stopped = map fst (services m)"
    "\<forall>s \<in> snd ` set stopped. get_state (http_service pf fib) s \<noteq> service_running"
    using http.stop_all_stops by blast
  then show ?thesis
    by (auto simp: list_all_iff http_service_def http_get_service_state_def)
qed

subsection \<open>A content request from end to end\<close>

lemma content_reply:
  assumes "core_fib (rq_core rs) = Some b" and "fib_inv b"
    and "get_info b (doc_root (local_config (rq_core rs)) @ uri) = Some fi"
    and "info_heap b fi = Some info"
    and "file_size info = int (length content)" and "avaliable_bytes info = int (length content)"
    and "content \<noteq> []" and "quiet (file_path info) content (w_env w)"
    and "chunk = hsc_max_chunk_size (local_config (rq_core rs))" and "0 < chunk" and "chunk \<le> int INT_MAX"
    and "head = fst (send_content_reply (w_bx w) (w_gmt w) (w_now w)
                  \<lparr>hd_fi = info, read_start = 0, read_end = file_size info\<rparr>)"
    and "int (length head) \<le> int INT_MAX"
    and "length content < length (send_results (rq_conn rs))"
    and "\<forall>r \<in> set (send_results (rq_conn rs)). max (int (length head)) chunk \<le> r"
  shows "\<exists>rs'. core_on_content_request w uri rs = Ret rs' \<and>
     peer_received (rq_conn rs') = peer_received (rq_conn rs) @ head @ content"
proof -
  let ?hdata = "\<lparr>hd_fi = info, read_start = 0, read_end = file_size info\<rparr>"
  let ?reply = "send_content_reply (w_bx w) (w_gmt w) (w_now w)"
  let ?policy = "(get_ostream_policy (rq_core rs) (rq_conn rs))
     \<lparr>ex := on_bytes_avaliable_change initial_ex_data (int (length content))\<rparr>"
  have reply: "?reply ?hdata = (head, True)" and ne: "head \<noteq> []"
    by (simp_all add: assms(12) send_content_reply_def Let_def etag_date_headers)
  obtain conn' p' where run: "perform socket_write (w_env w) ?reply ?hdata ?policy = Ret (True, Some conn', p')"
    and got: "peer_received conn' = peer_received (rq_conn rs) @ head @ content"
    using stream_completes [where p = ?policy and conn = "rq_conn rs" and reply = ?reply and
        hdata = ?hdata and head = head and content = content and env = "w_env w"] reply ne assms
    by (auto simp: get_ostream_policy_def on_bytes_avaliable_change_def initial_ex_data_def)
  obtain sid b1 where reg: "registr_subscriber b fi (rq_sub rs) = Ret (sid, b1)"
    using assms(4) by (simp add: registr_subscriber_def Let_def)
  have unreg: "unregistr_subscriber_id b1 fi (int sid) = Ret b1"
    using reg assms(4)
    by (auto simp: registr_subscriber_def unregistr_subscriber_id_def Let_def)
  show ?thesis
    using assms(1,3,4,6) reg unreg run got
    by (simp add: core_on_content_request_def send_reply_for_def get_ostream_policy_def Let_def cpp_simps)
qed

text \<open>A content request for a file that is complete on disk, on a connection that stays open, is
  answered with the head that announces the file's size and then exactly the file's contents;
  the core's buffer stays defined throughout.\<close>

theorem content_request_served:
  assumes "core_fib (rq_core rs) = Some b" and "fib_inv b"
    and "get_info b (doc_root (local_config (rq_core rs)) @ uri) = Some fi"
    and "info_heap b fi = Some info"
    and "file_size info = int (length content)" and "avaliable_bytes info = int (length content)"
    and "content \<noteq> []" and "quiet (file_path info) content (w_env w)"
    and "chunk = hsc_max_chunk_size (local_config (rq_core rs))" and "0 < chunk" and "chunk \<le> int INT_MAX"
    and "head = fst (send_content_reply (w_bx w) (w_gmt w) (w_now w)
                  \<lparr>hd_fi = info, read_start = 0, read_end = file_size info\<rparr>)"
    and "int (length head) \<le> int INT_MAX"
    and "length content < length (send_results (rq_conn rs))"
    and "\<forall>r \<in> set (send_results (rq_conn rs)). max (int (length head)) chunk \<le> r"
  shows "\<exists>rs'. core_on_content_request w uri rs = Ret rs' \<and>
     peer_received (rq_conn rs') = peer_received (rq_conn rs) @ head @ content"
  by (rule content_reply [OF assms])

text \<open>A file that cannot be opened when its bytes are there: the stream's exception leaves the handler after
  the head was sent, and before the subscription is taken back.\<close>

lemma unreadable_file_throws:
  assumes "core_fib (rq_core rs) = Some b"
    and "get_info b (doc_root (local_config (rq_core rs)) @ uri) = Some fi"
    and "info_heap b fi = Some info" and "file_size info \<le> avaliable_bytes info"
    and "env_events (w_env w 0) = []" and "env_disk (w_env w 0) (file_path info) = None"
    and "socket_write (rq_conn rs) (fst (send_content_reply (w_bx w) (w_gmt w) (w_now w)
           \<lparr>hd_fi = info, read_start = 0, read_end = file_size info\<rparr>)) = (n, conn)" and "0 < n"
  shows "core_on_content_request w uri rs = Throw (Std_exception ''failed opening file'')"
proof -
  let ?hdata = "\<lparr>hd_fi = info, read_start = 0, read_end = file_size info\<rparr>"
  let ?d = "on_bytes_avaliable_change initial_ex_data (avaliable_bytes info)"
  let ?chunk = "hsc_max_chunk_size (local_config (rq_core rs))"
  have d: "ex_state ?d \<noteq> Is_breaked" "ex_avaliable ?d = avaliable_bytes info"
    by (simp_all add: on_bytes_avaliable_change_def initial_ex_data_def)
  have wait: "wait_for_bytes ws ?d m = (True, ?d)" if "m \<le> avaliable_bytes info" for ws m
    using d that by (cases ws) simp_all
  have "write_content_impl socket_write (w_env w) ?chunk ?hdata ?d conn = Throw (Std_exception ''failed opening file'')"
    using assms(4-6) d unfolding write_content_impl_def
    by (subst write_content_loop.simps) (simp add: wait read_block_def Let_def)
  then have "perform socket_write (w_env w) (send_content_reply (w_bx w) (w_gmt w) (w_now w)) ?hdata
      ((get_ostream_policy (rq_core rs) (rq_conn rs))\<lparr>ex := ?d\<rparr>) = Throw (Std_exception ''failed opening file'')"
    using assms(7,8) by (simp add: perform_def get_ostream_policy_def send_content_reply_def Let_def cpp_simps)
  moreover obtain sid b1 where "registr_subscriber b fi (rq_sub rs) = Ret (sid, b1)"
    using assms(3) by (simp add: registr_subscriber_def Let_def)
  ultimately show ?thesis
    using assms(1-3) by (simp add: core_on_content_request_def send_reply_for_def get_ostream_policy_def Let_def cpp_simps)
qed

definition complete_info :: hc_file_info where
  "complete_info = \<lparr>file_path = ''f'', file_size = 3, avaliable_bytes = 3, subscribers = []\<rparr>"

definition complete_buffer :: file_info_buffer where
  "complete_buffer = new_file_info_buffer\<lparr>infos := [(''f'', 0)], next_info := 1,
     info_heap := [0 \<mapsto> complete_info]\<rparr>"

definition complete_request :: request_state where
  "complete_request =
     \<lparr>rq_core = (new_http_server_core new_setting_manager)\<lparr>core_fib := Some complete_buffer,
        local_config := \<lparr>doc_root = [], chunked_ostream = True, hsc_max_chunk_size = 1000,
          cores_sync_timeout = 1\<rparr>\<rparr>,
      rq_conn = \<lparr>send_results = [5000, 5000, 5000, 5000], peer_received = []\<rparr>, rq_sub = 0\<rparr>"

definition complete_world :: request_world where
  "complete_world = \<lparr>w_bx = lexical_reference, w_env = sample_env ''abc'', w_gmt = [], w_now = 0\<rparr>"

definition complete_head :: string where
  "complete_head = ''HTTP/1.1 200 OK'' @ crlf @ ''Content-Type: application/octet-stream'' @ crlf
     @ ''Accept-Ranges: bytes'' @ crlf @ ''Content-Length: 3'' @ crlf @ crlf"

lemma complete_head:
  "complete_head = fst (send_content_reply (w_bx complete_world) (w_gmt complete_world)
      (w_now complete_world) \<lparr>hd_fi = complete_info, read_start = 0, read_end = file_size complete_info\<rparr>)"
proof -
  have "num_text lexical_reference 3 = ''3''" by code_simp
  then show ?thesis
    by (simp add: complete_head_def complete_world_def complete_info_def send_content_reply_def
        etag_date_headers date_line_def)
qed

lemma complete_head_length: "int (length complete_head) \<le> 5000"
  by (simp add: complete_head_def)

theorem content_request_served_witness:
  "\<exists>rs'. core_on_content_request complete_world ''f'' complete_request = Ret rs' \<and>
     peer_received (rq_conn rs') = complete_head @ ''abc''"
proof -
  have max: "(1000::int) \<le> int INT_MAX" "(5000::int) \<le> int INT_MAX" by (simp_all add: INT_MAX_def)
  have inv: "fib_inv complete_buffer"
    by (simp add: fib_inv_def complete_buffer_def new_file_info_buffer_def)
  have sends: "\<forall>r \<in> set (send_results (rq_conn complete_request)). max (int (length complete_head)) 1000 \<le> r"
    using complete_head_length by (simp add: complete_request_def)
  have fields: "core_fib (rq_core complete_request) = Some complete_buffer"
    "1000 = hsc_max_chunk_size (local_config (rq_core complete_request))"
    "get_info complete_buffer (doc_root (local_config (rq_core complete_request)) @ ''f'') = Some 0"
    "info_heap complete_buffer 0 = Some complete_info"
    "file_size complete_info = int (length ''abc'')" "avaliable_bytes complete_info = int (length ''abc'')"
    "length ''abc'' < length (send_results (rq_conn complete_request))" "quiet (file_path complete_info) ''abc'' (w_env complete_world)"
    using sample_env_quiet
    by (simp_all add: complete_request_def complete_buffer_def complete_info_def get_info_def
        new_file_info_buffer_def complete_world_def)
  have hl: "int (length complete_head) \<le> int INT_MAX" using complete_head_length max by linarith
  have "\<exists>rs'. core_on_content_request complete_world ''f'' complete_request = Ret rs' \<and>
     peer_received (rq_conn rs') = peer_received (rq_conn complete_request) @ complete_head @ ''abc''"
    by (rule content_request_served [OF fields(1) inv fields(3-6) _ fields(8,2) _ max(1) complete_head hl
          fields(7) sends]) simp_all
  then show ?thesis by (simp add: complete_request_def)
qed

end
