(* ===== verification/Torrent_Info.thy ===== *)
theory Torrent_Info
  imports Misc_Utility "HOL-Library.Multiset"
begin

section \<open>Per-file download bookkeeping\<close>

text \<open>
  \<open>src/src/core/torrent_core/torrent_info.{hpp,cpp}\<close>. libtorrent is not part of the repository:
  what the code reads from a torrent (piece ranges, sizes, paths) are arguments, and the calls
  it makes on a handle are returned as a list of commands. The counters are \<open>int\<close> or
  \<open>std::size_t\<close> in the code and bounded by the number of pieces; here they are \<open>int\<close> and \<open>nat\<close>.
  The one conversion that can wrap, in \<open>file_info_get_download_offset\<close>, is written with words.
\<close>

definition INT_MAX_piece :: int where "INT_MAX_piece = 2147483647"
definition off_prior :: nat where "off_prior = 0"
definition normal_prior :: nat where "normal_prior = 1"
definition max_prior :: nat where "max_prior = 5"
definition off_recheck :: int where "off_recheck = -1"
definition recheck_limit :: int where "recheck_limit = 5"

record file_info =
  fi_pieces :: int
  fi_total :: int
  fi_count :: int
  fi_avaliable :: int
  fi_first :: int
  fi_last :: int
  fi_path :: string
  fi_size :: int
  fi_block :: nat
  fi_index :: int
  fi_chocked :: int
  fi_av :: "int list"
  fi_last_av_pos :: nat
  fi_end_av_pos :: nat
  fi_last_av_pieces_pos :: nat
  fi_recheck :: int

subsection \<open>Paths in the JSON listing\<close>

text \<open>\<open>std::string::insert(pos, "\\")\<close>\<close>

definition insert_backslash :: "nat \<Rightarrow> string \<Rightarrow> string" where
  "insert_backslash pos s = take pos s @ [BACKSLASH] @ drop pos s"

lemma length_insert_backslash: "pos \<le> length s \<Longrightarrow> length (insert_backslash pos s) = Suc (length s)"
  by (simp add: insert_backslash_def)

function replace_slashes_loop :: "nat \<Rightarrow> string \<Rightarrow> string" where
  "replace_slashes_loop first path =
     (if first < length path then
        (if path ! first = CHR ''/''
         then replace_slashes_loop (first + 3) (insert_backslash (first + 1) (path[first := BACKSLASH]))
         else if path ! first = BACKSLASH
         then replace_slashes_loop (first + 3) (insert_backslash (first + 1) path)
         else replace_slashes_loop (first + 1) path)
      else path)"
  by pat_completeness auto
termination
  by (relation "measure (\<lambda>(first, path). length path - first)") (auto simp: length_insert_backslash)

declare replace_slashes_loop.simps [simp del]

definition replace_slashes :: "string \<Rightarrow> string" where
  "replace_slashes path = replace_slashes_loop 0 path"

text \<open>What the loop does to the path: the character after a slash is copied unseen.\<close>

fun escaped :: "string \<Rightarrow> string" where
  "escaped [] = []"
| "escaped (c # cs) =
     (if c = CHR ''/'' \<or> c = BACKSLASH
      then BACKSLASH # BACKSLASH # (case cs of [] \<Rightarrow> [] | d # ds \<Rightarrow> d # escaped ds)
      else c # escaped cs)"

lemma replace_slashes_loop_escaped:
  "replace_slashes_loop (length pre) (pre @ s) = pre @ escaped s"
proof (induction s arbitrary: pre rule: escaped.induct)
  case (1 pre)
  show ?case by (subst replace_slashes_loop.simps) simp
next
  case (2 c cs pre)
  show ?case
  proof (cases "c = CHR ''/'' \<or> c = BACKSLASH")
    case False
    then have "replace_slashes_loop (length pre) (pre @ c # cs) =
        replace_slashes_loop (length (pre @ [c])) ((pre @ [c]) @ cs)"
      by (subst replace_slashes_loop.simps) simp
    also have "\<dots> = (pre @ [c]) @ escaped cs" using 2(2) False by blast
    finally show ?thesis using False by simp
  next
    case True
    let ?two = "[BACKSLASH, BACKSLASH]"
    have "replace_slashes_loop (length pre) (pre @ c # cs) =
        replace_slashes_loop (length pre + 3) (pre @ ?two @ cs)"
      using True by (subst replace_slashes_loop.simps) (auto simp: insert_backslash_def)
    also have "\<dots> = pre @ ?two @ (case cs of [] \<Rightarrow> [] | d # ds \<Rightarrow> d # escaped ds)"
    proof (cases cs)
      case Nil
      then show ?thesis by (subst replace_slashes_loop.simps) simp
    next
      case (Cons d ds)
      have "replace_slashes_loop (length (pre @ ?two @ [d])) ((pre @ ?two @ [d]) @ ds) =
          (pre @ ?two @ [d]) @ escaped ds"
        using 2(1) True Cons by blast
      then show ?thesis using Cons by (simp add: numeral_3_eq_3)
    qed
    finally show ?thesis using True by simp
  qed
qed

lemma replace_slashes_escaped: "replace_slashes path = escaped path"
  using replace_slashes_loop_escaped [of "[]" path] by (simp add: replace_slashes_def)

text \<open>Reading the escaped text back as JSON does: a backslash takes the next character.\<close>

fun json_unescape :: "string \<Rightarrow> string option" where
  "json_unescape [] = Some []"
| "json_unescape [c] = (if c = BACKSLASH then None else Some [c])"
| "json_unescape (c # d # cs) =
     (if c = BACKSLASH then (if d = BACKSLASH then map_option (Cons d) (json_unescape cs) else None)
      else map_option (Cons c) (json_unescape (d # cs)))"

fun no_double_slash :: "string \<Rightarrow> bool" where
  "no_double_slash [] = True"
| "no_double_slash [c] = True"
| "no_double_slash (c # d # cs) =
     (\<not> ((c = CHR ''/'' \<or> c = BACKSLASH) \<and> (d = CHR ''/'' \<or> d = BACKSLASH)) \<and> no_double_slash (d # cs))"

definition to_backslash :: "char \<Rightarrow> char" where
  "to_backslash c = (if c = CHR ''/'' then BACKSLASH else c)"

lemma json_unescape_plain:
  "c \<noteq> BACKSLASH \<Longrightarrow> json_unescape (c # cs) = map_option (Cons c) (json_unescape cs)"
  by (cases cs) auto

lemma escaped_unescape:
  "no_double_slash p \<Longrightarrow> json_unescape (escaped p) = Some (map to_backslash p)"
proof (induction p rule: escaped.induct)
  case (2 c cs)
  show ?case
  proof (cases "c = CHR ''/'' \<or> c = BACKSLASH")
    case False
    then have "no_double_slash cs" using 2(3) by (cases cs) auto
    with False 2(2) show ?thesis by (simp add: json_unescape_plain to_backslash_def)
  next
    case True
    show ?thesis
    proof (cases cs)
      case Nil
      with True show ?thesis by (auto simp: to_backslash_def)
    next
      case (Cons d ds)
      have d: "d \<noteq> CHR ''/''" "d \<noteq> BACKSLASH" using 2(3) True Cons by auto
      have "no_double_slash ds" using 2(3) Cons by (cases ds) auto
      then have "json_unescape (escaped ds) = Some (map to_backslash ds)"
        using 2(1) True Cons by blast
      with True Cons d show ?thesis by (auto simp: json_unescape_plain to_backslash_def)
    qed
  qed
qed simp

text \<open>The slash replacement ends on every path, and a path without two adjacent separators is
  read back from the JSON text with its separators as backslashes.\<close>

theorem replace_slashes_roundtrip:
  assumes "no_double_slash path"
  shows "json_unescape (replace_slashes path) = Some (map to_backslash path)"
  using escaped_unescape [OF assms] by (simp add: replace_slashes_escaped)

theorem replace_slashes_roundtrip_witness:
  "json_unescape (replace_slashes ''a/b'') = Some [CHR ''a'', BACKSLASH, CHR ''b'']"
  using replace_slashes_roundtrip [of "''a/b''"] by (simp add: to_backslash_def)

lemma double_backslash_breaks: "json_unescape (replace_slashes [BACKSLASH, BACKSLASH]) = None"
  by (simp add: replace_slashes_escaped)

subsection \<open>The list of files\<close>

text \<open>
  \<open>int / std::size_t\<close> divides as unsigned 64-bit, the quotient is then narrowed to \<open>int\<close>; a
  block size of zero is a division by zero.
\<close>

definition file_info_get_download_offset :: "file_info \<Rightarrow> int \<Rightarrow> int cpp" where
  "file_info_get_download_offset fi max_partial_download_size =
     (if fi_block fi = 0 then Undef
      else let dow_offset = sint (word_of_int ((max_partial_download_size mod 2 ^ 64) div int (fi_block fi)) :: 32 word)
           in if dow_offset < 10 then Ret 10
              else Ret (if max_partial_download_size \<ge> fi_size fi \<or> dow_offset \<ge> fi_pieces fi
                        then fi_pieces fi else dow_offset))"

definition file_info_piece_in_range :: "file_info \<Rightarrow> int \<Rightarrow> bool" where
  "file_info_piece_in_range fi piece \<longleftrightarrow> piece \<ge> fi_first fi \<and> piece \<le> fi_last fi"

text \<open>
  \<open>file_info_add\<close>: the arguments after the list are what libtorrent gives for the file: its
  piece range, the torrent's piece length, the save path, the file's path and size.
\<close>

definition file_info_add ::
  "file_info list \<Rightarrow> int \<Rightarrow> int \<Rightarrow> nat \<Rightarrow> string \<Rightarrow> string \<Rightarrow> int \<Rightarrow> int \<Rightarrow> int
     \<Rightarrow> (file_info \<times> file_info list) cpp" where
  "file_info_add flist range_first range_last piece_length save_path fe_path fe_size file_index max_partial =
     (let block = (if int piece_length > fe_size then nat fe_size else piece_length);
          pieces = 1 * (range_last - range_first);
          info = \<lparr>fi_pieces = pieces, fi_total = 0, fi_count = 0, fi_avaliable = 0,
                  fi_first = range_first, fi_last = range_last, fi_path = save_path @ ''/'' @ fe_path,
                  fi_size = fe_size, fi_block = block, fi_index = file_index, fi_chocked = 0, fi_av = [],
                  fi_last_av_pos = 0, fi_end_av_pos = 0, fi_last_av_pieces_pos = 0,
                  fi_recheck = off_recheck\<rparr>
      in cbind (file_info_get_download_offset info max_partial) (\<lambda>offset.
           let info1 = info\<lparr>fi_chocked := offset, fi_end_av_pos := nat offset,
                            fi_av := replicate (nat (pieces + 1)) INT_MAX_piece\<rparr>
           in Ret (info1, flist @ [info1])))"

fun file_info_bin_search :: "file_info list \<Rightarrow> int \<Rightarrow> file_info option" where
  "file_info_bin_search [] piece = None"
| "file_info_bin_search (fi # fs) piece =
     (if file_info_piece_in_range fi piece then Some fi else file_info_bin_search fs piece)"

fun file_info_search :: "file_info list \<Rightarrow> string \<Rightarrow> file_info option" where
  "file_info_search [] path = None"
| "file_info_search (fi # fs) path = (if fi_path fi = path then Some fi else file_info_search fs path)"

fun file_info_search_by_index :: "file_info list \<Rightarrow> int \<Rightarrow> file_info option" where
  "file_info_search_by_index [] index = None"
| "file_info_search_by_index (fi # fs) index =
     (if fi_index fi = index then Some fi else file_info_search_by_index fs index)"

definition file_info_reinit :: "file_info \<Rightarrow> file_info" where
  "file_info_reinit fi =
     fi\<lparr>fi_recheck := off_recheck, fi_last_av_pos := 0, fi_last_av_pieces_pos := 0, fi_count := 0,
        fi_total := 0, fi_av := replicate (length (fi_av fi)) INT_MAX_piece\<rparr>"

fun file_info_remove_path :: "file_info list \<Rightarrow> string \<Rightarrow> file_info list" where
  "file_info_remove_path [] path = []"
| "file_info_remove_path (fi # fs) path = (if fi_path fi = path then fs else fi # file_info_remove_path fs path)"

fun file_info_remove_piece :: "file_info list \<Rightarrow> int \<Rightarrow> file_info list" where
  "file_info_remove_piece [] piece = []"
| "file_info_remove_piece (fi # fs) piece =
     (if file_info_piece_in_range fi piece then fs else fi # file_info_remove_piece fs piece)"

definition file_info_reset :: "file_info list \<Rightarrow> file_info list" where
  "file_info_reset flist = []"

subsection \<open>A finished piece\<close>

definition file_info_update_counters :: "file_info \<Rightarrow> file_info" where
  "file_info_update_counters fi =
     (if fi_total fi + 1 > fi_pieces fi then fi\<lparr>fi_total := fi_pieces fi\<rparr>
      else let fi1 = fi\<lparr>fi_total := fi_total fi + 1, fi_count := fi_count fi + 1,
                        fi_last_av_pieces_pos := fi_last_av_pieces_pos fi + 1\<rparr>
           in if fi_recheck fi1 \<noteq> off_recheck then fi1\<lparr>fi_recheck := fi_recheck fi1 + 1\<rparr> else fi1)"

text \<open>
  \<open>std::partial_sort\<close> of the first \<open>n\<close> places: the rest is left in an unspecified order, but here
  the rest are equal entries (\<open>partial_sort_exact\<close>).
\<close>

definition partial_sort :: "nat \<Rightarrow> int list \<Rightarrow> int list" where
  "partial_sort n xs = take n (sort xs) @ drop n (sort xs)"

text \<open>
  The scan for consecutive pieces. Its outcomes: the new position, whether \<open>at\<close> threw, and the
  pieces whose priority was raised.
\<close>

function scan_pieces :: "int list \<Rightarrow> bool \<Rightarrow> nat \<Rightarrow> nat \<Rightarrow> nat \<Rightarrow> nat \<times> bool \<times> nat list" where
  "scan_pieces av recheck_off it last_pos end_pos =
     (if it < end_pos then
        (if length av = it then (last_pos, False, [])
         else if length av < it \<or> length av \<le> it + 1 then (last_pos, True, [])
         else if av ! it = av ! (it + 1) - 1 then scan_pieces av recheck_off (it + 1) it end_pos
         else if recheck_off then (last_pos, False, [last_pos..<end_pos])
         else scan_pieces av recheck_off (it + 1) last_pos end_pos)
      else (last_pos, False, []))"
  by pat_completeness auto
termination
  by (relation "measure (\<lambda>(av, r, it, l, e). e - it)") auto

declare scan_pieces.simps [simp del]

datatype update_result = Progress | No_progress | Update_threw

text \<open>
  The check of a range: sort, scan, move on to the next range or force a recheck, and compute the
  available bytes. \<open>end_av_pos - 1\<close> is unsigned, so it is never reached when it is 0.
\<close>

definition file_info_next_range :: "file_info \<Rightarrow> file_info" where
  "file_info_next_range fi =
     (if fi_end_av_pos fi \<noteq> 0 \<and> fi_last_av_pos fi \<ge> fi_end_av_pos fi - 1
      then fi\<lparr>fi_last_av_pos := fi_end_av_pos fi,
              fi_end_av_pos := nat (int (fi_end_av_pos fi) + fi_chocked fi),
              fi_count := 0, fi_recheck := off_recheck\<rparr>
      else fi\<lparr>fi_recheck := fi_recheck fi + 1\<rparr>)"

definition file_info_publish :: "file_info \<Rightarrow> update_result \<times> file_info" where
  "file_info_publish fi =
     (let curr_avb = int (fi_last_av_pos fi * fi_block fi)
      in if fi_avaliable fi < curr_avb then (Progress, fi\<lparr>fi_avaliable := curr_avb\<rparr>)
         else (No_progress, fi))"

definition file_info_check_range :: "file_info \<Rightarrow> update_result \<times> file_info \<times> nat list" where
  "file_info_check_range fi =
     (let fi1 = fi\<lparr>fi_av := partial_sort (nat (fi_total fi)) (fi_av fi)\<rparr>
      in case scan_pieces (fi_av fi1) (fi_recheck fi1 = off_recheck) (fi_last_av_pos fi1)
                (fi_last_av_pos fi1) (fi_end_av_pos fi1) of
           (pos, True, prios) \<Rightarrow> (Update_threw, fi1\<lparr>fi_last_av_pos := pos\<rparr>, prios)
         | (pos, False, prios) \<Rightarrow>
             (case file_info_publish (file_info_next_range (fi1\<lparr>fi_last_av_pos := pos\<rparr>)) of
                (r, fi2) \<Rightarrow> (r, fi2, prios)))"

text \<open>One file of the list.\<close>

definition file_info_update_file :: "file_info \<Rightarrow> int \<Rightarrow> update_result \<times> file_info \<times> nat list" where
  "file_info_update_file fi0 piece =
     (if length (fi_av fi0) \<le> fi_last_av_pieces_pos fi0 then (Update_threw, fi0, [])
      else let fi = file_info_update_counters (fi0\<lparr>fi_av := (fi_av fi0)[fi_last_av_pieces_pos fi0 := piece]\<rparr>)
           in if (fi_count fi \<ge> fi_chocked fi \<or> fi_recheck fi > recheck_limit) \<and> fi_total fi < fi_pieces fi
              then file_info_check_range fi
              else (No_progress, fi, []))"

text \<open>\<open>Some fi\<close> is the file whose progress is to be reported.\<close>

fun file_info_update :: "file_info list \<Rightarrow> int \<Rightarrow> (file_info option \<times> nat list) cpp \<times> file_info list" where
  "file_info_update [] piece = (Ret (None, []), [])"
| "file_info_update (fi # fs) piece =
     (if file_info_piece_in_range fi piece then
        (case file_info_update_file fi piece of
           (Progress, fi', prios) \<Rightarrow> (Ret (Some fi', prios), fi' # fs)
         | (No_progress, fi', prios) \<Rightarrow> (Ret (None, prios), fi' # fs)
         | (Update_threw, fi', prios) \<Rightarrow> (Throw Out_of_range, fi' # fs))
      else let (r, fs') = file_info_update fs piece in (r, fi # fs'))"

subsection \<open>Invariants of the bookkeeping\<close>

definition file_inv :: "file_info \<Rightarrow> bool" where
  "file_inv fi \<longleftrightarrow>
     0 \<le> fi_pieces fi \<and> length (fi_av fi) = nat (fi_pieces fi + 1) \<and>
     0 \<le> fi_total fi \<and> fi_total fi \<le> fi_pieces fi \<and>
     fi_last_av_pieces_pos fi = nat (fi_total fi) \<and>
     fi_first fi \<le> fi_last fi"

lemma file_inv_add:
  assumes "file_info_add flist rf rl plen sp p sz ix mx = Ret (fi, flist')" and "rf \<le> rl"
  shows "file_inv fi \<and> flist' = flist @ [fi]"
  using assms by (auto simp: file_info_add_def Let_def cbind_eq_Ret file_inv_def)

lemma file_inv_reinit: "file_inv fi \<Longrightarrow> file_inv (file_info_reinit fi)"
  by (simp add: file_inv_def file_info_reinit_def)

lemma length_partial_sort [simp]: "length (partial_sort n xs) = length xs"
  by (simp add: partial_sort_def)

lemma counters_inv:
  "file_inv fi \<Longrightarrow> file_inv (file_info_update_counters (fi\<lparr>fi_av := (fi_av fi)[i := piece]\<rparr>))"
  by (auto simp: file_inv_def file_info_update_counters_def Let_def)

lemma file_inv_cong:
  "file_inv fi \<Longrightarrow> fi_pieces fi' = fi_pieces fi \<Longrightarrow> length (fi_av fi') = length (fi_av fi) \<Longrightarrow>
   fi_total fi' = fi_total fi \<Longrightarrow> fi_last_av_pieces_pos fi' = fi_last_av_pieces_pos fi \<Longrightarrow>
   fi_first fi' = fi_first fi \<Longrightarrow> fi_last fi' = fi_last fi \<Longrightarrow> file_inv fi'"
  by (simp add: file_inv_def)

lemma next_range_fields [simp]:
  "fi_pieces (file_info_next_range fi) = fi_pieces fi" "fi_av (file_info_next_range fi) = fi_av fi"
  "fi_total (file_info_next_range fi) = fi_total fi"
  "fi_last_av_pieces_pos (file_info_next_range fi) = fi_last_av_pieces_pos fi"
  "fi_first (file_info_next_range fi) = fi_first fi" "fi_last (file_info_next_range fi) = fi_last fi"
  by (simp_all add: file_info_next_range_def)

lemma publish_fields [simp]:
  "fi_pieces (snd (file_info_publish fi)) = fi_pieces fi" "fi_av (snd (file_info_publish fi)) = fi_av fi"
  "fi_total (snd (file_info_publish fi)) = fi_total fi"
  "fi_last_av_pieces_pos (snd (file_info_publish fi)) = fi_last_av_pieces_pos fi"
  "fi_first (snd (file_info_publish fi)) = fi_first fi" "fi_last (snd (file_info_publish fi)) = fi_last fi"
  by (simp_all add: file_info_publish_def Let_def)

lemma check_range_inv:
  assumes "file_inv fi"
  shows "file_inv (fst (snd (file_info_check_range fi)))"
proof -
  let ?fi1 = "fi\<lparr>fi_av := partial_sort (nat (fi_total fi)) (fi_av fi)\<rparr>"
  obtain pos threw prios where scan: "scan_pieces (fi_av ?fi1) (fi_recheck ?fi1 = off_recheck)
      (fi_last_av_pos ?fi1) (fi_last_av_pos ?fi1) (fi_end_av_pos ?fi1) = (pos, threw, prios)"
    by (metis prod_cases3)
  let ?fi2 = "?fi1\<lparr>fi_last_av_pos := pos\<rparr>"
  have fi2: "file_inv ?fi2" using assms by (rule file_inv_cong) simp_all
  have "file_inv (snd (file_info_publish (file_info_next_range ?fi2)))"
    using fi2 by (rule file_inv_cong) simp_all
  then show ?thesis
    using fi2 scan
    by (cases threw; cases "file_info_publish (file_info_next_range ?fi2)")
      (simp_all add: file_info_check_range_def)
qed

lemma update_file_inv:
  assumes "file_inv fi"
  shows "file_inv (fst (snd (file_info_update_file fi piece)))"
  using assms check_range_inv counters_inv [OF assms]
  by (simp add: file_info_update_file_def Let_def)

lemma update_inv:
  "list_all file_inv fs \<Longrightarrow> list_all file_inv (snd (file_info_update fs piece))"
proof (induction fs piece rule: file_info_update.induct)
  case (2 fi fs piece)
  then show ?case
    using update_file_inv [of fi piece]
    by (auto split: prod.splits update_result.splits)
qed simp

text \<open>
  Why sorting completely is right: the standard only says of \<open>std::partial_sort\<close> that the first \<open>n\<close>
  places hold the \<open>n\<close> smallest elements in order. The downloaded pieces of a file are never more
  than the counter that is passed for \<open>n\<close> when the sort runs, and every other entry is the maximum,
  so all results the standard allows are the sorted vector.
\<close>

definition is_partial_sort :: "nat \<Rightarrow> int list \<Rightarrow> int list \<Rightarrow> bool" where
  "is_partial_sort n xs ys \<longleftrightarrow>
     mset ys = mset xs \<and> sorted (take n ys) \<and> (\<forall>x \<in> set (take n ys). \<forall>y \<in> set (drop n ys). x \<le> y)"

definition arrived :: "file_info \<Rightarrow> int list" where
  "arrived fi = filter (\<lambda>x. x \<noteq> INT_MAX_piece) (fi_av fi)"

definition sort_inv :: "file_info \<Rightarrow> bool" where
  "sort_inv fi \<longleftrightarrow>
     0 \<le> fi_total fi \<and> 0 \<le> fi_pieces fi \<and> fi_last fi \<le> INT_MAX_piece \<and> (\<forall>x \<in> set (fi_av fi). x \<le> INT_MAX_piece) \<and>
     (fi_total fi < fi_pieces fi \<longrightarrow> int (length (arrived fi)) \<le> fi_total fi)"

lemma partial_sort_is_sort: "partial_sort n xs = sort xs"
  by (simp add: partial_sort_def)

lemma partial_sort_unique:
  assumes "is_partial_sort n xs ys" and "\<forall>x \<in> set xs. x \<le> m" and "length (filter (\<lambda>x. x \<noteq> m) xs) \<le> n"
  shows "ys = sort xs"
proof (rule properties_for_sort [symmetric])
  show "mset ys = mset xs" using assms(1) by (simp add: is_partial_sort_def)
  then have same: "set ys = set xs" "length (filter (\<lambda>x. x \<noteq> m) ys) = length (filter (\<lambda>x. x \<noteq> m) xs)"
    by (metis set_mset_mset, metis mset_filter size_mset)
  have rest: "y = m" if y: "y \<in> set (drop n ys)" for y
  proof (rule ccontr)
    assume "y \<noteq> m"
    moreover have "y \<le> m" using in_set_dropD [OF y] same(1) assms(2) by blast
    ultimately have "\<forall>x \<in> set (take n ys). x \<noteq> m" using assms(1) y by (force simp: is_partial_sort_def)
    then have "filter (\<lambda>x. x \<noteq> m) (take n ys) = take n ys" by (simp add: filter_id_conv)
    moreover have "filter (\<lambda>x. x \<noteq> m) (drop n ys) \<noteq> []" using y \<open>y \<noteq> m\<close> by (auto simp: filter_empty_conv)
    ultimately have "length (take n ys) < length (filter (\<lambda>x. x \<noteq> m) (take n ys @ drop n ys))"
      unfolding filter_append by simp
    moreover have "length (take n ys) = n" using y by (cases "n \<le> length ys") auto
    ultimately show False using same(2) assms(3) unfolding append_take_drop_id by linarith
  qed
  have "sorted (drop n ys)" using replicate_length_same [of "drop n ys" m] rest by (metis sorted_replicate)
  then have "sorted (take n ys @ drop n ys)"
    unfolding sorted_append using assms(1) by (simp add: is_partial_sort_def)
  then show "sorted ys" by simp
qed

lemma filter_update: "length (filter P (xs[i := x])) \<le> Suc (length (filter P xs))"
  by (induction xs arbitrary: i) (auto split: nat.split)

lemma sort_inv_arrives:
  assumes "sort_inv fi" and "piece \<le> INT_MAX_piece"
  shows "sort_inv (file_info_update_counters (fi\<lparr>fi_av := (fi_av fi)[i := piece]\<rparr>))"
  using assms filter_update [of "\<lambda>x. x \<noteq> INT_MAX_piece" "fi_av fi" i piece]
    set_update_subset_insert [of "fi_av fi" i piece]
  by (auto simp: sort_inv_def arrived_def file_info_update_counters_def Let_def)

lemma sort_inv_cong:
  "sort_inv fi \<Longrightarrow> mset (fi_av fi') = mset (fi_av fi) \<Longrightarrow> fi_total fi' = fi_total fi \<Longrightarrow>
   fi_pieces fi' = fi_pieces fi \<Longrightarrow> fi_last fi' = fi_last fi \<Longrightarrow> sort_inv fi'"
  unfolding sort_inv_def arrived_def by (metis mset_filter set_mset_mset size_mset)

text \<open>Whenever a finished piece makes a file's pieces be sorted, any implementation of the sort gives
  the vector of the model.\<close>

theorem partial_sort_exact:
  assumes "sort_inv fi" and "piece \<le> INT_MAX_piece"
    and fi1: "fi1 = file_info_update_counters (fi\<lparr>fi_av := (fi_av fi)[i := piece]\<rparr>)"
    and "fi_total fi1 < fi_pieces fi1" and "is_partial_sort (nat (fi_total fi1)) (fi_av fi1) ys"
  shows "ys = partial_sort (nat (fi_total fi1)) (fi_av fi1)"
proof -
  have "sort_inv fi1" unfolding fi1 by (rule sort_inv_arrives [OF assms(1,2)])
  then show ?thesis
    using partial_sort_unique [OF assms(5), of INT_MAX_piece] assms(4)
    by (simp add: sort_inv_def arrived_def partial_sort_is_sort le_nat_iff)
qed

lemma check_range_sort:
  assumes "sort_inv fi"
  shows "sort_inv (fst (snd (file_info_check_range fi)))"
proof -
  let ?fi1 = "fi\<lparr>fi_av := partial_sort (nat (fi_total fi)) (fi_av fi)\<rparr>"
  obtain pos threw prios where scan: "scan_pieces (fi_av ?fi1) (fi_recheck ?fi1 = off_recheck)
      (fi_last_av_pos ?fi1) (fi_last_av_pos ?fi1) (fi_end_av_pos ?fi1) = (pos, threw, prios)"
    by (metis prod_cases3)
  let ?fi2 = "?fi1\<lparr>fi_last_av_pos := pos\<rparr>"
  have fi2: "sort_inv ?fi2" using assms by (rule sort_inv_cong) (simp_all add: partial_sort_is_sort)
  have "sort_inv (snd (file_info_publish (file_info_next_range ?fi2)))"
    using fi2 by (rule sort_inv_cong) simp_all
  then show ?thesis
    using fi2 scan
    by (cases threw; cases "file_info_publish (file_info_next_range ?fi2)")
      (simp_all add: file_info_check_range_def)
qed

lemma update_sort_inv:
  "list_all sort_inv fs \<Longrightarrow> list_all sort_inv (snd (file_info_update fs piece))"
proof (induction fs piece rule: file_info_update.induct)
  case (2 fi fs piece)
  have "sort_inv (fst (snd (file_info_update_file fi piece)))" if "file_info_piece_in_range fi piece"
  proof -
    have "piece \<le> INT_MAX_piece" using that 2(2) by (simp add: file_info_piece_in_range_def sort_inv_def)
    then show ?thesis
      using 2(2) sort_inv_arrives [of fi piece] check_range_sort
      by (simp add: file_info_update_file_def Let_def)
  qed
  then show ?case using 2 by (auto split: prod.splits update_result.splits)
qed simp

lemma sort_inv_add:
  assumes "file_info_add flist rf rl plen sp path sz ix mx = Ret (fi, flist')" and "rf \<le> rl" and "rl \<le> INT_MAX_piece"
  shows "sort_inv fi"
  using assms by (auto simp: file_info_add_def Let_def cbind_eq_Ret sort_inv_def arrived_def)

lemma sort_inv_reinit: "sort_inv fi \<Longrightarrow> sort_inv (file_info_reinit fi)"
  by (auto simp: sort_inv_def file_info_reinit_def arrived_def)

text \<open>
  The range counters: the end of the current range never exceeds the pieces downloaded plus what
  the range still misses, and a recheck is only on once the range has its count.
\<close>

definition range_inv :: "file_info \<Rightarrow> bool" where
  "range_inv fi \<longleftrightarrow>
     0 \<le> fi_chocked fi \<and> int (fi_end_av_pos fi) \<le> fi_total fi - fi_count fi + fi_chocked fi \<and>
     (fi_recheck fi \<noteq> off_recheck \<longrightarrow> fi_chocked fi \<le> fi_count fi) \<and> off_recheck \<le> fi_recheck fi"

definition file_ok :: "file_info \<Rightarrow> bool" where
  "file_ok fi \<longleftrightarrow> file_inv fi \<and> range_inv fi"

lemma scan_no_throw:
  "e < length av \<Longrightarrow> \<exists>pos prios. scan_pieces av r it l e = (pos, False, prios)"
proof (induction av r it l e rule: scan_pieces.induct)
  case (1 av r it l e)
  then show ?case
    by (subst scan_pieces.simps) (auto split: if_splits)
qed

lemma scan_position: "scan_pieces av r it l e = (pos, threw, prios) \<Longrightarrow> l \<le> e \<Longrightarrow> pos \<le> e"
proof (induction av r it l e arbitrary: pos threw prios rule: scan_pieces.induct)
  case (1 av r it l e)
  show ?case
    using "1.prems" "1.IH"
    by (subst (asm) scan_pieces.simps) (auto split: if_splits)
qed

lemma counters_range:
  assumes "file_inv fi" and "range_inv fi"
  shows "range_inv (file_info_update_counters (fi\<lparr>fi_av := av\<rparr>))"
  using assms
  by (auto simp: range_inv_def file_inv_def file_info_update_counters_def off_recheck_def Let_def)

lemma next_range_range:
  assumes "range_inv fi" and "fi_chocked fi \<le> fi_count fi"
  shows "range_inv (file_info_next_range fi)"
  using assms by (auto simp: range_inv_def file_info_next_range_def off_recheck_def)

lemma range_inv_cong:
  "range_inv fi \<Longrightarrow> fi_chocked fi' = fi_chocked fi \<Longrightarrow> fi_end_av_pos fi' = fi_end_av_pos fi \<Longrightarrow>
   fi_total fi' = fi_total fi \<Longrightarrow> fi_count fi' = fi_count fi \<Longrightarrow> fi_recheck fi' = fi_recheck fi \<Longrightarrow>
   range_inv fi'"
  by (simp add: range_inv_def)

lemma publish_range: "range_inv fi \<Longrightarrow> range_inv (snd (file_info_publish fi))"
  by (erule range_inv_cong) (simp_all add: file_info_publish_def Let_def)

lemma check_range_ok:
  assumes "file_inv fi" and "range_inv fi" and "fi_chocked fi \<le> fi_count fi" and "fi_total fi < fi_pieces fi"
  shows "fst (file_info_check_range fi) \<noteq> Update_threw \<and> range_inv (fst (snd (file_info_check_range fi)))"
proof -
  let ?fi1 = "fi\<lparr>fi_av := partial_sort (nat (fi_total fi)) (fi_av fi)\<rparr>"
  have "int (fi_end_av_pos fi) \<le> fi_total fi" using assms(2,3) by (simp add: range_inv_def)
  then have "fi_end_av_pos fi < length (fi_av fi)"
    using assms(1,4) by (simp add: file_inv_def)
  then obtain pos prios where scan: "scan_pieces (fi_av ?fi1) (fi_recheck ?fi1 = off_recheck)
      (fi_last_av_pos ?fi1) (fi_last_av_pos ?fi1) (fi_end_av_pos ?fi1) = (pos, False, prios)"
    using scan_no_throw [of "fi_end_av_pos ?fi1" "fi_av ?fi1"] by fastforce
  let ?fi2 = "?fi1\<lparr>fi_last_av_pos := pos\<rparr>"
  have "range_inv ?fi2" using assms(2) by (rule range_inv_cong) simp_all
  then have "range_inv (snd (file_info_publish (file_info_next_range ?fi2)))"
    using assms(3) by (intro publish_range next_range_range) simp_all
  moreover have "fst (file_info_publish f) \<noteq> Update_threw" for f
    by (simp add: file_info_publish_def Let_def)
  ultimately show ?thesis
    using scan
    by (cases "file_info_publish (file_info_next_range ?fi2)")
      (auto simp: file_info_check_range_def, metis fst_conv)
qed

lemma update_file_ok:
  assumes "file_ok fi"
  shows "fst (file_info_update_file fi piece) \<noteq> Update_threw \<and>
     file_ok (fst (snd (file_info_update_file fi piece)))"
proof -
  let ?c = "file_info_update_counters (fi\<lparr>fi_av := (fi_av fi)[fi_last_av_pieces_pos fi := piece]\<rparr>)"
  have inv: "file_inv fi" "range_inv fi" using assms by (simp_all add: file_ok_def)
  have c: "file_inv ?c" "range_inv ?c"
    using counters_inv [OF inv(1)] counters_range [OF inv] by blast+
  have room: "fi_last_av_pieces_pos fi < length (fi_av fi)"
    using inv(1) by (simp add: file_inv_def)
  have "fi_chocked ?c \<le> fi_count ?c" if "fi_recheck ?c > recheck_limit"
    using that c(2) by (auto simp: range_inv_def recheck_limit_def off_recheck_def)
  then show ?thesis
    using room c check_range_ok [OF c] update_file_inv [OF inv(1), of piece]
    by (auto simp: file_info_update_file_def Let_def file_ok_def)
qed

text \<open>One finished piece: which files it changes and how, and which update can throw.\<close>

definition file_follows :: "file_info \<Rightarrow> file_info \<Rightarrow> bool" where
  "file_follows fi fi' \<longleftrightarrow>
     (file_inv fi \<longrightarrow> file_inv fi') \<and> (file_ok fi \<longrightarrow> file_ok fi') \<and> fi_first fi' = fi_first fi \<and> fi_last fi' = fi_last fi"

lemma check_range_bounds:
  "fi_first (fst (snd (file_info_check_range fi))) = fi_first fi \<and> fi_last (fst (snd (file_info_check_range fi))) = fi_last fi"
proof -
  let ?fi1 = "fi\<lparr>fi_av := partial_sort (nat (fi_total fi)) (fi_av fi)\<rparr>"
  obtain pos threw prios where scan: "scan_pieces (fi_av ?fi1) (fi_recheck ?fi1 = off_recheck)
      (fi_last_av_pos ?fi1) (fi_last_av_pos ?fi1) (fi_end_av_pos ?fi1) = (pos, threw, prios)"
    by (metis prod_cases3)
  let ?fi2 = "file_info_next_range (?fi1\<lparr>fi_last_av_pos := pos\<rparr>)"
  have "fi_first (snd (file_info_publish ?fi2)) = fi_first fi" "fi_last (snd (file_info_publish ?fi2)) = fi_last fi"
    by simp_all
  then show ?thesis
    using scan by (cases threw; cases "file_info_publish ?fi2") (simp_all add: file_info_check_range_def)
qed

lemma counters_bounds:
  "fi_first (file_info_update_counters fi) = fi_first fi" "fi_last (file_info_update_counters fi) = fi_last fi"
  by (simp_all add: file_info_update_counters_def Let_def)

lemma update_file_follows: "file_follows fi (fst (snd (file_info_update_file fi piece)))"
proof -
  have "fi_first (fst (snd (file_info_update_file fi piece))) = fi_first fi"
    "fi_last (fst (snd (file_info_update_file fi piece))) = fi_last fi"
    by (simp_all add: file_info_update_file_def Let_def check_range_bounds counters_bounds)
  then show ?thesis using update_file_inv update_file_ok by (simp add: file_follows_def)
qed

lemma file_follows_refl [simp]: "file_follows fi fi"
  by (simp add: file_follows_def)

lemma update_follows: "list_all2 file_follows fs (snd (file_info_update fs piece))"
proof (induction fs piece rule: file_info_update.induct)
  case (2 fi fs piece)
  have "list_all2 file_follows fs fs" by (simp add: list_all2_refl)
  then show ?case
    using 2 update_file_follows [of fi piece] by (auto split: prod.splits update_result.splits)
qed simp

lemma update_throws:
  "returns (fst (file_info_update fs piece)) \<or>
   fst (file_info_update fs piece) = Throw Out_of_range
     \<and> (\<exists>k < length fs. file_info_piece_in_range (fs ! k) piece \<and> \<not> file_ok (fs ! k))"
proof (induction fs piece rule: file_info_update.induct)
  case (2 fi fs piece)
  show ?case
  proof (cases "file_info_piece_in_range fi piece")
    case True
    then show ?thesis using update_file_ok [of fi piece]
      by (auto split: prod.splits update_result.splits)
  next
    case False
    then show ?thesis using 2 [OF False] by (auto simp: case_prod_beta Let_def intro!: exI [of _ "Suc k" for k])
  qed
qed simp

text \<open>
  The life of a list of files: pieces that finish, and files that are reset, as the controller does with
  the file at an index when it is complete.
\<close>

datatype file_event = Piece_finished int | File_reset nat

fun file_event_step :: "file_info list \<Rightarrow> file_event \<Rightarrow> file_info list" where
  "file_event_step fs (Piece_finished piece) = snd (file_info_update fs piece)"
| "file_event_step fs (File_reset k) = (if k < length fs then fs[k := file_info_reinit (fs ! k)] else fs)"

definition freshly_added :: "file_info \<Rightarrow> bool" where
  "freshly_added fi \<longleftrightarrow> (\<exists>flist rf rl plen sp p sz ix mx flist'.
     rf \<le> rl \<and> file_info_add flist rf rl plen sp p sz ix mx = Ret (fi, flist'))"

text \<open>What holds of file \<open>k\<close>, which was \<open>fi0\<close> when it was added.\<close>

definition file_state_ok :: "file_event list \<Rightarrow> nat \<Rightarrow> file_info \<Rightarrow> file_info \<Rightarrow> bool" where
  "file_state_ok evs k fi0 fi \<longleftrightarrow>
     file_inv fi \<and> (File_reset k \<notin> set evs \<longrightarrow> file_ok fi) \<and> fi_first fi = fi_first fi0 \<and> fi_last fi = fi_last fi0"

lemma file_events_ok:
  assumes "\<forall>fi \<in> set fs. file_ok fi"
  shows "length (foldl file_event_step fs evs) = length fs
    \<and> (\<forall>k < length fs. file_state_ok evs k (fs ! k) (foldl file_event_step fs evs ! k))"
proof (induction evs rule: rev_induct)
  case Nil
  show ?case using assms by (simp add: file_state_ok_def file_ok_def)
next
  case (snoc ev evs)
  let ?fs = "foldl file_event_step fs evs"
  show ?case
  proof (cases ev)
    case (Piece_finished piece)
    have "list_all2 file_follows ?fs (snd (file_info_update ?fs piece))" by (rule update_follows)
    then show ?thesis using snoc Piece_finished
      by (auto simp: list_all2_conv_all_nth file_state_ok_def file_follows_def)
  next
    case (File_reset j)
    then show ?thesis using snoc file_inv_reinit
      by (auto simp: file_state_ok_def nth_list_update) (auto simp: file_info_reinit_def)
  qed
qed

lemma file_ok_add:
  assumes "file_info_add flist rf rl plen sp p sz ix mx = Ret (fi, flist')" and "rf \<le> rl"
  shows "file_ok fi \<and> flist' = flist @ [fi]"
proof -
  have inv: "file_inv fi" "flist' = flist @ [fi]" using file_inv_add [OF assms] by simp_all
  have "range_inv fi"
    using assms
    by (auto simp: file_info_add_def Let_def cbind_eq_Ret range_inv_def off_recheck_def
        file_info_get_download_offset_def split: if_splits)
  with inv show ?thesis by (simp add: file_ok_def)
qed

text \<open>C25. Whatever pieces finish and whatever files are reset, in any order, from the state in which the files
  were added: a finished piece never makes the bookkeeping write outside a piece vector or run into
  undefined behaviour, and the counters stay consistent with the vector. The scan for consecutive
  pieces leaves the vector (which the checked access turns into an exception) only for a file that has
  been reset before, which is what happens then (\<open>reinit_then_throws\<close>).\<close>

theorem file_update_safe:
  assumes "\<forall>fi \<in> set fs. freshly_added fi"
  shows "list_all file_inv (foldl file_event_step fs evs) \<and>
    (returns (fst (file_info_update (foldl file_event_step fs evs) piece)) \<or>
     fst (file_info_update (foldl file_event_step fs evs) piece) = Throw Out_of_range
       \<and> (\<exists>k < length fs. File_reset k \<in> set evs \<and> file_info_piece_in_range (fs ! k) piece))"
proof -
  have "\<forall>fi \<in> set fs. file_ok fi" using assms file_ok_add by (auto simp: freshly_added_def)
  from file_events_ok [OF this, of evs] update_throws [of "foldl file_event_step fs evs" piece] show ?thesis
    by (auto simp: list_all_length file_state_ok_def file_info_piece_in_range_def)
qed

definition sample_file :: file_info where
  "sample_file = \<lparr>fi_pieces = 20, fi_total = 0, fi_count = 0, fi_avaliable = 0, fi_first = 0, fi_last = 20,
     fi_path = ''s/f'', fi_size = 2050, fi_block = 100, fi_index = 0, fi_chocked = 10,
     fi_av = replicate 21 INT_MAX_piece, fi_last_av_pos = 0, fi_end_av_pos = 10,
     fi_last_av_pieces_pos = 0, fi_recheck = off_recheck\<rparr>"

lemma sample_file_added: "freshly_added sample_file"
proof -
  have "file_info_add [] 0 20 100 ''s'' ''f'' 2050 0 500 = Ret (sample_file, [sample_file])" by code_simp
  then show ?thesis unfolding freshly_added_def by (metis zero_le_numeral)
qed

theorem file_update_safe_witness:
  "returns (fst (file_info_update (foldl file_event_step [sample_file] [Piece_finished 0, Piece_finished 7]) 3))"
  using file_update_safe [of "[sample_file]" "[Piece_finished 0, Piece_finished 7]" 3] sample_file_added by simp

definition feed :: "file_info list \<Rightarrow> int list \<Rightarrow> file_info list" where
  "feed fs ps = foldl (\<lambda>fs p. snd (file_info_update fs p)) fs ps"

text \<open>Available bytes can be published for a file of which only the second half has arrived: the scan
  counts consecutive pieces but never checks that the first one is the file's first.\<close>

theorem progress_without_first_piece:
  "fi_first sample_file \<notin> set [10..19] \<and>
   map fi_avaliable (feed [sample_file] [10..19]) = [800]"
  by code_simp

text \<open>After a file was completed and reset, the old range end stays: when its pieces arrive again
  the scan runs past the end of the piece vector and throws.\<close>

theorem reinit_then_throws:
  "fst (file_info_update
     (feed (map file_info_reinit (feed [sample_file\<lparr>fi_pieces := 25, fi_last := 25,
         fi_av := replicate 26 INT_MAX_piece\<rparr>] [0..20])) [0..9]) 10) = Throw Out_of_range"
  by code_simp

end
