(* ===== verification/Futures.thy ===== *)
theory Futures
  imports T2H_Prelude
begin

section \<open>The future that hands a torrent from the alert thread to the caller\<close>

text \<open>
  \<open>src/src/core/torrent_core/torrent_core_future.{hpp,cpp}\<close>. One thread waits on the condition
  variable, another stores the status and then notifies; the store is not under the lock, so the
  two are separate steps. A blocked waiter is woken by a notification, by the time-out, or for no
  reason (as the condition variable's documentation allows); it then runs the test of the loop.
\<close>

datatype wait_pc = Not_waiting | Blocked | Woken bool | Finished bool

record core_future =
  fut_status :: bool
  fut_type :: int
  fut_waiter :: wait_pc

definition new_future :: "int \<Rightarrow> core_future" where
  "new_future future_type = \<lparr>fut_status = False, fut_type = future_type, fut_waiter = Not_waiting\<rparr>"

definition future_get_type :: "core_future \<Rightarrow> int" where
  "future_get_type f = fut_type f"

text \<open>\<open>change_status\<close>: the store, then \<open>notify_all\<close>.\<close>

definition store_status :: "bool \<Rightarrow> core_future \<Rightarrow> core_future" where
  "store_status b f = f\<lparr>fut_status := b\<rparr>"

definition notify_waiters :: "core_future \<Rightarrow> core_future" where
  "notify_waiters f = (if fut_waiter f = Blocked then f\<lparr>fut_waiter := Woken True\<rparr> else f)"

definition change_status :: "bool \<Rightarrow> core_future \<Rightarrow> core_future" where
  "change_status b f = notify_waiters (store_status b f)"

definition scoped_future_release :: "core_future option \<Rightarrow> core_future option" where
  "scoped_future_release future_ptr = map_option (change_status True) future_ptr"

text \<open>The test that follows a wake-up: \<open>wait_result\<close>, and \<open>timed_wait_result\<close> with its flag.\<close>

definition after_wait :: "core_future \<Rightarrow> core_future" where
  "after_wait f = (if fut_status f then f\<lparr>fut_waiter := Finished True\<rparr> else f\<lparr>fut_waiter := Blocked\<rparr>)"

definition after_timed_wait :: "bool \<Rightarrow> core_future \<Rightarrow> core_future" where
  "after_timed_wait success f =
     (if \<not> fut_status f \<and> \<not> success then f\<lparr>fut_waiter := Finished False\<rparr>
      else if fut_status f then f\<lparr>fut_waiter := Finished True\<rparr>
      else f\<lparr>fut_waiter := Blocked\<rparr>)"

datatype fut_act = Enter | Store bool | Notify | Timeout | Spurious | Test

inductive fut_step :: "bool \<Rightarrow> core_future \<Rightarrow> fut_act \<Rightarrow> core_future \<Rightarrow> bool" for timed where
  enter: "fut_waiter f = Not_waiting \<Longrightarrow> fut_step timed f Enter (f\<lparr>fut_waiter := Blocked\<rparr>)"
| store: "fut_step timed f (Store b) (store_status b f)"
| notify: "fut_step timed f Notify (notify_waiters f)"
| timeout: "timed \<Longrightarrow> fut_waiter f = Blocked \<Longrightarrow> fut_step timed f Timeout (f\<lparr>fut_waiter := Woken False\<rparr>)"
| spurious: "fut_waiter f = Blocked \<Longrightarrow> fut_step timed f Spurious (f\<lparr>fut_waiter := Woken True\<rparr>)"
| test_timed: "timed \<Longrightarrow> fut_waiter f = Woken success \<Longrightarrow> fut_step timed f Test (after_timed_wait success f)"
| test_plain: "\<not> timed \<Longrightarrow> fut_waiter f = Woken success \<Longrightarrow> fut_step timed f Test (after_wait f)"

inductive_cases fut_stepE [elim!]:
  "fut_step timed f Enter f'" "fut_step timed f (Store b) f'" "fut_step timed f Notify f'"
  "fut_step timed f Timeout f'" "fut_step timed f Spurious f'" "fut_step timed f Test f'"

inductive fut_run :: "bool \<Rightarrow> core_future \<Rightarrow> fut_act list \<Rightarrow> core_future \<Rightarrow> bool" for timed where
  run_nil: "fut_run timed f [] f"
| run_cons: "fut_step timed f a f' \<Longrightarrow> fut_run timed f' as f'' \<Longrightarrow> fut_run timed f (a # as) f''"

inductive_cases fut_run_consE: "fut_run timed f (a # as) f''"
inductive_cases fut_run_nilE [elim!]: "fut_run timed f [] f''"

definition releases_only :: "fut_act list \<Rightarrow> bool" where
  "releases_only as \<longleftrightarrow> Store False \<notin> set as"

lemma step_result_agrees:
  "fut_step timed f a f' \<Longrightarrow> a \<noteq> Store False \<Longrightarrow>
   (fut_waiter f = Finished True \<longrightarrow> fut_status f) \<Longrightarrow>
   (fut_waiter f' = Finished True \<longrightarrow> fut_status f')"
  by (cases a) (auto simp: store_status_def notify_waiters_def after_timed_wait_def after_wait_def
      split: if_splits)

lemma run_result_agrees:
  "fut_run timed f as f' \<Longrightarrow> releases_only as \<Longrightarrow>
   (fut_waiter f = Finished True \<longrightarrow> fut_status f) \<Longrightarrow>
   (fut_waiter f' = Finished True \<longrightarrow> fut_status f')"
proof (induction rule: fut_run.induct)
  case (run_cons f a f' as f'')
  then have "a \<noteq> Store False" "releases_only as" by (auto simp: releases_only_def)
  then show ?case using run_cons step_result_agrees by blast
qed

text \<open>A wait on a new future that returns true has seen the status stored: no interleaving of
  stores, notifications, time-outs and spurious wake-ups makes it report a result that is not there.\<close>

theorem wait_true_is_released:
  assumes "fut_run timed (new_future k) as f" and "releases_only as" and "fut_waiter f = Finished True"
  shows "fut_status f"
  using run_result_agrees [OF assms(1,2)] assms(3) by (simp add: new_future_def)

lemma example_run: "fut_run True (new_future k) [Enter, Store True, Notify, Test]
    \<lparr>fut_status = True, fut_type = k, fut_waiter = Finished True\<rparr>"
proof -
  let ?f1 = "(new_future k)\<lparr>fut_waiter := Blocked\<rparr>"
  have "fut_step True (new_future k) Enter ?f1" by (rule fut_step.enter) (simp add: new_future_def)
  moreover have "fut_step True ?f1 (Store True) (store_status True ?f1)" by (rule fut_step.store)
  moreover have "fut_step True (store_status True ?f1) Notify (notify_waiters (store_status True ?f1))"
    by (rule fut_step.notify)
  moreover have "fut_step True (notify_waiters (store_status True ?f1)) Test
      (after_timed_wait True (notify_waiters (store_status True ?f1)))"
    by (rule fut_step.test_timed) (simp_all add: notify_waiters_def store_status_def)
  moreover have "after_timed_wait True (notify_waiters (store_status True ?f1)) =
      \<lparr>fut_status = True, fut_type = k, fut_waiter = Finished True\<rparr>"
    by (simp add: after_timed_wait_def notify_waiters_def store_status_def new_future_def)
  ultimately show ?thesis by (metis fut_run.intros)
qed

theorem wait_true_is_released_witness:
  "fut_status \<lparr>fut_status = True, fut_type = 7, fut_waiter = Finished True\<rparr>"
  by (rule wait_true_is_released [OF example_run]) (simp_all add: releases_only_def)

text \<open>Once a waiter is blocked, a release wakes it and its test returns true.\<close>

lemma release_wakes:
  assumes "fut_waiter f = Blocked"
  shows "fut_waiter (after_timed_wait True (change_status True f)) = Finished True \<and>
     fut_waiter (after_wait (change_status True f)) = Finished True"
  using assms
  by (simp add: change_status_def store_status_def notify_waiters_def after_timed_wait_def after_wait_def)

text \<open>
  A release before the wait is lost: the loop blocks before it tests the status. \<open>asleep\<close> is
  a waiter that has no wake-up under way.
\<close>

definition asleep :: "core_future \<Rightarrow> bool" where
  "asleep f \<longleftrightarrow> fut_waiter f = Not_waiting \<or> fut_waiter f = Blocked"

lemma asleep_run:
  "fut_run timed f as f' \<Longrightarrow> set as \<inter> {Notify, Timeout, Spurious} = {} \<Longrightarrow> asleep f \<Longrightarrow> asleep f'"
proof (induction rule: fut_run.induct)
  case (run_cons f a f' as f'')
  then have "a \<notin> {Notify, Timeout, Spurious}" by auto
  then have "asleep f'"
    using run_cons.hyps(1) run_cons.prems(2) by (cases a) (auto simp: asleep_def store_status_def)
  with run_cons show ?case by auto
qed

text \<open>A future released before its waiter arrives has lost its wake-up: although the status is
  already true, the wait does not return without a time-out, another notification or a spurious
  wake-up, and in the untimed form, where no time-out exists, it may block for ever.\<close>

theorem early_release_is_lost:
  assumes "fut_run timed (change_status True (new_future k)) as f"
    and "set as \<inter> {Notify, Timeout, Spurious} = {}"
  shows "\<forall>r. fut_waiter f \<noteq> Finished r"
proof -
  have "asleep (change_status True (new_future k))"
    by (simp add: asleep_def change_status_def store_status_def notify_waiters_def new_future_def)
  from asleep_run [OF assms this] show ?thesis by (auto simp: asleep_def)
qed

theorem early_release_is_lost_witness:
  "fut_waiter ((change_status True (new_future 1))\<lparr>fut_waiter := Blocked\<rparr>) \<noteq> Finished True"
proof -
  let ?f = "change_status True (new_future 1)"
  have "fut_step False ?f Enter (?f\<lparr>fut_waiter := Blocked\<rparr>)"
    by (rule fut_step.enter)
      (simp add: change_status_def store_status_def notify_waiters_def new_future_def)
  then have "fut_run False ?f [Enter] (?f\<lparr>fut_waiter := Blocked\<rparr>)" by (metis fut_run.intros)
  from early_release_is_lost [OF this] show ?thesis by simp
qed

end
