(* ===== verification/Libtorrent.thy ===== *)
theory Libtorrent
  imports Misc_Utility
begin

section \<open>What the program sees of libtorrent\<close>

text \<open>
  libtorrent is not part of the repository. The torrent core reads answers of handles and gives
  commands; both are the parameter \<open>libtorrent\<close> of the definitions that use it, and a step may be
  run with other answers than the step before. A handle is \<open>None\<close> when default-constructed. A
  command appears in the call log unless it throws; \<open>lt_fails\<close> says which exception it throws. The
  build is the one of the repository's platform files: \<open>TORRENT_NO_DEPRECATE\<close> and
  \<open>TORRENT_DISABLE_DHT\<close> are defined, \<open>WIN32\<close> is not.
\<close>

type_synonym lt_handle = "nat option"

record lt_file =
  lf_path :: string
  lf_size :: int

text \<open>
  \<open>libtorrent::torrent_info\<close>: \<open>lt_piece i off\<close> is \<open>map_file(i, off, 0).piece\<close>; \<open>lt_metadata\<close> is
  the bencoding of the \<open>create_torrent\<close> entry; \<open>lt_hash\<close> is the info hash in hexadecimal.
\<close>

record lt_torrent =
  lt_files :: "lt_file list"
  lt_name :: string
  lt_hash :: string
  lt_piece_length :: nat
  lt_piece :: "nat \<Rightarrow> int \<Rightarrow> int"
  lt_metadata :: string

record add_torrent_params =
  atp_save_path :: string
  atp_info :: "lt_torrent option"
  atp_url :: string
  atp_paused :: bool
  atp_duplicate_is_error :: bool
  atp_auto_managed :: bool
  atp_sparse :: bool

text \<open>The fields of \<open>session_settings\<close> that the torrent core sets.\<close>

record session_settings =
  se_user_agent :: string
  se_auto_expand_choker :: bool
  se_avoid_readback :: bool
  se_volatile_read_cache :: bool
  se_allowed_fast_set_size :: int
  se_multiple_connections_per_ip :: bool
  se_prioritize_partial_pieces :: bool
  se_seeding_piece_quota :: int
  se_strict_end_game_mode :: bool
  se_announce_to_all_trackers :: bool
  se_min_announce_interval :: int
  se_local_announce_interval :: int

datatype lt_call =
    Async_add_torrent add_torrent_params
  | Remove_torrent lt_handle
  | Post_torrent_updates
  | File_priority lt_handle int nat
  | Piece_priority lt_handle nat nat
  | Prioritize_files lt_handle "nat list"
  | Force_reannounce lt_handle
  | Force_recheck lt_handle
  | Clear_error lt_handle
  | Pause_torrent lt_handle
  | Resume_torrent lt_handle
  | Set_max_connections lt_handle int
  | Set_max_uploads lt_handle int
  | Set_upload_limit lt_handle int
  | Set_download_limit lt_handle int
  | Set_sequential_download lt_handle bool
  | Resolve_countries lt_handle bool
  | Load_state string
  | Start_lsd | Start_upnp | Start_natpmp
  | Stop_lsd | Stop_upnp | Stop_natpmp
  | Set_session_settings session_settings
  | Listen_on int int

record libtorrent =
  lt_is_valid :: "lt_handle \<Rightarrow> bool"
  lt_save_path :: "lt_handle \<Rightarrow> string cpp"
  lt_torrent_info :: "lt_handle \<Rightarrow> lt_torrent cpp"
  lt_file_priorities :: "lt_handle \<Rightarrow> nat list cpp"
  lt_fails :: "lt_call \<Rightarrow> exn option"
  lt_combine_path :: "string \<Rightarrow> string \<Rightarrow> string"

text \<open>The events the torrent core reports to \<open>torrent_core_event_handler\<close>.\<close>

datatype tc_event =
    Ev_file_add string int
  | Ev_file_remove string
  | Ev_file_complete string int
  | Ev_pause string
  | Ev_progress_update string int

subsection \<open>The file system and the clock\<close>

text \<open>
  \<open>ts_open\<close> is \<open>libtorrent::file::open\<close> for writing: whether it returned true, and whether it set
  the error code; \<open>ts_writev\<close> is what \<open>writev\<close> returned, \<open>None\<close> when it set the error code.
  \<open>ts_create_directory\<close> is \<open>None\<close> when it throws.
\<close>

record tc_system =
  ts_open :: "string \<Rightarrow> bool \<times> bool"
  ts_writev :: "string \<Rightarrow> string \<Rightarrow> int option"
  ts_exists :: "string \<Rightarrow> bool"
  ts_is_directory :: "string \<Rightarrow> bool"
  ts_create_directory :: "string \<Rightarrow> bool option"
  ts_absolute :: "string \<Rightarrow> string"
  ts_join :: "string \<Rightarrow> string \<Rightarrow> string"
  ts_load_torrent :: "string \<Rightarrow> lt_torrent option"
  ts_random :: "nat list"
  ts_now :: int

text \<open>
  \<open>save_file\<close>: the body of the \<open>if\<close> runs when \<open>open\<close> returned false. \<open>&bytes[0]\<close> of an empty vector
  is undefined. The second component is what was handed to \<open>writev\<close>.
\<close>

definition save_file :: "tc_system \<Rightarrow> string \<Rightarrow> string \<Rightarrow> (int \<times> string option) cpp" where
  "save_file sys filename bytes =
     (case ts_open sys filename of
        (opened, err) \<Rightarrow>
          if \<not> opened then
            if err then Ret (-1, None)
            else if bytes = [] then Undef
            else (case ts_writev sys filename bytes of
                    None \<Rightarrow> Ret (-3, Some bytes)
                  | Some written \<Rightarrow>
                      Ret (sint (word_of_int written :: 32 word), Some bytes))
          else Ret (-1, None))"

definition concat_paths :: "tc_system \<Rightarrow> string \<Rightarrow> string \<Rightarrow> string" where
  "concat_paths sys root other = ts_join sys root other"

text \<open>\<open>create_random_path\<close> returns the path and the random name (its reference argument).\<close>

definition create_random_path :: "tc_system \<Rightarrow> string \<Rightarrow> (string \<times> string) cpp" where
  "create_random_path sys root_path =
     cbind (get_random_string (ts_random sys) 8) (\<lambda>random_string.
       Ret (ts_join sys root_path random_string, random_string))"

text \<open>A file that \<open>open\<close> reports as opened is never written, and \<open>save_file\<close> reports a failure.\<close>

theorem save_file_never_writes:
  assumes "fst (ts_open sys filename)"
  shows "save_file sys filename bytes = Ret (-1, None)"
  using assms by (cases "ts_open sys filename") (simp add: save_file_def)

definition sample_system :: tc_system where
  "sample_system = \<lparr>ts_open = (\<lambda>p. (True, False)), ts_writev = (\<lambda>p b. Some (int (length b))),
     ts_exists = (\<lambda>p. p = ''/srv''), ts_is_directory = (\<lambda>p. p = ''/srv''),
     ts_create_directory = (\<lambda>p. Some True), ts_absolute = (\<lambda>p. p),
     ts_join = (\<lambda>a b. a @ ''/'' @ b), ts_load_torrent = (\<lambda>p. None),
     ts_random = [0, 1, 2, 3, 4, 5, 6, 7], ts_now = 0\<rparr>"

theorem save_file_never_writes_witness: "save_file sample_system ''f'' ''data'' = Ret (-1, None)"
  by (rule save_file_never_writes) (simp add: sample_system_def)

lemma create_random_path_ok:
  assumes "\<forall>d \<in> set (ts_random sys). d < length chars_set" and "8 \<le> length (ts_random sys)"
  shows "\<exists>name. create_random_path sys root = Ret (ts_join sys root name, name) \<and> length name = 8"
proof -
  have "\<not> 8 > length chars_set - 1" by (simp add: chars_set_def)
  then have "get_random_string (ts_random sys) 8 = Ret (map ((!) chars_set) (take 8 (ts_random sys)))"
    using assms by (simp add: get_random_string_def random_fill_ok)
  then show ?thesis using assms(2) by (simp add: create_random_path_def)
qed

end
