(* ===== verification/Resolvers.thy ===== *)
theory Resolvers
  imports Libtorrent "HOL-Library.AList"
begin

section \<open>Error resolvers\<close>

text \<open>
  \<open>src/src/core/torrent_core/details/base_resolver.hpp\<close>, \<open>error_resolvers_types.{hpp,cpp}\<close>,
  \<open>resolvers_factory.{hpp,cpp}\<close> and \<open>lookup_error.{hpp,cpp}\<close>. The class hierarchy is the datatype
  \<open>resolver\<close>; times are milliseconds since midnight, as \<open>get_current_time\<close> gives them. A status's
  progress is a float that is only compared with 0: the model keeps the answer.
\<close>

datatype torrent_state = St_downloading | St_other

record torrent_status =
  st_handle :: lt_handle
  st_paused :: bool
  st_state :: torrent_state
  st_num_peers :: int
  st_connect_candidates :: int
  st_progress_is_zero :: bool

definition hang_downloading_type :: int where "hang_downloading_type = 0"
definition connection_error_type :: int where "connection_error_type = 1"
definition no_error_detected :: int where "no_error_detected = 2"
definition unknown_error_type :: int where "unknown_error_type = no_error_detected + 1"
definition default_resolver_type :: int where "default_resolver_type = - (2 ^ 31)"

lemmas resolver_type_defs =
  hang_downloading_type_def connection_error_type_def no_error_detected_def unknown_error_type_def
  default_resolver_type_def

text \<open>
  \<open>res_info\<close> is \<open>None\<close> for the prototypes that the factory makes with the default constructor;
  \<open>end_of_delay\<close> only exists in \<open>hang_at_start_error\<close>.
\<close>

datatype resolver =
    Default_resolver
  | Hang_at_start_error "torrent_status option" int
  | Connection_error "torrent_status option"
  | Unknown_error "torrent_status option"

fun resolver_get_type :: "resolver \<Rightarrow> int" where
  "resolver_get_type Default_resolver = default_resolver_type"
| "resolver_get_type (Hang_at_start_error i d) = hang_downloading_type"
| "resolver_get_type (Connection_error i) = connection_error_type"
| "resolver_get_type (Unknown_error i) = unknown_error_type"

fun resolver_clone :: "int \<Rightarrow> resolver \<Rightarrow> torrent_status \<Rightarrow> resolver" where
  "resolver_clone now Default_resolver info = Default_resolver"
| "resolver_clone now (Hang_at_start_error i d) info = Hang_at_start_error (Some info) (now + 5000)"
| "resolver_clone now (Connection_error i) info = Connection_error (Some info)"
| "resolver_clone now (Unknown_error i) info = Unknown_error (Some info)"

fun set_resolve_info :: "resolver \<Rightarrow> torrent_status \<Rightarrow> resolver" where
  "set_resolve_info Default_resolver info = Default_resolver"
| "set_resolve_info (Hang_at_start_error i d) info = Hang_at_start_error (Some info) d"
| "set_resolve_info (Connection_error i) info = Connection_error (Some info)"
| "set_resolve_info (Unknown_error i) info = Unknown_error (Some info)"

text \<open>
  \<open>resolve\<close>: whether the error is done with, and the command it gave. A default-constructed
  status has the invalid handle. An exception of the recheck is caught and counts as not resolved.
\<close>

definition status_handle :: "torrent_status option \<Rightarrow> lt_handle" where
  "status_handle i = (case i of None \<Rightarrow> None | Some s \<Rightarrow> st_handle s)"

fun resolver_resolve :: "libtorrent \<Rightarrow> int \<Rightarrow> resolver \<Rightarrow> bool cpp \<times> lt_call list" where
  "resolver_resolve lt now Default_resolver = (Ret True, [])"
| "resolver_resolve lt now (Hang_at_start_error i d) =
     (if \<not> lt_is_valid lt (status_handle i) then (Ret False, [])
      else if now \<ge> d then
        (case lt_fails lt (Force_recheck (status_handle i)) of
           None \<Rightarrow> (Ret True, [Force_recheck (status_handle i)])
         | Some (Libtorrent_exception w) \<Rightarrow> (Ret False, [])
         | Some e \<Rightarrow> (Throw e, []))
      else (Ret False, []))"
| "resolver_resolve lt now (Connection_error i) = (Ret True, [])"
| "resolver_resolve lt now (Unknown_error i) = (Ret True, [])"

fun is_need_resolve :: "resolver \<Rightarrow> torrent_status \<Rightarrow> bool" where
  "is_need_resolve Default_resolver info = False"
| "is_need_resolve (Hang_at_start_error i d) status \<longleftrightarrow>
     \<not> st_paused status \<and> st_state status = St_downloading \<and>
     (st_num_peers status = 0 \<and> st_connect_candidates status \<noteq> 0) \<and> st_progress_is_zero status"
| "is_need_resolve (Connection_error i) info = False"
| "is_need_resolve (Unknown_error i) info = False"

subsection \<open>The factory\<close>

text \<open>A \<open>std::map<int, base_resolver_ptr>\<close>: visited in the order of the keys.\<close>

record resolvers_factory =
  resolvers :: "(int \<times> resolver) list"

definition map_insert :: "int \<Rightarrow> resolver \<Rightarrow> (int \<times> resolver) list \<Rightarrow> (int \<times> resolver) list" where
  "map_insert k v al = sort_key fst (AList.update k v al)"

definition add_default_resolver :: "resolver \<Rightarrow> (int \<times> resolver) list \<Rightarrow> (int \<times> resolver) list" where
  "add_default_resolver impl res_list = map_insert (resolver_get_type impl) impl res_list"

definition register_default_resolvers :: "resolvers_factory \<Rightarrow> resolvers_factory" where
  "register_default_resolvers f =
     f\<lparr>resolvers := add_default_resolver (Unknown_error None)
        (add_default_resolver (Connection_error None)
          (add_default_resolver (Hang_at_start_error None 0) (resolvers f)))\<rparr>"

definition new_resolvers_factory :: resolvers_factory where
  "new_resolvers_factory = register_default_resolvers \<lparr>resolvers = []\<rparr>"

definition add_resolver :: "resolvers_factory \<Rightarrow> resolver option \<Rightarrow> resolvers_factory" where
  "add_resolver f r =
     (case r of
        None \<Rightarrow> f
      | Some resolver \<Rightarrow>
          if map_of (resolvers f) (resolver_get_type resolver) = None then f
          else f\<lparr>resolvers := map_insert (resolver_get_type resolver) resolver (resolvers f)\<rparr>)"

definition remove_resolver :: "resolvers_factory \<Rightarrow> resolver option \<Rightarrow> resolvers_factory" where
  "remove_resolver f r =
     (case r of
        None \<Rightarrow> f
      | Some resolver \<Rightarrow>
          if map_of (resolvers f) (resolver_get_type resolver) \<noteq> None
          then f\<lparr>resolvers := AList.delete (resolver_get_type resolver) (resolvers f)\<rparr>
          else f)"

definition get_resolver_of_type :: "int \<Rightarrow> resolvers_factory \<Rightarrow> int \<Rightarrow> torrent_status \<Rightarrow> resolver option" where
  "get_resolver_of_type now f resolver_type status =
     (case map_of (resolvers f) resolver_type of
        Some resolver \<Rightarrow>
          if is_need_resolve resolver status then Some (resolver_clone now resolver status) else None
      | None \<Rightarrow> None)"

fun first_needed :: "int \<Rightarrow> (int \<times> resolver) list \<Rightarrow> torrent_status \<Rightarrow> resolver option" where
  "first_needed now [] status = None"
| "first_needed now ((k, r) # rs) status =
     (if is_need_resolve r status then Some (set_resolve_info (resolver_clone now r status) status)
      else first_needed now rs status)"

definition get_resolver :: "int \<Rightarrow> resolvers_factory \<Rightarrow> torrent_status \<Rightarrow> resolver option" where
  "get_resolver now f status = first_needed now (resolvers f) status"

subsection \<open>lookup_error\<close>

text \<open>
  The constructor and the destructor of \<open>lookup_error\<close> on the torrent's resolver. An exception
  leaves the resolver in place.
\<close>

definition need_resolving :: "int \<Rightarrow> resolvers_factory \<Rightarrow> resolver option \<Rightarrow> torrent_status \<Rightarrow> bool \<times> resolver option" where
  "need_resolving now f current status =
     (case current of
        Some _ \<Rightarrow> (False, None)
      | None \<Rightarrow> let resolver = get_resolver now f status in (resolver \<noteq> None, resolver))"

definition try_resolve :: "libtorrent \<Rightarrow> int \<Rightarrow> resolver option \<Rightarrow> unit cpp \<times> resolver option \<times> lt_call list" where
  "try_resolve lt now current =
     (case current of
        None \<Rightarrow> (Ret (), None, [])
      | Some r \<Rightarrow>
          (case resolver_resolve lt now r of
             (Ret True, calls) \<Rightarrow> (Ret (), None, calls)
           | (Ret False, calls) \<Rightarrow> (Ret (), Some r, calls)
           | (Throw e, calls) \<Rightarrow> (Throw e, Some r, calls)
           | (Undef, calls) \<Rightarrow> (Undef, Some r, calls)))"

definition lookup_error ::
  "libtorrent \<Rightarrow> int \<Rightarrow> resolvers_factory \<Rightarrow> resolver option \<Rightarrow> torrent_status
     \<Rightarrow> unit cpp \<times> resolver option \<times> lt_call list" where
  "lookup_error lt now f current status =
     (case need_resolving now f current status of
        (state, resolver) \<Rightarrow> try_resolve lt now (if state then resolver else current))"

lemma default_factory:
  "new_resolvers_factory =
     \<lparr>resolvers = [(0, Hang_at_start_error None 0), (1, Connection_error None), (3, Unknown_error None)]\<rparr>"
  by (simp add: new_resolvers_factory_def register_default_resolvers_def add_default_resolver_def
      map_insert_def resolver_type_defs)

definition hangs :: "torrent_status \<Rightarrow> bool" where
  "hangs status \<longleftrightarrow> is_need_resolve (Hang_at_start_error None 0) status"

lemma get_resolver_default:
  "get_resolver now new_resolvers_factory status =
     (if hangs status then Some (Hang_at_start_error (Some status) (now + 5000)) else None)"
  by (simp add: get_resolver_def default_factory hangs_def)

text \<open>
  The resolver of a torrent over a sequence of status updates, each with its time: the final
  resolver and the commands given.
\<close>

fun lookup_updates ::
  "libtorrent \<Rightarrow> resolver option \<Rightarrow> (int \<times> torrent_status) list \<Rightarrow> resolver option \<times> lt_call list" where
  "lookup_updates lt r [] = (r, [])"
| "lookup_updates lt r ((now, status) # us) =
     (case lookup_error lt now new_resolvers_factory r status of
        (_, r', calls) \<Rightarrow> (case lookup_updates lt r' us of (r'', calls') \<Rightarrow> (r'', calls @ calls')))"

lemma lookup_waiting:
  assumes "\<forall>(now, status) \<in> set us. now < d"
  shows "lookup_updates lt (Some (Hang_at_start_error i d)) us = (Some (Hang_at_start_error i d), [])"
  using assms by (induction us) (auto simp: lookup_error_def need_resolving_def try_resolve_def)

lemma lookup_updates_append:
  "lookup_updates lt r (us @ vs) =
     (case lookup_updates lt r us of
        (r1, calls1) \<Rightarrow> (case lookup_updates lt r1 vs of (r2, calls2) \<Rightarrow> (r2, calls1 @ calls2)))"
  by (induction us arbitrary: r) (auto split: prod.split)

text \<open>A torrent that hangs is rechecked exactly once, on the first update at least five seconds
  after the hang was seen, whatever the updates in between say; then the lookup starts afresh.\<close>

theorem hang_rechecked_once:
  assumes "hangs status" and "lt_is_valid lt (st_handle status)"
    and "lt_fails lt (Force_recheck (st_handle status)) = None"
    and "\<forall>(now, _) \<in> set us. now < t0 + 5000" and "t0 + 5000 \<le> t1"
  shows "lookup_updates lt None ((t0, status) # us @ [(t1, status1)]) =
     (None, [Force_recheck (st_handle status)])"
proof -
  let ?r = "Hang_at_start_error (Some status) (t0 + 5000)"
  have "lookup_error lt t0 new_resolvers_factory None status = (Ret (), Some ?r, [])"
    using assms(1,2)
    by (simp add: lookup_error_def need_resolving_def try_resolve_def get_resolver_default
        status_handle_def)
  then show ?thesis
    using assms lookup_waiting [of us "t0 + 5000" lt "Some status"]
    by (simp add: lookup_updates_append lookup_error_def need_resolving_def try_resolve_def status_handle_def)
qed

definition hanging_status :: torrent_status where
  "hanging_status = \<lparr>st_handle = Some 1, st_paused = False, st_state = St_downloading, st_num_peers = 0,
     st_connect_candidates = 3, st_progress_is_zero = True\<rparr>"

definition sample_torrent :: lt_torrent where
  "sample_torrent = \<lparr>lt_files = [\<lparr>lf_path = ''a.bin'', lf_size = 4000\<rparr>], lt_name = ''t'', lt_hash = ''00'',
     lt_piece_length = 100, lt_piece = (\<lambda>i off. off div 100), lt_metadata = ''d''\<rparr>"

definition sample_lt :: libtorrent where
  "sample_lt = \<lparr>lt_is_valid = (\<lambda>h. h \<noteq> None),
     lt_save_path = (\<lambda>h. if h = None then Ret [] else Ret ''/srv/x''),
     lt_torrent_info = (\<lambda>h. if h = None then Throw (Libtorrent_exception ''invalid handle'')
        else Ret sample_torrent),
     lt_file_priorities = (\<lambda>h. Ret [1]), lt_fails = (\<lambda>c. None),
     lt_combine_path = (\<lambda>a b. a @ ''/'' @ b)\<rparr>"

theorem hang_rechecked_once_witness:
  "lookup_updates sample_lt None [(0, hanging_status), (4999, hanging_status), (5000, hanging_status)] =
     (None, [Force_recheck (Some 1)])"
  using hang_rechecked_once [of hanging_status sample_lt "[(4999, hanging_status)]" 0 5000 hanging_status]
  by (simp add: hangs_def hanging_status_def sample_lt_def)

lemma map_of_filter_key: "map_of (filter (\<lambda>p. fst p = k) al) k = map_of al k"
  by (induction al) auto

lemma map_of_sort: "map_of (sort_key fst al) = map_of (al :: (int \<times> resolver) list)"
proof
  fix k
  have "map_of (sort_key fst al) k = map_of (filter (\<lambda>p. fst p = k) (sort_key fst al)) k"
    by (simp add: map_of_filter_key)
  also have "\<dots> = map_of al k" by (simp add: sort_key_stable map_of_filter_key)
  finally show "map_of (sort_key fst al) k = map_of al k" .
qed

lemma map_insert_get: "map_of (map_insert k v al) = (map_of al)(k \<mapsto> v)"
  by (simp add: map_insert_def map_of_sort update_conv')

text \<open>A resolver of a type the factory does not know is not added, and one of a known type
  replaces the registered one: the test of \<open>add_resolver\<close> is the wrong way round.\<close>

theorem add_resolver_replaces_only:
  "map_of (resolvers (add_resolver f (Some r))) =
     (if map_of (resolvers f) (resolver_get_type r) = None then map_of (resolvers f)
      else (map_of (resolvers f))(resolver_get_type r \<mapsto> r)) \<and>
   map_of (resolvers (remove_resolver f (Some r))) = (map_of (resolvers f))(resolver_get_type r := None)"
  by (auto simp: add_resolver_def remove_resolver_def map_insert_get delete_conv' fun_upd_idem_iff)

end
