(* ===== verification/Torrent_Ex_Info.thy ===== *)
theory Torrent_Ex_Info
  imports Torrent_Info Resolvers Futures
begin

section \<open>The extended information of a torrent\<close>

text \<open>
  The second half of \<open>src/src/core/torrent_core/torrent_info.{hpp,cpp}\<close>: how a torrent's parameters
  and sandbox directory are prepared, how its files enter the list of \<open>Torrent_Info\<close>, and its JSON
  listing. A cast of a number to text never fails and is \<open>num_text\<close>.
\<close>

record add_torrent_future =
  atf_base :: core_future
  atf_handle :: lt_handle
  atf_state :: bool

definition add_torrent_future_type :: int where "add_torrent_future_type = 71"

definition new_add_torrent_future :: add_torrent_future where
  "new_add_torrent_future =
     \<lparr>atf_base = new_future add_torrent_future_type, atf_handle = None, atf_state = False\<rparr>"

record torrent_ex_info =
  ex_resolver :: "resolver option"
  ex_last_checkout :: int
  ex_future :: "add_torrent_future option"
  ex_handle :: lt_handle
  ex_params :: add_torrent_params
  ex_sandbox :: string
  ex_index :: nat
  ex_files :: "file_info list"

text \<open>
  The defaults of libtorrent's \<open>add_torrent_params\<close> (\<open>flag_duplicate_is_error\<close> is off, paused and
  auto-managed are on).
\<close>

definition default_params :: add_torrent_params where
  "default_params = \<lparr>atp_save_path = [], atp_info = None, atp_url = [], atp_paused = True,
     atp_duplicate_is_error = False, atp_auto_managed = True, atp_sparse = True\<rparr>"

definition new_torrent_ex_info :: "tc_system \<Rightarrow> torrent_ex_info" where
  "new_torrent_ex_info sys =
     \<lparr>ex_resolver = None, ex_last_checkout = ts_now sys, ex_future = None, ex_handle = None,
      ex_params = default_params, ex_sandbox = [], ex_index = 0, ex_files = []\<rparr>"

definition prepare_f :: "tc_system \<Rightarrow> torrent_ex_info \<Rightarrow> string \<Rightarrow> string \<Rightarrow> (bool \<times> torrent_ex_info) cpp" where
  "prepare_f sys ex_info save_root path =
     (case ts_load_torrent sys path of
        None \<Rightarrow> Ret (False, ex_info)
      | Some new_torrent_info \<Rightarrow>
          cbind (create_random_path sys save_root) (\<lambda>(save_path, sandbox).
            Ret (True, ex_info\<lparr>ex_sandbox := sandbox,
              ex_params := (ex_params ex_info)\<lparr>atp_save_path := save_path,
                atp_info := Some new_torrent_info, atp_paused := True,
                atp_duplicate_is_error := False, atp_auto_managed := True, atp_sparse := True\<rparr>\<rparr>)))"

definition prepare_u :: "tc_system \<Rightarrow> torrent_ex_info \<Rightarrow> string \<Rightarrow> string \<Rightarrow> torrent_ex_info cpp" where
  "prepare_u sys ex_info save_root url =
     cbind (create_random_path sys save_root) (\<lambda>(save_path, sandbox).
       Ret (ex_info\<lparr>ex_sandbox := sandbox,
         ex_params := (ex_params ex_info)\<lparr>atp_save_path := save_path, atp_paused := True,
           atp_duplicate_is_error := False, atp_auto_managed := True, atp_url := url\<rparr>\<rparr>))"

definition prepare_sandbox :: "tc_system \<Rightarrow> torrent_ex_info \<Rightarrow> bool" where
  "prepare_sandbox sys ex_info =
     (if \<not> ts_exists sys (atp_save_path (ex_params ex_info)) \<and> atp_save_path (ex_params ex_info) \<noteq> []
      then (case ts_create_directory sys (atp_save_path (ex_params ex_info)) of
              Some created \<Rightarrow> created
            | None \<Rightarrow> False)
      else False)"

definition initialize_f :: "tc_system \<Rightarrow> torrent_ex_info \<Rightarrow> string \<Rightarrow> string \<Rightarrow> (bool \<times> torrent_ex_info) cpp" where
  "initialize_f sys ex_info save_root path =
     cbind (prepare_f sys ex_info save_root path) (\<lambda>(ok, ex_info1).
       if \<not> ok then Ret (False, ex_info1)
       else if \<not> prepare_sandbox sys ex_info1 then Ret (False, ex_info1)
       else Ret (True, ex_info1))"

text \<open>
  \<open>file_info_add\<close> as the controller calls it: the piece range, the piece length and the save path
  are read from libtorrent. \<open>info\<close> is what the handle's \<open>get_torrent_info\<close> gives.
\<close>

definition file_info_add_entry ::
  "file_info list \<Rightarrow> lt_file \<Rightarrow> lt_torrent \<Rightarrow> string \<Rightarrow> nat \<Rightarrow> int \<Rightarrow> (file_info \<times> file_info list) cpp" where
  "file_info_add_entry flist fe ti save_path file_index max_partial =
     file_info_add flist (lt_piece ti file_index 0) (lt_piece ti file_index (max (lf_size fe - 1) 0))
       (lt_piece_length ti) save_path (lf_path fe) (lf_size fe) (int file_index) max_partial"

definition file_info_add_by_index ::
  "file_info list \<Rightarrow> lt_torrent \<Rightarrow> string \<Rightarrow> nat \<Rightarrow> int \<Rightarrow> (file_info \<times> file_info list) cpp" where
  "file_info_add_by_index flist ti save_path file_index max_partial =
     (if file_index < length (lt_files ti)
      then file_info_add_entry flist (lt_files ti ! file_index) ti save_path file_index max_partial
      else Undef)"

subsection \<open>The JSON listing\<close>

definition json_entry :: "boost_lexical \<Rightarrow> string \<Rightarrow> int \<Rightarrow> int \<Rightarrow> string" where
  "json_entry bx path fsize it =
     ''{'' @ [LF, DQUOTE] @ ''size'' @ [DQUOTE] @ '': '' @ num_text bx fsize @ '','' @ [LF] @
     [DQUOTE] @ ''path'' @ [DQUOTE] @ '': '' @ [DQUOTE] @ path @ [DQUOTE] @ '','' @ [LF] @
     [DQUOTE] @ ''id'' @ [DQUOTE] @ '': '' @ num_text bx it"

fun json_loop ::
  "boost_lexical \<Rightarrow> (string \<Rightarrow> string) \<Rightarrow> (string \<Rightarrow> string \<Rightarrow> string) \<Rightarrow> string \<Rightarrow> nat \<Rightarrow> nat \<Rightarrow> lt_file list \<Rightarrow> string" where
  "json_loop bx on_path combine save_path n it [] = []"
| "json_loop bx on_path combine save_path n it (fe # fes) =
     json_entry bx (replace_slashes (on_path (combine save_path (lf_path fe)))) (lf_size fe) (int it) @
     (if it \<noteq> n - 1 then [LF] @ ''},'' @ [LF] else [LF] @ ''}'' @ [LF]) @
     json_loop bx on_path combine save_path n (Suc it) fes"

definition torrent_info_to_json ::
  "boost_lexical \<Rightarrow> libtorrent \<Rightarrow> (string \<Rightarrow> string) \<Rightarrow> torrent_ex_info \<Rightarrow> string cpp" where
  "torrent_info_to_json bx lt on_path_process ex_info =
     (case lt_torrent_info lt (ex_handle ex_info) of
        Undef \<Rightarrow> Undef
      | Throw e \<Rightarrow> Ret []
      | Ret info \<Rightarrow>
          Ret (''['' @ [LF] @
            json_loop bx on_path_process (lt_combine_path lt) (atp_save_path (ex_params ex_info))
              (length (lt_files info)) 0 (lt_files info) @ '']''))"

text \<open>What a reader of the listing sees: the objects, separated by commas.\<close>

fun comma_list :: "string list \<Rightarrow> string" where
  "comma_list [] = []"
| "comma_list [x] = x @ [LF] @ ''}'' @ [LF]"
| "comma_list (x # y # ys) = x @ [LF] @ ''},'' @ [LF] @ comma_list (y # ys)"

definition listing_entry :: "(string \<Rightarrow> string) \<Rightarrow> (string \<Rightarrow> string \<Rightarrow> string) \<Rightarrow> string \<Rightarrow> nat \<times> lt_file \<Rightarrow> string" where
  "listing_entry on_path combine save_path = (\<lambda>(i, fe).
     ''{'' @ [LF, DQUOTE] @ ''size'' @ [DQUOTE] @ '': '' @ decimal_int (lf_size fe) @ '','' @ [LF] @
     [DQUOTE] @ ''path'' @ [DQUOTE] @ '': '' @ [DQUOTE] @
     escaped (on_path (combine save_path (lf_path fe))) @ [DQUOTE] @ '','' @ [LF] @
     [DQUOTE] @ ''id'' @ [DQUOTE] @ '': '' @ decimal_int (int i))"

lemma json_loop_comma_list:
  assumes "lexical_ok bx"
  shows "n = it + length fes \<Longrightarrow> json_loop bx on_path combine sp n it fes =
    comma_list (map (listing_entry on_path combine sp) (zip [it..<n] fes))"
proof (induction fes arbitrary: it)
  case (Cons fe fes)
  have head: "json_entry bx (replace_slashes (on_path (combine sp (lf_path fe)))) (lf_size fe) (int it) =
      listing_entry on_path combine sp (it, fe)"
    using assms by (simp add: json_entry_def listing_entry_def lexical_num_text replace_slashes_escaped)
  have "it < n" using Cons.prems by simp
  then have range: "[it..<n] = it # [Suc it..<n]" by (rule upt_conv_Cons)
  have tail: "json_loop bx on_path combine sp n (Suc it) fes =
      comma_list (map (listing_entry on_path combine sp) (zip [Suc it..<n] fes))"
    using Cons.prems by (intro Cons.IH) simp
  show ?case
  proof (cases fes)
    case Nil
    then show ?thesis using Cons.prems by (simp add: head range)
  next
    case (Cons g gs)
    have "Suc it < n" using Cons \<open>n = it + length (fe # fes)\<close> by simp
    then have "[Suc it..<n] = Suc it # [Suc (Suc it)..<n]" by (rule upt_conv_Cons)
    moreover have "it \<noteq> n - 1" using \<open>Suc it < n\<close> by simp
    ultimately show ?thesis using tail Cons by (simp add: head range)
  qed
qed simp

text \<open>The listing of a torrent names every file once, in order, with its size, its escaped path and
  its index, the entries separated by commas; without a torrent it is empty.\<close>

theorem json_listing:
  assumes "lexical_ok bx"
  shows "torrent_info_to_json bx lt on_path ex =
    (case lt_torrent_info lt (ex_handle ex) of
       Ret info \<Rightarrow> Ret (''['' @ [LF] @
         comma_list (map (listing_entry on_path (lt_combine_path lt) (atp_save_path (ex_params ex)))
           (zip [0..<length (lt_files info)] (lt_files info))) @ '']'')
     | Throw e \<Rightarrow> Ret []
     | Undef \<Rightarrow> Undef)"
  using json_loop_comma_list [OF assms, of _ 0, simplified]
  by (simp add: torrent_info_to_json_def split: cpp.split)

theorem json_listing_witness:
  "torrent_info_to_json lexical_reference sample_lt (\<lambda>p. p)
       ((new_torrent_ex_info sample_system)\<lparr>ex_handle := Some 1\<rparr>) =
     Ret (''['' @ [LF] @ comma_list [listing_entry (\<lambda>p. p) (\<lambda>a b. a @ ''/'' @ b) []
       (0, \<lparr>lf_path = ''a.bin'', lf_size = 4000\<rparr>)] @ '']'')"
  by (subst json_listing [OF lexical_ok_reference])
    (simp add: sample_lt_def sample_torrent_def new_torrent_ex_info_def default_params_def)

text \<open>A prepared torrent lives in a fresh directory of its own under the root, is added paused and
  auto-managed, and a duplicate of it is not an error; with a directory of that name already there,
  or one that cannot be made, the preparation fails.\<close>

theorem initialize_sandbox:
  assumes "\<forall>d \<in> set (ts_random sys). d < length chars_set" and "8 \<le> length (ts_random sys)"
    and "initialize_f sys ex root path = Ret (True, ex')"
  shows "atp_save_path (ex_params ex') = ts_join sys root (ex_sandbox ex') \<and> length (ex_sandbox ex') = 8 \<and>
     \<not> ts_exists sys (atp_save_path (ex_params ex')) \<and>
     ts_create_directory sys (atp_save_path (ex_params ex')) = Some True \<and>
     atp_paused (ex_params ex') \<and> atp_auto_managed (ex_params ex') \<and>
     \<not> atp_duplicate_is_error (ex_params ex') \<and> atp_info (ex_params ex') = ts_load_torrent sys path \<and>
     ex_files ex' = ex_files ex"
proof -
  obtain name where name: "create_random_path sys root = Ret (ts_join sys root name, name)" "length name = 8"
    using create_random_path_ok [OF assms(1,2)] by blast
  then show ?thesis
    using assms(3)
    by (auto simp: initialize_f_def prepare_f_def prepare_sandbox_def cbind_eq_Ret
        split: option.splits if_splits)
qed

definition loading_system :: tc_system where
  "loading_system = sample_system\<lparr>ts_load_torrent := (\<lambda>p. Some sample_torrent)\<rparr>"

theorem initialize_sandbox_witness:
  "\<exists>ex'. initialize_f loading_system (new_torrent_ex_info loading_system) ''/srv'' ''t.torrent'' = Ret (True, ex') \<and>
     length (ex_sandbox ex') = 8"
proof -
  let ?ex = "new_torrent_ex_info loading_system"
  obtain name where name: "create_random_path loading_system ''/srv'' =
      Ret (ts_join loading_system ''/srv'' name, name)"
    using create_random_path_ok [of loading_system "''/srv''"]
    by (auto simp: loading_system_def sample_system_def chars_set_def)
  then obtain ex' where ex': "initialize_f loading_system ?ex ''/srv'' ''t.torrent'' = Ret (True, ex')"
    by (auto simp: initialize_f_def prepare_f_def prepare_sandbox_def loading_system_def sample_system_def)
  have "length (ex_sandbox ex') = 8"
    using initialize_sandbox [OF _ _ ex'] by (simp add: loading_system_def sample_system_def chars_set_def)
  with ex' show ?thesis by blast
qed

end
