(* ===== verification/Shared_Buffer.thy ===== *)
theory Shared_Buffer
  imports Torrent_Ex_Info
begin

section \<open>The shared buffer of torrents\<close>

text \<open>
  \<open>src/src/core/torrent_core/details/shared_buffer.{hpp,cpp}\<close>. A \<open>torrent_ex_info_ptr\<close> is an
  address into the heap of extended infos: the buffer, the caller that adds a torrent and the alert
  handlers share the object. The hash function (\<open>boost::hash_value\<close> by default) is part of the
  buffer. The map is its list of entries with distinct keys. It interprets \<open>keyed_store\<close>.
\<close>

type_synonym ex_heap = "torrent_ex_info list"

record shared_buffer =
  sb_torrents :: "(nat \<times> nat) list"
  sb_hasher :: "string \<Rightarrow> nat"

definition new_shared_buffer :: "(string \<Rightarrow> nat) \<Rightarrow> shared_buffer" where
  "new_shared_buffer hash_function = \<lparr>sb_torrents = [], sb_hasher = hash_function\<rparr>"

definition get_usafe :: "shared_buffer \<Rightarrow> nat \<Rightarrow> nat option" where
  "get_usafe b hash_value = map_of (sb_torrents b) hash_value"

definition remove_usafe :: "shared_buffer \<Rightarrow> nat \<Rightarrow> shared_buffer" where
  "remove_usafe b hash_value =
     (case map_of (sb_torrents b) hash_value of
        Some found \<Rightarrow> b\<lparr>sb_torrents := AList.delete hash_value (sb_torrents b)\<rparr>
      | None \<Rightarrow> b)"

definition size_max :: nat where "size_max = 2 ^ 64 - 1"

definition buffer_add :: "ex_heap \<Rightarrow> shared_buffer \<Rightarrow> nat \<Rightarrow> (bool \<times> nat) \<times> ex_heap \<times> shared_buffer" where
  "buffer_add heap b info =
     (let hash_value = sb_hasher b (atp_save_path (ex_params (heap ! info)))
      in if map_of (sb_torrents b) hash_value = None
         then ((True, hash_value), heap[info := (heap ! info)\<lparr>ex_index := hash_value\<rparr>],
               b\<lparr>sb_torrents := AList.update hash_value info (sb_torrents b)\<rparr>)
         else ((False, size_max), heap, b))"

definition buffer_get_path :: "shared_buffer \<Rightarrow> string \<Rightarrow> nat option" where
  "buffer_get_path b path = get_usafe b (sb_hasher b path)"

definition buffer_get :: "shared_buffer \<Rightarrow> nat \<Rightarrow> nat option" where
  "buffer_get b hash_value = get_usafe b hash_value"

definition buffer_remove :: "shared_buffer \<Rightarrow> nat \<Rightarrow> shared_buffer" where
  "buffer_remove b hash_value = remove_usafe b hash_value"

definition buffer_remove_path :: "shared_buffer \<Rightarrow> string \<Rightarrow> shared_buffer" where
  "buffer_remove_path b path = buffer_remove b (sb_hasher b path)"

definition get_hasher :: "shared_buffer \<Rightarrow> string \<Rightarrow> nat" where
  "get_hasher b = sb_hasher b"

definition set_hasher :: "shared_buffer \<Rightarrow> (string \<Rightarrow> nat) \<Rightarrow> shared_buffer" where
  "set_hasher b hasher = b\<lparr>sb_hasher := hasher\<rparr>"

text \<open>\<open>for_each\<close> visits the map in the order of its keys.\<close>

definition buffer_for_each :: "shared_buffer \<Rightarrow> (nat \<times> nat \<Rightarrow> 's \<Rightarrow> 's) \<Rightarrow> 's \<Rightarrow> 's" where
  "buffer_for_each b f s = fold f (sort_key fst (sb_torrents b)) s"

text \<open>The part of \<open>add\<close> that changes the map.\<close>

definition buffer_put :: "shared_buffer \<Rightarrow> nat \<Rightarrow> nat \<Rightarrow> shared_buffer" where
  "buffer_put b h info =
     (if map_of (sb_torrents b) h = None
      then b\<lparr>sb_torrents := AList.update h info (sb_torrents b)\<rparr> else b)"

interpretation torrents: keyed_store get_usafe buffer_put remove_usafe
  by unfold_locales
    (auto simp: get_usafe_def buffer_put_def remove_usafe_def update_conv' delete_conv'
      fun_upd_idem_iff split: option.split)

lemma get_usafe_update:
  "get_usafe (b\<lparr>sb_torrents := AList.update h a (sb_torrents b)\<rparr>) = (get_usafe b)(h \<mapsto> a)"
  by (simp add: get_usafe_def update_conv' fun_eq_iff)

lemma buffer_add_put:
  "snd (snd (buffer_add heap b info)) =
     buffer_put b (sb_hasher b (atp_save_path (ex_params (heap ! info)))) info"
  by (simp add: buffer_add_def buffer_put_def Let_def)

lemma hasher_put [simp]: "sb_hasher (buffer_put b h a) = sb_hasher b"
  by (simp add: buffer_put_def)

lemma hasher_remove [simp]: "sb_hasher (remove_usafe b h) = sb_hasher b"
  by (simp add: remove_usafe_def split: option.split)

subsection \<open>The buffer's invariant\<close>

text \<open>Every entry points at an object of the heap that carries the entry's key as its index.\<close>

definition buffer_inv :: "ex_heap \<Rightarrow> shared_buffer \<Rightarrow> bool" where
  "buffer_inv heap b \<longleftrightarrow>
     (\<forall>h a. get_usafe b h = Some a \<longrightarrow>
        a < length heap \<and> ex_index (heap ! a) = h \<and>
        h = sb_hasher b (atp_save_path (ex_params (heap ! a))))"

lemma buffer_inv_new: "buffer_inv heap (new_shared_buffer f)"
  by (simp add: buffer_inv_def new_shared_buffer_def get_usafe_def)

lemma buffer_inv_add:
  assumes "buffer_inv heap b" and "info < length heap"
    and "\<forall>h. get_usafe b h \<noteq> Some info"
  shows "buffer_inv (fst (snd (buffer_add heap b info))) (snd (snd (buffer_add heap b info)))"
  using assms
  by (auto simp: buffer_inv_def buffer_add_def Let_def get_usafe_def update_conv' nth_list_update)

lemma buffer_inv_remove: "buffer_inv heap b \<Longrightarrow> buffer_inv heap (remove_usafe b h)"
  by (auto simp: buffer_inv_def torrents.look_del)

lemma buffer_inv_update:
  assumes "buffer_inv heap b" and "a < length heap"
    and "ex_index x = ex_index (heap ! a)" and "ex_params x = ex_params (heap ! a)"
  shows "buffer_inv (heap[a := x]) b"
  using assms by (auto simp: buffer_inv_def nth_list_update)

lemma buffer_inv_append: "buffer_inv heap b \<Longrightarrow> buffer_inv (heap @ [x]) b"
  by (auto simp: buffer_inv_def nth_append less_SucI)

text \<open>A torrent added under a free hash is found by its save path and by the returned identifier,
  which is also its index, and no other entry moves; one whose hash is taken is refused with the
  largest \<open>size_t\<close> and nothing changes.\<close>

theorem buffer_add_found:
  assumes "info < length heap"
  shows "case buffer_add heap b info of ((ok, tid), heap', b') \<Rightarrow>
     if buffer_get_path b (atp_save_path (ex_params (heap ! info))) = None
     then ok \<and> buffer_get b' = (buffer_get b)(tid \<mapsto> info) \<and>
       buffer_get_path b' (atp_save_path (ex_params (heap' ! info))) = Some info \<and>
       ex_index (heap' ! info) = tid
     else \<not> ok \<and> tid = 2 ^ 64 - 1 \<and> heap' = heap \<and> b' = b"
proof -
  have get: "buffer_get = get_usafe" by (intro ext) (simp add: buffer_get_def)
  show ?thesis
    using assms
    by (auto simp: buffer_add_def Let_def buffer_get_path_def get size_max_def get_usafe_update)
      (simp_all add: get_usafe_def)
qed

theorem buffer_add_found_witness:
  "case buffer_add [new_torrent_ex_info sample_system] (new_shared_buffer length) 0 of
     ((ok, tid), heap', b') \<Rightarrow> ok"
  using buffer_add_found [of 0 "[new_torrent_ex_info sample_system]" "new_shared_buffer length"]
  by (simp add: buffer_get_path_def get_usafe_def new_shared_buffer_def split: prod.splits)

fun buffer_op :: "shared_buffer \<Rightarrow> (nat, nat) kv_op \<Rightarrow> shared_buffer" where
  "buffer_op b (Put h a) = buffer_put b h a"
| "buffer_op b (Del h) = buffer_remove b h"

lemma buffer_op_store: "buffer_op = torrents.store_step"
proof (intro ext)
  fix c op
  show "buffer_op c op = torrents.store_step c op"
    by (cases op) (simp_all add: buffer_remove_def)
qed

text \<open>Any sequence of additions and removals of identifiers acts on the buffer as the
  insert-if-absent map.\<close>

theorem buffer_refines_map:
  "get_usafe (foldl buffer_op b ops) = foldl kv_step (get_usafe b) ops"
  by (simp only: buffer_op_store torrents.store_refines_map)

text \<open>After the hash function is replaced, a torrent is no longer found by its path when the new
  function gives it an unused hash, although its identifier still finds it; a torrent of the same
  path can then be added a second time.\<close>

theorem set_hasher_loses_paths:
  assumes "buffer_inv heap b" and "get_usafe b h = Some a"
    and "get_usafe b (f (atp_save_path (ex_params (heap ! a)))) = None"
  shows "buffer_get (set_hasher b f) h = Some a \<and>
     buffer_get_path b (atp_save_path (ex_params (heap ! a))) = Some a \<and>
     buffer_get_path (set_hasher b f) (atp_save_path (ex_params (heap ! a))) = None \<and>
     fst (fst (buffer_add heap (set_hasher b f) a))"
proof -
  have "h = sb_hasher b (atp_save_path (ex_params (heap ! a)))"
    using assms(1,2) by (simp add: buffer_inv_def)
  then show ?thesis
    using assms(2,3)
    by (simp add: buffer_get_def buffer_get_path_def set_hasher_def get_usafe_def buffer_add_def Let_def)
qed

theorem set_hasher_loses_paths_witness:
  "buffer_get_path (set_hasher \<lparr>sb_torrents = [(0, 0)], sb_hasher = length\<rparr> (\<lambda>s. 7)) [] = None"
  using set_hasher_loses_paths [of "[new_torrent_ex_info sample_system]" "\<lparr>sb_torrents = [(0, 0)], sb_hasher = length\<rparr>"
      0 0 "\<lambda>s. 7"]
  by (simp add: buffer_inv_def get_usafe_def new_torrent_ex_info_def default_params_def split: if_splits)

end
