(* ===== verification/Sequential_Controller.thy ===== *)
theory Sequential_Controller
  imports Shared_Buffer Settings Services
begin

section \<open>The sequential torrent controller\<close>

text \<open>
  \<open>src/src/core/torrent_core/sequential_torrent_controller.{hpp,cpp}\<close>. A handler is an effect over
  \<open>tc_world\<close>, the state that the alert thread and the callers of the torrent core share: the heap of
  extended infos, the shared buffer, the core's service state, and the log of what was done to
  libtorrent, to the event handler and to the disk. The event handler returns; the
  \<open>piece_priority\<close> calls of \<open>file_info_update\<close> are posted and do not fail. Logging is left out, except
  for the handle accesses among its arguments, which may throw. The controller's pointers are flags
  that say whether they were set.
\<close>

record tc_world =
  tw_heap :: ex_heap
  tw_buffer :: shared_buffer
  tw_state :: service_state
  tw_calls :: "lt_call list"
  tw_events :: "tc_event list"
  tw_written :: "(string \<times> string) list"

record static_settings =
  ss_tc_root :: string
  ss_auto_error_resolving :: bool
  ss_resolve_checkout :: nat
  ss_max_partial_download_size :: int
  ss_partial_files_download :: bool
  ss_sequential_download :: bool
  ss_resolve_countries :: bool
  ss_download_limit :: int
  ss_upload_limit :: int
  ss_max_uploads :: int
  ss_max_connections :: int
  ss_torrent_add_timeout :: nat

record controller =
  cn_setting_manager :: "setting_manager option"
  cn_event_handler :: bool
  cn_session_ref :: bool
  cn_buffer_ref :: bool
  cn_settings :: static_settings

datatype alert =
    Torrent_paused lt_handle
  | Metadata_received lt_handle
  | File_completed lt_handle int
  | Torrent_added lt_handle bool
  | Torrent_finished lt_handle
  | Piece_finished lt_handle int
  | State_changed lt_handle
  | Torrent_deleted lt_handle
  | State_update "torrent_status list"
  | Tracker_error lt_handle int int
  | Listen_failed
  | Other_alert

definition unset_settings :: static_settings where
  "unset_settings = \<lparr>ss_tc_root = [], ss_auto_error_resolving = False, ss_resolve_checkout = 0,
     ss_max_partial_download_size = 0, ss_partial_files_download = False,
     ss_sequential_download = False, ss_resolve_countries = False, ss_download_limit = 0,
     ss_upload_limit = 0, ss_max_uploads = 0, ss_max_connections = 0, ss_torrent_add_timeout = 0\<rparr>"

definition new_controller :: controller where
  "new_controller = \<lparr>cn_setting_manager = None, cn_event_handler = False, cn_session_ref = False,
     cn_buffer_ref = False, cn_settings = unset_settings\<rparr>"

subsection \<open>Settings\<close>

text \<open>The conversion of a setting to each type; the junk numbers are what a failed cast leaves.\<close>

record conversions =
  cv_lexical :: boost_lexical
  cv_junk_int :: int
  cv_junk_size :: nat

definition read_int :: "conversions \<Rightarrow> setting_manager \<Rightarrow> string \<Rightarrow> int cpp" where
  "read_int cv m name = setting_or_undef (get_setting m (to_int (cv_lexical cv)) (cv_junk_int cv) name)"

definition read_size :: "conversions \<Rightarrow> setting_manager \<Rightarrow> string \<Rightarrow> nat cpp" where
  "read_size cv m name = setting_or_undef (get_setting m (to_size (cv_lexical cv)) (cv_junk_size cv) name)"

definition read_string :: "setting_manager \<Rightarrow> string \<Rightarrow> string cpp" where
  "read_string m name = setting_or_undef (get_setting m Some [] name)"

definition read_bool :: "setting_manager \<Rightarrow> string \<Rightarrow> bool cpp" where
  "read_bool m name = setting_or_undef (get_setting_bool m name)"

text \<open>Assign one setting: what was assigned before an exception stays assigned.\<close>

definition assign :: "'a cpp \<Rightarrow> ('a \<Rightarrow> 's \<Rightarrow> 's) \<Rightarrow> ('s, unit) eff" where
  "assign m put = ebind (elift m) (\<lambda>v. emodify (put v))"

definition int_of_size :: "nat \<Rightarrow> int" where
  "int_of_size n = sint (word_of_nat n :: 32 word)"

definition load_static_settings :: "conversions \<Rightarrow> setting_manager \<Rightarrow> (static_settings, unit) eff" where
  "load_static_settings cv m =
     eseq (assign (read_int cv m ''tc_max_partial_download_size'') (\<lambda>v s. s\<lparr>ss_max_partial_download_size := v\<rparr>))
    (eseq (assign (read_string m ''tc_root'') (\<lambda>v s. s\<lparr>ss_tc_root := v\<rparr>))
    (eseq (assign (read_bool m ''tc_auto_error_resolving'') (\<lambda>v s. s\<lparr>ss_auto_error_resolving := v\<rparr>))
    (eseq (assign (read_size cv m ''tc_resolve_checkout'') (\<lambda>v s. s\<lparr>ss_resolve_checkout := v\<rparr>))
    (eseq (assign (read_bool m ''tc_resolve_countries'') (\<lambda>v s. s\<lparr>ss_resolve_countries := v\<rparr>))
    (eseq (assign (read_bool m ''tc_sequential_download'') (\<lambda>v s. s\<lparr>ss_sequential_download := v\<rparr>))
    (eseq (assign (read_int cv m ''tc_download_limit'') (\<lambda>v s. s\<lparr>ss_download_limit := v\<rparr>))
    (eseq (assign (read_int cv m ''tc_upload_limit'') (\<lambda>v s. s\<lparr>ss_upload_limit := v\<rparr>))
    (eseq (assign (read_int cv m ''tc_max_uploads'') (\<lambda>v s. s\<lparr>ss_max_uploads := v\<rparr>))
    (eseq (assign (read_size cv m ''tc_max_connections_per_torrent'') (\<lambda>v s. s\<lparr>ss_max_connections := int_of_size v\<rparr>))
    (eseq (assign (read_bool m ''tc_partial_files_download'') (\<lambda>v s. s\<lparr>ss_partial_files_download := v\<rparr>))
          (assign (read_size cv m ''tc_futures_timeout'') (\<lambda>v s. s\<lparr>ss_torrent_add_timeout := v\<rparr>))))))))))))"

definition update_settings :: "conversions \<Rightarrow> (controller, unit) eff" where
  "update_settings cv c =
     (case cn_setting_manager c of
        None \<Rightarrow> (Undef, c)
      | Some m \<Rightarrow> (case load_static_settings cv m (cn_settings c) of (r, s) \<Rightarrow> (r, c\<lparr>cn_settings := s\<rparr>)))"

definition set_session :: "conversions \<Rightarrow> bool \<Rightarrow> (controller, bool) eff" where
  "set_session cv session_ref =
     catch_all
       (eseq (update_settings cv) (eseq (emodify (\<lambda>c. c\<lparr>cn_session_ref := session_ref\<rparr>)) (eret True)))
       (eret False)"

definition set_event_handler :: "bool \<Rightarrow> controller \<Rightarrow> controller" where
  "set_event_handler event_handler c = c\<lparr>cn_event_handler := event_handler\<rparr>"

definition set_setting_manager :: "setting_manager option \<Rightarrow> controller \<Rightarrow> controller" where
  "set_setting_manager sets_manager c = c\<lparr>cn_setting_manager := sets_manager\<rparr>"

definition set_shared_buffer :: "bool \<Rightarrow> controller \<Rightarrow> controller" where
  "set_shared_buffer shared_buffer_ref c = c\<lparr>cn_buffer_ref := shared_buffer_ref\<rparr>"

text \<open>The categories are bit masks of libtorrent; the argument is its table.\<close>

record alert_masks =
  all_categories :: "32 word"
  dht_notification :: "32 word"
  stats_notification :: "32 word"

definition availables_categories :: "alert_masks \<Rightarrow> 32 word" where
  "availables_categories m = and (all_categories m) (not (dht_notification m + stats_notification m))"

definition on_setup_core_session :: "controller \<Rightarrow> bool \<Rightarrow> bool" where
  "on_setup_core_session c prioritize_partial_pieces =
     (if ss_sequential_download (cn_settings c) then True else prioritize_partial_pieces)"

subsection \<open>Commands and shared infos\<close>

definition call :: "libtorrent \<Rightarrow> lt_call \<Rightarrow> (tc_world, unit) eff" where
  "call lt c w =
     (case lt_fails lt c of
        None \<Rightarrow> (Ret (), w\<lparr>tw_calls := tw_calls w @ [c]\<rparr>)
      | Some e \<Rightarrow> (Throw e, w))"

definition event :: "controller \<Rightarrow> tc_event \<Rightarrow> (tc_world, unit) eff" where
  "event c e w = (if cn_event_handler c then (Ret (), w\<lparr>tw_events := tw_events w @ [e]\<rparr>) else (Undef, w))"

definition torrent_remove :: "controller \<Rightarrow> libtorrent \<Rightarrow> lt_handle \<Rightarrow> (tc_world, unit) eff" where
  "torrent_remove c lt h = (if cn_session_ref c then call lt (Remove_torrent h) else elift Undef)"

text \<open>\<open>shared_buffer_ref_->get(handle.save_path())\<close>.\<close>

definition find_info :: "controller \<Rightarrow> libtorrent \<Rightarrow> lt_handle \<Rightarrow> (tc_world, nat option) eff" where
  "find_info c lt h w =
     (if cn_buffer_ref c
      then (case lt_save_path lt h of
              Ret p \<Rightarrow> (Ret (buffer_get_path (tw_buffer w) p), w)
            | Throw e \<Rightarrow> (Throw e, w)
            | Undef \<Rightarrow> (Undef, w))
      else (Undef, w))"

definition info_at :: "tc_world \<Rightarrow> nat \<Rightarrow> torrent_ex_info" where
  "info_at w a = tw_heap w ! a"

definition put_info :: "nat \<Rightarrow> torrent_ex_info \<Rightarrow> tc_world \<Rightarrow> tc_world" where
  "put_info a x w = w\<lparr>tw_heap := (tw_heap w)[a := x]\<rparr>"

definition change_info :: "nat \<Rightarrow> (torrent_ex_info \<Rightarrow> torrent_ex_info) \<Rightarrow> tc_world \<Rightarrow> tc_world" where
  "change_info a f w = put_info a (f (info_at w a)) w"

text \<open>A handler that needs the extended info: without one it removes the torrent and returns.\<close>

definition with_info ::
  "controller \<Rightarrow> libtorrent \<Rightarrow> lt_handle \<Rightarrow> (nat \<Rightarrow> (tc_world, unit) eff) \<Rightarrow> (tc_world, unit) eff" where
  "with_info c lt h body =
     ebind (find_info c lt h) (\<lambda>found.
       case found of
         Some a \<Rightarrow> body a
       | None \<Rightarrow> eseq (ebind (elift (lt_save_path lt h)) (\<lambda>_. eret ())) (torrent_remove c lt h))"

subsection \<open>Adding a torrent\<close>

definition setup_torrent :: "controller \<Rightarrow> libtorrent \<Rightarrow> lt_handle \<Rightarrow> (tc_world, unit) eff" where
  "setup_torrent c lt h =
     (let s = cn_settings c in
      eseq (if ss_partial_files_download s
            then ebind (elift (lt_file_priorities lt h)) (\<lambda>ps.
                   call lt (Prioritize_files h (replicate (length ps) 0)))
            else eret ())
     (eseq (call lt (Set_max_connections h (ss_max_connections s)))
     (eseq (call lt (Set_max_uploads h (ss_max_uploads s)))
     (eseq (call lt (Set_upload_limit h (ss_upload_limit s)))
     (eseq (call lt (Set_download_limit h (ss_download_limit s)))
     (eseq (call lt (Set_sequential_download h (ss_sequential_download s)))
           (call lt (Resolve_countries h (ss_resolve_countries s)))))))))"

text \<open>The loop over the torrent's files; \<open>p\<close> is the handle's save path.\<close>

definition add_one_file :: "controller \<Rightarrow> lt_torrent \<Rightarrow> string \<Rightarrow> nat \<Rightarrow> nat \<times> lt_file \<Rightarrow> (tc_world, unit) eff" where
  "add_one_file c ti p a = (\<lambda>(index, fe) w.
     case file_info_add_entry (ex_files (info_at w a)) fe ti p index
            (ss_max_partial_download_size (cn_settings c)) of
       Ret (fi, files) \<Rightarrow>
         event c (Ev_file_add (fi_path fi) (fi_size fi)) (change_info a (\<lambda>x. x\<lparr>ex_files := files\<rparr>) w)
     | Throw e \<Rightarrow> (Throw e, w)
     | Undef \<Rightarrow> (Undef, w))"

definition release_future :: "nat \<Rightarrow> tc_world \<Rightarrow> tc_world" where
  "release_future a = change_info a (\<lambda>x. x\<lparr>ex_future :=
     map_option (\<lambda>f. f\<lparr>atf_base := change_status True (atf_base f)\<rparr>) (ex_future x)\<rparr>)"

definition set_future_handle :: "nat \<Rightarrow> lt_handle \<Rightarrow> tc_world \<Rightarrow> tc_world" where
  "set_future_handle a h = change_info a (\<lambda>x. x\<lparr>ex_future :=
     map_option (\<lambda>f. f\<lparr>atf_handle := h\<rparr>) (ex_future x)\<rparr>)"

text \<open>The scope of \<open>future_release\<close>: its destructor runs on every way out.\<close>

definition finish_add :: "controller \<Rightarrow> libtorrent \<Rightarrow> lt_handle \<Rightarrow> nat \<Rightarrow> (tc_world, unit) eff" where
  "finish_add c lt h a w =
     (case eseq (setup_torrent c lt h) (emodify (set_future_handle a h)) w of
        (r, w') \<Rightarrow> (r, release_future a w'))"

definition on_add_torrent :: "controller \<Rightarrow> libtorrent \<Rightarrow> lt_handle \<Rightarrow> bool \<Rightarrow> (tc_world, unit) eff" where
  "on_add_torrent c lt h error =
     (if error \<or> \<not> lt_is_valid lt h then ebind (elift (lt_save_path lt h)) (\<lambda>_. eret ())
      else with_info c lt h (\<lambda>a w.
        if ex_future (info_at w a) = None
        then eseq (ebind (elift (lt_save_path lt h)) (\<lambda>_. eret ())) (torrent_remove c lt h) w
        else ebind (elift (lt_torrent_info lt h)) (\<lambda>ti.
               ebind (elift (lt_save_path lt h)) (\<lambda>p.
                 eseq (eeach (add_one_file c ti p a) (zip [0..<length (lt_files ti)] (lt_files ti)))
                      (finish_add c lt h a))) w))"

text \<open>
  \<open>add_torrent\<close>: the promise is made and the torrent handed to libtorrent; then the caller waits
  while the alert thread works (\<open>env\<close>), and looks at the future's status. Whatever happens, the
  promise is dropped on the way out.
\<close>

definition drop_promise :: "nat \<Rightarrow> tc_world \<Rightarrow> tc_world" where
  "drop_promise a = change_info a (\<lambda>x. x\<lparr>ex_future := None\<rparr>)"

definition add_torrent_result :: "libtorrent \<Rightarrow> nat \<Rightarrow> (tc_world, bool) eff" where
  "add_torrent_result lt a w =
     (case ex_future (info_at w a) of
        None \<Rightarrow> (Undef, w)
      | Some f \<Rightarrow>
          if fut_status (atf_base f)
          then (Ret (lt_is_valid lt (atf_handle f)), change_info a (\<lambda>x. x\<lparr>ex_handle := atf_handle f\<rparr>) w)
          else (Ret False, w))"

definition cntl_add_torrent ::
  "controller \<Rightarrow> libtorrent \<Rightarrow> (tc_world, unit) eff \<Rightarrow> nat \<Rightarrow> (tc_world, bool) eff" where
  "cntl_add_torrent c lt env a w =
     (let w1 = change_info a (\<lambda>x. x\<lparr>ex_future := Some new_add_torrent_future\<rparr>) w
      in case (if cn_session_ref c
               then eseq (call lt (Async_add_torrent (ex_params (info_at w1 a))))
                      (eseq env (add_torrent_result lt a))
               else elift Undef) w1 of
           (r, w2) \<Rightarrow> (r, drop_promise a w2))"

subsection \<open>The other alerts\<close>

definition on_metadata_recv :: "controller \<Rightarrow> libtorrent \<Rightarrow> tc_system \<Rightarrow> lt_handle \<Rightarrow> (tc_world, unit) eff" where
  "on_metadata_recv c lt sys h =
     ebind (elift (lt_torrent_info lt h)) (\<lambda>ti w.
       let path = lt_combine_path lt (ss_tc_root (cn_settings c))
             (lt_name ti @ ''.'' @ lt_hash ti @ ''.torrent'')
       in case save_file sys path (lt_metadata ti) of
            Ret (status, written) \<Rightarrow>
              ((if status = -1
                then (case lt_torrent_info lt h of Ret _ \<Rightarrow> Ret () | Throw e \<Rightarrow> Throw e | Undef \<Rightarrow> Undef)
                else Ret ()),
               (case written of None \<Rightarrow> w | Some b \<Rightarrow> w\<lparr>tw_written := tw_written w @ [(path, b)]\<rparr>))
          | Throw e \<Rightarrow> (Throw e, w)
          | Undef \<Rightarrow> (Undef, w))"

definition on_pause :: "controller \<Rightarrow> libtorrent \<Rightarrow> lt_handle \<Rightarrow> (tc_world, unit) eff" where
  "on_pause c lt h =
     with_info c lt h (\<lambda>a w.
       eeach (\<lambda>fi. event c (Ev_pause (fi_path fi))) (ex_files (info_at w a)) w)"

definition resolve_errors :: "libtorrent \<Rightarrow> tc_system \<Rightarrow> controller \<Rightarrow> torrent_status \<Rightarrow> nat \<Rightarrow> (tc_world, unit) eff" where
  "resolve_errors lt sys c status a w =
     (let x = info_at w a in
      if ss_auto_error_resolving (cn_settings c) \<and> ts_now sys \<ge> ex_last_checkout x
      then let x1 = (if ex_resolver x = None
                     then x\<lparr>ex_last_checkout := ts_now sys + 1000 * int (ss_resolve_checkout (cn_settings c))\<rparr>
                     else x)
           in case lookup_error lt (ts_now sys) new_resolvers_factory (ex_resolver x1) status of
                (r, resolver, calls) \<Rightarrow>
                  (r, put_info a (x1\<lparr>ex_resolver := resolver\<rparr>) (w\<lparr>tw_calls := tw_calls w @ calls\<rparr>))
      else (Ret (), w))"

definition on_update_status :: "controller \<Rightarrow> libtorrent \<Rightarrow> tc_system \<Rightarrow> torrent_status \<Rightarrow> (tc_world, unit) eff" where
  "on_update_status c lt sys status =
     with_info c lt (st_handle status) (resolve_errors lt sys c status)"

definition on_update :: "controller \<Rightarrow> libtorrent \<Rightarrow> tc_system \<Rightarrow> torrent_status list \<Rightarrow> (tc_world, unit) eff" where
  "on_update c lt sys statuses = eeach (on_update_status c lt sys) statuses"

definition update_and_report :: "controller \<Rightarrow> lt_handle \<Rightarrow> int \<Rightarrow> nat \<Rightarrow> (tc_world, unit) eff" where
  "update_and_report c h piece_index a w =
     (case file_info_update (ex_files (info_at w a)) piece_index of
        (Ret (found, prios), files) \<Rightarrow>
          let w1 = (change_info a (\<lambda>x. x\<lparr>ex_files := files\<rparr>) w)
                \<lparr>tw_calls := tw_calls w @ map (\<lambda>p. Piece_priority h p max_prior) prios\<rparr>
          in (case found of
                Some fi \<Rightarrow>
                  event c (Ev_progress_update (fi_path fi)
                    (if fi_avaliable fi > fi_size fi then fi_size fi else fi_avaliable fi)) w1
              | None \<Rightarrow> (Ret (), w1))
      | (Throw e, files) \<Rightarrow> (Throw e, change_info a (\<lambda>x. x\<lparr>ex_files := files\<rparr>) w)
      | (Undef, files) \<Rightarrow> (Undef, w))"

definition on_piece_finished :: "controller \<Rightarrow> libtorrent \<Rightarrow> lt_handle \<Rightarrow> int \<Rightarrow> (tc_world, unit) eff" where
  "on_piece_finished c lt h piece_index = with_info c lt h (update_and_report c h piece_index)"

text \<open>\<open>file_info_reinit\<close> on the file that the search found.\<close>

fun reinit_by_index :: "int \<Rightarrow> file_info list \<Rightarrow> file_info list" where
  "reinit_by_index i [] = []"
| "reinit_by_index i (fi # fs) = (if fi_index fi = i then file_info_reinit fi # fs else fi # reinit_by_index i fs)"

definition on_file_complete :: "controller \<Rightarrow> libtorrent \<Rightarrow> lt_handle \<Rightarrow> int \<Rightarrow> (tc_world, unit) eff" where
  "on_file_complete c lt h index =
     with_info c lt h (\<lambda>a w.
       case file_info_search_by_index (ex_files (info_at w a)) index of
         Some fi \<Rightarrow>
           eseq (event c (Ev_file_complete (fi_path fi) (fi_size fi)))
             (emodify (change_info a (\<lambda>x. x\<lparr>ex_files := reinit_by_index index (ex_files x)\<rparr>))) w
       | None \<Rightarrow> (Ret (), w))"

definition on_deleted :: "controller \<Rightarrow> libtorrent \<Rightarrow> lt_handle \<Rightarrow> (tc_world, unit) eff" where
  "on_deleted c lt h =
     ebind (find_info c lt h) (\<lambda>found.
       case found of
         Some a \<Rightarrow> (\<lambda>w.
           eseq (eeach (\<lambda>fi. event c (Ev_file_remove (fi_path fi))) (ex_files (info_at w a)))
             (ebind (elift (lt_save_path lt h)) (\<lambda>p.
               emodify (\<lambda>w. w\<lparr>tw_buffer := buffer_remove_path (tw_buffer w) p\<rparr>))) w)
       | None \<Rightarrow> eret ())"

definition on_tracker_error :: "libtorrent \<Rightarrow> lt_handle \<Rightarrow> int \<Rightarrow> int \<Rightarrow> (tc_world, unit) eff" where
  "on_tracker_error lt h status_code error_value =
     eseq (call lt (Clear_error h))
       (if status_code \<noteq> 200 \<or> error_value > 0 then call lt (Force_reannounce h) else eret ())"

fun dispatch_alert :: "controller \<Rightarrow> libtorrent \<Rightarrow> tc_system \<Rightarrow> alert \<Rightarrow> (tc_world, unit) eff" where
  "dispatch_alert c lt sys (Torrent_paused h) = on_pause c lt h"
| "dispatch_alert c lt sys (Metadata_received h) = on_metadata_recv c lt sys h"
| "dispatch_alert c lt sys (File_completed h i) = on_file_complete c lt h i"
| "dispatch_alert c lt sys (Torrent_added h err) = on_add_torrent c lt h err"
| "dispatch_alert c lt sys (Torrent_finished h) = eret ()"
| "dispatch_alert c lt sys (Piece_finished h p) = on_piece_finished c lt h p"
| "dispatch_alert c lt sys (State_changed h) = eret ()"
| "dispatch_alert c lt sys (Torrent_deleted h) = on_deleted c lt h"
| "dispatch_alert c lt sys (State_update ss) = on_update c lt sys ss"
| "dispatch_alert c lt sys (Tracker_error h code err) = on_tracker_error lt h code err"
| "dispatch_alert c lt sys Listen_failed = eret ()"
| "dispatch_alert c lt sys Other_alert = eret ()"

subsection \<open>The invariant of the shared state\<close>

definition infos_inv :: "ex_heap \<Rightarrow> bool" where
  "infos_inv heap \<longleftrightarrow> list_all (\<lambda>x. list_all file_inv (ex_files x)) heap"

definition world_inv :: "tc_world \<Rightarrow> bool" where
  "world_inv w \<longleftrightarrow> buffer_inv (tw_heap w) (tw_buffer w) \<and> infos_inv (tw_heap w)"

text \<open>What libtorrent documents of piece ranges: a file's last byte is not in an earlier piece than
  its first.\<close>

definition pieces_ordered :: "libtorrent \<Rightarrow> bool" where
  "pieces_ordered lt \<longleftrightarrow>
     (\<forall>h ti i off. lt_torrent_info lt h = Ret ti \<and> 0 \<le> off \<longrightarrow> lt_piece ti i 0 \<le> lt_piece ti i off)"

lemma world_inv_logs [simp]:
  "world_inv (w\<lparr>tw_calls := cs\<rparr>) = world_inv w" "world_inv (w\<lparr>tw_events := es\<rparr>) = world_inv w"
  "world_inv (w\<lparr>tw_written := ws\<rparr>) = world_inv w" "world_inv (w\<lparr>tw_state := st\<rparr>) = world_inv w"
  by (simp_all add: world_inv_def)

lemma world_inv_change:
  assumes "world_inv w" and "ex_index (f (info_at w a)) = ex_index (info_at w a)"
    and "ex_params (f (info_at w a)) = ex_params (info_at w a)"
    and "list_all file_inv (ex_files (info_at w a)) \<Longrightarrow> list_all file_inv (ex_files (f (info_at w a)))"
  shows "world_inv (change_info a f w)"
proof (cases "a < length (tw_heap w)")
  case True
  then show ?thesis
    using assms buffer_inv_update [of "tw_heap w" "tw_buffer w" a "f (info_at w a)"]
    by (auto simp: world_inv_def change_info_def put_info_def info_at_def infos_inv_def
        list_all_length nth_list_update)
next
  case False
  then show ?thesis using assms by (simp add: change_info_def put_info_def world_inv_def not_less list_update_beyond)
qed

lemma keeps_call [keeps_intros]: "keeps world_inv (call lt c)"
  by (simp add: keeps_def call_def split: option.split)

lemma keeps_event [keeps_intros]: "keeps world_inv (event c e)"
  by (simp add: keeps_def event_def)

lemma keeps_torrent_remove [keeps_intros]: "keeps world_inv (torrent_remove c lt h)"
  by (simp add: torrent_remove_def keeps_intros)

lemma keeps_find_info [keeps_intros]: "keeps world_inv (find_info c lt h)"
  by (simp add: keeps_def find_info_def split: cpp.split)

lemma keeps_with_info [keeps_intros]:
  "(\<And>a. keeps world_inv (body a)) \<Longrightarrow> keeps world_inv (with_info c lt h body)"
  unfolding with_info_def
  by (intro keeps_intros) (auto intro: keeps_intros split: option.split)

lemma keeps_setup [keeps_intros]: "keeps world_inv (setup_torrent c lt h)"
  unfolding setup_torrent_def Let_def by (intro keeps_intros) (auto intro: keeps_intros)

lemma keeps_change [keeps_intros]:
  "(\<And>x. ex_index (f x) = ex_index x) \<Longrightarrow> (\<And>x. ex_params (f x) = ex_params x) \<Longrightarrow>
   (\<And>x. list_all file_inv (ex_files x) \<Longrightarrow> list_all file_inv (ex_files (f x))) \<Longrightarrow>
   keeps world_inv (emodify (change_info a f))"
  by (intro keeps_emodify world_inv_change) auto

lemma file_entry_inv:
  assumes "pieces_ordered lt" and "lt_torrent_info lt h = Ret ti" and "list_all file_inv files"
    and "file_info_add_entry files fe ti p i mx = Ret (fi, files')"
  shows "list_all file_inv files'"
proof -
  have "lt_piece ti i 0 \<le> lt_piece ti i (max (lf_size fe - 1) 0)"
    using assms(1,2) by (auto simp: pieces_ordered_def)
  then have "file_inv fi \<and> files' = files @ [fi]"
    using assms(4) file_inv_add by (simp add: file_info_add_entry_def)
  then show ?thesis using assms(3) by simp
qed

lemma keeps_add_one_file:
  assumes "pieces_ordered lt" and "lt_torrent_info lt h = Ret ti"
  shows "keeps world_inv (add_one_file c ti p a ife)"
proof (rule keepsI)
  fix w
  assume inv: "world_inv w"
  obtain i fe where ife: "ife = (i, fe)" by (cases ife)
  show "world_inv (snd (add_one_file c ti p a ife w))"
  proof (cases "file_info_add_entry (ex_files (info_at w a)) fe ti p i
      (ss_max_partial_download_size (cn_settings c))")
    case (Ret r)
    obtain fi files where r: "r = (fi, files)" by (cases r)
    have "world_inv (change_info a (\<lambda>x. x\<lparr>ex_files := files\<rparr>) w)"
      using inv file_entry_inv [OF assms] Ret r by (intro world_inv_change) auto
    then show ?thesis using Ret r ife by (simp add: add_one_file_def event_def)
  qed (simp_all add: add_one_file_def ife inv)
qed

lemma keeps_release: "world_inv w \<Longrightarrow> world_inv (release_future a w)"
  unfolding release_future_def by (rule world_inv_change) simp_all

lemma keeps_finish_add [keeps_intros]: "keeps world_inv (finish_add c lt h a)"
proof (rule keepsI)
  fix w
  assume inv: "world_inv w"
  have "keeps world_inv (eseq (setup_torrent c lt h) (emodify (set_future_handle a h)))"
    unfolding set_future_handle_def by (intro keeps_intros) simp_all
  from keepsD [OF this inv] show "world_inv (snd (finish_add c lt h a w))"
    by (auto simp: finish_add_def keeps_release split: prod.split)
qed

lemma keeps_ebind_elift:
  "(\<And>x. m = Ret x \<Longrightarrow> keeps P (f x)) \<Longrightarrow> keeps P (ebind (elift m) f)"
  by (cases m) (auto simp: keeps_def ebind_def elift_def)

lemma keeps_on_add_torrent:
  assumes "pieces_ordered lt"
  shows "keeps world_inv (on_add_torrent c lt h err)"
proof -
  have "keeps world_inv (\<lambda>w. if ex_future (info_at w a) = None
      then eseq (ebind (elift (lt_save_path lt h)) (\<lambda>_. eret ())) (torrent_remove c lt h) w
      else ebind (elift (lt_torrent_info lt h)) (\<lambda>ti. ebind (elift (lt_save_path lt h)) (\<lambda>p.
        eseq (eeach (add_one_file c ti p a) (zip [0..<length (lt_files ti)] (lt_files ti)))
          (finish_add c lt h a))) w)" for a
  proof -
    have "keeps world_inv (eseq (ebind (elift (lt_save_path lt h)) (\<lambda>_. eret ())) (torrent_remove c lt h))"
      by (intro keeps_intros)
    moreover have "keeps world_inv (ebind (elift (lt_torrent_info lt h)) (\<lambda>ti. ebind (elift (lt_save_path lt h)) (\<lambda>p.
        eseq (eeach (add_one_file c ti p a) (zip [0..<length (lt_files ti)] (lt_files ti)))
          (finish_add c lt h a))))"
      by (intro keeps_ebind_elift keeps_intros keeps_add_one_file [OF assms])
    ultimately show ?thesis by (simp add: keeps_def)
  qed
  then show ?thesis
    unfolding on_add_torrent_def by (auto intro: keeps_intros)
qed

lemma keeps_metadata: "keeps world_inv (on_metadata_recv c lt sys h)"
  unfolding on_metadata_recv_def
  by (intro keeps_ebind_elift keepsI) (auto simp: Let_def split: cpp.split prod.split option.split)

lemma keeps_on_pause: "keeps world_inv (on_pause c lt h)"
  unfolding on_pause_def
  by (rule keeps_with_info, rule keepsI, rule keepsD [OF keeps_eeach [OF keeps_event]])

lemma keeps_resolve: "keeps world_inv (resolve_errors lt sys c status a)"
proof (rule keepsI)
  fix w
  assume inv: "world_inv w"
  have "world_inv (put_info a (x\<lparr>ex_resolver := r\<rparr>) (w\<lparr>tw_calls := cs\<rparr>))"
    if "ex_index x = ex_index (info_at w a)" "ex_params x = ex_params (info_at w a)"
      "ex_files x = ex_files (info_at w a)" for x r cs
    using that inv world_inv_change [of "w\<lparr>tw_calls := cs\<rparr>" "\<lambda>_. x\<lparr>ex_resolver := r\<rparr>" a]
    by (simp add: change_info_def info_at_def)
  then show "world_inv (snd (resolve_errors lt sys c status a w))"
    using inv by (auto simp: resolve_errors_def Let_def split: prod.split)
qed

lemma keeps_on_update: "keeps world_inv (on_update c lt sys ss)"
  unfolding on_update_def on_update_status_def by (intro keeps_intros keeps_resolve)

lemma keeps_on_piece: "keeps world_inv (on_piece_finished c lt h i)"
  unfolding on_piece_finished_def
proof (intro keeps_with_info keepsI)
  fix a w
  assume inv: "world_inv w"
  obtain r files where upd: "file_info_update (ex_files (info_at w a)) i = (r, files)"
    by (cases "file_info_update (ex_files (info_at w a)) i")
  then have "world_inv (change_info a (\<lambda>x. x\<lparr>ex_files := files\<rparr>) w)"
    using inv update_inv [of "ex_files (info_at w a)" i] by (intro world_inv_change) simp_all
  then show "world_inv (snd (update_and_report c h i a w))"
    using inv upd by (auto simp: update_and_report_def Let_def event_def split: cpp.split option.split)
qed

lemma reinit_by_index_inv: "list_all file_inv fs \<Longrightarrow> list_all file_inv (reinit_by_index i fs)"
  by (induction fs) (simp_all add: file_inv_reinit)

lemma keeps_on_file_complete: "keeps world_inv (on_file_complete c lt h i)"
proof -
  have whole: "keeps world_inv (eseq (event c (Ev_file_complete (fi_path fi) (fi_size fi)))
      (emodify (change_info a (\<lambda>x. x\<lparr>ex_files := reinit_by_index i (ex_files x)\<rparr>))))" for a fi
    by (intro keeps_intros) (simp_all add: reinit_by_index_inv)
  then show ?thesis
    unfolding on_file_complete_def
    by (intro keeps_with_info keepsI) (auto split: option.split intro: keepsD [OF whole])
qed

lemma keeps_on_deleted: "keeps world_inv (on_deleted c lt h)"
proof -
  have "world_inv w \<Longrightarrow> world_inv (w\<lparr>tw_buffer := buffer_remove_path (tw_buffer w) p\<rparr>)" for w p
    by (simp add: world_inv_def buffer_remove_path_def buffer_remove_def buffer_inv_remove)
  then have whole: "keeps world_inv (eseq (eeach (\<lambda>fi. event c (Ev_file_remove (fi_path fi))) fis)
      (ebind (elift (lt_save_path lt h)) (\<lambda>p.
        emodify (\<lambda>w. w\<lparr>tw_buffer := buffer_remove_path (tw_buffer w) p\<rparr>))))" for fis
    by (intro keeps_intros)
  then have "keeps world_inv (case found of
      Some a \<Rightarrow> (\<lambda>w. eseq (eeach (\<lambda>fi. event c (Ev_file_remove (fi_path fi))) (ex_files (info_at w a)))
          (ebind (elift (lt_save_path lt h)) (\<lambda>p.
            emodify (\<lambda>w. w\<lparr>tw_buffer := buffer_remove_path (tw_buffer w) p\<rparr>))) w)
    | None \<Rightarrow> eret ())" for found
    by (cases found) (auto intro!: keepsI intro: keepsD [OF whole] simp: eret_def)
  then show ?thesis
    unfolding on_deleted_def by (intro keeps_ebind keeps_find_info)
qed

text \<open>C8. Whatever alerts arrive, in whatever order, and whatever libtorrent answers or throws, the
  shared buffer stays consistent with its objects and every file's counters stay consistent with
  its piece vector.\<close>

theorem dispatch_keeps_world:
  assumes "pieces_ordered lt" and "world_inv w"
  shows "world_inv (snd (dispatch_alert c lt sys a w))"
proof -
  have "keeps world_inv (dispatch_alert c lt sys a)"
    using assms(1)
    by (cases a) (auto simp: on_tracker_error_def intro!: keeps_intros keeps_on_add_torrent
        keeps_metadata keeps_on_pause keeps_on_update keeps_on_piece keeps_on_file_complete keeps_on_deleted)
  then show ?thesis using assms(2) by (rule keepsD)
qed

definition wired :: "controller \<Rightarrow> bool" where
  "wired c \<longleftrightarrow> cn_event_handler c \<and> cn_session_ref c \<and> cn_buffer_ref c"

definition sample_settings :: static_settings where
  "sample_settings = \<lparr>ss_tc_root = ''/srv'', ss_auto_error_resolving = True, ss_resolve_checkout = 6,
     ss_max_partial_download_size = 22242880, ss_partial_files_download = True,
     ss_sequential_download = True, ss_resolve_countries = True, ss_download_limit = 0,
     ss_upload_limit = 0, ss_max_uploads = -1, ss_max_connections = 50, ss_torrent_add_timeout = 10\<rparr>"

definition sample_controller :: controller where
  "sample_controller = \<lparr>cn_setting_manager = None, cn_event_handler = True, cn_session_ref = True,
     cn_buffer_ref = True, cn_settings = sample_settings\<rparr>"

definition waiting_info :: torrent_ex_info where
  "waiting_info = (new_torrent_ex_info sample_system)
     \<lparr>ex_params := default_params\<lparr>atp_save_path := ''/srv/x''\<rparr>, ex_index := 6\<rparr>"

definition sample_world :: tc_world where
  "sample_world = \<lparr>tw_heap = [waiting_info], tw_buffer = \<lparr>sb_torrents = [(6, 0)], sb_hasher = length\<rparr>,
     tw_state = service_running, tw_calls = [], tw_events = [], tw_written = []\<rparr>"

lemma sample_world_inv: "world_inv sample_world"
  by (simp add: world_inv_def infos_inv_def buffer_inv_def sample_world_def waiting_info_def get_usafe_def
      new_torrent_ex_info_def default_params_def)

lemma sample_pieces_ordered: "pieces_ordered sample_lt"
  by (auto simp: pieces_ordered_def sample_lt_def sample_torrent_def zdiv_mono1 split: if_splits)

theorem dispatch_keeps_world_witness:
  "world_inv (snd (dispatch_alert sample_controller sample_lt sample_system (Piece_finished (Some 1) 3) sample_world))"
  by (rule dispatch_keeps_world [OF sample_pieces_ordered sample_world_inv])

subsection \<open>An alert for a torrent the buffer does not know\<close>

lemma with_info_unknown:
  assumes "wired c" and "lt_save_path lt h = Ret p" and "buffer_get_path (tw_buffer w) p = None"
  shows "with_info c lt h body w = call lt (Remove_torrent h) w"
  using assms by (simp add: with_info_def find_info_def torrent_remove_def eff_simps wired_def
      split: prod.split cpp.split)

lemma with_info_known:
  assumes "wired c" and "lt_save_path lt h = Ret p" and "buffer_get_path (tw_buffer w) p = Some a"
  shows "with_info c lt h body w = body a w"
  using assms by (simp add: with_info_def find_info_def eff_simps wired_def)

definition torrent_alert :: "lt_handle \<Rightarrow> alert \<Rightarrow> bool" where
  "torrent_alert h a \<longleftrightarrow>
     a = Torrent_paused h \<or> (\<exists>i. a = File_completed h i) \<or> (\<exists>i. a = Piece_finished h i) \<or>
     a = Torrent_added h False \<or> (\<exists>s. a = State_update [s] \<and> st_handle s = h)"

text \<open>An alert for a torrent that the shared buffer does not hold makes the controller remove that
  torrent from the session and does nothing else.\<close>

theorem unknown_torrent_removed:
  assumes "wired c" and "lt_save_path lt h = Ret p" and "buffer_get_path (tw_buffer w) p = None"
    and "lt_is_valid lt h" and "lt_fails lt (Remove_torrent h) = None" and "torrent_alert h a"
  shows "dispatch_alert c lt sys a w = (Ret (), w\<lparr>tw_calls := tw_calls w @ [Remove_torrent h]\<rparr>)"
  using assms
  by (auto simp: torrent_alert_def on_pause_def on_file_complete_def on_piece_finished_def
      on_add_torrent_def on_update_def on_update_status_def with_info_unknown call_def eff_simps)

theorem unknown_torrent_removed_witness:
  "dispatch_alert sample_controller sample_lt sample_system (Piece_finished (Some 1) 3)
       (sample_world\<lparr>tw_buffer := new_shared_buffer length\<rparr>) =
     (Ret (), sample_world\<lparr>tw_buffer := new_shared_buffer length, tw_calls := [Remove_torrent (Some 1)]\<rparr>)"
  using unknown_torrent_removed [of sample_controller sample_lt "Some 1" "''/srv/x''"
      "sample_world\<lparr>tw_buffer := new_shared_buffer length\<rparr>" "Piece_finished (Some 1) 3" sample_system]
  by (simp add: wired_def sample_controller_def sample_lt_def buffer_get_path_def get_usafe_def
      new_shared_buffer_def torrent_alert_def sample_world_def)

text \<open>When an add alert comes after its caller gave up, the torrent is removed from the session but
  its entry stays in the shared buffer.\<close>

theorem late_add_leaves_entry:
  assumes "wired c" and "lt_save_path lt h = Ret p" and "buffer_get_path (tw_buffer w) p = Some a"
    and "lt_is_valid lt h" and "lt_fails lt (Remove_torrent h) = None" and "ex_future (info_at w a) = None"
  shows "dispatch_alert c lt sys (Torrent_added h False) w =
     (Ret (), w\<lparr>tw_calls := tw_calls w @ [Remove_torrent h]\<rparr>)"
  using assms
  by (simp add: on_add_torrent_def with_info_known torrent_remove_def wired_def call_def eff_simps)

theorem late_add_leaves_entry_witness:
  "buffer_get_path (tw_buffer (snd (dispatch_alert sample_controller sample_lt sample_system
       (Torrent_added (Some 1) False) sample_world))) ''/srv/x'' = Some 0"
  using late_add_leaves_entry [of sample_controller sample_lt "Some 1" "''/srv/x''" sample_world 0 sample_system]
  by (simp add: wired_def sample_controller_def sample_lt_def buffer_get_path_def get_usafe_def
      sample_world_def info_at_def waiting_info_def new_torrent_ex_info_def)

subsection \<open>Adding a torrent, end to end\<close>

lemma file_info_add_append:
  "file_info_add files rf rl plen sp path sz ix mx =
     cbind (file_info_add [] rf rl plen sp path sz ix mx) (\<lambda>(fi, _). Ret (fi, files @ [fi]))"
  by (simp add: file_info_add_def Let_def cbind_assoc)

definition file_entry :: "lt_torrent \<Rightarrow> string \<Rightarrow> int \<Rightarrow> nat \<times> lt_file \<Rightarrow> file_info \<Rightarrow> bool" where
  "file_entry ti p mx = (\<lambda>(i, fe) fi. file_info_add_entry [] fe ti p i mx = Ret (fi, [fi]))"

lemma file_entry_add:
  "file_entry ti p mx (i, fe) fi \<Longrightarrow> file_info_add_entry files fe ti p i mx = Ret (fi, files @ [fi])"
  unfolding file_entry_def file_info_add_entry_def by (subst file_info_add_append) simp

definition files_added :: "nat \<Rightarrow> file_info list \<Rightarrow> tc_world \<Rightarrow> tc_world" where
  "files_added a fis w =
     (change_info a (\<lambda>x. x\<lparr>ex_files := ex_files x @ fis\<rparr>) w)
       \<lparr>tw_events := tw_events w @ map (\<lambda>fi. Ev_file_add (fi_path fi) (fi_size fi)) fis\<rparr>"

lemma files_added_Cons:
  "a < length (tw_heap w) \<Longrightarrow> files_added a fis (files_added a [fi] w) = files_added a (fi # fis) w"
  by (simp add: files_added_def change_info_def put_info_def info_at_def)

lemma add_one_file_entry:
  assumes "wired c" and "file_entry ti p (ss_max_partial_download_size (cn_settings c)) ife fi"
  shows "add_one_file c ti p a ife w = (Ret (), files_added a [fi] w)"
  using assms
  by (cases ife) (simp add: add_one_file_def file_entry_add event_def wired_def files_added_def
      change_info_def put_info_def)

lemma files_added_nil: "a < length (tw_heap w) \<Longrightarrow> files_added a [] w = w"
  by (simp add: files_added_def change_info_def put_info_def info_at_def)

lemma add_files:
  assumes "wired c"
  shows "list_all2 (file_entry ti p (ss_max_partial_download_size (cn_settings c))) ifes fis \<Longrightarrow>
    a < length (tw_heap w) \<Longrightarrow> eeach (add_one_file c ti p a) ifes w = (Ret (), files_added a fis w)"
proof (induction ifes fis arbitrary: w rule: list_all2_induct)
  case Nil
  then show ?case by (simp add: eret_def files_added_nil)
next
  case (Cons ife ifes fi fis)
  have "a < length (tw_heap (files_added a [fi] w))"
    using Cons.prems by (simp add: files_added_def change_info_def put_info_def)
  then show ?case
    using Cons add_one_file_entry [OF assms, of ti p ife fi a w]
    by (simp add: eseq_def ebind_def files_added_Cons)
qed

definition setup_calls :: "static_settings \<Rightarrow> lt_handle \<Rightarrow> nat \<Rightarrow> lt_call list" where
  "setup_calls s h n =
     (if ss_partial_files_download s then [Prioritize_files h (replicate n 0)] else []) @
     [Set_max_connections h (ss_max_connections s), Set_max_uploads h (ss_max_uploads s),
      Set_upload_limit h (ss_upload_limit s), Set_download_limit h (ss_download_limit s),
      Set_sequential_download h (ss_sequential_download s), Resolve_countries h (ss_resolve_countries s)]"

lemma setup_torrent_calls:
  assumes "\<forall>x. lt_fails lt x = None" and "lt_file_priorities lt h = Ret ps"
  shows "setup_torrent c lt h w =
     (Ret (), w\<lparr>tw_calls := tw_calls w @ setup_calls (cn_settings c) h (length ps)\<rparr>)"
  using assms by (simp add: setup_torrent_def setup_calls_def call_def eff_simps Let_def)

lemma info_at_change [simp]: "a < length (tw_heap w) \<Longrightarrow> info_at (change_info a f w) a = f (info_at w a)"
  by (simp add: info_at_def change_info_def put_info_def)

lemma heap_length_change [simp]: "length (tw_heap (change_info a f w)) = length (tw_heap w)"
  by (simp add: change_info_def put_info_def)

lemma change_info_fields [simp]:
  "tw_buffer (change_info a f w) = tw_buffer w" "tw_calls (change_info a f w) = tw_calls w"
  "tw_events (change_info a f w) = tw_events w" "tw_written (change_info a f w) = tw_written w"
  "tw_state (change_info a f w) = tw_state w"
  by (simp_all add: change_info_def put_info_def)

lemma info_at_logs [simp]:
  "info_at (w\<lparr>tw_calls := cs\<rparr>) a = info_at w a" "info_at (w\<lparr>tw_events := es\<rparr>) a = info_at w a"
  by (simp_all add: info_at_def)

definition added_info :: "lt_handle \<Rightarrow> file_info list \<Rightarrow> torrent_ex_info \<Rightarrow> torrent_ex_info" where
  "added_info h fis x = x\<lparr>ex_handle := h, ex_future := None, ex_files := ex_files x @ fis\<rparr>"

lemma finish_add_released:
  assumes "\<forall>x. lt_fails lt x = None" and "lt_file_priorities lt h = Ret ps"
  shows "finish_add c lt h a w =
     (Ret (), release_future a (set_future_handle a h
       (w\<lparr>tw_calls := tw_calls w @ setup_calls (cn_settings c) h (length ps)\<rparr>)))"
  by (simp add: finish_add_def setup_torrent_calls [OF assms] eff_simps)

lemma on_add_torrent_known:
  assumes "wired c" and "\<forall>x. lt_fails lt x = None" and "lt_is_valid lt h" and "lt_save_path lt h = Ret p"
    and "lt_torrent_info lt h = Ret ti" and "lt_file_priorities lt h = Ret ps"
    and "buffer_get_path (tw_buffer w) p = Some a" and "a < length (tw_heap w)"
    and "ex_future (info_at w a) \<noteq> None"
    and "list_all2 (file_entry ti p (ss_max_partial_download_size (cn_settings c)))
       (zip [0..<length (lt_files ti)] (lt_files ti)) fis"
  shows "on_add_torrent c lt h False w = finish_add c lt h a (files_added a fis w)"
  using assms(1,3-9) add_files [OF assms(1) assms(10) assms(8)]
  by (auto simp: on_add_torrent_def with_info_known eff_simps)

lemma add_handshake:
  assumes "wired c" and "\<forall>x. lt_fails lt x = None" and "lt_is_valid lt h" and "lt_save_path lt h = Ret p"
    and "lt_torrent_info lt h = Ret ti" and "lt_file_priorities lt h = Ret ps"
    and "buffer_get_path (tw_buffer w) p = Some a" and "a < length (tw_heap w)"
    and "list_all2 (file_entry ti p (ss_max_partial_download_size (cn_settings c)))
       (zip [0..<length (lt_files ti)] (lt_files ti)) fis"
    and env: "\<And>v v'. on_add_torrent c lt h False v = (Ret (), v') \<Longrightarrow> env v = (Ret (), v')"
  shows "\<exists>w'. cntl_add_torrent c lt env a w = (Ret True, w') \<and>
     info_at w' a = added_info h fis (info_at w a) \<and> tw_buffer w' = tw_buffer w \<and>
     tw_state w' = tw_state w \<and>
     tw_events w' = tw_events w @ map (\<lambda>fi. Ev_file_add (fi_path fi) (fi_size fi)) fis \<and>
     tw_calls w' = tw_calls w @ [Async_add_torrent (ex_params (info_at w a))] @
       setup_calls (cn_settings c) h (length ps)"
proof -
  let ?w0 = "change_info a (\<lambda>x. x\<lparr>ex_future := Some new_add_torrent_future\<rparr>) w"
  let ?w1 = "?w0\<lparr>tw_calls := tw_calls w @ [Async_add_torrent (ex_params (info_at w a))]\<rparr>"
  define w2 where "w2 = release_future a (set_future_handle a h ((files_added a fis ?w1)\<lparr>tw_calls :=
      tw_calls ?w1 @ setup_calls (cn_settings c) h (length ps)\<rparr>))"
  have "on_add_torrent c lt h False ?w1 = finish_add c lt h a (files_added a fis ?w1)"
    by (rule on_add_torrent_known [OF assms(1-6) _ _ _ assms(9)]) (simp_all add: assms(7,8))
  also have "\<dots> = (Ret (), w2)"
    by (simp add: finish_add_released [OF assms(2,6)] files_added_def w2_def)
  finally have run: "env ?w1 = (Ret (), w2)" by (rule env)
  have len: "a < length (tw_heap w2)"
    using assms(8) by (simp add: w2_def release_future_def set_future_handle_def files_added_def)
  have info: "info_at w2 a = (info_at w a)\<lparr>ex_files := ex_files (info_at w a) @ fis,
      ex_future := Some \<lparr>atf_base = change_status True (new_future add_torrent_future_type),
        atf_handle = h, atf_state = False\<rparr>\<rparr>"
    using assms(8)
    by (simp add: w2_def release_future_def set_future_handle_def files_added_def new_add_torrent_future_def)
  have "fut_status (change_status True (new_future k))" for k
    by (simp add: change_status_def store_status_def notify_waiters_def)
  then have "add_torrent_result lt a w2 = (Ret True, change_info a (\<lambda>x. x\<lparr>ex_handle := h\<rparr>) w2)"
    using assms(3) by (simp add: add_torrent_result_def info)
  then have "cntl_add_torrent c lt env a w =
      (Ret True, drop_promise a (change_info a (\<lambda>x. x\<lparr>ex_handle := h\<rparr>) w2))"
    using assms(1,2,8) run
    by (simp add: cntl_add_torrent_def Let_def wired_def call_def eseq_def ebind_def)
  moreover have "info_at (drop_promise a (change_info a (\<lambda>x. x\<lparr>ex_handle := h\<rparr>) w2)) a =
      added_info h fis (info_at w a)"
    using len by (simp add: drop_promise_def added_info_def info)
  ultimately show ?thesis
    by (simp add: w2_def drop_promise_def release_future_def set_future_handle_def files_added_def)
qed

text \<open>The caller and the alert thread together: a torrent whose add alert comes while its caller
  waits is reported as added, its handle is kept, every file is announced once and in order with
  empty bookkeeping, the torrent is configured after libtorrent has it, and the promise is gone.\<close>

theorem add_torrent_handshake:
  assumes "wired c" and "\<forall>x. lt_fails lt x = None" and "lt_is_valid lt h" and "lt_save_path lt h = Ret p"
    and "lt_torrent_info lt h = Ret ti" and "lt_file_priorities lt h = Ret ps"
    and "buffer_get_path (tw_buffer w) p = Some a" and "a < length (tw_heap w)"
    and "list_all2 (file_entry ti p (ss_max_partial_download_size (cn_settings c)))
       (zip [0..<length (lt_files ti)] (lt_files ti)) fis"
  shows "\<exists>w'. cntl_add_torrent c lt (dispatch_alert c lt sys (Torrent_added h False)) a w = (Ret True, w') \<and>
     info_at w' a = added_info h fis (info_at w a) \<and> tw_buffer w' = tw_buffer w \<and>
     tw_events w' = tw_events w @ map (\<lambda>fi. Ev_file_add (fi_path fi) (fi_size fi)) fis \<and>
     tw_calls w' = tw_calls w @ [Async_add_torrent (ex_params (info_at w a))] @
       setup_calls (cn_settings c) h (length ps)"
  using add_handshake [where env = "dispatch_alert c lt sys (Torrent_added h False)", OF assms] by auto

lemma sample_entry:
  "\<exists>fi. file_entry sample_torrent ''/srv/x'' 22242880 (0, \<lparr>lf_path = ''a.bin'', lf_size = 4000\<rparr>) fi \<and>
     fi_path fi = ''/srv/x/a.bin'' \<and> fi_size fi = 4000"
  by (simp add: file_entry_def file_info_add_entry_def file_info_add_def sample_torrent_def Let_def
      file_info_get_download_offset_def)

theorem add_torrent_handshake_witness:
  "\<exists>w'. cntl_add_torrent sample_controller sample_lt
      (dispatch_alert sample_controller sample_lt sample_system (Torrent_added (Some 1) False)) 0 sample_world =
        (Ret True, w') \<and> tw_events w' = [Ev_file_add ''/srv/x/a.bin'' 4000]"
proof -
  obtain fi where fi: "file_entry sample_torrent ''/srv/x'' 22242880 (0, \<lparr>lf_path = ''a.bin'', lf_size = 4000\<rparr>) fi"
    "fi_path fi = ''/srv/x/a.bin''" "fi_size fi = 4000"
    using sample_entry by blast
  have "list_all2 (file_entry sample_torrent ''/srv/x'' (ss_max_partial_download_size (cn_settings sample_controller)))
      (zip [0..<length (lt_files sample_torrent)] (lt_files sample_torrent)) [fi]"
    using fi(1) by (simp add: sample_controller_def sample_settings_def sample_torrent_def)
  then show ?thesis
    using add_torrent_handshake [of sample_controller sample_lt "Some 1" "''/srv/x''" sample_torrent "[1]"
        sample_world 0 "[fi]" sample_system] fi(2,3)
    by (auto simp: wired_def sample_controller_def sample_lt_def sample_world_def buffer_get_path_def get_usafe_def)
qed

lemma add_torrent_gives_up:
  assumes "wired c" and "a < length (tw_heap w)"
    and "lt_fails lt (Async_add_torrent (ex_params (info_at w a))) = None"
  shows "cntl_add_torrent c lt (eret ()) a w =
     (Ret False, drop_promise a (w\<lparr>tw_calls := tw_calls w @ [Async_add_torrent (ex_params (info_at w a))]\<rparr>))"
  using assms
  by (simp add: cntl_add_torrent_def wired_def call_def eff_simps Let_def add_torrent_result_def
      new_add_torrent_future_def new_future_def drop_promise_def change_info_def put_info_def info_at_def)

text \<open>Without an add alert in time the caller is told false, and nothing of the torrent remains but
  the entry it already had: no handle, no promise, no announced file.\<close>

theorem add_torrent_times_out:
  assumes "wired c" and "a < length (tw_heap w)"
    and "lt_fails lt (Async_add_torrent (ex_params (info_at w a))) = None"
  shows "cntl_add_torrent c lt (eret ()) a w =
     (Ret False, drop_promise a (w\<lparr>tw_calls := tw_calls w @ [Async_add_torrent (ex_params (info_at w a))]\<rparr>))"
  using assms by (rule add_torrent_gives_up)

theorem add_torrent_times_out_witness:
  "fst (cntl_add_torrent sample_controller sample_lt (eret ()) 0 sample_world) = Ret False"
  by (subst add_torrent_times_out)
    (simp_all add: wired_def sample_controller_def sample_world_def sample_lt_def)

text \<open>A torrent with an empty file cannot be added: the block size becomes zero and the alert thread
  divides by it.\<close>

theorem empty_file_divides_by_zero:
  assumes "wired c" and "lt_is_valid lt h" and "lt_save_path lt h = Ret p"
    and "lt_torrent_info lt h = Ret ti" and "buffer_get_path (tw_buffer w) p = Some a"
    and "ex_future (info_at w a) \<noteq> None"
    and "lt_files ti = fe # fes" and "lf_size fe = 0"
  shows "fst (dispatch_alert c lt sys (Torrent_added h False) w) = Undef"
proof -
  have "add_one_file c ti p a (0, fe) w = (Undef, w)"
    using assms(8)
    by (simp add: add_one_file_def file_info_add_entry_def file_info_add_def Let_def
        file_info_get_download_offset_def)
  moreover have "zip [0..<length (lt_files ti)] (lt_files ti) = (0, fe) # zip [1..<Suc (length fes)] fes"
    using assms(7) by (simp add: upt_conv_Cons del: upt_Suc)
  ultimately show ?thesis
    using assms by (auto simp: on_add_torrent_def with_info_known eseq_def ebind_def elift_def)
qed

definition empty_file_lt :: libtorrent where
  "empty_file_lt = sample_lt\<lparr>lt_torrent_info := (\<lambda>h. Ret (sample_torrent\<lparr>lt_files := [\<lparr>lf_path = ''e'', lf_size = 0\<rparr>]\<rparr>))\<rparr>"

theorem empty_file_divides_by_zero_witness:
  "fst (dispatch_alert sample_controller empty_file_lt sample_system (Torrent_added (Some 1) False)
     (sample_world\<lparr>tw_heap := [waiting_info\<lparr>ex_future := Some new_add_torrent_future\<rparr>]\<rparr>)) = Undef"
  by (rule empty_file_divides_by_zero [where p = "''/srv/x''" and a = 0
        and ti = "sample_torrent\<lparr>lt_files := [\<lparr>lf_path = ''e'', lf_size = 0\<rparr>]\<rparr>" and fe = "\<lparr>lf_path = ''e'', lf_size = 0\<rparr>"
        and fes = "[]"])
    (simp_all add: wired_def sample_controller_def empty_file_lt_def sample_lt_def sample_world_def
      buffer_get_path_def get_usafe_def info_at_def)

subsection \<open>Progress\<close>

lemma publish_progress:
  "file_info_publish fi = (Progress, fi') \<Longrightarrow> fi_avaliable fi < fi_avaliable fi'"
  by (auto simp: file_info_publish_def Let_def split: if_splits)

lemma next_range_static [simp]:
  "fi_avaliable (file_info_next_range fi) = fi_avaliable fi" "fi_path (file_info_next_range fi) = fi_path fi"
  "fi_size (file_info_next_range fi) = fi_size fi"
  by (simp_all add: file_info_next_range_def)

lemma counters_static [simp]:
  "fi_avaliable (file_info_update_counters fi) = fi_avaliable fi"
  "fi_path (file_info_update_counters fi) = fi_path fi" "fi_size (file_info_update_counters fi) = fi_size fi"
  by (simp_all add: file_info_update_counters_def Let_def)

lemma publish_static:
  "file_info_publish fi = (r, fi') \<Longrightarrow> fi_path fi' = fi_path fi \<and> fi_size fi' = fi_size fi"
  by (auto simp: file_info_publish_def Let_def split: if_splits)

lemma update_file_progress:
  assumes "file_info_update_file fi piece = (Progress, fi', prios)"
  shows "fi_avaliable fi < fi_avaliable fi' \<and> fi_path fi' = fi_path fi \<and> fi_size fi' = fi_size fi"
  using assms publish_progress publish_static
  by (fastforce simp: file_info_update_file_def file_info_check_range_def Let_def
      split: if_splits prod.splits bool.splits)

lemma update_progress:
  assumes "file_info_update fs piece = (Ret (Some fi', prios), fs')"
  shows "\<exists>fi \<in> set fs. fi_path fi' = fi_path fi \<and> fi_size fi' = fi_size fi \<and> fi_avaliable fi < fi_avaliable fi'"
  using assms
proof (induction fs piece arbitrary: fs' rule: file_info_update.induct)
  case (2 fi fs piece)
  show ?case
  proof (cases "file_info_piece_in_range fi piece")
    case True
    then show ?thesis
      using 2(2) update_file_progress [of fi piece]
      by (auto split: prod.splits update_result.splits)
  next
    case False
    then show ?thesis using 2 by (fastforce split: prod.splits)
  qed
qed simp

lemma report_progress:
  assumes "update_and_report c h i a w = (r, w')"
  shows "tw_events w' = tw_events w \<or>
     (\<exists>n. \<exists>fi \<in> set (ex_files (info_at w a)).
        tw_events w' = tw_events w @ [Ev_progress_update (fi_path fi) n] \<and>
        min (fi_avaliable fi + 1) (fi_size fi) \<le> n \<and> n \<le> fi_size fi)"
proof (cases "\<exists>fi prios files. file_info_update (ex_files (info_at w a)) i = (Ret (Some fi, prios), files)")
  case True
  then obtain fi' prios files
    where upd: "file_info_update (ex_files (info_at w a)) i = (Ret (Some fi', prios), files)" by blast
  from update_progress [OF upd] obtain fi where
    fi: "fi \<in> set (ex_files (info_at w a))" "fi_path fi' = fi_path fi" "fi_size fi' = fi_size fi"
      "fi_avaliable fi < fi_avaliable fi'" by blast
  have "tw_events w' = tw_events w \<or> tw_events w' =
      tw_events w @ [Ev_progress_update (fi_path fi) (min (fi_avaliable fi') (fi_size fi))]"
    using assms by (auto simp: update_and_report_def upd Let_def event_def fi(2,3) min_def split: if_splits)
  moreover have "min (fi_avaliable fi + 1) (fi_size fi) \<le> min (fi_avaliable fi') (fi_size fi)"
    using fi(4) by simp
  ultimately show ?thesis using fi(1) by (metis min.cobounded2)
next
  case False
  then show ?thesis
    using assms by (auto simp: update_and_report_def Let_def split: cpp.splits option.splits prod.splits)
qed

text \<open>A finished piece reports at most one progress, for a file of its torrent whose available
  bytes have grown, and the number reported is at most the file's size.\<close>

theorem piece_reports_progress:
  assumes "dispatch_alert c lt sys (Piece_finished h i) w = (r, w')"
  shows "tw_events w' = tw_events w \<or>
     (\<exists>p a n. \<exists>fi \<in> set (ex_files (info_at w a)).
        lt_save_path lt h = Ret p \<and> buffer_get_path (tw_buffer w) p = Some a \<and>
        tw_events w' = tw_events w @ [Ev_progress_update (fi_path fi) n] \<and>
        min (fi_avaliable fi + 1) (fi_size fi) \<le> n \<and> n \<le> fi_size fi)"
proof (cases "\<exists>a. find_info c lt h w = (Ret (Some a), w)")
  case True
  then obtain a where found: "find_info c lt h w = (Ret (Some a), w)" by blast
  then have "\<exists>p. lt_save_path lt h = Ret p \<and> buffer_get_path (tw_buffer w) p = Some a"
    by (auto simp: find_info_def split: cpp.splits if_splits)
  moreover have "update_and_report c h i a w = (r, w')"
    using assms found by (simp add: on_piece_finished_def with_info_def ebind_def)
  ultimately show ?thesis using report_progress by blast
next
  case False
  then have "tw_events w' = tw_events w"
    using assms
    by (auto simp: on_piece_finished_def with_info_def eff_simps find_info_def torrent_remove_def
        call_def split: cpp.splits option.splits if_splits prod.splits)
  then show ?thesis by blast
qed

theorem piece_reports_progress_witness:
  "tw_events (snd (dispatch_alert sample_controller sample_lt sample_system (Piece_finished (Some 1) 3) sample_world)) = []"
proof -
  obtain r w' where run: "dispatch_alert sample_controller sample_lt sample_system (Piece_finished (Some 1) 3)
      sample_world = (r, w')"
    by (cases "dispatch_alert sample_controller sample_lt sample_system (Piece_finished (Some 1) 3) sample_world")
  have "a = 0" if "buffer_get_path (tw_buffer sample_world) p = Some a" for a p
    using that by (simp add: sample_world_def buffer_get_path_def get_usafe_def split: if_splits)
  moreover have "ex_files (info_at sample_world 0) = []" "tw_events sample_world = []"
    by (simp_all add: sample_world_def info_at_def waiting_info_def new_torrent_ex_info_def)
  ultimately show ?thesis
    using piece_reports_progress [OF run] run by fastforce
qed

end
