(* ===== verification/Torrent_Core.thy ===== *)
theory Torrent_Core
  imports Sequential_Controller
begin

section \<open>The torrent core\<close>

text \<open>
  \<open>src/src/core/torrent_core/torrent_core.{hpp,cpp}\<close>: the service that owns the libtorrent session,
  its alert loop, and the calls of the external API. The calls hold the core's lock, so each is one
  effect over \<open>tc_world\<close>, except that \<open>add_torrent\<close> waits while the alert loop works. The commands to
  the session itself are messages and do not throw; those to a handle may. \<open>core_env\<close> collects what
  is outside the repository: libtorrent, the system, the casts, the default hash function, the
  stored session state and the socket.
\<close>

record core_env =
  te_lt :: libtorrent
  te_sys :: tc_system
  te_cv :: conversions
  te_hash :: "string \<Rightarrow> nat"
  te_session_throws :: "exn option"
  te_load_file :: "string \<Rightarrow> string option"
  te_bdecodes :: "string \<Rightarrow> bool"
  te_state :: string
  te_listen_error :: "bool \<Rightarrow> int \<Rightarrow> int \<Rightarrow> bool"

record torrent_core_settings =
  tcs_save_root :: string
  tcs_port_start :: int
  tcs_port_end :: int
  tcs_max_alert_wait_time :: int
  tcs_loadable_session :: bool

record torrent_core =
  co_manager :: "setting_manager option"
  co_controller :: controller
  co_event_handler :: bool
  co_settings :: torrent_core_settings
  co_session :: bool
  co_buffer :: bool
  co_loop :: bool
  co_world :: tc_world

definition this_service_name :: string where "this_service_name = ''torrent_core''"
definition invalid_torrent_id :: nat where "invalid_torrent_id = 0x1001"

definition unset_core_settings :: torrent_core_settings where
  "unset_core_settings = \<lparr>tcs_save_root = [], tcs_port_start = 0, tcs_port_end = 0,
     tcs_max_alert_wait_time = 0, tcs_loadable_session = False\<rparr>"

definition new_torrent_core :: "setting_manager option \<Rightarrow> controller \<Rightarrow> bool \<Rightarrow> torrent_core" where
  "new_torrent_core m cntl handler =
     \<lparr>co_manager = m, co_controller = cntl, co_event_handler = handler, co_settings = unset_core_settings,
      co_session = False, co_buffer = False, co_loop = False,
      co_world = \<lparr>tw_heap = [], tw_buffer = \<lparr>sb_torrents = [], sb_hasher = (\<lambda>_. 0)\<rparr>,
        tw_state = service_state_unknown, tw_calls = [], tw_events = [], tw_written = []\<rparr>\<rparr>"

definition core_clone :: "torrent_core \<Rightarrow> torrent_core" where
  "core_clone core = new_torrent_core (co_manager core) (co_controller core) (co_event_handler core)"

definition core_get_service_state :: "torrent_core \<Rightarrow> service_state" where
  "core_get_service_state core = tw_state (co_world core)"

definition running :: "tc_world \<Rightarrow> bool" where
  "running w \<longleftrightarrow> tw_state w = service_running"

definition post :: "lt_call \<Rightarrow> (tc_world, unit) eff" where
  "post c = emodify (\<lambda>w. w\<lparr>tw_calls := tw_calls w @ [c]\<rparr>)"

definition on_world :: "(tc_world, 'a) eff \<Rightarrow> (torrent_core, 'a) eff" where
  "on_world m = zoom co_world (\<lambda>w core. core\<lparr>co_world := w\<rparr>) m"

subsection \<open>The alert loop\<close>

definition is_critical_error :: "alert \<Rightarrow> bool" where
  "is_critical_error a \<longleftrightarrow> a = Listen_failed"

definition handle_critical_error_notification :: "alert \<Rightarrow> (tc_world, unit) eff" where
  "handle_critical_error_notification a =
     (if a = Listen_failed then emodify (\<lambda>w. w\<lparr>tw_state := service_stoped\<rparr>) else eret ())"

text \<open>One alert of the queue; \<open>None\<close> is a null pointer.\<close>

definition handle_notification :: "core_env \<Rightarrow> controller \<Rightarrow> alert option \<Rightarrow> (tc_world, unit) eff" where
  "handle_notification env c it =
     (case it of
        None \<Rightarrow> eret ()
      | Some a \<Rightarrow>
          catch_all
            (if is_critical_error a then handle_critical_error_notification a
             else dispatch_alert c (te_lt env) (te_sys env) a)
            (eret ()))"

definition handle_core_notifications :: "core_env \<Rightarrow> controller \<Rightarrow> alert option list \<Rightarrow> (tc_world, unit) eff" where
  "handle_core_notifications env c alerts = eeach (handle_notification env c) alerts"

text \<open>
  One pass of the loop: \<open>None\<close> is a time-out of \<open>wait_for_alert\<close>, \<open>Some alerts\<close> the queue that
  \<open>pop_alerts\<close> gave.
\<close>

definition loop_pass :: "core_env \<Rightarrow> controller \<Rightarrow> alert option list option \<Rightarrow> (tc_world, unit) eff" where
  "loop_pass env c batch =
     catch_libtorrent
       (eseq (post Post_torrent_updates)
         (case batch of None \<Rightarrow> eret () | Some alerts \<Rightarrow> handle_core_notifications env c alerts))
       (eret ())"

text \<open>The loop over a script of wake-ups; \<open>None\<close> when it is still running at the end of the script.\<close>

fun core_main_loop ::
  "core_env \<Rightarrow> controller \<Rightarrow> alert option list option list \<Rightarrow> tc_world \<Rightarrow> (unit cpp \<times> tc_world) option" where
  "core_main_loop env c [] w =
     (if running w then None else Some (Ret (), w\<lparr>tw_state := service_stoped\<rparr>))"
| "core_main_loop env c (b # bs) w =
     (if running w
      then (case loop_pass env c b w of
              (Ret _, w') \<Rightarrow> core_main_loop env c bs w'
            | (r, w') \<Rightarrow> Some (r, w'))
      else Some (Ret (), w\<lparr>tw_state := service_stoped\<rparr>))"

subsection \<open>Launching\<close>

definition catch_setting_exception :: "('s, 'a) eff \<Rightarrow> ('s, 'a) eff \<Rightarrow> ('s, 'a) eff" where
  "catch_setting_exception m h s =
     (case m s of (Throw (Setting_manager_exception e), s') \<Rightarrow> h s' | r \<Rightarrow> r)"

definition load_core_settings :: "core_env \<Rightarrow> setting_manager \<Rightarrow> (torrent_core_settings, bool) eff" where
  "load_core_settings env m =
     ebind (elift (read_string m ''tc_root'')) (\<lambda>tc_root.
       if \<not> ts_exists (te_sys env) tc_root \<and> ts_is_directory (te_sys env) tc_root then eret False
       else eseq (emodify (\<lambda>s. s\<lparr>tcs_save_root := ts_absolute (te_sys env) tc_root\<rparr>))
           (eseq (assign (read_int (te_cv env) m ''tc_port_start'') (\<lambda>v s. s\<lparr>tcs_port_start := v\<rparr>))
           (eseq (assign (read_int (te_cv env) m ''tc_port_end'') (\<lambda>v s. s\<lparr>tcs_port_end := v\<rparr>))
           (eseq (assign (read_int (te_cv env) m ''tc_max_alert_wait_time'')
                   (\<lambda>v s. s\<lparr>tcs_max_alert_wait_time := v\<rparr>))
           (eseq (assign (read_bool m ''tc_loadable_session'') (\<lambda>v s. s\<lparr>tcs_loadable_session := v\<rparr>))
                 (eret True))))))"

definition init_torrent_core_settings :: "core_env \<Rightarrow> (torrent_core, bool) eff" where
  "init_torrent_core_settings env core =
     (case co_manager core of
        None \<Rightarrow> (Undef, core)
      | Some m \<Rightarrow>
          zoom co_settings (\<lambda>s c. c\<lparr>co_settings := s\<rparr>)
            (catch_setting_exception (load_core_settings env m) (eret False)) core)"

definition setup_core_session :: "torrent_core \<Rightarrow> session_settings" where
  "setup_core_session core =
     \<lparr>se_user_agent = this_service_name, se_auto_expand_choker = True, se_avoid_readback = True,
      se_volatile_read_cache = False, se_allowed_fast_set_size = 1000,
      se_multiple_connections_per_ip = True,
      se_prioritize_partial_pieces = on_setup_core_session (co_controller core) True,
      se_seeding_piece_quota = 20, se_strict_end_game_mode = False, se_announce_to_all_trackers = True,
      se_min_announce_interval = 15, se_local_announce_interval = 10\<rparr>"

definition session_state_filename :: string where
  "session_state_filename = ''.'' @ this_service_name @ ''_state''"

text \<open>
  The stored state: the text and whether an error was left. \<open>bytes.at(0)\<close> of an empty file throws.
  The outcome says whether a state was loaded, and whether the error code is set.
\<close>

definition load_session_state :: "core_env \<Rightarrow> (torrent_core, bool \<times> bool) eff" where
  "load_session_state env core =
     (case te_load_file env
             (lt_combine_path (te_lt env) (tcs_save_root (co_settings core)) session_state_filename) of
        None \<Rightarrow> (Ret (False, True), core)
      | Some bytes \<Rightarrow>
          if bytes = [] then (Throw Out_of_range, core)
          else if te_bdecodes env bytes
          then on_world (eseq (post (Load_state bytes)) (eret (True, False))) core
          else (Ret (False, True), core))"

definition init_core_session :: "core_env \<Rightarrow> (torrent_core, bool) eff" where
  "init_core_session env =
     ebind (init_torrent_core_settings env) (\<lambda>ok.
       if \<not> ok then eret False
       else (\<lambda>core. (if tcs_loadable_session (co_settings core)
         then ebind (load_session_state env) (\<lambda>(has_prev_state, error_code).
           eseq (on_world (eseq (post Start_lsd) (eseq (post Start_upnp) (post Start_natpmp))))
           (eseq (if has_prev_state then eret ()
                  else on_world (post (Set_session_settings (setup_core_session core))))
           (\<lambda>core1. eseq (on_world (post (Listen_on (tcs_port_start (co_settings core1))
                                    (tcs_port_end (co_settings core1)))))
              (eret (\<not> te_listen_error env error_code (tcs_port_start (co_settings core1))
                       (tcs_port_end (co_settings core1)))) core1)))
         else eret False) core))"

definition drop_session :: "torrent_core \<Rightarrow> torrent_core" where
  "drop_session core = core\<lparr>co_session := False, co_buffer := False\<rparr>"

text \<open>
  \<open>launch_service\<close>. A new session and a new buffer replace the pointers at once; the controller is
  told about them before the settings are read. Only libtorrent's exceptions are caught.
\<close>

definition attach_controller :: "torrent_core \<Rightarrow> torrent_core" where
  "attach_controller core = core\<lparr>co_controller :=
     set_shared_buffer True (set_setting_manager (co_manager core)
       (set_event_handler (co_event_handler core) (co_controller core)))\<rparr>"

definition fresh_buffer :: "core_env \<Rightarrow> torrent_core \<Rightarrow> torrent_core" where
  "fresh_buffer env core = core\<lparr>co_buffer := True,
     co_world := (co_world core)\<lparr>tw_buffer := new_shared_buffer (te_hash env)\<rparr>\<rparr>"

definition start_loop :: "torrent_core \<Rightarrow> torrent_core" where
  "start_loop core = core\<lparr>co_loop := True, co_world := (co_world core)\<lparr>tw_state := service_running\<rparr>\<rparr>"

definition launch_body :: "core_env \<Rightarrow> (torrent_core, bool) eff" where
  "launch_body env =
     eseq (emodify (\<lambda>core. attach_controller (fresh_buffer env (core\<lparr>co_session := True\<rparr>))))
      (ebind (zoom co_controller (\<lambda>c core. core\<lparr>co_controller := c\<rparr>) (set_session (te_cv env) True)) (\<lambda>ok.
        if \<not> ok then eseq (emodify drop_session) (eret False)
        else ebind (init_core_session env) (\<lambda>ok.
          if \<not> ok then eseq (emodify drop_session) (eret False)
          else eseq (emodify start_loop) (eret True))))"

definition core_launch_service :: "core_env \<Rightarrow> (torrent_core, bool) eff" where
  "core_launch_service env core =
     (if running (co_world core) then (Ret False, core)
      else catch_libtorrent
        (case te_session_throws env of Some e \<Rightarrow> ethrow e | None \<Rightarrow> launch_body env)
        (eseq (on_world (emodify (\<lambda>w. w\<lparr>tw_state := service_stoped\<rparr>))) (eret False)) core)"

subsection \<open>Stopping\<close>

text \<open>\<open>s11z_session_state\<close>: the state is a bencoded dictionary, so never empty.\<close>

definition s11z_session_state :: "core_env \<Rightarrow> torrent_core \<Rightarrow> torrent_core" where
  "s11z_session_state env core =
     (let path = lt_combine_path (te_lt env) (tcs_save_root (co_settings core)) ''.ses_state'';
          state_bytes = ''d'' @ te_state env @ ''e''
      in case save_file (te_sys env) path state_bytes of
           Ret (_, Some b) \<Rightarrow> core\<lparr>co_world := (co_world core)\<lparr>tw_written := tw_written (co_world core) @ [(path, b)]\<rparr>\<rparr>
         | _ \<Rightarrow> core)"

definition post_all :: "lt_call list \<Rightarrow> torrent_core \<Rightarrow> torrent_core" where
  "post_all cs core = core\<lparr>co_world := (co_world core)\<lparr>tw_calls := tw_calls (co_world core) @ cs\<rparr>\<rparr>"

text \<open>The loop sees the state and ends, at the latest after its alert time-out: \<open>join\<close> returns.\<close>

definition core_stop_service :: "core_env \<Rightarrow> torrent_core \<Rightarrow> torrent_core" where
  "core_stop_service env core =
     (if running (co_world core)
      then let core1 = (if tcs_loadable_session (co_settings core) then s11z_session_state env core else core);
               core2 = post_all [Stop_lsd, Stop_upnp, Stop_natpmp] core1;
               core3 = core2\<lparr>co_world := (co_world core2)\<lparr>tw_state := service_stoped\<rparr>\<rparr>
           in (post_all [Post_torrent_updates] core3)\<lparr>co_session := False\<rparr>
      else core)"

definition core_wait_service :: "torrent_core \<Rightarrow> torrent_core option" where
  "core_wait_service core = (if running (co_world core) then None else Some core)"

subsection \<open>The calls of the external API\<close>

text \<open>
  \<open>add_torrent\<close> over the shared state: \<open>root\<close> is the save root, \<open>during\<close> the queues the alert loop
  handles while the caller waits. The catch of libtorrent's exceptions covers the whole body.
\<close>

definition new_info :: "torrent_ex_info \<Rightarrow> (tc_world, nat) eff" where
  "new_info x w = (Ret (length (tw_heap w)), w\<lparr>tw_heap := tw_heap w @ [x]\<rparr>)"

definition add_to_buffer :: "nat \<Rightarrow> (tc_world, bool \<times> nat) eff" where
  "add_to_buffer a w =
     (case buffer_add (tw_heap w) (tw_buffer w) a of
        (r, heap, b) \<Rightarrow> (Ret r, w\<lparr>tw_heap := heap, tw_buffer := b\<rparr>))"

definition remove_by_path :: "string \<Rightarrow> (tc_world, unit) eff" where
  "remove_by_path p = emodify (\<lambda>w. w\<lparr>tw_buffer := buffer_remove_path (tw_buffer w) p\<rparr>)"

definition add_prepared ::
  "core_env \<Rightarrow> controller \<Rightarrow> alert option list list \<Rightarrow> nat \<Rightarrow> (tc_world, nat) eff" where
  "add_prepared env c during a =
     ebind (add_to_buffer a) (\<lambda>(add_state, torrent_id).
       if \<not> add_state then eret invalid_torrent_id
       else ebind (cntl_add_torrent c (te_lt env) (eeach (handle_core_notifications env c) during) a) (\<lambda>added.
         if added then eret torrent_id
         else (\<lambda>w. ebind (elift (lt_save_path (te_lt env) (ex_handle (info_at w a)))) (\<lambda>p.
                eseq (remove_by_path p) (eret invalid_torrent_id)) w)))"

definition core_add_torrent ::
  "core_env \<Rightarrow> controller \<Rightarrow> string \<Rightarrow> alert option list list \<Rightarrow> string \<Rightarrow> (tc_world, nat) eff" where
  "core_add_torrent env c root during path =
     catch_libtorrent
       (\<lambda>w. if \<not> running w then (Ret invalid_torrent_id, w)
            else ebind (elift (initialize_f (te_sys env) (new_torrent_ex_info (te_sys env)) root path))
              (\<lambda>(ok, x). if \<not> ok then eret invalid_torrent_id
                         else ebind (new_info x) (add_prepared env c during)) w)
       (eret invalid_torrent_id)"

definition core_add_torrent_url :: "string \<Rightarrow> (tc_world, nat) eff" where
  "core_add_torrent_url url w =
     (if \<not> running w then (Ret invalid_torrent_id, w) else (Ret invalid_torrent_id, w))"

definition core_get_torrent_info :: "core_env \<Rightarrow> boost_lexical \<Rightarrow> nat \<Rightarrow> (tc_world, string) eff" where
  "core_get_torrent_info env bx torrent_id w =
     (if \<not> running w then (Ret [], w)
      else catch_libtorrent
        (case buffer_get (tw_buffer w) torrent_id of
           Some a \<Rightarrow> elift (torrent_info_to_json bx (te_lt env) (\<lambda>p. p) (info_at w a))
         | None \<Rightarrow> eret [])
        (eret []) w)"

text \<open>The common shape of the calls on a torrent: the state check, the lookup, the catch.\<close>

definition on_torrent ::
  "'a \<Rightarrow> nat \<Rightarrow> (torrent_ex_info \<Rightarrow> (tc_world, 'a) eff) \<Rightarrow> (tc_world, 'a) eff" where
  "on_torrent nothing torrent_id body =
     catch_libtorrent
       (\<lambda>w. if \<not> running w then (Ret nothing, w)
            else (case buffer_get (tw_buffer w) torrent_id of
                    Some a \<Rightarrow> body (info_at w a) w
                  | None \<Rightarrow> (Ret nothing, w)))
       (eret nothing)"

definition core_start_torrent_download :: "core_env \<Rightarrow> nat \<Rightarrow> int \<Rightarrow> (tc_world, string) eff" where
  "core_start_torrent_download env torrent_id file_id =
     on_torrent [] torrent_id (\<lambda>x.
       ebind (elift (lt_torrent_info (te_lt env) (ex_handle x))) (\<lambda>info.
         if int (length (lt_files info)) > file_id \<and> file_id \<ge> 0
         then eseq (call (te_lt env) (File_priority (ex_handle x) file_id normal_prior))
             (eseq (call (te_lt env) (Force_reannounce (ex_handle x)))
             (eseq (post Post_torrent_updates)
             (ebind (elift (lt_torrent_info (te_lt env) (ex_handle x))) (\<lambda>info.
               eret (ex_sandbox x @ ''/'' @ lf_path (lt_files info ! nat file_id))))))
         else eret []))"

definition core_pause_download :: "core_env \<Rightarrow> nat \<Rightarrow> int \<Rightarrow> (tc_world, unit) eff" where
  "core_pause_download env torrent_id file_id =
     on_torrent () torrent_id (\<lambda>x.
       ebind (elift (lt_torrent_info (te_lt env) (ex_handle x))) (\<lambda>info.
         if int (length (lt_files info)) > file_id \<and> file_id \<ge> 0
         then eseq (call (te_lt env) (File_priority (ex_handle x) file_id off_prior))
                   (post Post_torrent_updates)
         else eret ()))"

definition core_resume_download :: "core_env \<Rightarrow> nat \<Rightarrow> int \<Rightarrow> (tc_world, unit) eff" where
  "core_resume_download env torrent_id file_id =
     on_torrent () torrent_id (\<lambda>x.
       ebind (elift (lt_torrent_info (te_lt env) (ex_handle x))) (\<lambda>native_info.
         eseq (call (te_lt env) (Resume_torrent (ex_handle x)))
           (if int (length (lt_files native_info)) > file_id \<and> file_id \<ge> 0
            then eseq (call (te_lt env) (File_priority (ex_handle x) file_id normal_prior))
                      (post Post_torrent_updates)
            else eret ())))"

definition core_remove_torrent :: "core_env \<Rightarrow> nat \<Rightarrow> (tc_world, unit) eff" where
  "core_remove_torrent env torrent_id =
     on_torrent () torrent_id (\<lambda>x.
       eseq (call (te_lt env) (Remove_torrent (ex_handle x)))
      (eseq (emodify (\<lambda>w. w\<lparr>tw_buffer := buffer_remove (tw_buffer w) torrent_id\<rparr>))
            (post Post_torrent_updates)))"

definition core_stop_torrent_download :: "core_env \<Rightarrow> nat \<Rightarrow> (tc_world, unit) eff" where
  "core_stop_torrent_download env torrent_id =
     on_torrent () torrent_id (\<lambda>x.
       eseq (call (te_lt env) (Pause_torrent (ex_handle x))) (post Post_torrent_updates))"

subsection \<open>The core as a service\<close>

definition torrent_service :: "core_env \<Rightarrow> torrent_core base_service" where
  "torrent_service env =
     \<lparr>service_name = (\<lambda>_. this_service_name),
      launch_service = (\<lambda>core. case core_launch_service env core of
         (Ret ok, core') \<Rightarrow> (ok, core') | (_, core') \<Rightarrow> (False, core')),
      stop_service = core_stop_service env, wait_service = core_wait_service,
      get_state = core_get_service_state\<rparr>"

lemma save_state_keeps [simp]:
  "tw_state (co_world (s11z_session_state env core)) = tw_state (co_world core)"
  by (simp add: s11z_session_state_def Let_def split: cpp.split prod.split option.split)

lemma post_all_keeps [simp]: "tw_state (co_world (post_all cs core)) = tw_state (co_world core)"
  by (simp add: post_all_def)

lemma stop_stops: "\<not> running (co_world (core_stop_service env core))"
  by (simp add: core_stop_service_def running_def Let_def post_all_def)

lemma launch_body_true: "launch_body env core = (Ret True, core') \<Longrightarrow> running (co_world core')"
  by (auto simp: launch_body_def eff_simps start_loop_def running_def
      split: prod.splits cpp.splits if_splits)

lemma launch_true: "core_launch_service env core = (Ret True, core') \<Longrightarrow> running (co_world core')"
  by (auto simp: core_launch_service_def catch_libtorrent_def eseq_def ebind_def ethrow_def eret_def
      on_world_def zoom_def emodify_def launch_body_true
      split: if_splits prod.splits cpp.splits exn.splits option.splits)

interpretation torrents_svc: service "torrent_service env" for env
proof unfold_locales
  fix core core'
  show "launch_service (torrent_service env) core = (True, core') \<Longrightarrow>
      get_state (torrent_service env) core' = service_running"
    using launch_true [of env core core']
    by (auto simp: torrent_service_def core_get_service_state_def running_def
        split: prod.splits cpp.splits)
next
  fix core
  show "get_state (torrent_service env) (stop_service (torrent_service env) core) \<noteq> service_running"
    using stop_stops [of env core] by (simp add: torrent_service_def core_get_service_state_def running_def)
qed (simp_all add: torrent_service_def core_get_service_state_def core_stop_service_def
    core_wait_service_def core_launch_service_def running_def)

subsection \<open>Launch and stop\<close>

lemma set_session_true:
  assumes "set_session cv b c = (Ret True, c')"
  shows "cn_session_ref c' = b \<and> cn_event_handler c' = cn_event_handler c \<and> cn_buffer_ref c' = cn_buffer_ref c"
  using assms
  by (auto simp: set_session_def update_settings_def eff_simps split: option.splits prod.splits cpp.splits)

lemma init_settings_keeps:
  assumes "init_torrent_core_settings env core = (r, core')"
  shows "co_controller core' = co_controller core \<and> co_buffer core' = co_buffer core \<and>
     co_session core' = co_session core \<and> co_world core' = co_world core"
  using assms by (auto simp: init_torrent_core_settings_def zoom_def split: option.splits prod.splits)

lemma load_state_keeps:
  assumes "load_session_state env core = (r, core')"
  shows "co_controller core' = co_controller core \<and> co_buffer core' = co_buffer core \<and>
     co_session core' = co_session core \<and> co_settings core' = co_settings core \<and>
     tw_buffer (co_world core') = tw_buffer (co_world core)"
  using assms
  by (auto simp: load_session_state_def on_world_def zoom_def post_def eff_simps split: option.splits if_splits)

lemma init_core_true:
  assumes "init_core_session env core = (Ret True, core')"
  shows "co_controller core' = co_controller core \<and> co_buffer core' = co_buffer core \<and>
     co_session core' = co_session core \<and> tcs_loadable_session (co_settings core') \<and>
     tw_buffer (co_world core') = tw_buffer (co_world core)"
proof -
  obtain ok core1 where init: "init_torrent_core_settings env core = (ok, core1)"
    by (cases "init_torrent_core_settings env core")
  have ok: "ok = Ret True" "tcs_loadable_session (co_settings core1)"
    using assms init by (auto simp: init_core_session_def eff_simps split: cpp.splits if_splits)
  obtain r core2 where ld: "load_session_state env core1 = (r, core2)"
    by (cases "load_session_state env core1")
  have "co_controller core' = co_controller core2 \<and> co_buffer core' = co_buffer core2 \<and>
     co_session core' = co_session core2 \<and> co_settings core' = co_settings core2 \<and>
     tw_buffer (co_world core') = tw_buffer (co_world core2)"
    using assms init ld ok
    by (auto simp: init_core_session_def eff_simps on_world_def zoom_def post_def
        split: cpp.splits prod.splits if_splits)
  then show ?thesis using init_settings_keeps [OF init] load_state_keeps [OF ld] ok by simp
qed

lemma launch_body_post:
  assumes "launch_body env core = (Ret True, core')"
  shows "running (co_world core') \<and> co_session core' \<and> co_buffer core' \<and> co_loop core' \<and>
     cn_session_ref (co_controller core') \<and> cn_buffer_ref (co_controller core') \<and>
     cn_event_handler (co_controller core') = co_event_handler core \<and>
     tcs_loadable_session (co_settings core') \<and> sb_torrents (tw_buffer (co_world core')) = []"
proof -
  let ?c0 = "attach_controller (fresh_buffer env (core\<lparr>co_session := True\<rparr>))"
  obtain ok cn where set: "set_session (te_cv env) True (co_controller ?c0) = (ok, cn)"
    by (cases "set_session (te_cv env) True (co_controller ?c0)")
  have ok: "ok = Ret True"
    using assms set by (auto simp: launch_body_def eff_simps zoom_def split: cpp.splits if_splits)
  let ?c1 = "?c0\<lparr>co_controller := cn\<rparr>"
  obtain ok2 c2 where init: "init_core_session env ?c1 = (ok2, c2)"
    by (cases "init_core_session env ?c1")
  have "ok2 = Ret True" and core': "core' = start_loop c2"
    using assms set ok init
    by (auto simp: launch_body_def eff_simps zoom_def split: cpp.splits if_splits)
  with init have "init_core_session env ?c1 = (Ret True, c2)" by simp
  from init_core_true [OF this] show ?thesis
    using set_session_true [OF set [unfolded ok]]
    by (simp add: core' start_loop_def running_def attach_controller_def fresh_buffer_def
        set_shared_buffer_def set_setting_manager_def set_event_handler_def new_shared_buffer_def)
qed

text \<open>C34. A launch that succeeds leaves a running core whose controller has its session and its buffer,
  with an empty torrent list; it only succeeds when a loadable session is configured; launching
  again fails and changes nothing, and stopping makes it stopped for good.\<close>

theorem torrent_launch_checked:
  assumes "core_launch_service env core = (Ret True, core')"
  shows "running (co_world core') \<and> co_session core' \<and> co_loop core' \<and>
     cn_session_ref (co_controller core') \<and> cn_buffer_ref (co_controller core') \<and>
     sb_torrents (tw_buffer (co_world core')) = [] \<and> tcs_loadable_session (co_settings core') \<and>
     core_launch_service env core' = (Ret False, core') \<and>
     \<not> running (co_world (core_stop_service env core')) \<and>
     core_stop_service env (core_stop_service env core') = core_stop_service env core'"
proof -
  have body: "launch_body env core = (Ret True, core')"
    using assms
    by (auto simp: core_launch_service_def catch_libtorrent_def ethrow_def eseq_def ebind_def eret_def
        on_world_def zoom_def emodify_def split: if_splits prod.splits cpp.splits exn.splits option.splits)
  then show ?thesis
    using launch_body_post [OF body] stop_stops [of env core']
      torrents_svc.stop_idem [of env core']
    by (simp add: core_launch_service_def torrent_service_def)
qed

text \<open>The state is written to one file and read from another.\<close>

lemma state_files_differ: "session_state_filename = ''.torrent_core_state'' \<and> session_state_filename \<noteq> ''.ses_state''"
  by (simp add: session_state_filename_def this_service_name_def)

text \<open>While the core does not run, no call of the API reaches libtorrent or changes anything.\<close>

theorem stopped_core_does_nothing:
  assumes "\<not> running w"
  shows "core_add_torrent env c root during path w = (Ret 0x1001, w) \<and>
     core_get_torrent_info env bx tid w = (Ret [], w) \<and>
     core_start_torrent_download env tid i w = (Ret [], w) \<and>
     core_pause_download env tid i w = (Ret (), w) \<and> core_resume_download env tid i w = (Ret (), w) \<and>
     core_remove_torrent env tid w = (Ret (), w) \<and> core_stop_torrent_download env tid w = (Ret (), w)"
  using assms
  by (simp add: core_add_torrent_def core_get_torrent_info_def core_start_torrent_download_def
      core_pause_download_def core_resume_download_def core_remove_torrent_def
      core_stop_torrent_download_def on_torrent_def catch_libtorrent_def invalid_torrent_id_def)

theorem stopped_core_does_nothing_witness:
  "core_remove_torrent env 7 (sample_world\<lparr>tw_state := service_stoped\<rparr>) =
     (Ret (), sample_world\<lparr>tw_state := service_stoped\<rparr>)"
  using stopped_core_does_nothing [of "sample_world\<lparr>tw_state := service_stoped\<rparr>"]
  by (simp add: running_def)

subsection \<open>The alert loop\<close>

lemma keeps_notification:
  assumes "pieces_ordered (te_lt env)"
  shows "keeps world_inv (handle_notification env c it)"
proof -
  have "keeps world_inv (dispatch_alert c (te_lt env) (te_sys env) a)" for a
    using dispatch_keeps_world [OF assms] by (rule keepsI)
  then show ?thesis
    by (cases it) (auto simp: handle_notification_def handle_critical_error_notification_def
        intro!: keeps_intros)
qed

text \<open>A configuration with a root and two ports; everything else is the default.\<close>

definition torrent_tree :: ptree where
  "torrent_tree n = (if n = ''doc_root'' then Ptree_text ''/srv'' else if n = ''tc_port_start'' then Ptree_text ''6881''
     else if n = ''tc_port_end'' then Ptree_text ''6889'' else Ptree_exception)"

definition sample_cv :: conversions where
  "sample_cv = \<lparr>cv_lexical = lexical_reference, cv_junk_int = 0, cv_junk_size = 0\<rparr>"

definition sample_env :: core_env where
  "sample_env = \<lparr>te_lt = sample_lt, te_sys = loading_system, te_cv = sample_cv, te_hash = length,
     te_session_throws = None, te_load_file = (\<lambda>p. None), te_bdecodes = (\<lambda>b. True), te_state = [],
     te_listen_error = (\<lambda>e a b. False)\<rparr>"

lemma torrent_numbers:
  "to_int lexical_reference ''22242880'' = Some 22242880" "to_int lexical_reference ''0'' = Some 0"
  "to_int lexical_reference ''-1'' = Some (-1)" "to_int lexical_reference ''15'' = Some 15"
  "to_int lexical_reference ''6881'' = Some 6881" "to_int lexical_reference ''6889'' = Some 6889"
  "to_size lexical_reference ''6'' = Some 6" "to_size lexical_reference ''50'' = Some 50"
  "to_size lexical_reference ''10'' = Some 10"
  by code_simp+

lemmas torrent_reads = read_int_def read_size_def read_string_def read_bool_def setting_or_undef_def
  get_setting_def get_setting_bool_def configured_value settings_spec_def registered_names_def
  tree_text_def torrent_tree_def key_struct_def key_types_def key_type_of_def safe_lexical_cast_def
  safe_lexical_cast_bool_def sample_cv_def torrent_numbers Let_def

lemma torrent_settings:
  "read_int sample_cv (configured torrent_tree) ''tc_max_partial_download_size'' = Ret 22242880"
  "read_string (configured torrent_tree) ''tc_root'' = Ret ''/srv''"
  "read_bool (configured torrent_tree) ''tc_auto_error_resolving'' = Ret True"
  "read_size sample_cv (configured torrent_tree) ''tc_resolve_checkout'' = Ret 6"
  "read_bool (configured torrent_tree) ''tc_resolve_countries'' = Ret True"
  "read_bool (configured torrent_tree) ''tc_sequential_download'' = Ret True"
  "read_int sample_cv (configured torrent_tree) ''tc_download_limit'' = Ret 0"
  "read_int sample_cv (configured torrent_tree) ''tc_upload_limit'' = Ret 0"
  "read_int sample_cv (configured torrent_tree) ''tc_max_uploads'' = Ret (-1)"
  "read_size sample_cv (configured torrent_tree) ''tc_max_connections_per_torrent'' = Ret 50"
  "read_bool (configured torrent_tree) ''tc_partial_files_download'' = Ret True"
  "read_size sample_cv (configured torrent_tree) ''tc_futures_timeout'' = Ret 10"
  "read_int sample_cv (configured torrent_tree) ''tc_port_start'' = Ret 6881"
  "read_int sample_cv (configured torrent_tree) ''tc_port_end'' = Ret 6889"
  "read_int sample_cv (configured torrent_tree) ''tc_max_alert_wait_time'' = Ret 15"
  "read_bool (configured torrent_tree) ''tc_loadable_session'' = Ret True"
  by (simp_all add: torrent_reads)

definition sample_core :: torrent_core where
  "sample_core = new_torrent_core (Some (configured torrent_tree)) new_controller True"

lemma sample_launch_core: "\<exists>core. core_launch_service sample_env sample_core = (Ret True, core)"
  by (simp add: core_launch_service_def launch_body_def sample_core_def new_torrent_core_def running_def
      attach_controller_def fresh_buffer_def set_shared_buffer_def set_setting_manager_def
      set_event_handler_def set_session_def update_settings_def load_static_settings_def assign_def
      init_core_session_def init_torrent_core_settings_def load_core_settings_def load_session_state_def
      catch_setting_exception_def torrent_settings eff_simps zoom_def on_world_def post_def
      sample_env_def loading_system_def sample_system_def service_state_defs)

theorem torrent_launch_checked_witness:
  "\<exists>core. core_launch_service sample_env sample_core = (Ret True, core) \<and> running (co_world core) \<and>
     cn_session_ref (co_controller core)"
  using sample_launch_core torrent_launch_checked by blast

fun no_throw :: "'a cpp \<Rightarrow> bool" where
  "no_throw (Throw _) = False"
| "no_throw _ = True"

lemma handle_no_throw: "no_throw (fst (handle_notification env c it w))"
  by (cases it) (auto simp: handle_notification_def catch_all_def eret_def split: prod.splits cpp.splits)

lemma eeach_no_throw:
  assumes "\<And>x w. no_throw (fst (f x w))"
  shows "no_throw (fst (eeach f xs w))"
proof (induction xs arbitrary: w)
  case (Cons x xs)
  then show ?case
    using assms [of x w] by (auto simp: eseq_def ebind_def split: prod.splits cpp.splits)
qed (simp add: eret_def)

lemma loop_pass_ok:
  assumes "pieces_ordered (te_lt env)" and "world_inv w" and "loop_pass env c b w = (r, w')"
  shows "world_inv w' \<and> no_throw r"
proof -
  have "keeps world_inv (loop_pass env c b)"
    unfolding loop_pass_def post_def handle_core_notifications_def
    by (cases b) (auto intro!: keeps_intros keeps_notification [OF assms(1)])
  moreover have "no_throw (fst (loop_pass env c b w))"
  proof -
    let ?m = "eseq (post Post_torrent_updates)
        (case b of None \<Rightarrow> eret () | Some alerts \<Rightarrow> handle_core_notifications env c alerts)"
    have "no_throw (fst (?m w))"
      using eeach_no_throw [of "handle_notification env c", OF handle_no_throw]
      by (cases b) (simp_all add: eseq_def ebind_def post_def emodify_def eret_def handle_core_notifications_def)
    then show ?thesis
      by (cases "?m w"; cases "fst (?m w)") (simp_all add: loop_pass_def catch_libtorrent_def)
  qed
  ultimately show ?thesis
    using assms keepsD [of world_inv "loop_pass env c b" w] by simp
qed

text \<open>C24. No exception of libtorrent or of a handler ends the alert loop: unless it runs into undefined
  behaviour, it goes on as long as the core runs, and when it ends the core is stopped and the shared
  state consistent.\<close>

theorem alert_loop_survives:
  assumes "pieces_ordered (te_lt env)" and "world_inv w"
  shows "case core_main_loop env c script w of
      None \<Rightarrow> True
    | Some (r, w') \<Rightarrow> world_inv w' \<and> (\<forall>e. r \<noteq> Throw e) \<and> (r = Ret () \<longrightarrow> \<not> running w')"
  using assms(2)
proof (induction script arbitrary: w)
  case Nil
  then show ?case by (simp add: running_def)
next
  case (Cons b bs)
  obtain r w1 where pass: "loop_pass env c b w = (r, w1)" by (cases "loop_pass env c b w")
  have ok: "world_inv w1" "no_throw r" using loop_pass_ok [OF assms(1) Cons.prems pass] by simp_all
  show ?case
    using Cons.prems Cons.IH [OF ok(1)] ok pass by (cases r) (auto simp: running_def)
qed

theorem alert_loop_survives_witness:
  "case core_main_loop sample_env sample_controller [Some [Some (Piece_finished None 1), Some Listen_failed]] sample_world of
      None \<Rightarrow> True | Some (r, w') \<Rightarrow> world_inv w'"
proof -
  have "pieces_ordered (te_lt sample_env)" by (simp add: sample_env_def sample_pieces_ordered)
  from alert_loop_survives [OF this sample_world_inv, of sample_controller
      "[Some [Some (Piece_finished None 1), Some Listen_failed]]"]
  show ?thesis by (auto split: option.splits)
qed

text \<open>When the listening socket fails, the loop stops the core by itself; a later stop then does
  nothing: the session is never deleted and the session's services are never told to stop.\<close>

theorem listen_failure_keeps_session:
  assumes "running (co_world core)" and "co_session core"
  shows "\<exists>w'. core_main_loop env (co_controller core) [Some [Some Listen_failed]] (co_world core) = Some (Ret (), w') \<and>
     core_stop_service env (core\<lparr>co_world := w'\<rparr>) = core\<lparr>co_world := w'\<rparr> \<and>
     co_session (core_stop_service env (core\<lparr>co_world := w'\<rparr>)) \<and>
     tw_calls w' = tw_calls (co_world core) @ [Post_torrent_updates]"
  using assms
  by (simp add: running_def loop_pass_def post_def eff_simps handle_core_notifications_def
      handle_notification_def is_critical_error_def handle_critical_error_notification_def
      core_stop_service_def)

theorem listen_failure_keeps_session_witness:
  "\<exists>w'. core_main_loop sample_env new_controller [Some [Some Listen_failed]] sample_world = Some (Ret (), w') \<and>
     tw_calls w' = [Post_torrent_updates]"
  using listen_failure_keeps_session [of "sample_core\<lparr>co_world := sample_world, co_session := True\<rparr>" sample_env]
  by (auto simp: running_def sample_world_def sample_core_def new_torrent_core_def)

subsection \<open>The life of a torrent\<close>

definition prepared :: "core_env \<Rightarrow> string \<Rightarrow> string \<Rightarrow> torrent_ex_info \<Rightarrow> bool" where
  "prepared env root path x \<longleftrightarrow>
     initialize_f (te_sys env) (new_torrent_ex_info (te_sys env)) root path = Ret (True, x)"

definition add_id :: "tc_world \<Rightarrow> torrent_ex_info \<Rightarrow> nat" where
  "add_id w x = sb_hasher (tw_buffer w) (atp_save_path (ex_params x))"

definition entered :: "torrent_ex_info \<Rightarrow> tc_world \<Rightarrow> tc_world" where
  "entered x w = w\<lparr>tw_heap := tw_heap w @ [x\<lparr>ex_index := add_id w x\<rparr>],
     tw_buffer := (tw_buffer w)\<lparr>sb_torrents :=
       AList.update (add_id w x) (length (tw_heap w)) (sb_torrents (tw_buffer w))\<rparr>\<rparr>"

lemma catch_cong: "m w = m' w' \<Longrightarrow> catch_libtorrent m h w = catch_libtorrent m' h w'"
  by (simp add: catch_libtorrent_def)

lemma add_to_buffer_free:
  assumes "buffer_get_path (tw_buffer w) (atp_save_path (ex_params x)) = None"
  shows "add_to_buffer (length (tw_heap w)) (w\<lparr>tw_heap := tw_heap w @ [x]\<rparr>) = (Ret (True, add_id w x), entered x w)"
  using assms
  by (simp add: add_to_buffer_def buffer_add_def Let_def entered_def add_id_def buffer_get_path_def get_usafe_def)

lemma add_torrent_entered:
  assumes "running w" and "prepared env root path x"
    and "buffer_get_path (tw_buffer w) (atp_save_path (ex_params x)) = None"
  shows "core_add_torrent env c root during path w =
    catch_libtorrent
      (ebind (cntl_add_torrent c (te_lt env) (eeach (handle_core_notifications env c) during) (length (tw_heap w)))
        (\<lambda>added. if added then eret (add_id w x)
          else (\<lambda>w'. ebind (elift (lt_save_path (te_lt env) (ex_handle (info_at w' (length (tw_heap w))))))
                (\<lambda>p. eseq (remove_by_path p) (eret invalid_torrent_id)) w')))
      (eret invalid_torrent_id) (entered x w)"
  unfolding core_add_torrent_def
  by (rule catch_cong)
    (use assms in \<open>simp add: ebind_def elift_def prepared_def new_info_def add_prepared_def add_to_buffer_free\<close>)

lemma entered_facts:
  "length (tw_heap (entered x w)) = Suc (length (tw_heap w))"
  "info_at (entered x w) (length (tw_heap w)) = x\<lparr>ex_index := add_id w x\<rparr>"
  "buffer_get (tw_buffer (entered x w)) = (buffer_get (tw_buffer w))(add_id w x \<mapsto> length (tw_heap w))"
  "buffer_get_path (tw_buffer (entered x w)) (atp_save_path (ex_params x)) = Some (length (tw_heap w))"
  "tw_state (entered x w) = tw_state w" "tw_events (entered x w) = tw_events w"
  "tw_calls (entered x w) = tw_calls w"
proof -
  show "buffer_get (tw_buffer (entered x w)) = (buffer_get (tw_buffer w))(add_id w x \<mapsto> length (tw_heap w))"
    by (rule ext) (simp add: entered_def buffer_get_def get_usafe_update)
qed (simp_all add: entered_def info_at_def buffer_get_path_def add_id_def get_usafe_update)

lemma loop_runs_add:
  assumes "on_add_torrent c (te_lt env) h False v = (Ret (), v')"
  shows "eeach (handle_core_notifications env c) [[Some (Torrent_added h False)]] v = (Ret (), v')"
  using assms
  by (simp add: handle_core_notifications_def handle_notification_def is_critical_error_def eff_simps)

lemma start_known:
  assumes "running w" and "buffer_get (tw_buffer w) tid = Some a" and "ex_handle (info_at w a) = h"
    and "\<forall>y. lt_fails (te_lt env) y = None" and "lt_torrent_info (te_lt env) h = Ret ti"
    and "0 \<le> i" and "i < int (length (lt_files ti))"
  shows "core_start_torrent_download env tid i w =
     (Ret (ex_sandbox (info_at w a) @ ''/'' @ lf_path (lt_files ti ! nat i)),
      w\<lparr>tw_calls := tw_calls w @ [File_priority h i normal_prior, Force_reannounce h, Post_torrent_updates]\<rparr>)"
  using assms
  by (simp add: core_start_torrent_download_def on_torrent_def eff_simps call_def post_def)

lemma add_then_start:
  assumes "running w" and "wired c" and "prepared env root path x"
    and "buffer_get_path (tw_buffer w) (atp_save_path (ex_params x)) = None"
    and "\<forall>y. lt_fails (te_lt env) y = None" and "lt_is_valid (te_lt env) h"
    and "lt_save_path (te_lt env) h = Ret (atp_save_path (ex_params x))"
    and "lt_torrent_info (te_lt env) h = Ret ti" and "lt_file_priorities (te_lt env) h = Ret ps"
    and "list_all2 (file_entry ti (atp_save_path (ex_params x)) (ss_max_partial_download_size (cn_settings c)))
       (zip [0..<length (lt_files ti)] (lt_files ti)) fis"
    and "0 \<le> i" and "i < int (length (lt_files ti))"
  shows "\<exists>w'. core_add_torrent env c root [[Some (Torrent_added h False)]] path w = (Ret (add_id w x), w') \<and>
     buffer_get (tw_buffer w') (add_id w x) = Some (length (tw_heap w)) \<and> running w' \<and>
     tw_events w' = tw_events w @ map (\<lambda>fi. Ev_file_add (fi_path fi) (fi_size fi)) fis \<and>
     core_start_torrent_download env (add_id w x) i w' =
       (Ret (ex_sandbox x @ ''/'' @ lf_path (lt_files ti ! nat i)),
        w'\<lparr>tw_calls := tw_calls w' @ [File_priority h i normal_prior, Force_reannounce h, Post_torrent_updates]\<rparr>)"
proof -
  let ?a = "length (tw_heap w)" and ?env = "eeach (handle_core_notifications env c) [[Some (Torrent_added h False)]]"
  obtain w' where w': "cntl_add_torrent c (te_lt env) ?env ?a (entered x w) = (Ret True, w')"
    "info_at w' ?a = added_info h fis (info_at (entered x w) ?a)" "tw_buffer w' = tw_buffer (entered x w)"
    "tw_state w' = tw_state (entered x w)"
    "tw_events w' = tw_events (entered x w) @ map (\<lambda>fi. Ev_file_add (fi_path fi) (fi_size fi)) fis"
    using add_handshake [where env = ?env, OF assms(2,5-9) entered_facts(4) _ assms(10) loop_runs_add]
    by (auto simp: entered_facts(1))
  have "core_add_torrent env c root [[Some (Torrent_added h False)]] path w = (Ret (add_id w x), w')"
    unfolding add_torrent_entered [OF assms(1,3,4)] using w'(1)
    by (simp add: catch_libtorrent_def ebind_def eret_def)
  moreover have found: "buffer_get (tw_buffer w') (add_id w x) = Some ?a"
    by (simp add: w'(3) entered_facts)
  moreover have "running w'" using assms(1) by (simp add: running_def w'(4) entered_facts)
  moreover have "core_start_torrent_download env (add_id w x) i w' =
       (Ret (ex_sandbox x @ ''/'' @ lf_path (lt_files ti ! nat i)),
        w'\<lparr>tw_calls := tw_calls w' @ [File_priority h i normal_prior, Force_reannounce h, Post_torrent_updates]\<rparr>)"
    using start_known [OF \<open>running w'\<close> found _ assms(5,8,11,12)]
    by (simp add: w'(2) entered_facts added_info_def)
  ultimately show ?thesis using w'(5) by (auto simp: entered_facts)
qed

text \<open>C5. A torrent from a good file, whose add alert comes while the caller waits, gets an identifier
  under which the core then finds it; starting any of its files gives the path of that file inside
  the torrent's own sandbox and makes libtorrent download it.\<close>

theorem added_torrent_starts:
  assumes "running w" and "wired c" and "prepared env root path x"
    and "buffer_get_path (tw_buffer w) (atp_save_path (ex_params x)) = None"
    and "\<forall>y. lt_fails (te_lt env) y = None" and "lt_is_valid (te_lt env) h"
    and "lt_save_path (te_lt env) h = Ret (atp_save_path (ex_params x))"
    and "lt_torrent_info (te_lt env) h = Ret ti" and "lt_file_priorities (te_lt env) h = Ret ps"
    and "list_all2 (file_entry ti (atp_save_path (ex_params x)) (ss_max_partial_download_size (cn_settings c)))
       (zip [0..<length (lt_files ti)] (lt_files ti)) fis"
    and "0 \<le> i" and "i < int (length (lt_files ti))"
  shows "\<exists>w'. core_add_torrent env c root [[Some (Torrent_added h False)]] path w = (Ret (add_id w x), w') \<and>
     buffer_get (tw_buffer w') (add_id w x) = Some (length (tw_heap w)) \<and>
     tw_events w' = tw_events w @ map (\<lambda>fi. Ev_file_add (fi_path fi) (fi_size fi)) fis \<and>
     core_start_torrent_download env (add_id w x) i w' =
       (Ret (ex_sandbox x @ ''/'' @ lf_path (lt_files ti ! nat i)),
        w'\<lparr>tw_calls := tw_calls w' @ [File_priority h i normal_prior, Force_reannounce h, Post_torrent_updates]\<rparr>)"
  using add_then_start [OF assms] by blast

definition scenario_lt :: libtorrent where
  "scenario_lt = sample_lt\<lparr>lt_save_path := (\<lambda>h. if h = None then Ret [] else Ret ''/srv/abcdefgh'')\<rparr>"

definition scenario_env :: core_env where
  "scenario_env = sample_env\<lparr>te_lt := scenario_lt\<rparr>"

definition scenario_info :: torrent_ex_info where
  "scenario_info = (new_torrent_ex_info loading_system)\<lparr>ex_sandbox := ''abcdefgh'',
     ex_params := default_params\<lparr>atp_save_path := ''/srv/abcdefgh'', atp_info := Some sample_torrent\<rparr>\<rparr>"

lemma scenario_random: "create_random_path loading_system ''/srv'' = Ret (''/srv/abcdefgh'', ''abcdefgh'')"
  by code_simp

lemma scenario_prepared: "prepared scenario_env ''/srv'' ''t.torrent'' scenario_info"
  using scenario_random
  by (simp add: prepared_def initialize_f_def prepare_f_def prepare_sandbox_def scenario_env_def sample_env_def
      scenario_info_def new_torrent_ex_info_def default_params_def loading_system_def sample_system_def)

definition empty_world :: tc_world where
  "empty_world = sample_world\<lparr>tw_heap := [], tw_buffer := new_shared_buffer length\<rparr>"

lemma scenario_entry:
  "\<exists>fi. list_all2 (file_entry sample_torrent ''/srv/abcdefgh''
       (ss_max_partial_download_size (cn_settings sample_controller)))
     (zip [0..<length (lt_files sample_torrent)] (lt_files sample_torrent)) [fi]"
  by (simp add: file_entry_def file_info_add_entry_def file_info_add_def sample_torrent_def Let_def
      file_info_get_download_offset_def sample_controller_def sample_settings_def)

theorem added_torrent_starts_witness:
  "\<exists>w' calls. core_add_torrent scenario_env sample_controller ''/srv'' [[Some (Torrent_added (Some 1) False)]]
       ''t.torrent'' empty_world = (Ret 13, w') \<and>
     core_start_torrent_download scenario_env 13 0 w' = (Ret ''abcdefgh/a.bin'', w'\<lparr>tw_calls := calls\<rparr>)"
proof -
  have id: "add_id empty_world scenario_info = 13"
    by (simp add: add_id_def empty_world_def new_shared_buffer_def scenario_info_def)
  obtain fi where fi: "list_all2 (file_entry sample_torrent ''/srv/abcdefgh''
       (ss_max_partial_download_size (cn_settings sample_controller)))
     (zip [0..<length (lt_files sample_torrent)] (lt_files sample_torrent)) [fi]"
    using scenario_entry by blast
  have lt: "te_lt scenario_env = scenario_lt" by (simp add: scenario_env_def)
  have path: "atp_save_path (ex_params scenario_info) = ''/srv/abcdefgh''" by (simp add: scenario_info_def)
  have run: "running empty_world" by (simp add: empty_world_def running_def sample_world_def)
  have wired: "wired sample_controller" by (simp add: wired_def sample_controller_def)
  have free: "buffer_get_path (tw_buffer empty_world) (atp_save_path (ex_params scenario_info)) = None"
    by (simp add: empty_world_def buffer_get_path_def get_usafe_def new_shared_buffer_def)
  show ?thesis
    using added_torrent_starts [OF run wired scenario_prepared free, of "Some 1" sample_torrent "[1]" "[fi]" 0] fi
    by (auto simp: lt path id scenario_lt_def sample_lt_def) (auto simp: scenario_info_def sample_torrent_def)
qed

text \<open>C39. When the add alert does not come in time the caller gets the invalid identifier, but the clean-up
  looks for the save path of the handle the torrent never got: the entry stays in the buffer, under an
  identifier that no caller knows.\<close>

theorem failed_add_leaves_entry:
  assumes "running w" and "wired c" and "prepared env root path x"
    and "buffer_get_path (tw_buffer w) (atp_save_path (ex_params x)) = None"
    and "lt_fails (te_lt env) (Async_add_torrent (ex_params x)) = None"
    and "ex_handle x = None" and "lt_save_path (te_lt env) None = Ret q"
    and "sb_hasher (tw_buffer w) q \<noteq> sb_hasher (tw_buffer w) (atp_save_path (ex_params x))"
  shows "\<exists>w'. core_add_torrent env c root [] path w = (Ret 0x1001, w') \<and>
     buffer_get (tw_buffer w') (add_id w x) = Some (length (tw_heap w))"
proof -
  let ?a = "length (tw_heap w)"
  let ?w1 = "drop_promise ?a ((entered x w)\<lparr>tw_calls := tw_calls (entered x w) @ [Async_add_torrent (ex_params x)]\<rparr>)"
  have "cntl_add_torrent c (te_lt env) (eret ()) ?a (entered x w) = (Ret False, ?w1)"
    using add_torrent_gives_up [OF assms(2), of ?a "entered x w" "te_lt env"] assms(5)
    by (simp add: entered_facts)
  moreover have "ex_handle (info_at ?w1 ?a) = None"
    using assms(6) by (simp add: drop_promise_def entered_facts)
  ultimately have "core_add_torrent env c root [] path w =
      (Ret invalid_torrent_id, ?w1\<lparr>tw_buffer := buffer_remove_path (tw_buffer ?w1) q\<rparr>)"
    unfolding add_torrent_entered [OF assms(1,3,4)] eeach.simps using assms(7)
    by (simp add: eff_simps remove_by_path_def)
  moreover have "buffer_get (buffer_remove_path (tw_buffer ?w1) q) (add_id w x) = Some ?a"
    using assms(8)
    by (simp add: drop_promise_def buffer_remove_path_def buffer_remove_def buffer_get_def torrents.look_del
        entered_facts(3) [unfolded buffer_get_def] entered_def add_id_def)
      (simp add: get_usafe_update)
  ultimately show ?thesis by (auto simp: invalid_torrent_id_def)
qed

theorem failed_add_leaves_entry_witness:
  "\<exists>w'. core_add_torrent scenario_env sample_controller ''/srv'' [] ''t.torrent'' empty_world = (Ret 0x1001, w') \<and>
     buffer_get (tw_buffer w') 13 = Some 0"
proof -
  have id: "add_id empty_world scenario_info = 13"
    by (simp add: add_id_def empty_world_def new_shared_buffer_def scenario_info_def)
  have run: "running empty_world" by (simp add: empty_world_def running_def sample_world_def)
  have wired: "wired sample_controller" by (simp add: wired_def sample_controller_def)
  have free: "buffer_get_path (tw_buffer empty_world) (atp_save_path (ex_params scenario_info)) = None"
    by (simp add: empty_world_def buffer_get_path_def get_usafe_def new_shared_buffer_def)
  have "length (tw_heap empty_world) = 0" by (simp add: empty_world_def)
  then show ?thesis
    using failed_add_leaves_entry [OF run wired scenario_prepared free, of "[]"]
    by (simp add: id scenario_env_def scenario_lt_def sample_lt_def)
      (simp add: scenario_info_def new_torrent_ex_info_def empty_world_def new_shared_buffer_def)
qed

text \<open>A removed torrent is gone: libtorrent is told to remove its handle, its identifier finds nothing,
  the other torrents stay, and a download that is started under it gives the empty string and no
  command.\<close>

theorem removed_torrent_forgotten:
  assumes "running w" and "buffer_get (tw_buffer w) tid = Some a" and "\<forall>y. lt_fails (te_lt env) y = None"
  shows "\<exists>w'. core_remove_torrent env tid w = (Ret (), w') \<and>
     buffer_get (tw_buffer w') = (buffer_get (tw_buffer w))(tid := None) \<and>
     tw_calls w' = tw_calls w @ [Remove_torrent (ex_handle (info_at w a)), Post_torrent_updates] \<and>
     core_start_torrent_download env tid i w' = (Ret [], w')"
proof -
  let ?w' = "w\<lparr>tw_buffer := buffer_remove (tw_buffer w) tid,
      tw_calls := tw_calls w @ [Remove_torrent (ex_handle (info_at w a)), Post_torrent_updates]\<rparr>"
  have "core_remove_torrent env tid w = (Ret (), ?w')"
    using assms by (simp add: core_remove_torrent_def on_torrent_def eff_simps call_def post_def)
  moreover have gone: "buffer_get (tw_buffer ?w') = (buffer_get (tw_buffer w))(tid := None)"
    by (rule ext) (simp add: buffer_get_def buffer_remove_def torrents.look_del)
  moreover have "core_start_torrent_download env tid i ?w' = (Ret [], ?w')"
    using assms(1) gone
    by (simp add: core_start_torrent_download_def on_torrent_def eff_simps running_def)
  ultimately show ?thesis by auto
qed

theorem removed_torrent_forgotten_witness:
  "\<exists>w'. core_remove_torrent sample_env 6 sample_world = (Ret (), w') \<and>
     core_start_torrent_download sample_env 6 0 w' = (Ret [], w')"
proof -
  have "running sample_world" "buffer_get (tw_buffer sample_world) 6 = Some 0"
    by (simp_all add: running_def sample_world_def buffer_get_def get_usafe_def)
  then show ?thesis
    using removed_torrent_forgotten [of sample_world 6 0 sample_env 0] by (auto simp: sample_env_def sample_lt_def)
qed

end
