(* ===== verification/Publication.thy ===== *)
theory Publication
  imports File_Info_Buffer Torrent_Core
begin

section \<open>From the torrent core to the HTTP server\<close>

text \<open>
  How what the controller reports reaches the file info buffer of the HTTP server: the adapter
  \<open>src/src/core/external_api/hc_event_source_adapter.cpp\<close> turns each event into a notification, the
  notification unit delivers them in order (\<open>Notification\<close>), and the updater applies each to the
  buffer (\<open>File_Info_Buffer\<close>). \<open>shown\<close> says that the buffer agrees with the torrent's bookkeeping.
\<close>

definition adapter_handle ::
  "int \<Rightarrow> core_file_change notification_center \<Rightarrow> tc_event \<Rightarrow> core_file_change notification_center" where
  "adapter_handle junk c ev =
     (case ev of
        Ev_file_add path fsize \<Rightarrow> adapter_on_file_add c path fsize
      | Ev_file_remove path \<Rightarrow> adapter_on_file_remove c path
      | Ev_file_complete path avaliable \<Rightarrow> adapter_on_file_complete junk c path avaliable
      | Ev_pause path \<Rightarrow> adapter_on_pause c path
      | Ev_progress_update path avaliable \<Rightarrow> adapter_on_progress_update junk c path avaliable)"

text \<open>The change an event is sent as, and the sending.\<close>

fun event_change :: "int \<Rightarrow> tc_event \<Rightarrow> core_file_change list" where
  "event_change junk (Ev_file_add p s) =
     [\<lparr>event_type = file_add, change_path = p, change_size = s, change_avaliable = 0\<rparr>]"
| "event_change junk (Ev_file_remove p) =
     [\<lparr>event_type = file_remove, change_path = p, change_size = 0, change_avaliable = 0\<rparr>]"
| "event_change junk (Ev_file_complete p n) =
     [\<lparr>event_type = file_update, change_path = p, change_size = junk, change_avaliable = n\<rparr>]"
| "event_change junk (Ev_pause p) = []"
| "event_change junk (Ev_progress_update p n) =
     [\<lparr>event_type = file_update, change_path = p, change_size = junk, change_avaliable = n\<rparr>]"

definition send_change ::
  "core_file_change notification_center \<Rightarrow> core_file_change \<Rightarrow> core_file_change notification_center" where
  "send_change c n =
     snd (send_message c recv_name_updater (Some \<lparr>notif_state = notif_executeable, notif_body = n\<rparr>))"

lemma adapter_sends: "adapter_handle junk c ev = foldl send_change c (event_change junk ev)"
  by (cases ev) (simp_all add: adapter_handle_def send_change_def adapter_on_file_add_def
      adapter_on_file_remove_def adapter_on_file_complete_def adapter_on_progress_update_def
      adapter_on_pause_def file_notification_def)

definition changes :: "int \<Rightarrow> tc_event list \<Rightarrow> core_file_change list" where
  "changes junk evs = concat (map (event_change junk) evs)"

lemma adapter_sends_all: "foldl (adapter_handle junk) c evs = foldl send_change c (changes junk evs)"
  by (induction evs arbitrary: c) (simp_all add: changes_def adapter_sends)

lemma run_updater_append:
  "run_updater b (ns @ ms) = cbind (run_updater b ns) (\<lambda>b'. run_updater b' ms)"
  by (induction ns arbitrary: b) (simp_all add: cbind_assoc)

subsection \<open>The buffer shows what the bookkeeping published\<close>

definition shown :: "file_info_buffer \<Rightarrow> file_info list \<Rightarrow> bool" where
  "shown b fs \<longleftrightarrow>
     list_all (\<lambda>fi. fib_abs b (fi_path fi) = Some (fi_size fi, min (fi_avaliable fi) (fi_size fi))) fs"

definition vis :: "file_info \<Rightarrow> string \<times> int \<times> int" where
  "vis fi = (fi_path fi, fi_size fi, fi_avaliable fi)"

lemma shown_vis: "map vis fs' = map vis fs \<Longrightarrow> shown b fs' = shown b fs"
proof -
  have "shown b fs \<longleftrightarrow> list_all (\<lambda>(p, s, n). fib_abs b p = Some (s, min n s)) (map vis fs)" for fs
    by (simp add: shown_def vis_def list_all_iff)
  then show "map vis fs' = map vis fs \<Longrightarrow> shown b fs' = shown b fs" by simp
qed

lemma check_range_vis:
  assumes "file_info_check_range fi = (res, fi', prios)" and "res \<noteq> Progress"
  shows "vis fi' = vis fi"
  using assms
  by (auto simp: file_info_check_range_def file_info_publish_def vis_def Let_def
      split: prod.splits bool.splits if_splits)

lemma update_file_vis:
  assumes "file_info_update_file fi piece = (res, fi', prios)" and "res \<noteq> Progress"
  shows "vis fi' = vis fi"
proof -
  let ?c = "file_info_update_counters (fi\<lparr>fi_av := (fi_av fi)[fi_last_av_pieces_pos fi := piece]\<rparr>)"
  have "vis ?c = vis fi" by (simp add: vis_def)
  then show ?thesis
    using assms check_range_vis [of ?c res fi' prios]
    by (auto simp: file_info_update_file_def Let_def split: if_splits)
qed

text \<open>A piece either leaves every visible number alone, or changes one file and reports it.\<close>

lemma update_shape:
  "file_info_update fs piece = (r, fs') \<Longrightarrow>
   (map vis fs' = map vis fs \<and> (\<forall>fi prios. r \<noteq> Ret (Some fi, prios))) \<or>
   (\<exists>k fi' prios. k < length fs \<and> r = Ret (Some fi', prios) \<and> fs' = fs[k := fi'] \<and>
      fi_path fi' = fi_path (fs ! k) \<and> fi_size fi' = fi_size (fs ! k))"
proof (induction fs piece arbitrary: r fs' rule: file_info_update.induct)
  case (2 fi fs piece)
  show ?case
  proof (cases "file_info_piece_in_range fi piece")
    case True
    obtain res fi' prios where upd: "file_info_update_file fi piece = (res, fi', prios)"
      by (metis prod_cases3)
    show ?thesis
    proof (cases "res = Progress")
      case prog: True
      then have "r = Ret (Some fi', prios) \<and> fs' = (fi # fs)[0 := fi']"
        using 2(2) True upd by simp
      then show ?thesis using update_file_progress [of fi piece fi' prios] upd prog
        by (metis length_greater_0_conv list.distinct(1) nth_Cons_0)
    next
      case False
      then have "fs' = fi' # fs \<and> (\<forall>fi prios. r \<noteq> Ret (Some fi, prios))"
        using 2(2) True upd by (cases res) auto
      then show ?thesis using update_file_vis [OF upd False] by simp
    qed
  next
    case False
    obtain fs1 where rest: "file_info_update fs piece = (r, fs1)" "fs' = fi # fs1"
      using 2(2) False by (auto split: prod.splits)
    from 2(1) [OF False rest(1)] show ?thesis
    proof
      assume "map vis fs1 = map vis fs \<and> (\<forall>fi prios. r \<noteq> Ret (Some fi, prios))"
      then show ?thesis using rest(2) by simp
    next
      assume "\<exists>k fi' prios. k < length fs \<and> r = Ret (Some fi', prios) \<and> fs1 = fs[k := fi'] \<and>
          fi_path fi' = fi_path (fs ! k) \<and> fi_size fi' = fi_size (fs ! k)"
      then obtain k fi' prios where k: "k < length fs" "r = Ret (Some fi', prios)" "fs1 = fs[k := fi']"
          "fi_path fi' = fi_path (fs ! k)" "fi_size fi' = fi_size (fs ! k)" by blast
      then have "Suc k < length (fi # fs) \<and> fs' = (fi # fs)[Suc k := fi'] \<and>
          fi_path fi' = fi_path ((fi # fs) ! Suc k) \<and> fi_size fi' = fi_size ((fi # fs) ! Suc k)"
        using rest(2) by simp
      then show ?thesis using k(2) by blast
    qed
  qed
qed simp

lemma shown_update:
  assumes "fib_inv b" and "shown b fs" and "distinct (map fi_path fs)" and "k < length fs"
    and "fi_path fi' = fi_path (fs ! k)" and "fi_size fi' = fi_size (fs ! k)"
  shows "\<exists>b'. run_updater b (event_change junk (Ev_progress_update (fi_path fi')
      (if fi_avaliable fi' > fi_size fi' then fi_size fi' else fi_avaliable fi'))) = Ret b' \<and>
    fib_inv b' \<and> shown b' (fs[k := fi'])"
proof -
  let ?n = "min (fi_avaliable fi') (fi_size fi')"
  let ?ch = "\<lparr>event_type = file_update, change_path = fi_path fi', change_size = junk, change_avaliable = ?n\<rparr>"
  have eq: "event_change junk (Ev_progress_update (fi_path fi')
      (if fi_avaliable fi' > fi_size fi' then fi_size fi' else fi_avaliable fi')) = [?ch]"
    by (simp add: min_def)
  obtain b' where b': "run_updater b [?ch] = Ret b'" "fib_inv b'" "fib_abs b' = foldl change_spec (fib_abs b) [?ch]"
    using run_updater_refines [OF assms(1), of "[?ch]"] by auto
  have "\<exists>a. fib_abs b (fi_path fi') = Some (fi_size fi', a)"
    using assms(2,4,5,6) by (auto simp: shown_def list_all_length)
  then have abs: "fib_abs b' = (fib_abs b)(fi_path fi' \<mapsto> (fi_size fi', ?n))"
    using b'(3) by (auto simp: change_spec_def)
  have other: "fi_path (fs ! j) \<noteq> fi_path fi'" if "j < length fs" "j \<noteq> k" for j
    using assms(3-5) that by (auto simp: distinct_conv_nth)
  have "shown b' (fs[k := fi'])"
    unfolding shown_def list_all_length
  proof (intro allI impI)
    fix n
    assume "n < length (fs[k := fi'])"
    then show "fib_abs b' (fi_path (fs[k := fi'] ! n)) =
        Some (fi_size (fs[k := fi'] ! n), min (fi_avaliable (fs[k := fi'] ! n)) (fi_size (fs[k := fi'] ! n)))"
      using assms(2) other [of n] by (cases "n = k") (simp_all add: abs shown_def list_all_length)
  qed
  with b' eq show ?thesis by metis
qed

text \<open>One piece, through the controller and the updater.\<close>

definition known :: "controller \<Rightarrow> libtorrent \<Rightarrow> lt_handle \<Rightarrow> nat \<Rightarrow> tc_world \<Rightarrow> bool" where
  "known c lt h a w \<longleftrightarrow>
     wired c \<and> a < length (tw_heap w) \<and>
     (\<exists>p. lt_save_path lt h = Ret p \<and> buffer_get_path (tw_buffer w) p = Some a)"

definition agrees :: "file_info_buffer \<Rightarrow> nat \<Rightarrow> tc_world \<Rightarrow> bool" where
  "agrees b a w \<longleftrightarrow>
     fib_inv b \<and> distinct (map fi_path (ex_files (info_at w a))) \<and> shown b (ex_files (info_at w a))"

lemma map_path_update:
  "k < length fs \<Longrightarrow> fi_path fi' = fi_path (fs ! k) \<Longrightarrow> map fi_path (fs[k := fi']) = map fi_path fs"
  by (metis list_update_id map_update)

lemma vis_paths: "map vis fs' = map vis fs \<Longrightarrow> map fi_path fs' = map fi_path fs"
proof -
  have "map fi_path fs = map fst (map vis fs)" for fs by (simp add: vis_def)
  then show "map vis fs' = map vis fs \<Longrightarrow> map fi_path fs' = map fi_path fs" by metis
qed

lemma piece_step:
  assumes "known c lt h a w" and "agrees b a w"
    and w': "w' = snd (dispatch_alert c lt sys (Piece_finished h i) w)"
  shows "\<exists>evs b'. tw_events w' = tw_events w @ evs \<and> run_updater b (changes junk evs) = Ret b' \<and>
     length (changes junk evs) \<le> 1 \<and> known c lt h a w' \<and> agrees b' a w'"
proof -
  let ?fs = "ex_files (info_at w a)"
  obtain p where p: "wired c" "lt_save_path lt h = Ret p" "buffer_get_path (tw_buffer w) p = Some a"
    and len: "a < length (tw_heap w)"
    using assms(1) by (auto simp: known_def)
  have run: "w' = snd (update_and_report c h i a w)"
    using w' with_info_known [OF p] by (simp add: on_piece_finished_def)
  obtain r fs' where upd: "file_info_update ?fs i = (r, fs')" by (cases "file_info_update ?fs i")
  from update_shape [OF upd] show ?thesis
  proof
    assume same: "map vis fs' = map vis ?fs \<and> (\<forall>fi prios. r \<noteq> Ret (Some fi, prios))"
    have "tw_events w' = tw_events w \<and> tw_buffer w' = tw_buffer w \<and> length (tw_heap w') = length (tw_heap w) \<and>
        (ex_files (info_at w' a) = fs' \<or> ex_files (info_at w' a) = ?fs)"
      using run same len
      by (auto simp: update_and_report_def upd Let_def split: cpp.splits option.splits prod.splits)
    then have "known c lt h a w' \<and> agrees b a w' \<and> tw_events w' = tw_events w @ []"
      using assms(1,2) same shown_vis [of fs' ?fs b] vis_paths [of fs' ?fs]
      by (auto simp: known_def agrees_def)
    then show ?thesis by (force simp: changes_def)
  next
    assume "\<exists>k fi' prios. k < length ?fs \<and> r = Ret (Some fi', prios) \<and> fs' = ?fs[k := fi'] \<and>
        fi_path fi' = fi_path (?fs ! k) \<and> fi_size fi' = fi_size (?fs ! k)"
    then obtain k fi' prios where k: "k < length ?fs" "r = Ret (Some fi', prios)" "fs' = ?fs[k := fi']"
      "fi_path fi' = fi_path (?fs ! k)" "fi_size fi' = fi_size (?fs ! k)" by blast
    let ?ev = "Ev_progress_update (fi_path fi')
        (if fi_avaliable fi' > fi_size fi' then fi_size fi' else fi_avaliable fi')"
    have w1: "tw_events w' = tw_events w @ [?ev]" "tw_buffer w' = tw_buffer w"
      "length (tw_heap w') = length (tw_heap w)" "ex_files (info_at w' a) = fs'"
      using run len p(1) k(2) by (simp_all add: update_and_report_def upd Let_def event_def wired_def)
    obtain b' where b': "run_updater b (event_change junk ?ev) = Ret b'" "fib_inv b'" "shown b' fs'"
      using shown_update [of b ?fs k fi' junk] assms(2) k by (auto simp: agrees_def)
    have "agrees b' a w'"
      using assms(2) b'(2,3) w1(4) map_path_update [OF k(1,4)] by (simp add: agrees_def k(3))
    moreover have "known c lt h a w'" using assms(1) w1(2,3) by (simp add: known_def)
    moreover have "run_updater b (changes junk [?ev]) = Ret b'" using b'(1) by (simp add: changes_def)
    moreover have "length (changes junk [?ev]) \<le> 1" by (simp add: changes_def)
    ultimately show ?thesis using w1(1) by blast
  qed
qed

definition pieces_run :: "controller \<Rightarrow> libtorrent \<Rightarrow> tc_system \<Rightarrow> lt_handle \<Rightarrow> int list \<Rightarrow> tc_world \<Rightarrow> tc_world" where
  "pieces_run c lt sys h ps w = foldl (\<lambda>w i. snd (dispatch_alert c lt sys (Piece_finished h i) w)) w ps"

text \<open>However the pieces of a known torrent arrive, applying the notifications that the controller's
  reports are turned into never goes wrong, and the HTTP server's buffer then shows, for every file of
  the torrent, its size and exactly the bytes that the bookkeeping published, at most the size.\<close>

theorem published_bytes_shown:
  assumes "known c lt h a w" and "agrees b a w"
  shows "\<exists>evs b'. tw_events (pieces_run c lt sys h ps w) = tw_events w @ evs \<and>
     run_updater b (changes junk evs) = Ret b' \<and>
     shown b' (ex_files (info_at (pieces_run c lt sys h ps w) a))"
proof -
  have "\<exists>evs b'. tw_events (pieces_run c lt sys h ps w) = tw_events w @ evs \<and>
      run_updater b (changes junk evs) = Ret b' \<and> agrees b' a (pieces_run c lt sys h ps w)"
    using assms
  proof (induction ps arbitrary: w b)
    case Nil
    then show ?case by (force simp: pieces_run_def changes_def)
  next
    case (Cons i ps)
    let ?w1 = "snd (dispatch_alert c lt sys (Piece_finished h i) w)"
    obtain evs1 b1 where one: "tw_events ?w1 = tw_events w @ evs1" "run_updater b (changes junk evs1) = Ret b1"
      "known c lt h a ?w1" "agrees b1 a ?w1"
      using piece_step [OF Cons.prems refl] by blast
    obtain evs2 b2 where two: "tw_events (pieces_run c lt sys h ps ?w1) = tw_events ?w1 @ evs2"
      "run_updater b1 (changes junk evs2) = Ret b2" "agrees b2 a (pieces_run c lt sys h ps ?w1)"
      using Cons.IH [OF one(3,4)] by blast
    have "pieces_run c lt sys h (i # ps) w = pieces_run c lt sys h ps ?w1" by (simp add: pieces_run_def)
    moreover have "run_updater b (changes junk (evs1 @ evs2)) = Ret b2"
      using one(2) two(2) by (simp add: changes_def run_updater_append)
    ultimately show ?case using one(1) two(1,3) by (metis append_assoc)
  qed
  then show ?thesis by (auto simp: agrees_def)
qed

text \<open>Where it starts: the files announced by an add.\<close>

lemma added_files_abs:
  "fib_inv b \<Longrightarrow> \<exists>b'. run_updater b (changes junk (map (\<lambda>fi. Ev_file_add (fi_path fi) (fi_size fi)) fis)) = Ret b' \<and>
     fib_inv b' \<and> (\<forall>p. p \<notin> fi_path ` set fis \<longrightarrow> fib_abs b' p = fib_abs b p) \<and>
     (distinct (map fi_path fis) \<longrightarrow> (\<forall>fi \<in> set fis. fib_abs b' (fi_path fi) = Some (fi_size fi, 0)))"
proof (induction fis arbitrary: b)
  case Nil
  then show ?case by (simp add: changes_def)
next
  case (Cons fi fis)
  let ?ch = "\<lparr>event_type = file_add, change_path = fi_path fi, change_size = fi_size fi, change_avaliable = 0\<rparr>"
  obtain b1 where b1: "updater_on_notify b ?ch = Ret b1" "fib_inv b1" "fib_abs b1 = change_spec (fib_abs b) ?ch"
    using updater_add [OF Cons.prems, of ?ch] by auto
  obtain b' where b': "run_updater b1 (changes junk (map (\<lambda>fi. Ev_file_add (fi_path fi) (fi_size fi)) fis)) = Ret b'"
    "fib_inv b'" "\<forall>p. p \<notin> fi_path ` set fis \<longrightarrow> fib_abs b' p = fib_abs b1 p"
    "distinct (map fi_path fis) \<longrightarrow> (\<forall>fi \<in> set fis. fib_abs b' (fi_path fi) = Some (fi_size fi, 0))"
    using Cons.IH [OF b1(2)] by blast
  have "changes junk (map (\<lambda>fi. Ev_file_add (fi_path fi) (fi_size fi)) (fi # fis)) =
      ?ch # changes junk (map (\<lambda>fi. Ev_file_add (fi_path fi) (fi_size fi)) fis)"
    by (simp add: changes_def)
  then show ?case using b1 b' by (auto simp: change_spec_def)
qed

lemma added_files_shown:
  assumes "fib_inv b" and "distinct (map fi_path fis)"
    and "list_all (\<lambda>fi. fi_avaliable fi = 0 \<and> 0 \<le> fi_size fi) fis"
  shows "\<exists>b'. run_updater b (changes junk (map (\<lambda>fi. Ev_file_add (fi_path fi) (fi_size fi)) fis)) = Ret b' \<and>
     fib_inv b' \<and> shown b' fis"
  using added_files_abs [OF assms(1), of junk fis] assms(2,3)
  by (fastforce simp: shown_def list_all_iff)

definition loaded_world :: tc_world where
  "loaded_world = sample_world\<lparr>tw_heap := [waiting_info\<lparr>ex_files := [sample_file]\<rparr>]\<rparr>"

lemma loaded_start:
  "known sample_controller sample_lt (Some 1) 0 loaded_world \<and> (\<exists>b. agrees b 0 loaded_world)"
proof -
  have files: "ex_files (info_at loaded_world 0) = [sample_file]" by (simp add: loaded_world_def info_at_def)
  obtain b where "fib_inv b" "shown b [sample_file]"
    using added_files_shown [OF fib_inv_new, of "[sample_file]" 0] by (auto simp: sample_file_def)
  then have "agrees b 0 loaded_world" by (simp add: agrees_def files)
  then show ?thesis
    by (auto simp: known_def wired_def sample_controller_def sample_lt_def loaded_world_def sample_world_def
        buffer_get_path_def get_usafe_def)
qed

theorem published_bytes_shown_witness:
  "\<exists>evs b b'. tw_events (pieces_run sample_controller sample_lt sample_system (Some 1) [0, 1, 2] loaded_world) = evs \<and>
     run_updater b (changes 0 evs) = Ret b' \<and>
     shown b' (ex_files (info_at (pieces_run sample_controller sample_lt sample_system (Some 1) [0, 1, 2] loaded_world) 0))"
proof -
  obtain b where "known sample_controller sample_lt (Some 1) 0 loaded_world" "agrees b 0 loaded_world"
    using loaded_start by blast
  moreover have "tw_events loaded_world = []" by (simp add: loaded_world_def sample_world_def)
  ultimately show ?thesis
    using published_bytes_shown [of sample_controller sample_lt "Some 1" 0 loaded_world b sample_system "[0, 1, 2]" 0]
    by auto
qed

end
