(* ===== verification/Delivery.thy ===== *)
theory Delivery
  imports Publication
begin

section \<open>Pieces, notifications and the worker thread together\<close>

text \<open>
  The alert thread and the worker thread of the updater's notification unit
  (\<open>src/src/common/notification_model/notification_unit.cpp\<close>) as one system: a piece arrives and what the
  controller reports is sent to the notification center (\<open>hc_event_source_adapter.cpp\<close>), or the
  worker takes a step. What the worker has delivered is what the updater has applied to the buffer
  of the HTTP server. An execution is any list of such actions.
\<close>

datatype pub_act = Piece_arrives int | Worker_steps

definition updater_unit :: "core_file_change notification_center \<Rightarrow> core_file_change notification_unit option" where
  "updater_unit n = map_of (receivers n) recv_name_updater"

definition worker_step :: "core_file_change notification_center \<Rightarrow> core_file_change notification_center" where
  "worker_step n =
     (case updater_unit n of
        Some u \<Rightarrow> n\<lparr>receivers := AList.update recv_name_updater (execution_loop_step u) (receivers n)\<rparr>
      | None \<Rightarrow> n)"

fun pub_step ::
  "controller \<Rightarrow> libtorrent \<Rightarrow> tc_system \<Rightarrow> lt_handle \<Rightarrow> int \<Rightarrow> tc_world \<times> core_file_change notification_center
     \<Rightarrow> pub_act \<Rightarrow> tc_world \<times> core_file_change notification_center" where
  "pub_step c lt sys h junk (w, n) (Piece_arrives i) =
     (let w' = snd (dispatch_alert c lt sys (Piece_finished h i) w)
      in (w', foldl (adapter_handle junk) n (drop (length (tw_events w)) (tw_events w'))))"
| "pub_step c lt sys h junk (w, n) Worker_steps = (w, worker_step n)"

fun is_piece :: "pub_act \<Rightarrow> bool" where
  "is_piece (Piece_arrives i) = True"
| "is_piece Worker_steps = False"

text \<open>What holds at every moment: \<open>b\<close> is the buffer when the updater has caught up.\<close>

definition in_step ::
  "controller \<Rightarrow> libtorrent \<Rightarrow> lt_handle \<Rightarrow> nat \<Rightarrow> notification_unit_param \<Rightarrow> file_info_buffer \<Rightarrow> nat
     \<Rightarrow> tc_world \<times> core_file_change notification_center \<Rightarrow> bool" where
  "in_step c lt h a p b0 k = (\<lambda>(w, n).
     \<not> center_stop n \<and>
     (\<exists>u b. updater_unit n = Some u \<and> unit_inv p u \<and> \<not> stop_work u \<and> length (accepted u) \<le> k \<and>
        run_updater b0 (accepted u) = Ret b \<and> known c lt h a w \<and> agrees b a w))"

lemma send_accepted:
  assumes "\<not> center_stop n" and "updater_unit n = Some u" and "\<not> stop_work u" and "unit_inv p u"
    and "length (accepted u) \<le> max_notifications p"
  shows "\<exists>u'. updater_unit (send_change n x) = Some u' \<and> \<not> center_stop (send_change n x) \<and> \<not> stop_work u' \<and>
     unit_inv p u' \<and> accepted u' = accepted u @ [x]"
proof -
  let ?m = "\<lparr>notif_state = notif_executeable, notif_body = x\<rparr>"
  have "length (pending_notifications u) \<le> length (in_flight u)" by (simp add: in_flight_def)
  then have "length (pending_notifications u) \<le> max_notifications (unit_param u)"
    using assms(4,5) by (simp add: unit_inv_def)
  then have "accepted (add_notification u ?m) = accepted u @ [x]" "\<not> stop_work (add_notification u ?m)"
    using assms(3) by (simp_all add: add_notification_def)
  moreover have "updater_unit (send_change n x) = Some (add_notification u ?m)" "\<not> center_stop (send_change n x)"
    using assms(1,2) by (simp_all add: updater_unit_def send_change_def send_message_def map_of_update_fun)
  ultimately show ?thesis using unit_inv_add [OF assms(4), of ?m] by blast
qed

lemma in_step_worker:
  assumes "in_step c lt h a p b0 k (w, n)"
  shows "in_step c lt h a p b0 k (w, worker_step n)"
proof -
  obtain u b where u: "\<not> center_stop n" "updater_unit n = Some u" "unit_inv p u" "\<not> stop_work u"
    "length (accepted u) \<le> k" "run_updater b0 (accepted u) = Ret b" "known c lt h a w" "agrees b a w"
    using assms by (auto simp: in_step_def)
  have "\<not> stop_work (execution_loop_step u)"
    using u(4) by (cases "loop_at u"; cases "notifications u") (auto simp: loop_defs)
  moreover have "updater_unit (worker_step n) = Some (execution_loop_step u)" "\<not> center_stop (worker_step n)"
    using u(1,2) by (simp_all add: worker_step_def updater_unit_def map_of_update_fun)
  ultimately show ?thesis
    using u unit_inv_thread [OF u(3)] by (auto simp: in_step_def accepted_step)
qed

lemma in_step_piece:
  assumes "in_step c lt h a p b0 k (w, n)" and "k < max_notifications p"
  shows "in_step c lt h a p b0 (Suc k) (pub_step c lt sys h junk (w, n) (Piece_arrives i))"
proof -
  obtain u b where u: "\<not> center_stop n" "updater_unit n = Some u" "unit_inv p u" "\<not> stop_work u"
    "length (accepted u) \<le> k" "run_updater b0 (accepted u) = Ret b" "known c lt h a w" "agrees b a w"
    using assms by (auto simp: in_step_def)
  let ?w' = "snd (dispatch_alert c lt sys (Piece_finished h i) w)"
  obtain evs b' where evs: "tw_events ?w' = tw_events w @ evs" "run_updater b (changes junk evs) = Ret b'"
    "length (changes junk evs) \<le> 1" "known c lt h a ?w'" "agrees b' a ?w'"
    using piece_step [OF u(7,8) refl] by blast
  have step: "pub_step c lt sys h junk (w, n) (Piece_arrives i) = (?w', foldl send_change n (changes junk evs))"
    using evs(1) adapter_sends_all [of junk n evs] by (simp add: Let_def)
  show ?thesis
  proof (cases "changes junk evs")
    case Nil
    then show ?thesis unfolding step using u evs by (auto simp: in_step_def)
  next
    case (Cons x xs)
    then have one: "changes junk evs = [x]" using evs(3) by simp
    obtain u' where "updater_unit (send_change n x) = Some u'" "\<not> center_stop (send_change n x)" "\<not> stop_work u'"
      "unit_inv p u'" "accepted u' = accepted u @ [x]"
      using send_accepted [OF u(1,2,4,3)] u(5) assms(2) by (metis less_imp_le_nat order_trans)
    moreover have "run_updater b0 (accepted u @ [x]) = Ret b'"
      using u(6) evs(2) one by (simp add: run_updater_append)
    ultimately show ?thesis unfolding step one using u(5) evs(4,5) by (auto simp: in_step_def)
  qed
qed

lemma in_step_run:
  "in_step c lt h a p b0 k s \<Longrightarrow> k + length (filter is_piece acts) \<le> max_notifications p \<Longrightarrow>
   in_step c lt h a p b0 (k + length (filter is_piece acts)) (foldl (pub_step c lt sys h junk) s acts)"
proof (induction acts arbitrary: k s)
  case (Cons act acts)
  obtain w n where s: "s = (w, n)" by fastforce
  show ?case
  proof (cases act)
    case (Piece_arrives i)
    then have "in_step c lt h a p b0 (Suc k) (pub_step c lt sys h junk s act)"
      using in_step_piece Cons.prems by (simp add: s)
    then show ?thesis using Cons.IH [of "Suc k"] Cons.prems(2) Piece_arrives by simp
  next
    case Worker_steps
    then have "in_step c lt h a p b0 k (pub_step c lt sys h junk s act)"
      using in_step_worker Cons.prems(1) by (simp add: s)
    then show ?thesis using Cons.IH [of k] Cons.prems(2) Worker_steps by simp
  qed
qed simp

lemma delivered_prefix:
  assumes "unit_inv p u" and "run_updater b0 (accepted u) = Ret b"
  shows "returns (run_updater b0 (delivered u))"
proof -
  have "in_flight u = accepted u" using assms(1) by (simp add: unit_inv_def)
  then obtain rest where "accepted u = delivered u @ rest" by (metis in_flight_def)
  then show ?thesis using assms(2) by (auto simp: run_updater_append cbind_eq_Ret)
qed

lemma caught_up:
  assumes "unit_inv p u" and "\<not> stop_work u"
  shows "\<exists>k. delivered ((execution_loop_step ^^ k) u) = accepted u"
proof -
  obtain k where "drained ((execution_loop_step ^^ k) u)" "unit_inv p ((execution_loop_step ^^ k) u)"
    "accepted ((execution_loop_step ^^ k) u) = accepted u"
    using drains [OF assms] by blast
  then show ?thesis by (intro exI [of _ k]) (simp add: unit_inv_def in_flight_def drained_def)
qed

text \<open>C6. However finished pieces and steps of the worker thread are interleaved, as long as no more
  pieces arrive than the updater's queue has room for, what has been delivered never goes wrong at
  the buffer, and the worker needs only finitely many further steps until the buffer shows, for
  every file of the torrent, its size and exactly the published bytes, at most the size.\<close>

theorem delivered_bytes_shown:
  assumes "known c lt h a w" and "agrees b a w" and "updater_unit n = Some u" and "\<not> center_stop n"
    and "unit_reach p u" and "\<not> stop_work u" and "accepted u = []"
    and "length (filter is_piece acts) \<le> max_notifications p"
    and run: "(w', n') = foldl (pub_step c lt sys h junk) (w, n) acts"
  shows "\<exists>u'. updater_unit n' = Some u' \<and> returns (run_updater b (delivered u')) \<and>
     (\<exists>k b'. run_updater b (delivered ((execution_loop_step ^^ k) u')) = Ret b' \<and>
        shown b' (ex_files (info_at w' a)))"
proof -
  have "in_step c lt h a p b 0 (w, n)"
    using assms(1-4,6,7) unit_reach_inv [OF assms(5)] by (auto simp: in_step_def)
  from in_step_run [OF this, of acts sys junk] assms(8) have "in_step c lt h a p b (length (filter is_piece acts)) (w', n')"
    by (simp add: run)
  then obtain u' b1 where u': "updater_unit n' = Some u'" "unit_inv p u'" "\<not> stop_work u'"
    "run_updater b (accepted u') = Ret b1" "agrees b1 a w'"
    by (auto simp: in_step_def)
  obtain k where "delivered ((execution_loop_step ^^ k) u') = accepted u'"
    using caught_up [OF u'(2,3)] by blast
  then show ?thesis using u'(1,4,5) delivered_prefix [OF u'(2,4)] by (metis agrees_def)
qed

text \<open>The center of the process with the updater registered.\<close>

definition updater_center :: "core_file_change notification_center" where
  "updater_center = snd (add_notification_receiver (\<lambda>s. 7) (core_notification_center None) (Some recv_name_updater))"

definition updater_param :: notification_unit_param where
  "updater_param = \<lparr>change_state_auto = True, execute_all_notification_at_exit = False,
     notification_check_timeout = 3000, max_notifications = 1000, recv_name = recv_name_updater\<rparr>"

lemma updater_center_unit:
  "updater_unit updater_center = Some (execution_loop_run (new_notification_unit (\<lambda>s. 7) updater_param))"
  "\<not> center_stop updater_center"
  by (simp_all add: updater_unit_def updater_center_def core_notification_center_def new_notification_center_def
      add_notification_receiver_def registration_def updater_param_def Let_def)

theorem delivered_bytes_shown_witness:
  "\<exists>w' n' u' b k b'.
     (w', n') = foldl (pub_step sample_controller sample_lt sample_system (Some 1) 0) (loaded_world, updater_center)
       [Worker_steps, Piece_arrives 0, Worker_steps, Worker_steps, Piece_arrives 1] \<and>
     updater_unit n' = Some u' \<and> run_updater b (delivered ((execution_loop_step ^^ k) u')) = Ret b' \<and>
     shown b' (ex_files (info_at w' 0))"
proof -
  let ?u = "execution_loop_run (new_notification_unit (\<lambda>s. 7) updater_param) :: core_file_change notification_unit"
  let ?acts = "[Worker_steps, Piece_arrives 0, Worker_steps, Worker_steps, Piece_arrives 1]"
  let ?last = "foldl (pub_step sample_controller sample_lt sample_system (Some 1) 0) (loaded_world, updater_center) ?acts"
  obtain b where start: "known sample_controller sample_lt (Some 1) 0 loaded_world" "agrees b 0 loaded_world"
    using loaded_start by blast
  have u: "\<not> stop_work ?u" "accepted ?u = []" by (simp_all add: execution_loop_run_def new_notification_unit_def)
  have room: "length (filter is_piece ?acts) \<le> max_notifications updater_param" by (simp add: updater_param_def)
  have "(fst ?last, snd ?last) = ?last" by simp
  from delivered_bytes_shown [OF start updater_center_unit unit_reach.start u room this]
  show ?thesis by (metis prod.collapse)
qed

end
