(* ===== verification/External_Api.thy ===== *)
theory External_Api
  imports Http_Server Torrent_Core
begin

section \<open>The C interface\<close>

text \<open>
  \<open>src/src/core/external_api/external_api.cpp\<close>, \<open>external_api_details.{hpp,cpp}\<close> and \<open>t2h.h\<close>. The
  process keeps one setting manager, shared by every handle, and the table of handles. A handle owns
  a \<open>core_handle\<close>, whose services manager holds the torrent core and the HTTP server, and the
  torrents it added. A call is an effect over the process; dereferencing a null pointer is \<open>Undef\<close>.
  The build is without \<open>T2H_INT_WORKAROUND\<close>: a torrent identifier is a \<open>size_t\<close>.
\<close>

type_synonym core_service = "torrent_core + http_server_core"

record api_env =
  ae_core :: core_env
  ae_platform :: platform
  ae_fib :: file_info_buffer
  ae_json :: json_reader
  ae_file :: "string \<Rightarrow> string option"

record core_handle =
  ch_services :: "core_service services_manager"
  ch_has_settings :: bool

record underlying_info =
  ui_mem :: "string list"
  ui_tid :: nat

record underlying_handle =
  uh_core :: core_handle
  uh_torrents :: "(nat \<times> underlying_info) list"

record process =
  pr_settings :: setting_manager
  pr_handles :: "underlying_handle handles_manager"

definition INVALID_T2H_HANDLE :: int where "INVALID_T2H_HANDLE = -1"
definition INVALID_TORRENT_ID :: nat where "INVALID_TORRENT_ID = 2 ^ 64 - 1"

definition core_ops :: "api_env \<Rightarrow> core_service base_service" where
  "core_ops env = sum_service (torrent_service (ae_core env)) (http_service (ae_platform env) (ae_fib env))"

interpretation core_services: two_services "torrent_service (ae_core env)" "http_service (ae_platform env) (ae_fib env)"
  for env
  by unfold_locales

subsection \<open>core_handle\<close>

definition new_core_handle :: core_handle where
  "new_core_handle = \<lparr>ch_services = \<lparr>services = []\<rparr>, ch_has_settings = False\<rparr>"

text \<open>A null pointer is \<open>None\<close>; every exception of the construction gives one.\<close>

definition init_torrent_core :: "api_env \<Rightarrow> setting_manager \<Rightarrow> torrent_core option cpp" where
  "init_torrent_core env sets =
     (case core_launch_service (ae_core env) (new_torrent_core (Some sets) new_controller True) of
        (Ret launched, tcore) \<Rightarrow> Ret (if \<not> launched then None else Some tcore)
      | (Throw e, tcore) \<Rightarrow> Ret None
      | (Undef, tcore) \<Rightarrow> Undef)"

text \<open>After an exception of the launch the pointer is not null: the server is handed out not running.\<close>

definition init_http_server :: "api_env \<Rightarrow> setting_manager \<Rightarrow> http_server_core option cpp" where
  "init_http_server env sets =
     (let http_server = new_http_server_core sets
      in case http_launch_service (ae_platform env) (ae_fib env) http_server of
           Ret (launched, http_server') \<Rightarrow> Ret (if \<not> launched then None else Some http_server')
         | Throw e \<Rightarrow> Ret (Some http_server)
         | Undef \<Rightarrow> Undef)"

definition init_core_services :: "api_env \<Rightarrow> setting_manager \<Rightarrow> core_handle \<Rightarrow> core_handle cpp" where
  "init_core_services env sets ch =
     cbind (init_torrent_core env sets) (\<lambda>t.
       case t of
         None \<Rightarrow> Undef
       | Some tcore \<Rightarrow>
           cbind (init_http_server env sets) (\<lambda>h.
             case h of
               None \<Rightarrow> Undef
             | Some http \<Rightarrow>
                 (case registrate (core_ops env) (ch_services ch) (Some (Inl tcore)) of
                    (_, m1) \<Rightarrow>
                      (case registrate (core_ops env) m1 (Some (Inr http)) of
                         (state, m2) \<Rightarrow>
                           if state then Ret (ch\<lparr>ch_services := m2\<rparr>)
                           else Ret (ch\<lparr>ch_services := m2\<lparr>services :=
                                  map (\<lambda>(n, s). (n, stop_service (core_ops env) s)) (services m2)\<rparr>\<rparr>)))))"

definition core_handle_initialize ::
  "api_env \<Rightarrow> string \<Rightarrow> bool \<Rightarrow> (setting_manager \<times> core_handle, bool) eff" where
  "core_handle_initialize env config load_from_file = (\<lambda>(sets, ch).
     case (if load_from_file then load_config (ae_json env) (ae_file env) sets config
           else init_config (ae_json env) sets config) of
       Ret sets' \<Rightarrow>
         if config_is_well sets'
         then (case init_core_services env sets' (ch\<lparr>ch_has_settings := True\<rparr>) of
                 Ret ch' \<Rightarrow> (Ret True, (sets', ch'))
               | Throw e \<Rightarrow> (Ret False, (sets', ch\<lparr>ch_has_settings := True\<rparr>))
               | Undef \<Rightarrow> (Undef, (sets', ch\<lparr>ch_has_settings := True\<rparr>)))
         else (Ret False, (sets', ch\<lparr>ch_has_settings := True\<rparr>))
     | Throw e \<Rightarrow> (Ret False, (sets, ch\<lparr>ch_has_settings := True\<rparr>))
     | Undef \<Rightarrow> (Undef, (sets, ch\<lparr>ch_has_settings := True\<rparr>)))"

text \<open>\<open>destroy\<close> returns the services as \<open>stop_all\<close> leaves them, besides the handle.\<close>

definition core_handle_destroy :: "api_env \<Rightarrow> core_handle \<Rightarrow> (core_handle \<times> (string \<times> core_service) list) option" where
  "core_handle_destroy env ch =
     map_option (\<lambda>(m, stopped). (ch\<lparr>ch_services := m, ch_has_settings := False\<rparr>, stopped))
       (stop_all (core_ops env) (ch_services ch))"

definition core_handle_wait :: "api_env \<Rightarrow> core_handle \<Rightarrow> core_handle option" where
  "core_handle_wait env ch =
     map_option (\<lambda>m. ch\<lparr>ch_services := m\<rparr>) (wait_all (core_ops env) (ch_services ch))"

text \<open>\<open>get_torrent_core\<close> casts without a check: another service under the name would be misread.\<close>

definition get_torrent_core :: "core_handle \<Rightarrow> torrent_core cpp" where
  "get_torrent_core ch =
     (case get_service (ch_services ch) this_service_name of
        Some (Inl tcore) \<Rightarrow> Ret tcore
      | _ \<Rightarrow> Undef)"

definition put_torrent_core :: "torrent_core \<Rightarrow> core_handle \<Rightarrow> core_handle" where
  "put_torrent_core tcore ch =
     ch\<lparr>ch_services := (ch_services ch)\<lparr>services :=
       AList.update this_service_name (Inl tcore) (services (ch_services ch))\<rparr>\<rparr>"

subsection \<open>The torrents of a handle\<close>

text \<open>\<open>std::map::insert\<close> keeps an entry that is already there.\<close>

definition add_info :: "underlying_info \<Rightarrow> underlying_handle \<Rightarrow> nat \<times> underlying_handle" where
  "add_info info h =
     (ui_tid info,
      (case map_of (uh_torrents h) (ui_tid info) of
         None \<Rightarrow> h\<lparr>uh_torrents := AList.update (ui_tid info) info (uh_torrents h)\<rparr>
       | Some _ \<Rightarrow> h))"

definition handle_get_info :: "underlying_handle \<Rightarrow> nat \<Rightarrow> underlying_info option" where
  "handle_get_info h tid = map_of (uh_torrents h) tid"

definition handle_remove_info :: "nat \<Rightarrow> underlying_handle \<Rightarrow> underlying_handle" where
  "handle_remove_info tor_id h =
     (case map_of (uh_torrents h) tor_id of
        Some _ \<Rightarrow> h\<lparr>uh_torrents := AList.delete tor_id (uh_torrents h)\<rparr>
      | None \<Rightarrow> h)"

definition collect_mem :: "nat \<Rightarrow> string \<Rightarrow> underlying_handle \<Rightarrow> underlying_handle" where
  "collect_mem tid mem h =
     (case map_of (uh_torrents h) tid of
        Some info \<Rightarrow> h\<lparr>uh_torrents := AList.update tid (info\<lparr>ui_mem := ui_mem info @ [mem]\<rparr>) (uh_torrents h)\<rparr>
      | None \<Rightarrow> h)"

text \<open>A C string with its terminating zero; \<open>None\<close> is \<open>NULL\<close>.\<close>

definition string_to_c_string :: "string \<Rightarrow> string option" where
  "string_to_c_string str = (if str \<noteq> [] then Some (str @ [CHR 0x00]) else None)"

definition create_url :: "setting_manager \<Rightarrow> string \<Rightarrow> string cpp" where
  "create_url sets path_in_root =
     (if path_in_root = [] then Ret []
      else cbind (read_string sets ''server_addr'') (\<lambda>addr.
           cbind (read_string sets ''server_port'') (\<lambda>port.
             Ret (''http://'' @ addr @ '':'' @ port @ ''/'' @ path_in_root))))"

subsection \<open>The functions of t2h.h\<close>

definition t2h_init_impl :: "api_env \<Rightarrow> string option \<Rightarrow> bool \<Rightarrow> (process, int) eff" where
  "t2h_init_impl env config load_from_file p =
     (case config of
        None \<Rightarrow> (Ret INVALID_T2H_HANDLE, p)
      | Some text_or_path \<Rightarrow>
          (case core_handle_initialize env text_or_path load_from_file (pr_settings p, new_core_handle) of
             (Ret True, (sets, ch)) \<Rightarrow>
               (case registr_new_handle (pr_handles p) \<lparr>uh_core = ch, uh_torrents = []\<rparr> of
                  (i, m) \<Rightarrow> (Ret (int i), p\<lparr>pr_settings := sets, pr_handles := m\<rparr>))
           | (Ret False, (sets, ch)) \<Rightarrow> (Ret INVALID_T2H_HANDLE, p\<lparr>pr_settings := sets\<rparr>)
           | (Throw e, (sets, ch)) \<Rightarrow> (Throw e, p\<lparr>pr_settings := sets\<rparr>)
           | (Undef, (sets, ch)) \<Rightarrow> (Undef, p\<lparr>pr_settings := sets\<rparr>)))"

definition t2h_init :: "api_env \<Rightarrow> string option \<Rightarrow> (process, int) eff" where
  "t2h_init env config = t2h_init_impl env config False"

definition t2h_init_2 :: "api_env \<Rightarrow> string option \<Rightarrow> (process, int) eff" where
  "t2h_init_2 env config_path = t2h_init_impl env config_path True"

definition t2h_close :: "api_env \<Rightarrow> int \<Rightarrow> (process, unit) eff" where
  "t2h_close env handle p =
     (if handle > INVALID_T2H_HANDLE
      then (case unregistr_handle (pr_handles p) (nat handle) of
              (Some h, m) \<Rightarrow>
                (case core_handle_destroy env (uh_core h) of
                   Some _ \<Rightarrow> (Ret (), p\<lparr>pr_handles := m\<rparr>)
                 | None \<Rightarrow> (Undef, p\<lparr>pr_handles := m\<rparr>))
            | (None, m) \<Rightarrow> (Undef, p\<lparr>pr_handles := m\<rparr>))
      else (Ret (), p))"

text \<open>\<open>None\<close>: the caller blocks.\<close>

definition t2h_wait :: "api_env \<Rightarrow> int \<Rightarrow> process \<Rightarrow> unit cpp option" where
  "t2h_wait env handle p =
     (if handle > INVALID_T2H_HANDLE
      then (case get_handle (pr_handles p) (nat handle) of
              None \<Rightarrow> Some Undef
            | Some h \<Rightarrow> map_option (\<lambda>_. Ret ()) (core_handle_wait env (uh_core h)))
      else Some (Ret ()))"

definition put_handle :: "int \<Rightarrow> underlying_handle \<Rightarrow> process \<Rightarrow> process" where
  "put_handle handle h p =
     p\<lparr>pr_handles := (pr_handles p)\<lparr>handles_map := AList.update (nat handle) h (handles_map (pr_handles p))\<rparr>\<rparr>"

text \<open>A call on the torrent core of a handle.\<close>

definition on_core ::
  "int \<Rightarrow> (torrent_core \<Rightarrow> (tc_world, 'a) eff) \<Rightarrow> (process, 'a) eff" where
  "on_core handle body p =
     (case get_handle (pr_handles p) (nat handle) of
        None \<Rightarrow> (Undef, p)
      | Some h \<Rightarrow>
          (case get_torrent_core (uh_core h) of
             Ret tcore \<Rightarrow>
               (case body tcore (co_world tcore) of
                  (r, w) \<Rightarrow> (r, put_handle handle
                     (h\<lparr>uh_core := put_torrent_core (tcore\<lparr>co_world := w\<rparr>) (uh_core h)\<rparr>) p))
           | Throw e \<Rightarrow> (Throw e, p)
           | Undef \<Rightarrow> (Undef, p)))"

definition change_handle :: "int \<Rightarrow> (underlying_handle \<Rightarrow> 'a \<times> underlying_handle) \<Rightarrow> (process, 'a) eff" where
  "change_handle handle f p =
     (case get_handle (pr_handles p) (nat handle) of
        None \<Rightarrow> (Undef, p)
      | Some h \<Rightarrow> (case f h of (x, h') \<Rightarrow> (Ret x, put_handle handle h' p)))"

definition t2h_add_torrent ::
  "api_env \<Rightarrow> alert option list list \<Rightarrow> int \<Rightarrow> string option \<Rightarrow> (process, nat) eff" where
  "t2h_add_torrent env during handle path =
     (case path of
        Some file \<Rightarrow>
          if handle > INVALID_T2H_HANDLE
          then ebind (on_core handle (\<lambda>tcore. core_add_torrent (ae_core env) (co_controller tcore)
                        (tcs_save_root (co_settings tcore)) during file)) (\<lambda>tid.
                 if tid \<noteq> invalid_torrent_id
                 then change_handle handle (add_info \<lparr>ui_mem = [], ui_tid = tid\<rparr>)
                 else eret INVALID_TORRENT_ID)
          else eret INVALID_TORRENT_ID
      | None \<Rightarrow> eret INVALID_TORRENT_ID)"

definition t2h_add_torrent_url :: "api_env \<Rightarrow> int \<Rightarrow> string option \<Rightarrow> (process, nat) eff" where
  "t2h_add_torrent_url env handle url =
     (case url of
        Some u \<Rightarrow>
          if handle > INVALID_T2H_HANDLE
          then ebind (on_core handle (\<lambda>tcore. core_add_torrent_url u)) (\<lambda>tid.
                 if tid \<noteq> invalid_torrent_id
                 then change_handle handle (add_info \<lparr>ui_mem = [], ui_tid = tid\<rparr>)
                 else eret INVALID_TORRENT_ID)
          else eret INVALID_TORRENT_ID
      | None \<Rightarrow> eret INVALID_TORRENT_ID)"

text \<open>A call on a torrent of a handle: \<open>nothing\<close> is the result without one.\<close>

definition on_info :: "'a \<Rightarrow> int \<Rightarrow> nat \<Rightarrow> (underlying_info \<Rightarrow> (process, 'a) eff) \<Rightarrow> (process, 'a) eff" where
  "on_info nothing handle torrent_id body p =
     (case get_handle (pr_handles p) (nat handle) of
        None \<Rightarrow> (Undef, p)
      | Some h \<Rightarrow>
          (case handle_get_info h torrent_id of
             Some info \<Rightarrow> body info p
           | None \<Rightarrow> (Ret nothing, p)))"

text \<open>The C string is kept alive by the torrent's memory collector.\<close>

definition return_c_string :: "int \<Rightarrow> nat \<Rightarrow> string \<Rightarrow> (process, string option) eff" where
  "return_c_string handle torrent_id str =
     (case string_to_c_string str of
        None \<Rightarrow> eret None
      | Some mem \<Rightarrow> change_handle handle (\<lambda>h. (Some mem, collect_mem torrent_id mem h)))"

definition t2h_get_torrent_files :: "api_env \<Rightarrow> int \<Rightarrow> nat \<Rightarrow> (process, string option) eff" where
  "t2h_get_torrent_files env handle torrent_id =
     (if handle > INVALID_T2H_HANDLE \<and> torrent_id \<noteq> INVALID_TORRENT_ID
      then eseq (on_core handle (\<lambda>_. eret ()))
             (on_info None handle torrent_id (\<lambda>info.
               ebind (on_core handle (\<lambda>_. core_get_torrent_info (ae_core env) (cv_lexical (te_cv (ae_core env)))
                        (ui_tid info)))
                 (return_c_string handle torrent_id)))
      else eret None)"

definition t2h_start_download :: "api_env \<Rightarrow> int \<Rightarrow> nat \<Rightarrow> int \<Rightarrow> (process, string option) eff" where
  "t2h_start_download env handle torrent_id file_id =
     (if handle > INVALID_T2H_HANDLE \<and> torrent_id \<noteq> INVALID_TORRENT_ID \<and> file_id \<ge> 0
      then eseq (on_core handle (\<lambda>_. eret ()))
             (on_info None handle torrent_id (\<lambda>info.
               ebind (on_core handle (\<lambda>_. core_start_torrent_download (ae_core env) (ui_tid info) file_id)) (\<lambda>path p.
                 ebind (elift (create_url (pr_settings p) path)) (return_c_string handle torrent_id) p)))
      else eret None)"

definition t2h_paused_download :: "api_env \<Rightarrow> int \<Rightarrow> nat \<Rightarrow> int \<Rightarrow> (process, unit) eff" where
  "t2h_paused_download env handle torrent_id file_id =
     (if handle > INVALID_T2H_HANDLE \<and> torrent_id \<noteq> INVALID_TORRENT_ID \<and> file_id \<ge> 0
      then on_info () handle torrent_id (\<lambda>info.
             on_core handle (\<lambda>_. core_pause_download (ae_core env) (ui_tid info) file_id))
      else eret ())"

definition t2h_resume_download :: "api_env \<Rightarrow> int \<Rightarrow> nat \<Rightarrow> int \<Rightarrow> (process, unit) eff" where
  "t2h_resume_download env handle torrent_id file_id =
     (if handle > INVALID_T2H_HANDLE \<and> torrent_id \<noteq> INVALID_TORRENT_ID \<and> file_id \<ge> 0
      then on_info () handle torrent_id (\<lambda>info.
             on_core handle (\<lambda>_. core_resume_download (ae_core env) (ui_tid info) file_id))
      else eret ())"

definition t2h_delete_torrent :: "api_env \<Rightarrow> int \<Rightarrow> nat \<Rightarrow> (process, unit) eff" where
  "t2h_delete_torrent env handle torrent_id =
     (if handle > INVALID_T2H_HANDLE \<and> torrent_id \<noteq> INVALID_TORRENT_ID
      then on_info () handle torrent_id (\<lambda>info.
             eseq (on_core handle (\<lambda>_. core_remove_torrent (ae_core env) (ui_tid info)))
                  (change_handle handle (\<lambda>h. ((), handle_remove_info (ui_tid info) h))))
      else eret ())"

definition t2h_stop_download :: "api_env \<Rightarrow> int \<Rightarrow> nat \<Rightarrow> (process, unit) eff" where
  "t2h_stop_download env handle torrent_id =
     (if handle > INVALID_T2H_HANDLE \<and> torrent_id \<noteq> INVALID_TORRENT_ID
      then on_info () handle torrent_id (\<lambda>info.
             on_core handle (\<lambda>_. core_stop_torrent_download (ae_core env) (ui_tid info)))
      else eret ())"

subsection \<open>Invalid handles and unknown torrents\<close>

text \<open>A handle that is not live (never given out, or already closed) makes every call that takes
  it dereference a null pointer, unless it is the invalid handle, which is ignored.\<close>

theorem dead_handle_undefined:
  assumes "get_handle (pr_handles p) (nat handle) = None" and "tid \<noteq> INVALID_TORRENT_ID" and "0 \<le> i"
  shows "fst (t2h_close env handle p) = (if handle > -1 then Undef else Ret ()) \<and>
     t2h_wait env handle p = Some (if handle > -1 then Undef else Ret ()) \<and>
     fst (t2h_add_torrent env during handle (Some path) p) = (if handle > -1 then Undef else Ret INVALID_TORRENT_ID) \<and>
     fst (t2h_start_download env handle tid i p) = (if handle > -1 then Undef else Ret None) \<and>
     fst (t2h_delete_torrent env handle tid p) = (if handle > -1 then Undef else Ret ())"
  using assms
  by (auto simp: t2h_close_def t2h_wait_def t2h_add_torrent_def t2h_start_download_def t2h_delete_torrent_def
      on_info_def on_core_def unregistr_handle_def get_handle_def INVALID_T2H_HANDLE_def eff_simps
      split: option.splits)

lemma core_handle_destroy_total: "core_handle_destroy env ch \<noteq> None"
  using core_services.both.stop_all_stops [of env "ch_services ch"]
  by (auto simp: core_handle_destroy_def core_ops_def)

text \<open>Closing a live handle always returns and forgets the handle and no other, and leaves none of its
  services running; closing it a second time dereferences a null pointer.\<close>

theorem close_twice:
  assumes "0 \<le> handle" and "get_handle (pr_handles p) (nat handle) = Some h"
  shows "\<exists>p' ch stopped. t2h_close env handle p = (Ret (), p') \<and>
     get_handle (pr_handles p') = (get_handle (pr_handles p))(nat handle := None) \<and>
     core_handle_destroy env (uh_core h) = Some (ch, stopped) \<and> services (ch_services ch) = [] \<and>
     list_all (\<lambda>(n, s). get_state (core_ops env) s \<noteq> service_running) stopped \<and>
     fst (t2h_close env handle p') = Undef"
proof -
  obtain stopped where stop: "stop_all (core_ops env) (ch_services (uh_core h)) =
      Some ((ch_services (uh_core h))\<lparr>services := []\<rparr>, stopped)"
    "list_all (\<lambda>(n, s). get_state (core_ops env) s \<noteq> service_running) stopped"
    using core_services.both.stop_all_stops [of env "ch_services (uh_core h)"]
    by (fastforce simp: core_ops_def list_all_iff)
  let ?p' = "p\<lparr>pr_handles := snd (unregistr_handle (pr_handles p) (nat handle))\<rparr>"
  have un: "unregistr_handle (pr_handles p) (nat handle) = (Some h, snd (unregistr_handle (pr_handles p) (nat handle)))"
    using assms(2) by (simp add: unregistr_handle_def get_handle_def)
  have "t2h_close env handle p = (Ret (), ?p')"
    using assms(1) un stop(1)
    by (auto simp: t2h_close_def INVALID_T2H_HANDLE_def core_handle_destroy_def split: prod.splits)
  moreover have gone: "get_handle (pr_handles ?p') = (get_handle (pr_handles p))(nat handle := None)"
    using get_unregistr [of "pr_handles p" "nat handle"] by simp
  moreover have "fst (t2h_close env handle ?p') = Undef"
  proof -
    have "map_of (handles_map (pr_handles ?p')) (nat handle) = None"
      using gone by (metis get_handle_def fun_upd_same)
    then show ?thesis
      using assms(1) by (simp add: t2h_close_def INVALID_T2H_HANDLE_def unregistr_handle_def)
  qed
  ultimately show ?thesis
    using stop by (auto simp: core_handle_destroy_def)
qed

subsection \<open>Initialisation\<close>

text \<open>With a well-formed configuration but a torrent core or an HTTP server that does not launch, the
  initialisation does not report a failure: its clean-up calls a method of a null pointer.\<close>

theorem failed_launch_undefined:
  assumes "init_config (ae_json env) (pr_settings p) config = Ret sets" and "config_is_well sets"
    and "init_torrent_core env sets = Ret None \<or>
       (\<exists>t. init_torrent_core env sets = Ret (Some t)) \<and> init_http_server env sets = Ret None"
  shows "fst (t2h_init env (Some config) p) = Undef"
  using assms
  by (auto simp: t2h_init_def t2h_init_impl_def core_handle_initialize_def init_core_services_def)

subsection \<open>From a torrent file to a URL\<close>

definition live :: "process \<Rightarrow> int \<Rightarrow> underlying_handle \<Rightarrow> torrent_core \<Rightarrow> bool" where
  "live p handle h tcore \<longleftrightarrow>
     get_handle (pr_handles p) (nat handle) = Some h \<and> get_torrent_core (uh_core h) = Ret tcore"

lemma get_put_handle [simp]: "get_handle (pr_handles (put_handle handle h p)) (nat handle) = Some h"
  by (simp add: put_handle_def get_handle_def map_of_update_fun)

lemma settings_put_handle [simp]: "pr_settings (put_handle handle h p) = pr_settings p"
  by (simp add: put_handle_def)

lemma get_put_core [simp]: "get_torrent_core (put_torrent_core tcore ch) = Ret tcore"
  by (simp add: get_torrent_core_def put_torrent_core_def get_service_def map_of_update_fun)

definition with_world :: "tc_world \<Rightarrow> torrent_core \<Rightarrow> underlying_handle \<Rightarrow> underlying_handle" where
  "with_world w tcore h = h\<lparr>uh_core := put_torrent_core (tcore\<lparr>co_world := w\<rparr>) (uh_core h)\<rparr>"

lemma on_core_live:
  assumes "live p handle h tcore" and "body tcore (co_world tcore) = (r, w)"
  shows "on_core handle body p = (r, put_handle handle (with_world w tcore h) p)"
  using assms by (simp add: on_core_def live_def with_world_def)

lemma live_with_world: "live (put_handle handle (with_world w tcore h) p) handle (with_world w tcore h) (tcore\<lparr>co_world := w\<rparr>)"
  by (simp add: live_def with_world_def)

lemma change_handle_live:
  assumes "live p handle h tcore"
  shows "change_handle handle f p = (Ret (fst (f h)), put_handle handle (snd (f h)) p)"
  using assms by (simp add: change_handle_def live_def split: prod.split)

lemma live_add_info:
  assumes "live p handle h tcore"
  shows "live (put_handle handle (snd (add_info info h)) p) handle (snd (add_info info h)) tcore"
  using assms by (simp add: live_def add_info_def split: option.split)

lemma start_gives_url:
  assumes "live p handle h tcore" and "0 \<le> handle" and "tid \<noteq> INVALID_TORRENT_ID" and "0 \<le> i"
    and "handle_get_info h tid = Some info"
    and "core_start_torrent_download (ae_core env) (ui_tid info) i (co_world tcore) = (Ret path, w)" and "path \<noteq> []"
    and "read_string (pr_settings p) ''server_addr'' = Ret addr"
    and "read_string (pr_settings p) ''server_port'' = Ret port"
  shows "fst (t2h_start_download env handle tid i p) =
     Ret (Some (''http://'' @ addr @ '':'' @ port @ ''/'' @ path @ [CHR 0x00]))"
proof -
  let ?p1 = "put_handle handle (with_world (co_world tcore) tcore h) p"
  let ?h1 = "with_world (co_world tcore) tcore h"
  let ?p2 = "put_handle handle (with_world w tcore ?h1) ?p1"
  have one: "on_core handle (\<lambda>_. eret ()) p = (Ret (), ?p1)"
    by (rule on_core_live [OF assms(1)]) (simp add: eret_def)
  have live1: "live ?p1 handle ?h1 tcore"
    using live_with_world [of handle "co_world tcore" tcore h p] by simp
  have two: "on_core handle (\<lambda>_. core_start_torrent_download (ae_core env) (ui_tid info) i) ?p1 = (Ret path, ?p2)"
    by (rule on_core_live [OF live1]) (rule assms(6))
  have "live ?p2 handle (with_world w tcore ?h1) (tcore\<lparr>co_world := w\<rparr>)" by (rule live_with_world)
  note three = change_handle_live [OF this]
  have "handle_get_info ?h1 tid = Some info"
    using assms(5) by (simp add: handle_get_info_def with_world_def)
  then show ?thesis
    using assms(2-4,7-9) one two live1
    by (simp add: t2h_start_download_def INVALID_T2H_HANDLE_def eseq_def ebind_def on_info_def live_def elift_def
        create_url_def return_c_string_def string_to_c_string_def three)
qed

lemma add_gives_id:
  assumes "live p handle h tcore" and "0 \<le> handle"
    and "core_add_torrent (ae_core env) (co_controller tcore) (tcs_save_root (co_settings tcore)) during path
      (co_world tcore) = (Ret tid, w)"
    and "tid \<noteq> invalid_torrent_id" and "handle_get_info h tid = None"
  shows "\<exists>h'. t2h_add_torrent env during handle (Some path) p = (Ret tid, put_handle handle h' (put_handle handle (with_world w tcore h) p)) \<and>
     live (put_handle handle h' (put_handle handle (with_world w tcore h) p)) handle h' (tcore\<lparr>co_world := w\<rparr>) \<and>
     handle_get_info h' tid = Some \<lparr>ui_mem = [], ui_tid = tid\<rparr>"
proof -
  let ?p1 = "put_handle handle (with_world w tcore h) p"
  let ?info = "\<lparr>ui_mem = [], ui_tid = tid\<rparr> :: underlying_info"
  let ?h' = "snd (add_info ?info (with_world w tcore h))"
  have one: "on_core handle (\<lambda>tcore. core_add_torrent (ae_core env) (co_controller tcore)
      (tcs_save_root (co_settings tcore)) during path) p = (Ret tid, ?p1)"
    by (rule on_core_live [OF assms(1)]) (rule assms(3))
  have live1: "live ?p1 handle (with_world w tcore h) (tcore\<lparr>co_world := w\<rparr>)" by (rule live_with_world)
  have "t2h_add_torrent env during handle (Some path) p = (Ret tid, put_handle handle ?h' ?p1)"
    using assms(2,4) one change_handle_live [OF live1, of "add_info ?info"]
    by (simp add: t2h_add_torrent_def INVALID_T2H_HANDLE_def ebind_def) (simp add: add_info_def)
  moreover have "handle_get_info ?h' tid = Some ?info"
    using assms(5) by (simp add: handle_get_info_def add_info_def with_world_def map_of_update_fun)
  moreover have "live (put_handle handle ?h' ?p1) handle ?h' (tcore\<lparr>co_world := w\<rparr>)"
    by (rule live_add_info [OF live1])
  ultimately show ?thesis by blast
qed

text \<open>C7. The whole way: a torrent file given to a live handle, with the alert loop answering, gets an
  identifier, and starting one of its files under that identifier returns the C string of the URL
  that is made of the configured address and port, the torrent's sandbox and the file's path.\<close>

theorem torrent_file_to_url:
  assumes "live p handle h tcore" and "0 \<le> handle" and "running (co_world tcore)" and "wired (co_controller tcore)"
    and "prepared (ae_core env) (tcs_save_root (co_settings tcore)) path x"
    and "buffer_get_path (tw_buffer (co_world tcore)) (atp_save_path (ex_params x)) = None"
    and "\<forall>y. lt_fails (te_lt (ae_core env)) y = None" and "lt_is_valid (te_lt (ae_core env)) th"
    and "lt_save_path (te_lt (ae_core env)) th = Ret (atp_save_path (ex_params x))"
    and "lt_torrent_info (te_lt (ae_core env)) th = Ret ti" and "lt_file_priorities (te_lt (ae_core env)) th = Ret ps"
    and "list_all2 (file_entry ti (atp_save_path (ex_params x))
         (ss_max_partial_download_size (cn_settings (co_controller tcore))))
       (zip [0..<length (lt_files ti)] (lt_files ti)) fis"
    and "0 \<le> i" and "i < int (length (lt_files ti))"
    and "tid = add_id (co_world tcore) x" and "tid \<notin> {invalid_torrent_id, INVALID_TORRENT_ID}"
    and "handle_get_info h tid = None"
    and "read_string (pr_settings p) ''server_addr'' = Ret addr"
    and "read_string (pr_settings p) ''server_port'' = Ret port"
  shows "\<exists>p'. t2h_add_torrent env [[Some (Torrent_added th False)]] handle (Some path) p = (Ret tid, p') \<and>
     fst (t2h_start_download env handle tid i p') = Ret (Some (''http://'' @ addr @ '':'' @ port @ ''/'' @
       ex_sandbox x @ ''/'' @ lf_path (lt_files ti ! nat i) @ [CHR 0x00]))"
proof -
  obtain w where w: "core_add_torrent (ae_core env) (co_controller tcore) (tcs_save_root (co_settings tcore))
      [[Some (Torrent_added th False)]] path (co_world tcore) = (Ret tid, w)"
    "core_start_torrent_download (ae_core env) tid i w =
      (Ret (ex_sandbox x @ ''/'' @ lf_path (lt_files ti ! nat i)),
       w\<lparr>tw_calls := tw_calls w @ [File_priority th i normal_prior, Force_reannounce th, Post_torrent_updates]\<rparr>)"
    using add_then_start [OF assms(3-14)] assms(15) by blast
  obtain h' where h': "t2h_add_torrent env [[Some (Torrent_added th False)]] handle (Some path) p =
      (Ret tid, put_handle handle h' (put_handle handle (with_world w tcore h) p))"
    "live (put_handle handle h' (put_handle handle (with_world w tcore h) p)) handle h' (tcore\<lparr>co_world := w\<rparr>)"
    "handle_get_info h' tid = Some \<lparr>ui_mem = [], ui_tid = tid\<rparr>"
    using add_gives_id [OF assms(1,2) w(1) _ assms(17)] assms(16) by auto
  have "fst (t2h_start_download env handle tid i (put_handle handle h' (put_handle handle (with_world w tcore h) p))) =
      Ret (Some (''http://'' @ addr @ '':'' @ port @ ''/'' @ (ex_sandbox x @ ''/'' @ lf_path (lt_files ti ! nat i)) @ [CHR 0x00]))"
    by (rule start_gives_url [OF h'(2) assms(2) _ assms(13) h'(3)]) (use assms(16,18,19) w(2) in simp_all)
  then show ?thesis using h'(1) by auto
qed

definition url_tree :: ptree where
  "url_tree n = (if n = ''doc_root'' then Ptree_text ''/srv'' else if n = ''server_addr'' then Ptree_text ''h''
     else if n = ''tc_port_start'' then Ptree_text ''6881'' else if n = ''tc_port_end'' then Ptree_text ''6889''
     else Ptree_exception)"

definition sample_api :: api_env where
  "sample_api = \<lparr>ae_core = scenario_env, ae_platform = sample_platform, ae_fib = new_file_info_buffer,
     ae_json = (\<lambda>s. Inr url_tree), ae_file = (\<lambda>p. None)\<rparr>"

definition live_core :: torrent_core where
  "live_core = sample_core\<lparr>co_world := empty_world, co_controller := sample_controller,
     co_settings := unset_core_settings\<lparr>tcs_save_root := ''/srv''\<rparr>\<rparr>"

definition live_handle :: underlying_handle where
  "live_handle = \<lparr>uh_core = put_torrent_core live_core new_core_handle, uh_torrents = []\<rparr>"

definition live_process :: process where
  "live_process = \<lparr>pr_settings = configured url_tree, pr_handles = \<lparr>handles_map = [(1, live_handle)]\<rparr>\<rparr>"

lemma url_settings:
  "read_string (configured url_tree) ''server_addr'' = Ret ''h''"
  "read_string (configured url_tree) ''server_port'' = Ret ''8080''"
  by (simp_all add: read_string_def setting_or_undef_def get_setting_def configured_value settings_spec_def
      registered_names_def tree_text_def url_tree_def key_struct_def key_types_def key_type_of_def
      safe_lexical_cast_def Let_def)

theorem torrent_file_to_url_witness:
  "\<exists>p'. t2h_add_torrent sample_api [[Some (Torrent_added (Some 1) False)]] 1 (Some ''t.torrent'') live_process = (Ret 13, p') \<and>
     fst (t2h_start_download sample_api 1 13 0 p') = Ret (Some (''http://h:8080/abcdefgh/a.bin'' @ [CHR 0x00]))"
proof -
  have live: "live live_process 1 live_handle live_core"
    by (simp add: live_def live_process_def get_handle_def live_handle_def)
  have env: "ae_core sample_api = scenario_env" "te_lt scenario_env = scenario_lt"
    by (simp_all add: sample_api_def scenario_env_def)
  have core: "co_world live_core = empty_world" "co_controller live_core = sample_controller"
    "tcs_save_root (co_settings live_core) = ''/srv''"
    by (simp_all add: live_core_def)
  have run: "running empty_world" by (simp add: empty_world_def running_def sample_world_def)
  have wired: "wired sample_controller" by (simp add: wired_def sample_controller_def)
  have path: "atp_save_path (ex_params scenario_info) = ''/srv/abcdefgh''" by (simp add: scenario_info_def)
  have free: "buffer_get_path (tw_buffer empty_world) ''/srv/abcdefgh'' = None"
    by (simp add: empty_world_def buffer_get_path_def get_usafe_def new_shared_buffer_def)
  have id: "add_id empty_world scenario_info = 13"
    by (simp add: add_id_def empty_world_def new_shared_buffer_def scenario_info_def)
  obtain fi where fi: "list_all2 (file_entry sample_torrent ''/srv/abcdefgh''
       (ss_max_partial_download_size (cn_settings sample_controller)))
     (zip [0..<length (lt_files sample_torrent)] (lt_files sample_torrent)) [fi]"
    using scenario_entry by blast
  have lt: "lt_save_path scenario_lt (Some 1) = Ret ''/srv/abcdefgh''" "lt_is_valid scenario_lt (Some 1)"
    "lt_torrent_info scenario_lt (Some 1) = Ret sample_torrent" "lt_file_priorities scenario_lt (Some 1) = Ret [1]"
    "\<forall>y. lt_fails scenario_lt y = None"
    by (simp_all add: scenario_lt_def sample_lt_def)
  have sets: "read_string (pr_settings live_process) ''server_addr'' = Ret ''h''"
    "read_string (pr_settings live_process) ''server_port'' = Ret ''8080''"
    "handle_get_info live_handle 13 = None"
    by (simp_all add: live_process_def url_settings handle_get_info_def live_handle_def)
  show ?thesis
    using torrent_file_to_url [where p = live_process and handle = 1 and h = live_handle and tcore = live_core
        and env = sample_api and path = "''t.torrent''" and x = scenario_info and th = "Some 1" and ti = sample_torrent
        and ps = "[1]" and fis = "[fi]" and i = 0 and tid = 13 and addr = "''h''" and port = "''8080''",
        unfolded env core path id, OF live _ run wired scenario_prepared free lt(5,2,1,3,4) fi] sets
    by (simp add: invalid_torrent_id_def INVALID_TORRENT_ID_def) (simp add: scenario_info_def sample_torrent_def)
qed

theorem close_twice_witness:
  "\<exists>p'. t2h_close sample_api 1 live_process = (Ret (), p') \<and> fst (t2h_close sample_api 1 p') = Undef"
  using close_twice [of 1 live_process live_handle sample_api] by (auto simp: live_process_def get_handle_def)

text \<open>Another handle's configuration replaces the address in every handle's URLs, even when its
  initialisation then fails: the setting manager is one for the process.\<close>

lemma init_replaces_settings:
  assumes "config \<noteq> []" and "ae_json env config = Inr tree" and "tree_ok tree"
  shows "pr_settings (snd (t2h_init env (Some config) p)) = configured tree"
  using init_config_configured [of config "ae_json env" tree "pr_settings p"] assms
  by (auto simp: t2h_init_def t2h_init_impl_def core_handle_initialize_def registr_new_handle_def
      split: cpp.split prod.split)

definition bad_api :: api_env where
  "bad_api = sample_api\<lparr>ae_core := scenario_env\<lparr>te_session_throws := Some (Libtorrent_exception ''boom'')\<rparr>\<rparr>"

theorem failed_launch_undefined_witness:
  "fst (t2h_init bad_api (Some ''{}'') \<lparr>pr_settings = new_setting_manager, pr_handles = \<lparr>handles_map = []\<rparr>\<rparr>) = Undef"
proof -
  have "tree_ok url_tree" by (simp add: tree_ok_def url_tree_def)
  then have init: "init_config (ae_json bad_api) new_setting_manager ''{}'' = Ret (configured url_tree)"
    by (intro init_config_configured) (simp_all add: bad_api_def sample_api_def)
  have well: "config_is_well (configured url_tree)" by (simp add: config_is_well_def configured_def)
  have "init_torrent_core bad_api (configured url_tree) = Ret None"
    by (simp add: init_torrent_core_def core_launch_service_def new_torrent_core_def running_def bad_api_def
        service_state_defs eff_simps on_world_def zoom_def)
  then show ?thesis
    using failed_launch_undefined [of bad_api "\<lparr>pr_settings = new_setting_manager, pr_handles = \<lparr>handles_map = []\<rparr>\<rparr>"
        "''{}''" "configured url_tree"] init well
    by simp
qed

end
