(* ===== verification/Console.thy ===== *)
theory Console
  imports Http_Utility External_Api
begin

section \<open>The console application\<close>

text \<open>
  \<open>src/src/apps/full_model.cpp\<close>: the program around the C interface. Its state is the process, the
  handle, the torrents it added, standard input with its \<open>good\<close> flag, and the lines it printed.
  \<open>boost::program_options\<close> and \<open>boost::lexical_cast\<close> are parameters (\<open>ce_parse\<close>, \<open>ce_cast\<close>), the
  directory listing and the signals are what the environment gives. Prompts and the help text are
  left out of the printed lines.
\<close>

datatype opt_value = Opt_size nat | Opt_text string | Opt_flag

type_synonym variables_map = "string \<Rightarrow> opt_value option"

record console_env =
  ce_api :: api_env
  ce_during :: "alert option list list"
  ce_parse :: "string \<Rightarrow> variables_map cpp"
  ce_cast :: boost_lexical

record console =
  cs_process :: process
  cs_handle :: int
  cs_ids :: "nat list"
  cs_in :: string
  cs_good :: bool
  cs_out :: "string list"

definition print :: "string \<Rightarrow> (console, unit) eff" where
  "print s = emodify (\<lambda>c. c\<lparr>cs_out := cs_out c @ [s]\<rparr>)"

definition on_api :: "(process, 'a) eff \<Rightarrow> (console, 'a) eff" where
  "on_api m = zoom cs_process (\<lambda>p c. c\<lparr>cs_process := p\<rparr>) m"

text \<open>\<open>info_map[id] = ...\<close>: the keys are ordered and distinct.\<close>

definition remember :: "nat \<Rightarrow> (console, unit) eff" where
  "remember i = emodify (\<lambda>c. c\<lparr>cs_ids := (if i \<in> set (cs_ids c) then cs_ids c else insort i (cs_ids c))\<rparr>)"

subsection \<open>Reading a line\<close>

text \<open>At the end of the input \<open>get\<close> gives \<open>EOF\<close>, which is stored as a character, and the stream is not
  good any more. The rest of the buffer is zero.\<close>

function read_symbols :: "nat \<Rightarrow> string \<Rightarrow> bool \<Rightarrow> string \<times> string \<times> bool" where
  "read_symbols room inp good =
     (if good \<and> room > 0
      then (case inp of
              [] \<Rightarrow> ([CHR 0xFF], [], False)
            | c # cs \<Rightarrow>
                if c = LF then ([], cs, True)
                else (case read_symbols (room - 1) cs True of (buf, rest, g) \<Rightarrow> (c # buf, rest, g)))
      else ([], inp, good))"
  by pat_completeness auto
termination
  by (relation "measure (\<lambda>(room, inp, good). room)") auto

declare read_symbols.simps [simp del]

definition get_input_stream :: "nat \<Rightarrow> (console, string) eff" where
  "get_input_stream buffer_size c =
     (case read_symbols buffer_size (cs_in c) (cs_good c) of
        (buf, rest, g) \<Rightarrow> (Ret (vresize buffer_size (CHR 0x00) buf), c\<lparr>cs_in := rest, cs_good := g\<rparr>))"

subsection \<open>Two numbers from a text\<close>

function my_remove_if_loop :: "(char \<Rightarrow> bool) \<Rightarrow> nat \<Rightarrow> nat \<Rightarrow> string \<Rightarrow> nat \<times> string" where
  "my_remove_if_loop pred dest itr buf =
     (if itr < length buf
      then (if \<not> pred (buf ! itr) then my_remove_if_loop pred (dest + 1) (itr + 1) (buf[dest := buf ! itr])
            else my_remove_if_loop pred dest (itr + 1) buf)
      else (dest, buf))"
  by pat_completeness auto
termination
  by (relation "measure (\<lambda>(pred, dest, itr, buf). length buf - itr)") auto

declare my_remove_if_loop.simps [simp del]

definition my_remove_if :: "(char \<Rightarrow> bool) \<Rightarrow> string \<Rightarrow> nat \<times> string" where
  "my_remove_if pred buf = my_remove_if_loop pred 0 0 buf"

definition cleared_string :: "string \<Rightarrow> string" where
  "cleared_string str = (case my_remove_if is_space str of (dest, buf) \<Rightarrow> take dest buf)"

text \<open>The cleared copy is not what the numbers are read from. \<open>npos + 1\<close> is 0.\<close>

definition get_from_string :: "boost_lexical \<Rightarrow> string \<Rightarrow> bool \<times> nat \<times> nat" where
  "get_from_string bx str =
     (let cleared = cleared_string str;
          (first, second) = (case find_first_of (CHR '','') str of
                               Some pos \<Rightarrow> (take pos str, drop (pos + 1) str)
                             | None \<Rightarrow> (str, str))
      in case to_size bx first of
           None \<Rightarrow> (False, 0, 0)
         | Some torrent_id \<Rightarrow>
             (case to_size bx second of
                None \<Rightarrow> (False, torrent_id, 0)
              | Some file_id \<Rightarrow> (True, torrent_id, file_id)))"

text \<open>A \<open>size_t\<close> given for an \<open>int\<close> parameter.\<close>

definition narrow_int :: "nat \<Rightarrow> int" where
  "narrow_int n = sint (word_of_nat n :: 32 word)"

subsection \<open>Commands\<close>

definition as_size :: "variables_map \<Rightarrow> string \<Rightarrow> (console, nat) eff" where
  "as_size vm name =
     (case vm name of Some (Opt_size n) \<Rightarrow> eret n | _ \<Rightarrow> ethrow (Std_exception ''bad_any_cast''))"

definition as_text :: "variables_map \<Rightarrow> string \<Rightarrow> (console, string) eff" where
  "as_text vm name =
     (case vm name of Some (Opt_text s) \<Rightarrow> eret s | _ \<Rightarrow> ethrow (Std_exception ''bad_any_cast''))"

definition succeeded :: "(console, bool) eff" where
  "succeeded = eseq (print ''Command execution succeed'') (eret False)"

definition failed :: "string \<Rightarrow> (console, bool) eff" where
  "failed message = eseq (print message) (eret False)"

definition pause_command :: "console_env \<Rightarrow> string \<Rightarrow> (console, bool) eff" where
  "pause_command env string_ids =
     (case get_from_string (ce_cast env) string_ids of
        (state, tid, fid) \<Rightarrow>
          if \<not> state
          then failed (''Failed to pause download : not valid args passed ('' @ string_ids @ '')'')
          else (\<lambda>c. eseq (on_api (t2h_paused_download (ce_api env) (cs_handle c) tid (narrow_int fid))) succeeded c))"

definition start_command :: "console_env \<Rightarrow> string \<Rightarrow> (console, bool) eff" where
  "start_command env string_ids =
     (case get_from_string (ce_cast env) string_ids of
        (state, tid, fid) \<Rightarrow>
          if \<not> state
          then failed (''Failed to start download : not valid args passed ('' @ string_ids @ '')'')
          else (\<lambda>c.
            if tid \<notin> set (cs_ids c)
            then failed (''Failed to start download : no such torrent id ( ='' @ decimal tid @ '')'') c
            else ebind (on_api (t2h_start_download (ce_api env) (cs_handle c) tid (narrow_int fid))) (\<lambda>mem.
                   case mem of
                     None \<Rightarrow> failed ''Failed to start download, file no not exists''
                   | Some url \<Rightarrow>
                       eseq (print (''Torrent url for download : '' @ takeWhile (\<lambda>c. c \<noteq> CHR 0x00) url)) succeeded) c))"

definition add_command :: "console_env \<Rightarrow> string \<Rightarrow> (console, bool) eff" where
  "add_command env path = (\<lambda>c.
     ebind (on_api (t2h_add_torrent (ce_api env) (ce_during env) (cs_handle c) (Some path))) (\<lambda>torrent_id.
       if torrent_id = INVALID_TORRENT_ID then failed (''Failed to add torrent by path : '' @ path)
       else eseq (remember torrent_id) succeeded) c)"

text \<open>Streaming a null pointer is undefined behaviour.\<close>

definition get_info_command :: "console_env \<Rightarrow> nat \<Rightarrow> (console, bool) eff" where
  "get_info_command env i = (\<lambda>c.
     ebind (on_api (t2h_get_torrent_files (ce_api env) (cs_handle c) i)) (\<lambda>mem.
       case mem of
         None \<Rightarrow> elift Undef
       | Some listing \<Rightarrow> eseq (print (''Torrent info : '' @ takeWhile (\<lambda>c. c \<noteq> CHR 0x00) listing)) succeeded) c)"

definition dispatch_vm :: "console_env \<Rightarrow> variables_map \<Rightarrow> (console, bool) eff" where
  "dispatch_vm env vm = (\<lambda>c.
     if vm ''stop'' \<noteq> None
     then ebind (as_size vm ''stop'') (\<lambda>i. eseq (on_api (t2h_stop_download (ce_api env) (cs_handle c) i)) succeeded) c
     else if vm ''pause'' \<noteq> None then ebind (as_text vm ''pause'') (pause_command env) c
     else if vm ''remove'' \<noteq> None
     then ebind (as_size vm ''remove'') (\<lambda>i. eseq (on_api (t2h_delete_torrent (ce_api env) (cs_handle c) i)) succeeded) c
     else if vm ''start'' \<noteq> None then ebind (as_text vm ''start'') (start_command env) c
     else if vm ''resume'' \<noteq> None
     then ebind (as_size vm ''resume'') (\<lambda>i. eseq (on_api (t2h_resume_download (ce_api env) (cs_handle c) i 1)) succeeded) c
     else if vm ''add'' \<noteq> None then ebind (as_text vm ''add'') (add_command env) c
     else if vm ''get_info'' \<noteq> None then ebind (as_size vm ''get_info'') (get_info_command env) c
     else if vm ''get_ids'' \<noteq> None
     then eseq (print (''Avaliables ids : '' @ concat (map (\<lambda>i. decimal i @ '', '') (cs_ids c)))) succeeded c
     else if vm ''quit'' \<noteq> None then eseq (print ''Command execution succeed'') (eret True) c
     else failed ''Unknown command passed'' c)"

text \<open>The buffer is copied as it is: without a zero in it the option parser reads past its end.\<close>

definition dispatch_text_command :: "console_env \<Rightarrow> string \<Rightarrow> (console, bool) eff" where
  "dispatch_text_command env ibuf =
     (if CHR 0x00 \<notin> set ibuf then elift Undef
      else ebind (elift (ce_parse env (takeWhile (\<lambda>c. c \<noteq> CHR 0x00) ibuf))) (\<lambda>vm.
             if vm ''help'' \<noteq> None then eret False else dispatch_vm env vm))"

text \<open>\<open>sig_exit\<close> as it is at each turn. \<open>None\<close>: the loop does not end.\<close>

partial_function (option) console_controller ::
  "console_env \<Rightarrow> (nat \<Rightarrow> bool) \<Rightarrow> nat \<Rightarrow> bool \<Rightarrow> console \<Rightarrow> (unit cpp \<times> console) option" where
  "console_controller env sig_exit i exit_state c =
     (if exit_state \<or> sig_exit i then Some (Ret (), c)
      else case ebind (get_input_stream 256) (dispatch_text_command env) c of
             (Ret quit, c') \<Rightarrow> console_controller env sig_exit (i + 1) (exit_state \<or> quit) c'
           | (Throw e, c') \<Rightarrow>
               console_controller env sig_exit (i + 1) exit_state (snd (print ''Command error : '' c'))
           | (Undef, c') \<Rightarrow> Some (Undef, c'))"

subsection \<open>main\<close>

datatype main_result = Died int | Finished "unit cpp"

definition add_entry :: "console_env \<Rightarrow> string \<Rightarrow> (console, unit) eff" where
  "add_entry env path = (\<lambda>c.
     ebind (on_api (t2h_add_torrent (ce_api env) (ce_during env) (cs_handle c) (Some path))) (\<lambda>torrent_id.
       if torrent_id \<noteq> INVALID_TORRENT_ID
       then eseq (remember torrent_id) (print (''Adding torrent by path : '' @ path @ '' , with id '' @ decimal torrent_id))
       else print (''Warning : can not add torrent at path : '' @ path)) c)"

text \<open>\<open>directory\<close> is \<open>None\<close> when it does not exist. An exception of \<open>main\<close> ends the program with code 3.\<close>

definition console_main ::
  "console_env \<Rightarrow> string \<Rightarrow> string list option \<Rightarrow> (nat \<Rightarrow> bool) \<Rightarrow> console \<Rightarrow> (main_result \<times> console) option" where
  "console_main env config_path directory sig_exit c =
     (case on_api (t2h_init_2 (ce_api env) (Some config_path)) c of
        (Throw e, c1) \<Rightarrow> Some (Died 3, c1)
      | (Undef, c1) \<Rightarrow> Some (Finished Undef, c1)
      | (Ret handle, c0) \<Rightarrow>
          let c1 = c0\<lparr>cs_handle := handle\<rparr> in
          if handle = 0 then Some (Died 2, c1)
          else (case directory of
                  None \<Rightarrow> Some (Died 1, c1)
                | Some entries \<Rightarrow>
                    (case eeach (add_entry env) entries c1 of
                       (Throw e, c2) \<Rightarrow> Some (Died 3, c2)
                     | (Undef, c2) \<Rightarrow> Some (Finished Undef, c2)
                     | (Ret _, c2) \<Rightarrow>
                         (case console_controller env sig_exit 0 False c2 of
                            None \<Rightarrow> None
                          | Some (Ret _, c3) \<Rightarrow>
                              (case on_api (t2h_close (ce_api env) (cs_handle c3)) c3 of
                                 (r, c4) \<Rightarrow> Some (Finished r, c4))
                          | Some (r, c3) \<Rightarrow> Some (Finished r, c3)))))"

subsection \<open>The removal loop and the two numbers\<close>

lemma remove_loop_filter:
  "my_remove_if_loop pred dest itr buf = (d, b) \<Longrightarrow> dest \<le> itr \<Longrightarrow> itr \<le> length buf \<Longrightarrow>
   take d b = take dest buf @ filter (\<lambda>c. \<not> pred c) (drop itr buf)"
proof (induction pred dest itr buf arbitrary: d b rule: my_remove_if_loop.induct)
  case (1 pred dest itr buf)
  show ?case
  proof (cases "itr < length buf")
    case False
    then show ?thesis using "1.prems" by (subst (asm) my_remove_if_loop.simps) simp
  next
    case True
    then have split: "drop itr buf = buf ! itr # drop (itr + 1) buf" by (simp add: Cons_nth_drop_Suc)
    show ?thesis
    proof (cases "pred (buf ! itr)")
      case drop: True
      then have "my_remove_if_loop pred dest (itr + 1) buf = (d, b)"
        using "1.prems"(1) True by (subst (asm) my_remove_if_loop.simps) simp
      then show ?thesis using "1.IH"(2) [OF True] drop "1.prems"(2) True split by simp
    next
      case keep: False
      let ?buf = "buf[dest := buf ! itr]"
      have run: "my_remove_if_loop pred (dest + 1) (itr + 1) ?buf = (d, b)"
        using "1.prems"(1) True keep by (subst (asm) my_remove_if_loop.simps) simp
      have "take (dest + 1) ?buf = take dest buf @ [buf ! itr]"
        using "1.prems"(2) True by (simp add: take_Suc_conv_app_nth)
      moreover have "drop (itr + 1) ?buf = drop (itr + 1) buf" using "1.prems"(2) by simp
      ultimately show ?thesis using "1.IH"(1) [OF True keep run] "1.prems"(2) True keep split by simp
    qed
  qed
qed

text \<open>The removal loop with two iterators leaves, up to the iterator it returns, exactly the
  characters that the predicate rejects: the cleared string is the text without its white space.\<close>

theorem cleared_string_filter: "cleared_string str = filter (\<lambda>c. \<not> is_space c) str"
proof -
  obtain d b where "my_remove_if is_space str = (d, b)" by fastforce
  then show ?thesis using remove_loop_filter [of is_space 0 0 str d b] by (simp add: cleared_string_def my_remove_if_def)
qed

text \<open>But the numbers are read from the text that was not cleared: a text with white space is refused,
  and a text without a comma is read twice.\<close>

lemma find_first_of_split: "find_first_of c s = Some i \<Longrightarrow> s = take i s @ c # drop (i + 1) s"
  by (induction s arbitrary: i) (auto split: if_splits)

lemma spaces_refused:
  assumes "\<forall>s n. to_size bx s = Some n \<longrightarrow> set s \<subseteq> number_chars" and "c \<in> set str" and "is_space c"
  shows "\<not> fst (get_from_string bx str)"
proof -
  have no: "c \<notin> number_chars" using assms(3) by (auto simp: is_space_def number_chars_def char_int_def)
  have comma: "c \<noteq> CHR '',''" using assms(3) by (auto simp: is_space_def)
  show ?thesis
  proof (cases "find_first_of (CHR '','') str")
    case None
    then show ?thesis using assms(1,2) no by (auto simp: get_from_string_def Let_def split: option.splits)
  next
    case (Some pos)
    then have "c \<in> set (take pos str) \<or> c \<in> set (drop (pos + 1) str)"
      using find_first_of_split [OF Some] assms(2) comma by (metis UnE set_ConsD set_append)
    then show ?thesis using assms(1) no Some by (auto simp: get_from_string_def Let_def split: option.splits)
  qed
qed

lemma one_number_twice:
  "CHR '','' \<notin> set str \<Longrightarrow> to_size bx str = Some n \<Longrightarrow> get_from_string bx str = (True, n, n)"
  by (simp add: get_from_string_def find_first_of_None [THEN iffD2] Let_def)

subsection \<open>Starting a download\<close>

text \<open>The start command on two numbers asks the library only for a torrent that the console has added:
  it prints the URL that it gets and reports success, and says why it failed otherwise; in no case
  does it end the console.\<close>

theorem start_command_effect:
  assumes "get_from_string (ce_cast env) str = (True, tid, fid)"
    and "t2h_start_download (ce_api env) (cs_handle c) tid (narrow_int fid) (cs_process c) =
      (Ret (map_option (\<lambda>url. url @ [CHR 0x00]) got), p')"
    and "\<forall>url. got = Some url \<longrightarrow> CHR 0x00 \<notin> set url"
  shows "start_command env str c =
     (if tid \<notin> set (cs_ids c)
      then (Ret False, c\<lparr>cs_out := cs_out c @ [''Failed to start download : no such torrent id ( ='' @ decimal tid @ '')'']\<rparr>)
      else case got of
             Some url \<Rightarrow> (Ret False, c\<lparr>cs_process := p', cs_out := cs_out c @
               [''Torrent url for download : '' @ url, ''Command execution succeed'']\<rparr>)
           | None \<Rightarrow> (Ret False, c\<lparr>cs_process := p', cs_out := cs_out c @
               [''Failed to start download, file no not exists'']\<rparr>))"
proof (cases got)
  case None
  then show ?thesis
    using assms(1,2) by (auto simp: start_command_def on_api_def zoom_def failed_def print_def eff_simps)
next
  case (Some url)
  then have "takeWhile (\<lambda>c. c \<noteq> CHR 0x00) (url @ [CHR 0x00]) = url"
    using assms(3) by (subst takeWhile_append2) auto
  then show ?thesis
    using assms(1,2) Some
    by (auto simp: start_command_def on_api_def zoom_def failed_def succeeded_def print_def eff_simps)
qed

subsection \<open>The end of the input\<close>

lemma read_not_good: "read_symbols room inp False = ([], inp, False)"
  by (subst read_symbols.simps) simp

lemma input_not_good:
  assumes "\<not> cs_good c"
  shows "get_input_stream n c = (Ret (replicate n (CHR 0x00)), c)"
  using assms by (simp add: get_input_stream_def read_not_good vresize_def)

lemma turn_not_good:
  assumes "\<not> cs_good c" and "ce_parse env [] = Throw e"
  shows "ebind (get_input_stream 256) (dispatch_text_command env) c = (Throw e, c)"
  using assms by (simp add: input_not_good dispatch_text_command_def eff_simps takeWhile_eq_Nil_iff)

text \<open>Once the input has ended and no signal comes, the console loop never ends: every turn reads an
  empty line, reports the option parser's exception and goes on.\<close>

theorem end_of_input_never_ends:
  assumes "\<not> cs_good c" and "ce_parse env [] = Throw e" and "\<forall>j. \<not> sig_exit j"
  shows "console_controller env sig_exit i False c = None"
proof -
  have "ce_parse env [] = Throw e \<and> (\<forall>j. \<not> sig_exit j) \<and> \<not> cs_good c \<longrightarrow> ex"
    if "console_controller env sig_exit i ex c = Some y" for ex y
  proof (rule console_controller.raw_induct
      [where P = "\<lambda>env s i ex c y. ce_parse env [] = Throw e \<and> (\<forall>j. \<not> s j) \<and> \<not> cs_good c \<longrightarrow> ex", OF _ that])
    fix rec :: "console_env \<Rightarrow> (nat \<Rightarrow> bool) \<Rightarrow> nat \<Rightarrow> bool \<Rightarrow> console \<Rightarrow> (unit cpp \<times> console) option"
    fix env s i ex c y
    assume IH: "\<And>env s i ex c y. rec env s i ex c = Some y \<Longrightarrow>
        ce_parse env [] = Throw e \<and> (\<forall>j. \<not> s j) \<and> \<not> cs_good c \<longrightarrow> ex"
      and turn: "(if ex \<or> s i then Some (Ret (), c)
        else case ebind (get_input_stream 256) (dispatch_text_command env) c of
             (Ret quit, c') \<Rightarrow> rec env s (i + 1) (ex \<or> quit) c'
           | (Throw e, c') \<Rightarrow> rec env s (i + 1) ex (snd (print ''Command error : '' c'))
           | (Undef, c') \<Rightarrow> Some (Undef, c')) = Some y"
    show "ce_parse env [] = Throw e \<and> (\<forall>j. \<not> s j) \<and> \<not> cs_good c \<longrightarrow> ex"
    proof (rule ccontr)
      assume "\<not> (ce_parse env [] = Throw e \<and> (\<forall>j. \<not> s j) \<and> \<not> cs_good c \<longrightarrow> ex)"
      then have now: "ce_parse env [] = Throw e" "\<forall>j. \<not> s j" "\<not> cs_good c" "\<not> ex" by auto
      then have "rec env s (i + 1) False (snd (print ''Command error : '' c)) = Some y"
        using turn turn_not_good [of c env e] by simp
      moreover have "\<not> cs_good (snd (print ''Command error : '' c))"
        using now(3) by (simp add: print_def emodify_def)
      ultimately show False using IH now(1,2) by blast
    qed
  qed
  from this [of False] show ?thesis using assms by (metis not_None_eq)
qed

definition sample_parse :: "string \<Rightarrow> variables_map cpp" where
  "sample_parse s = (if s = [] then Throw (Std_exception ''too many positional options'')
     else if s = ''--quit'' then Ret [''quit'' \<mapsto> Opt_flag] else Ret Map.empty)"

definition sample_console_env :: console_env where
  "sample_console_env = \<lparr>ce_api = sample_api, ce_during = [], ce_parse = sample_parse, ce_cast = lexical_reference\<rparr>"

definition sample_console :: console where
  "sample_console = \<lparr>cs_process = live_process, cs_handle = 1, cs_ids = [13], cs_in = [], cs_good = False, cs_out = []\<rparr>"

theorem end_of_input_never_ends_witness:
  "console_controller sample_console_env (\<lambda>_. False) 0 False sample_console = None"
  using end_of_input_never_ends [of sample_console sample_console_env "Std_exception ''too many positional options''"
      "\<lambda>_. False" 0]
  by (simp add: sample_console_def sample_console_env_def sample_parse_def)

text \<open>A quit ends it.\<close>

lemma quit_line_read:
  "read_symbols 256 (''--quit'' @ [LF] @ rest) True = (''--quit'', rest, True)"
  by (simp add: read_symbols.simps)

lemma quit_ends:
  assumes "cs_good c" and "cs_in c = ''--quit'' @ [LF] @ rest" and "ce_parse env ''--quit'' = Ret [''quit'' \<mapsto> Opt_flag]"
    and "\<not> sig_exit i"
  shows "console_controller env sig_exit i False c =
    Some (Ret (), c\<lparr>cs_in := rest, cs_good := True, cs_out := cs_out c @ [''Command execution succeed'']\<rparr>)"
proof -
  have "ebind (get_input_stream 256) (dispatch_text_command env) c =
      (Ret True, c\<lparr>cs_in := rest, cs_good := True, cs_out := cs_out c @ [''Command execution succeed'']\<rparr>)"
    using assms(1-3) quit_line_read [of rest]
    by (simp add: get_input_stream_def vresize_def dispatch_text_command_def dispatch_vm_def print_def eff_simps)
  then show ?thesis using assms(4) by (subst console_controller.simps) (simp add: console_controller.simps)
qed

subsection \<open>A failed initialisation\<close>

text \<open>The main function compares the handle with 0, but the invalid handle is -1: after a failed
  initialisation the console starts all the same, and every torrent of the directory is refused.\<close>

lemma add_entry_refused:
  assumes "cs_handle c = INVALID_T2H_HANDLE"
  shows "add_entry env path c =
     (Ret (), c\<lparr>cs_out := cs_out c @ [''Warning : can not add torrent at path : '' @ path]\<rparr>)"
  using assms by (simp add: add_entry_def on_api_def zoom_def t2h_add_torrent_def print_def eff_simps INVALID_T2H_HANDLE_def)

lemma entries_refused:
  assumes "cs_handle c = INVALID_T2H_HANDLE"
  shows "eeach (add_entry env) entries c =
     (Ret (), c\<lparr>cs_out := cs_out c @ map (\<lambda>path. ''Warning : can not add torrent at path : '' @ path) entries\<rparr>)"
  using assms
proof (induction entries arbitrary: c)
  case (Cons e es)
  then show ?case by (simp add: add_entry_refused eff_simps)
qed (simp add: eret_def)

theorem failed_init_goes_on:
  assumes "t2h_init_2 (ce_api env) (Some config) (cs_process c) = (Ret INVALID_T2H_HANDLE, p)"
    and "console_controller env sig_exit 0 False (c\<lparr>cs_process := p, cs_handle := INVALID_T2H_HANDLE,
        cs_out := cs_out c @ map (\<lambda>path. ''Warning : can not add torrent at path : '' @ path) entries\<rparr>) = Some (Ret (), c')"
    and "cs_handle c' = INVALID_T2H_HANDLE"
  shows "console_main env config (Some entries) sig_exit c = Some (Finished (Ret ()), c')"
proof -
  have "on_api (t2h_init_2 (ce_api env) (Some config)) c = (Ret INVALID_T2H_HANDLE, c\<lparr>cs_process := p\<rparr>)"
    using assms(1) by (simp add: on_api_def zoom_def)
  moreover have "INVALID_T2H_HANDLE \<noteq> 0" by (simp add: INVALID_T2H_HANDLE_def)
  moreover have "on_api (t2h_close (ce_api env) (cs_handle c')) c' = (Ret (), c')"
    using assms(3) by (simp add: on_api_def zoom_def t2h_close_def INVALID_T2H_HANDLE_def)
  ultimately show ?thesis using assms(2) by (simp add: console_main_def Let_def entries_refused)
qed

theorem failed_init_goes_on_witness:
  "\<exists>c'. console_main sample_console_env ''missing.json'' (Some [''a.torrent'']) (\<lambda>_. True) sample_console =
     Some (Finished (Ret ()), c') \<and> cs_handle c' = -1"
proof -
  let ?sets = "(reset_configurations (configured url_tree))\<lparr>last_error := ''File at path 'missing.json' not exist''\<rparr>"
  have "t2h_init_2 sample_api (Some ''missing.json'') live_process =
      (Ret INVALID_T2H_HANDLE, live_process\<lparr>pr_settings := ?sets\<rparr>)"
    by (simp add: t2h_init_2_def t2h_init_impl_def core_handle_initialize_def load_config_def sample_api_def
        config_is_well_def live_process_def Let_def)
  then show ?thesis
    using failed_init_goes_on [of sample_console_env "''missing.json''" sample_console "live_process\<lparr>pr_settings := ?sets\<rparr>"
        "\<lambda>_. True" "[''a.torrent'']"]
    by (simp add: sample_console_env_def sample_console_def console_controller.simps INVALID_T2H_HANDLE_def)
qed

theorem start_command_effect_witness:
  "start_command sample_console_env ''13,0'' (sample_console\<lparr>cs_handle := -1\<rparr>) =
     (Ret False, sample_console\<lparr>cs_handle := -1, cs_out := [''Failed to start download, file no not exists'']\<rparr>)"
proof -
  have "to_size lexical_reference ''13'' = Some 13" "to_size lexical_reference ''0'' = Some 0"
    by (simp_all add: lexical_reference_def reference_to_i64_def all_digits_def digits_value_def char_int_def
        checked_i64_def i64_range_def)
  then have "get_from_string (ce_cast sample_console_env) ''13,0'' = (True, 13, 0)"
    by (simp add: get_from_string_def Let_def sample_console_env_def)
  moreover have "t2h_start_download (ce_api sample_console_env) (-1) 13 (narrow_int 0) live_process = (Ret None, live_process)"
    by (simp add: t2h_start_download_def INVALID_T2H_HANDLE_def eret_def)
  ultimately show ?thesis
    using start_command_effect [of sample_console_env "''13,0''" 13 0 "sample_console\<lparr>cs_handle := -1\<rparr>" None live_process]
    by (simp add: sample_console_def)
qed

end
