(* ===== verification/Event_List.thy ===== *)
theory Event_List
  imports T2H_Prelude "HOL-Library.AList"
begin

section \<open>Event sources, binders and event wrappers\<close>

text \<open>
  \<open>src/src/common/utility/basic_events.hpp\<close> and \<open>event_wrapper.hpp\<close>. The binders of a source are
  linked through themselves into a ring with the source's \<open>list_head_\<close>. The memory of binders is a
  total function of their addresses. The policy is a template parameter: of a policy that calls the
  sinks at once, what matters to the source is which binders a sink unbinds (\<open>reacts\<close>); with a policy
  that queues, that is none. A sink that binds would take the source's lock a second time, and binds
  of other threads wait for it.
\<close>

record 's event_binder =
  bd_sink :: "'s option"
  bd_prev :: nat
  bd_next :: nat

type_synonym 's binders = "nat \<Rightarrow> 's event_binder"

definition set_next :: "nat \<Rightarrow> nat \<Rightarrow> 's binders \<Rightarrow> 's binders" where
  "set_next a n h = h(a := (h a)\<lparr>bd_next := n\<rparr>)"

definition set_prev :: "nat \<Rightarrow> nat \<Rightarrow> 's binders \<Rightarrow> 's binders" where
  "set_prev a p h = h(a := (h a)\<lparr>bd_prev := p\<rparr>)"

definition new_binder :: "nat \<Rightarrow> 's binders \<Rightarrow> 's binders" where
  "new_binder this h = h(this := \<lparr>bd_sink = None, bd_prev = this, bd_next = this\<rparr>)"

definition unbind_weak :: "nat \<Rightarrow> 's binders \<Rightarrow> 's binders" where
  "unbind_weak this h =
     (let h1 = set_next (bd_prev (h this)) (bd_next (h this)) h;
          h2 = set_prev (bd_next (h1 this)) (bd_prev (h1 this)) h1
      in set_next this this (set_prev this this h2))"

text \<open>\<open>unbind\<close> does the same under an own lock, not the source's.\<close>

definition unbind :: "nat \<Rightarrow> 's binders \<Rightarrow> 's binders" where
  "unbind this h = unbind_weak this h"

definition attach_after :: "nat \<Rightarrow> nat \<Rightarrow> 's binders \<Rightarrow> 's binders" where
  "attach_after this what h =
     (let h1 = set_next this (bd_next (h what)) h;
          h2 = set_prev (bd_next (h1 this)) this h1;
          h3 = set_next what this h2
      in set_prev this what h3)"

definition bind_sink :: "nat \<Rightarrow> nat \<Rightarrow> 's \<Rightarrow> 's binders \<Rightarrow> 's binders" where
  "bind_sink this list_head sink h =
     (let h1 = attach_after this list_head (unbind_weak this h)
      in h1(this := (h1 this)\<lparr>bd_sink := Some sink\<rparr>))"

text \<open>The local \<open>bookmark\<close> is constructed and destructed in every turn; \<open>bookmark\<close> is its address.\<close>

partial_function (option) post_loop ::
  "('s \<Rightarrow> nat list) \<Rightarrow> nat \<Rightarrow> nat \<Rightarrow> nat \<Rightarrow> 's binders \<Rightarrow> 's list \<Rightarrow> ('s binders \<times> 's list) option" where
  "post_loop reacts list_head bookmark current h posted =
     (if current = list_head then Some (h, posted)
      else case bd_sink (h current) of
             Some s \<Rightarrow>
               (let h1 = attach_after bookmark current (new_binder bookmark h);
                    h2 = foldl (\<lambda>h b. unbind b h) h1 (reacts s)
                in post_loop reacts list_head bookmark (bd_next (h2 bookmark)) (unbind bookmark h2) (posted @ [s]))
           | None \<Rightarrow> post_loop reacts list_head bookmark (bd_next (h current)) h posted)"

declare post_loop.simps [code]

definition post_event ::
  "('s \<Rightarrow> nat list) \<Rightarrow> nat \<Rightarrow> nat \<Rightarrow> 's binders \<Rightarrow> ('s binders \<times> 's list) option" where
  "post_event reacts list_head bookmark h =
     post_loop reacts list_head bookmark (bd_next (h list_head)) h []"

subsection \<open>The ring as a list\<close>

definition linked :: "'s binders \<Rightarrow> bool" where
  "linked h \<longleftrightarrow> (\<forall>a. bd_next (h (bd_prev (h a))) = a \<and> bd_prev (h (bd_next (h a))) = a)"

lemma linkedD [simp]:
  assumes "linked h"
  shows "bd_next (h (bd_prev (h a))) = a" and "bd_prev (h (bd_next (h a))) = a"
  using assms by (simp_all add: linked_def)

fun route :: "'s binders \<Rightarrow> nat \<Rightarrow> nat list \<Rightarrow> nat \<Rightarrow> bool" where
  "route h a [] b \<longleftrightarrow> bd_next (h a) = b"
| "route h a (x # xs) b \<longleftrightarrow> bd_next (h a) = x \<and> route h x xs b"

definition bound_list :: "'s binders \<Rightarrow> nat \<Rightarrow> nat list \<Rightarrow> bool" where
  "bound_list h list_head xs \<longleftrightarrow> linked h \<and> distinct (list_head # xs) \<and> route h list_head xs list_head"

lemma route_append: "route h a (xs @ y # ys) b \<longleftrightarrow> route h a xs y \<and> route h y ys b"
  by (induction xs arbitrary: a) auto

lemma route_cong:
  "(\<And>z. z \<in> set (a # xs) \<Longrightarrow> bd_next (h' z) = bd_next (h z)) \<Longrightarrow> route h' a xs b = route h a xs b"
  by (induction xs arbitrary: a) auto

lemma route_target: "route h a xs b \<Longrightarrow> z \<in> set (a # xs) \<Longrightarrow> bd_next (h z) \<in> set xs \<union> {b}"
  by (induction xs arbitrary: a) auto

lemma unbind_next:
  "linked h \<Longrightarrow> bd_next (unbind t h a) =
     (if a = t then t else if a = bd_prev (h t) then bd_next (h t) else bd_next (h a))"
  by (auto simp: unbind_def unbind_weak_def set_next_def set_prev_def Let_def)

lemma unbind_prev:
  "linked h \<Longrightarrow> bd_prev (unbind t h a) =
     (if a = t then t else if a = bd_next (h t) then bd_prev (h t) else bd_prev (h a))"
  by (auto simp: unbind_def unbind_weak_def set_next_def set_prev_def Let_def)

lemma unbind_sink [simp]: "bd_sink (unbind t h a) = bd_sink (h a)"
  by (simp add: unbind_def unbind_weak_def set_next_def set_prev_def Let_def)

lemma linked_unbind: "linked h \<Longrightarrow> linked (unbind t h)"
  unfolding linked_def [of "unbind t h"]
  by (auto simp: unbind_next unbind_prev) (metis linkedD)+

lemma attach_next:
  "linked h \<Longrightarrow> bd_next (h t) = t \<Longrightarrow> t \<noteq> w \<Longrightarrow>
   bd_next (attach_after t w h a) = (if a = w then t else if a = t then bd_next (h w) else bd_next (h a))"
  by (auto simp: attach_after_def set_next_def set_prev_def Let_def)

lemma attach_prev:
  "linked h \<Longrightarrow> bd_next (h t) = t \<Longrightarrow> t \<noteq> w \<Longrightarrow>
   bd_prev (attach_after t w h a) = (if a = t then w else if a = bd_next (h w) then t else bd_prev (h a))"
  by (auto simp: attach_after_def set_next_def set_prev_def Let_def)

lemma attach_sink [simp]: "bd_sink (attach_after t w h a) = bd_sink (h a)"
  by (simp add: attach_after_def set_next_def set_prev_def Let_def)

lemma linked_attach:
  assumes "linked h" and "bd_next (h t) = t" and "t \<noteq> w"
  shows "linked (attach_after t w h)"
  unfolding linked_def [of "attach_after t w h"]
  using assms by (auto simp: attach_next attach_prev) (metis linkedD)+

lemma unbind_route_in:
  assumes "linked h"
  shows "route h a ps t \<Longrightarrow> distinct (a # ps) \<Longrightarrow> t \<notin> set (a # ps) \<Longrightarrow>
    route (unbind t h) a ps (bd_next (h t))"
proof (induction ps arbitrary: a)
  case Nil
  then have "bd_prev (h t) = a" using assms by (metis linkedD(2) route.simps(1))
  then show ?case using Nil assms by (auto simp: unbind_next)
next
  case (Cons x ps)
  have "a \<noteq> bd_prev (h t)" using Cons.prems assms by (metis linkedD(1) list.set_intros(1,2) route.simps(2))
  then show ?case using Cons assms by (auto simp: unbind_next)
qed

lemma unbind_route_out:
  assumes "linked h" and "route h a xs b" and "t \<notin> set (a # xs)" and "t \<noteq> b"
  shows "route (unbind t h) a xs b"
proof -
  have "bd_next (unbind t h z) = bd_next (h z)" if "z \<in> set (a # xs)" for z
    using route_target [OF assms(2) that] assms that by (auto simp: unbind_next)
  then show ?thesis using route_cong [of a xs "unbind t h" h b] assms(2) by blast
qed

lemma bound_unbind:
  assumes "bound_list h l xs" and "t \<noteq> l"
  shows "bound_list (unbind t h) l (removeAll t xs)"
proof -
  have h: "linked h" "distinct (l # xs)" "route h l xs l" using assms(1) by (auto simp: bound_list_def)
  have "route (unbind t h) l (removeAll t xs) l"
  proof (cases "t \<in> set xs")
    case False
    then show ?thesis using unbind_route_out [OF h(1,3), of t] assms(2) by simp
  next
    case True
    then obtain ps qs where xs: "xs = ps @ t # qs" by (meson split_list)
    then have rem: "removeAll t xs = ps @ qs" using h(2) by simp
    have parts: "route h l ps t" "route h t qs l" using h(3) xs by (simp_all add: route_append)
    have front: "route (unbind t h) l ps (bd_next (h t))"
      using unbind_route_in [OF h(1) parts(1)] h(2) xs assms(2) by auto
    show ?thesis
    proof (cases qs)
      case Nil
      then show ?thesis using front parts(2) rem by simp
    next
      case (Cons q qs')
      then have "route h q qs' l" and next_t: "bd_next (h t) = q" using parts(2) by simp_all
      then have "route (unbind t h) q qs' l"
        using unbind_route_out [OF h(1)] h(2) xs Cons assms(2) by auto
      then show ?thesis using front next_t rem Cons by (simp add: route_append)
    qed
  qed
  then show ?thesis using h linked_unbind [OF h(1)] by (auto simp: bound_list_def distinct_removeAll)
qed

lemma bound_unbinds:
  "bound_list h l xs \<Longrightarrow> l \<notin> set ts \<Longrightarrow>
   bound_list (foldl (\<lambda>h b. unbind b h) h ts) l (filter (\<lambda>a. a \<notin> set ts) xs)"
proof (induction ts arbitrary: h xs)
  case (Cons t ts)
  have "filter (\<lambda>a. a \<notin> set ts) (removeAll t xs) = filter (\<lambda>a. a \<notin> set (t # ts)) xs"
    by (induction xs) auto
  then show ?case using Cons.IH [OF bound_unbind [OF Cons.prems(1), of t]] Cons.prems(2) by force
qed simp

lemma unbinds_sink [simp]: "bd_sink (foldl (\<lambda>h b. unbind b h) h ts a) = bd_sink (h a)"
  by (induction ts arbitrary: h) simp_all

lemma attach_route_here:
  assumes "linked h" and "bd_next (h t) = t" and "t \<notin> set (w # qs)" and "w \<notin> set qs" and "route h w qs b"
  shows "route (attach_after t w h) w (t # qs) b"
proof (cases qs)
  case Nil
  then show ?thesis using assms by (auto simp: attach_next)
next
  case (Cons q qs')
  have "bd_next (attach_after t w h z) = bd_next (h z)" if "z \<in> set (q # qs')" for z
    using assms that Cons by (auto simp: attach_next)
  then have "route (attach_after t w h) q qs' b"
    using route_cong [of q qs' "attach_after t w h" h b] assms(5) Cons by auto
  moreover have "bd_next (h w) = q" using assms(5) Cons by simp
  moreover have "t \<noteq> w" using assms(3) by simp
  ultimately show ?thesis using attach_next [OF assms(1,2)] Cons by simp
qed

lemma bound_attach_head:
  assumes "bound_list h l xs" and "bd_next (h t) = t" and "t \<notin> set (l # xs)"
  shows "bound_list (attach_after t l h) l (t # xs)"
  using assms attach_route_here [of h t l xs l] linked_attach [of h t l] by (auto simp: bound_list_def)

lemma bound_attach:
  assumes "bound_list h l (ps @ c # qs)" and "bd_next (h t) = t" and "t \<notin> set (l # ps @ c # qs)"
  shows "bound_list (attach_after t c h) l (ps @ c # t # qs)"
proof -
  have h: "linked h" "distinct (l # ps @ c # qs)" "route h l ps c" "route h c qs l"
    using assms(1) by (auto simp: bound_list_def route_append)
  have "bd_next (attach_after t c h z) = bd_next (h z)" if "z \<in> set (l # ps)" for z
    using h assms that by (auto simp: attach_next)
  then have "route (attach_after t c h) l ps c" using route_cong [of l ps "attach_after t c h" h c] h(3) by blast
  moreover have "route (attach_after t c h) c (t # qs) l"
    using attach_route_here [OF h(1) assms(2) _ _ h(4)] h(2) assms(3) by auto
  moreover have "linked (attach_after t c h)" using linked_attach [OF h(1) assms(2)] assms(3) by auto
  ultimately show ?thesis using h(2) assms(3) by (auto simp: bound_list_def route_append)
qed

lemma bound_new:
  assumes "bound_list h l xs" and "bd_next (h t) = t"
  shows "bound_list (new_binder t h) l xs"
proof -
  have "bd_prev (h t) = t" using assms by (metis bound_list_def linkedD(2))
  then have same: "bd_next (new_binder t h a) = bd_next (h a)" "bd_prev (new_binder t h a) = bd_prev (h a)" for a
    using assms(2) by (simp_all add: new_binder_def)
  have "route (new_binder t h) l xs l = route h l xs l" by (rule route_cong) (rule same(1))
  then show ?thesis using assms(1) unfolding bound_list_def linked_def same by blast
qed

lemma first_bound: "bound_list h l xs \<Longrightarrow> bd_next (h l) = hd (xs @ [l])"
  by (cases xs) (auto simp: bound_list_def)

lemma next_bound: "bound_list h l (ps @ c # qs) \<Longrightarrow> bd_next (h c) = hd (qs @ [l])"
  by (cases qs) (auto simp: bound_list_def route_append)

subsection \<open>Posting\<close>

text \<open>Whom a post reaches, over the list of bound addresses: a sink is not reached when one before it
  unbound it.\<close>

function reached :: "('s \<Rightarrow> nat list) \<Rightarrow> (nat \<Rightarrow> 's option) \<Rightarrow> nat list \<Rightarrow> 's list" where
  "reached reacts sinks [] = []"
| "reached reacts sinks (c # cs) =
     (case sinks c of
        Some s \<Rightarrow> s # reached reacts sinks (filter (\<lambda>a. a \<notin> set (reacts s)) cs)
      | None \<Rightarrow> reached reacts sinks cs)"
  by pat_completeness auto
termination
  by (relation "measure (\<lambda>(reacts, sinks, cs). length cs)") (auto simp: le_imp_less_Suc)

definition unbound_by :: "('s \<Rightarrow> nat list) \<Rightarrow> 's list \<Rightarrow> nat set" where
  "unbound_by reacts ss = (\<Union>s \<in> set ss. set (reacts s))"

lemma post_turn:
  assumes "bound_list h l (ps @ c # qs)" and "bd_next (h b) = b" and "b \<notin> set (l # ps @ c # qs)"
    and "l \<notin> set ts" and "b \<notin> set ts"
    and h2: "h2 = foldl (\<lambda>h b. unbind b h) (attach_after b c (new_binder b h)) ts"
  shows "bound_list (unbind b h2) l (filter (\<lambda>a. a \<notin> set ts) (ps @ [c]) @ filter (\<lambda>a. a \<notin> set ts) qs)"
    and "bd_next (h2 b) = hd (filter (\<lambda>a. a \<notin> set ts) qs @ [l])"
    and "bd_next (unbind b h2 b) = b"
proof -
  let ?in = "\<lambda>a. a \<notin> set ts"
  have "bound_list (attach_after b c (new_binder b h)) l (ps @ c # b # qs)"
    using bound_attach [OF bound_new [OF assms(1,2)]] assms(3) by (simp add: new_binder_def)
  then have "bound_list h2 l (filter ?in (ps @ c # b # qs))"
    unfolding h2 using assms(4) by (rule bound_unbinds)
  moreover have "filter ?in (ps @ c # b # qs) = filter ?in (ps @ [c]) @ b # filter ?in qs" using assms(5) by simp
  ultimately have mid: "bound_list h2 l (filter ?in (ps @ [c]) @ b # filter ?in qs)" by simp
  show "bd_next (h2 b) = hd (filter ?in qs @ [l])" by (rule next_bound [OF mid])
  have "b \<noteq> l" using assms(3) by simp
  then show "bound_list (unbind b h2) l (filter ?in (ps @ [c]) @ filter ?in qs)"
    using bound_unbind [OF mid, of b] assms(3) by (simp add: removeAll_id)
  show "bd_next (unbind b h2 b) = b" using mid by (simp add: bound_list_def unbind_next)
qed

lemma filter_unbound:
  "filter (\<lambda>a. a \<notin> unbound_by reacts ss) (filter (\<lambda>a. a \<notin> set (reacts s)) xs) =
   filter (\<lambda>a. a \<notin> unbound_by reacts (s # ss)) xs"
  by (induction xs) (auto simp: unbound_by_def)

lemma reached_cong: "(\<And>a. a \<in> set cs \<Longrightarrow> f a = g a) \<Longrightarrow> reached reacts f cs = reached reacts g cs"
  by (induction reacts f cs rule: reached.induct) (auto split: option.splits)

lemma post_loop_reaches:
  assumes "bound_list h l (ps @ rest)" and "bd_next (h b) = b" and "b \<notin> set (l # ps @ rest)"
    and keep: "\<And>s. l \<notin> set (reacts s) \<and> b \<notin> set (reacts s)"
  shows "\<exists>h'. post_loop reacts l b (hd (rest @ [l])) h posted =
      Some (h', posted @ reached reacts (\<lambda>a. bd_sink (h a)) rest) \<and>
    bound_list h' l (filter (\<lambda>a. a \<notin> unbound_by reacts (reached reacts (\<lambda>a. bd_sink (h a)) rest)) (ps @ rest)) \<and>
    bd_next (h' b) = b"
  using assms(1-3)
proof (induction "length rest" arbitrary: rest ps h posted rule: less_induct)
  case less
  show ?case
  proof (cases rest)
    case Nil
    then show ?thesis using less.prems by (subst post_loop.simps) (simp add: unbound_by_def)
  next
    case (Cons c qs)
    have "c \<noteq> l" using less.prems(1) Cons by (auto simp: bound_list_def)
    show ?thesis
    proof (cases "bd_sink (h c)")
      case None
      then have "post_loop reacts l b (hd (rest @ [l])) h posted = post_loop reacts l b (hd (qs @ [l])) h posted"
        using Cons \<open>c \<noteq> l\<close> next_bound [of h l ps c qs] less.prems(1) by (subst post_loop.simps) simp
      then show ?thesis using less.hyps [of qs h "ps @ [c]" posted] less.prems Cons None by simp
    next
      case (Some s)
      let ?h2 = "foldl (\<lambda>h b. unbind b h) (attach_after b c (new_binder b h)) (reacts s)"
      let ?in = "\<lambda>a. a \<notin> set (reacts s)"
      note turn = post_turn [OF less.prems(1) [unfolded Cons] less.prems(2) less.prems(3) [unfolded Cons] _ _ refl,
          of "reacts s"]
      have "post_loop reacts l b (hd (rest @ [l])) h posted =
          post_loop reacts l b (hd (filter ?in qs @ [l])) (unbind b ?h2) (posted @ [s])"
        using Cons \<open>c \<noteq> l\<close> Some turn(2) keep by (subst post_loop.simps) (simp add: Let_def)
      moreover have "length (filter ?in qs) < length rest" using Cons by (simp add: le_imp_less_Suc)
      moreover have "reached reacts (\<lambda>a. bd_sink (unbind b ?h2 a)) (filter ?in qs) =
          reached reacts (\<lambda>a. bd_sink (h a)) (filter ?in qs)"
        using less.prems(3) Cons by (intro reached_cong) (auto simp: new_binder_def)
      moreover have "filter ?in (ps @ [c]) @ filter ?in qs = filter ?in (ps @ rest)" using Cons by simp
      ultimately show ?thesis
        using less.hyps [of "filter ?in qs" "unbind b ?h2" "filter ?in (ps @ [c])" "posted @ [s]"]
          turn(1,3) keep less.prems(3) Cons Some filter_unbound [of reacts _ s "ps @ rest"]
        by auto
    qed
  qed
qed

subsection \<open>Binding and posting refine a list\<close>

datatype 's bind_op = Bind_op nat 's | Unbind_op nat

fun bind_step :: "nat \<Rightarrow> 's binders \<Rightarrow> 's bind_op \<Rightarrow> 's binders" where
  "bind_step l h (Bind_op a s) = bind_sink a l s h"
| "bind_step l h (Unbind_op a) = unbind a h"

fun bind_spec :: "(nat \<times> 's) list \<Rightarrow> 's bind_op \<Rightarrow> (nat \<times> 's) list" where
  "bind_spec al (Bind_op a s) = (a, s) # AList.delete a al"
| "bind_spec al (Unbind_op a) = AList.delete a al"

fun op_address :: "'s bind_op \<Rightarrow> nat" where
  "op_address (Bind_op a s) = a"
| "op_address (Unbind_op a) = a"

definition binds :: "nat \<Rightarrow> 's binders \<Rightarrow> (nat \<times> 's) list \<Rightarrow> bool" where
  "binds l h al \<longleftrightarrow> bound_list h l (map fst al) \<and> list_all (\<lambda>(a, s). bd_sink (h a) = Some s) al"

lemma delete_keys: "map fst (AList.delete a al) = removeAll a (map fst al)"
  by (induction al) auto

lemma binds_unbind:
  assumes "binds l h al" and "a \<noteq> l"
  shows "binds l (unbind a h) (AList.delete a al)"
proof -
  have "bound_list (unbind a h) l (map fst (AList.delete a al))"
    using assms bound_unbind [of h l "map fst al" a] by (simp add: binds_def delete_keys)
  moreover have "list_all (\<lambda>(x, s). bd_sink (unbind a h x) = Some s) (AList.delete a al)"
    using assms(1) by (auto simp: binds_def list_all_iff AList.delete_eq)
  ultimately show ?thesis by (simp add: binds_def)
qed

lemma binds_step:
  assumes "binds l h al" and "op_address f \<noteq> l"
  shows "binds l (bind_step l h f) (bind_spec al f)"
proof (cases f)
  case (Unbind_op a)
  then show ?thesis using binds_unbind assms by simp
next
  case (Bind_op a s)
  let ?h1 = "unbind a h"
  have un: "binds l ?h1 (AList.delete a al)" using binds_unbind assms Bind_op by simp
  have self: "bd_next (?h1 a) = a" using assms(1) by (simp add: binds_def bound_list_def unbind_next)
  have att: "bound_list (attach_after a l ?h1) l (a # map fst (AList.delete a al))"
    using bound_attach_head [of ?h1 l _ a] un self assms(2) Bind_op by (auto simp: binds_def delete_keys)
  let ?h2 = "(attach_after a l ?h1)(a := (attach_after a l ?h1 a)\<lparr>bd_sink := Some s\<rparr>)"
  have links: "bd_next (?h2 x) = bd_next (attach_after a l ?h1 x)"
    "bd_prev (?h2 x) = bd_prev (attach_after a l ?h1 x)" for x by auto
  have "route ?h2 l xs l = route (attach_after a l ?h1) l xs l" for xs
    by (rule route_cong) (rule links)
  then have "bound_list ?h2 l (a # map fst (AList.delete a al))"
    using att unfolding bound_list_def linked_def links by blast
  moreover have "bind_sink a l s h = ?h2" by (simp add: bind_sink_def unbind_def Let_def)
  moreover have "list_all (\<lambda>(x, t). bd_sink (?h2 x) = Some t) (AList.delete a al)"
    using un by (auto simp: binds_def list_all_iff AList.delete_eq)
  ultimately show ?thesis using Bind_op by (simp add: binds_def)
qed

lemma binds_steps:
  "binds l h al \<Longrightarrow> list_all (\<lambda>f. op_address f \<noteq> l) fs \<Longrightarrow>
   binds l (foldl (bind_step l) h fs) (foldl bind_spec al fs)"
  by (induction fs arbitrary: h al) (auto intro: binds_step)

text \<open>Memory in which nothing is bound yet, and an address that no operation names.\<close>

definition unbound_memory :: "'s binders" where
  "unbound_memory = (\<lambda>a. \<lparr>bd_sink = None, bd_prev = a, bd_next = a\<rparr>)"

lemma binds_unbound: "binds l unbound_memory []"
  by (simp add: binds_def bound_list_def linked_def unbound_memory_def)

lemma unbind_idle: "linked h \<Longrightarrow> bd_next (h b) = b \<Longrightarrow> a \<noteq> b \<Longrightarrow> bd_next (unbind a h b) = b"
  by (metis linkedD(1) unbind_next)

lemma bind_step_idle:
  assumes "linked h" and "bd_next (h b) = b" and "op_address f \<noteq> b" and "l \<noteq> b" and "op_address f \<noteq> l"
  shows "bd_next (bind_step l h f b) = b"
proof (cases f)
  case (Bind_op a s)
  have "bd_next (unbind a h a) = a" using assms(1) by (simp add: unbind_next)
  then show ?thesis
    using assms(3-5) attach_next [OF linked_unbind [OF assms(1)], of a a l b] unbind_idle [OF assms(1,2), of a] Bind_op
    by (simp add: bind_sink_def unbind_def Let_def)
qed (use assms unbind_idle in auto)

lemma bind_steps_idle:
  assumes "binds l h al" and "bd_next (h b) = b" and "l \<noteq> b" and "list_all (\<lambda>f. op_address f \<notin> {l, b}) fs"
  shows "bd_next (foldl (bind_step l) h fs b) = b"
  using assms(1,2,4)
proof (induction fs arbitrary: h al)
  case (Cons f fs)
  have "linked h" using Cons.prems(1) by (simp add: binds_def bound_list_def)
  then show ?case
    using Cons.IH [OF binds_step [OF Cons.prems(1), of f] bind_step_idle [of h b f l]] Cons.prems assms(3) by simp
qed simp

text \<open>C40. After any binds and unbinds of a source's binders, a post comes back and reaches the sinks of
  those that are bound, the newest binding first, each once, and leaves out only the ones that a
  sink reached before them has unbound; afterwards exactly the ones that no sink unbound are linked.\<close>

theorem post_reaches_bound:
  assumes "list_all (\<lambda>f. op_address f \<notin> {l, b}) fs" and "l \<noteq> b"
    and "\<And>s. l \<notin> set (reacts s) \<and> b \<notin> set (reacts s)"
    and al: "al = foldl bind_spec [] fs" and posted: "posted = reached reacts (map_of al) (map fst al)"
  shows "\<exists>h'. post_event reacts l b (foldl (bind_step l) unbound_memory fs) = Some (h', posted) \<and>
     bound_list h' l (filter (\<lambda>a. a \<notin> unbound_by reacts posted) (map fst al))"
proof -
  let ?h = "foldl (bind_step l) unbound_memory fs"
  have ok: "binds l ?h al" unfolding al by (rule binds_steps [OF binds_unbound]) (use assms(1) in \<open>auto simp: list_all_iff\<close>)
  then have ring: "bound_list ?h l (map fst al)" by (simp add: binds_def)
  have idle: "bd_next (?h b) = b"
    by (rule bind_steps_idle [OF binds_unbound _ assms(2,1)]) (simp add: unbound_memory_def)
  have "b \<notin> set (map fst al)"
  proof
    assume "b \<in> set (map fst al)"
    then obtain ps qs where "map fst al = ps @ b # qs" by (meson split_list)
    then show False using next_bound [of ?h l ps b qs] ring idle assms(2)
      by (cases qs) (auto simp: bound_list_def)
  qed
  then have fresh: "b \<notin> set (l # [] @ map fst al)" using assms(2) by auto
  have "distinct (map fst al)" using ring by (simp add: bound_list_def)
  then have sinks: "reached reacts (\<lambda>a. bd_sink (?h a)) (map fst al) = posted"
    unfolding posted using ok by (intro reached_cong) (auto simp: binds_def list_all_iff)
  have "post_event reacts l b ?h = post_loop reacts l b (hd (map fst al @ [l])) ?h []"
    using first_bound [OF ring] by (simp add: post_event_def)
  moreover have "bound_list ?h l ([] @ map fst al)" using ring by simp
  from post_loop_reaches [OF this idle fresh, where reacts = reacts and posted = "[]"] assms(3) sinks
  obtain h' where "post_loop reacts l b (hd (map fst al @ [l])) ?h [] = Some (h', posted)"
    "bound_list h' l (filter (\<lambda>a. a \<notin> unbound_by reacts posted) (map fst al))" by auto
  ultimately show ?thesis by simp
qed

theorem post_reaches_bound_witness:
  "\<exists>h'. post_event (\<lambda>s. if s = CHR ''c'' then [1, 3] else []) 0 9
     (foldl (bind_step 0) unbound_memory [Bind_op 1 CHR ''a'', Bind_op 2 CHR ''b'', Bind_op 3 CHR ''c'', Bind_op 4 CHR ''d'']) =
       Some (h', ''dcb'') \<and> bound_list h' 0 [4, 2]"
  using post_reaches_bound [of 0 9 "[Bind_op 1 CHR ''a'', Bind_op 2 CHR ''b'', Bind_op 3 CHR ''c'', Bind_op 4 CHR ''d'']"
      "\<lambda>s. if s = CHR ''c'' then [1, 3] else []"]
  by (simp add: unbound_by_def)

text \<open>Without such sinks everyone bound is reached.\<close>

lemma reached_all:
  assumes "distinct (map fst al)" and "\<And>s. reacts s = []"
  shows "reached reacts (map_of al) (map fst al) = map snd al"
proof -
  have quiet: "reacts = (\<lambda>_. [])" using assms(2) by (rule ext)
  have "reached reacts f (map fst bl) = map snd bl" if "\<And>a s. (a, s) \<in> set bl \<Longrightarrow> f a = Some s" for f bl
    using that
  proof (induction bl)
    case (Cons p bl)
    obtain a s where "p = (a, s)" by fastforce
    have "f a = Some s" using Cons.prems \<open>p = (a, s)\<close> by simp
    moreover have "reached reacts f (map fst bl) = map snd bl" using Cons by simp
    ultimately show ?case using quiet by (simp add: \<open>p = (a, s)\<close>)
  qed simp
  then show ?thesis using assms(1) by simp
qed

subsection \<open>Event wrappers\<close>

text \<open>An event of \<open>event_wrapper\<close> calls its function on its object; one of \<open>shared_event_wrapper\<close> calls it
  without argument and gives the object up. \<open>None\<close> is a null object; a call is logged.\<close>

record ('f, 'o) event_wrapper =
  ev_event :: 'f
  ev_object :: "'o option"

definition new_event :: "'f \<Rightarrow> 'o option \<Rightarrow> nat \<Rightarrow> ('f, 'o) event_wrapper \<times> nat" where
  "new_event func obj count = (\<lparr>ev_event = func, ev_object = obj\<rparr>, count + 1)"

definition set_event :: "'f \<Rightarrow> 'o option \<Rightarrow> ('f, 'o) event_wrapper \<Rightarrow> ('f, 'o) event_wrapper" where
  "set_event event object e = e\<lparr>ev_event := event, ev_object := ev_object e\<rparr>"

definition event_execute :: "('f, 'o) event_wrapper \<Rightarrow> ('f \<times> 'o) list" where
  "event_execute e = (case ev_object e of Some obj \<Rightarrow> [(ev_event e, obj)] | None \<Rightarrow> [])"

definition shared_new_event :: "'f \<Rightarrow> 'o option \<Rightarrow> ('f, 'o) event_wrapper" where
  "shared_new_event func obj = \<lparr>ev_event = func, ev_object = obj\<rparr>"

definition shared_event_execute :: "('f, 'o) event_wrapper \<Rightarrow> 'f list \<times> ('f, 'o) event_wrapper" where
  "shared_event_execute e =
     (case ev_object e of Some obj \<Rightarrow> ([ev_event e], e\<lparr>ev_object := None\<rparr>) | None \<Rightarrow> ([], e))"

text \<open>\<open>set_event\<close> assigns the member to itself: the new object is dropped, and the new function runs
  on the old one. A shared event runs at most once.\<close>

lemma set_event_keeps_object:
  "event_execute (set_event f (Some new) \<lparr>ev_event = g, ev_object = Some old\<rparr>) = [(f, old)]"
  by (simp add: set_event_def event_execute_def)

lemma shared_event_runs_once:
  "fst (shared_event_execute (snd (shared_event_execute e))) = []"
  by (auto simp: shared_event_execute_def split: option.splits)

end
