(* ===== verification/Thread_Pool.thy ===== *)
theory Thread_Pool
  imports T2H_Prelude
begin

section \<open>The thread pool\<close>

text \<open>
  \<open>src/src/common/utility/thread_pool.hpp\<close>. A thread is its number. \<open>finished\<close> says which threads
  have run to their end when a call joins them; a call that joins one that has not is \<open>None\<close>, the
  caller blocks, with the pool's lock held. A thread that was joined is no longer joinable. The
  pool class only forwards to its policy.
\<close>

record 'f pool =
  po_holder :: "nat option list"
  po_group :: "nat list"
  po_next :: nat
  po_joined :: "nat list"
  po_tasks :: "(nat \<times> 'f) list"
  po_interrupted :: "nat list"

definition new_pool :: "nat \<Rightarrow> 'f pool" where
  "new_pool max_threads =
     \<lparr>po_holder = replicate max_threads None, po_group = [], po_next = 0, po_joined = [], po_tasks = [],
      po_interrupted = []\<rparr>"

definition default_pool :: "'f pool" where
  "default_pool = new_pool 0"

definition add_task :: "nat \<Rightarrow> 'f \<Rightarrow> 'f pool \<Rightarrow> 'f pool" where
  "add_task i func p =
     (if i < length (po_holder p)
      then (if po_holder p ! i = None
            then p\<lparr>po_group := po_group p @ [po_next p], po_holder := (po_holder p)[i := Some (po_next p)],
                   po_next := po_next p + 1, po_tasks := po_tasks p @ [(po_next p, func)]\<rparr>
            else p)
      else p)"

definition join_task_and_remove :: "(nat \<Rightarrow> bool) \<Rightarrow> nat \<Rightarrow> 'f pool \<Rightarrow> 'f pool option" where
  "join_task_and_remove finished i p =
     (if i < length (po_holder p)
      then (case po_holder p ! i of
              Some t \<Rightarrow>
                if finished t
                then Some (p\<lparr>po_holder := (po_holder p)[i := None], po_joined := po_joined p @ [t],
                             po_group := remove1 t (po_group p)\<rparr>)
                else None
            | None \<Rightarrow> Some p)
      else Some p)"

definition clear_task_holder :: "'f pool \<Rightarrow> 'f pool" where
  "clear_task_holder p = p\<lparr>po_holder := vresize (length (po_holder p)) None []\<rparr>"

definition stop_all_tasks :: "'f pool \<Rightarrow> 'f pool" where
  "stop_all_tasks p = clear_task_holder (p\<lparr>po_interrupted := po_interrupted p @ po_group p\<rparr>)"

definition wait_all_tasks :: "(nat \<Rightarrow> bool) \<Rightarrow> 'f pool \<Rightarrow> 'f pool option" where
  "wait_all_tasks finished p =
     (if list_all finished (po_group p)
      then Some (clear_task_holder (p\<lparr>po_joined := po_joined p @ po_group p\<rparr>))
      else None)"

text \<open>The loop keeps the answer of the last slot that is not empty.\<close>

definition has_unfinished_task :: "'f pool \<Rightarrow> bool" where
  "has_unfinished_task p =
     foldl (\<lambda>state slot. case slot of Some t \<Rightarrow> t \<notin> set (po_joined p) | None \<Rightarrow> state) False (po_holder p)"

text \<open>The holder that was resized is swapped with the copy of the old one, and dropped.\<close>

definition resize_max_threads :: "nat \<Rightarrow> 'f pool \<Rightarrow> 'f pool" where
  "resize_max_threads max_threads p =
     (let old_holder = po_holder p;
          p1 = clear_task_holder p;
          p2 = p1\<lparr>po_holder := vresize max_threads None (po_holder p1)\<rparr>
      in p2\<lparr>po_holder := old_holder\<rparr>)"

subsection \<open>The invariant of the slots\<close>

definition pool_inv :: "'f pool \<Rightarrow> bool" where
  "pool_inv p \<longleftrightarrow>
     (\<forall>i j t. i < length (po_holder p) \<and> j < length (po_holder p) \<and>
        po_holder p ! i = Some t \<and> po_holder p ! j = Some t \<longrightarrow> i = j) \<and>
     (\<forall>t. Some t \<in> set (po_holder p) \<longrightarrow> t \<in> set (po_group p) \<and> t \<notin> set (po_joined p)) \<and>
     (\<forall>t \<in> set (po_group p) \<union> set (po_joined p). t < po_next p) \<and> distinct (po_group p)"

lemma inv_one:
  "pool_inv p \<Longrightarrow> po_holder p ! i = Some t \<Longrightarrow> po_holder p ! j = Some t \<Longrightarrow> i < length (po_holder p) \<Longrightarrow>
   j < length (po_holder p) \<Longrightarrow> i = j"
  by (simp add: pool_inv_def)

lemma inv_held: "pool_inv p \<Longrightarrow> Some t \<in> set (po_holder p) \<Longrightarrow> t \<in> set (po_group p) \<and> t \<notin> set (po_joined p)"
  by (simp add: pool_inv_def)

lemma inv_numbers: "pool_inv p \<Longrightarrow> t \<in> set (po_group p) \<union> set (po_joined p) \<Longrightarrow> t < po_next p"
  by (simp add: pool_inv_def)

lemma inv_distinct: "pool_inv p \<Longrightarrow> distinct (po_group p)"
  by (simp add: pool_inv_def)

lemma pool_invI:
  assumes "\<And>i j t. po_holder p ! i = Some t \<Longrightarrow> po_holder p ! j = Some t \<Longrightarrow> i < length (po_holder p) \<Longrightarrow>
      j < length (po_holder p) \<Longrightarrow> i = j"
    and "\<And>t. Some t \<in> set (po_holder p) \<Longrightarrow> t \<in> set (po_group p) \<and> t \<notin> set (po_joined p)"
    and "\<And>t. t \<in> set (po_group p) \<union> set (po_joined p) \<Longrightarrow> t < po_next p" and "distinct (po_group p)"
  shows "pool_inv p"
  using assms unfolding pool_inv_def by blast

datatype 'f pool_op = Add_task nat 'f | Join_task nat | Stop_all | Wait_all | Resize nat

text \<open>A call that blocks is not over: the pool is as before it.\<close>

fun pool_step :: "(nat \<Rightarrow> bool) \<Rightarrow> 'f pool \<Rightarrow> 'f pool_op \<Rightarrow> 'f pool" where
  "pool_step fin p (Add_task i func) = add_task i func p"
| "pool_step fin p (Join_task i) = (case join_task_and_remove fin i p of Some p' \<Rightarrow> p' | None \<Rightarrow> p)"
| "pool_step fin p Stop_all = stop_all_tasks p"
| "pool_step fin p Wait_all = (case wait_all_tasks fin p of Some p' \<Rightarrow> p' | None \<Rightarrow> p)"
| "pool_step fin p (Resize n) = resize_max_threads n p"

definition pool_run :: "((nat \<Rightarrow> bool) \<times> 'f pool_op) list \<Rightarrow> 'f pool \<Rightarrow> 'f pool" where
  "pool_run ops p = foldl (\<lambda>p (fin, f). pool_step fin p f) p ops"

lemma resize_does_nothing: "resize_max_threads n p = p"
  by (simp add: resize_max_threads_def clear_task_holder_def Let_def)

lemma cleared_holder: "Some t \<notin> set (po_holder (clear_task_holder p))"
  by (auto simp: clear_task_holder_def vresize_def)

lemma length_cleared [simp]: "length (po_holder (clear_task_holder p)) = length (po_holder p)"
  by (simp add: clear_task_holder_def)

lemma cleared_fields [simp]:
  "po_group (clear_task_holder p) = po_group p" "po_next (clear_task_holder p) = po_next p"
  "po_joined (clear_task_holder p) = po_joined p" "po_tasks (clear_task_holder p) = po_tasks p"
  by (simp_all add: clear_task_holder_def)

lemma pool_inv_clear:
  assumes "\<forall>t \<in> set (po_group p) \<union> set (po_joined p). t < po_next p" and "distinct (po_group p)"
  shows "pool_inv (clear_task_holder p)"
  using assms cleared_holder [of _ p] unfolding pool_inv_def by (metis cleared_fields(1-3) nth_mem)

lemma pool_inv_add:
  assumes "pool_inv p"
  shows "pool_inv (add_task i func p)"
proof (cases "i < length (po_holder p) \<and> po_holder p ! i = None")
  case True
  have fresh: "po_next p \<notin> set (po_group p)" "po_next p \<notin> set (po_joined p)" "Some (po_next p) \<notin> set (po_holder p)"
    using assms by (auto simp: pool_inv_def)
  have "set ((po_holder p)[i := Some (po_next p)]) \<subseteq> insert (Some (po_next p)) (set (po_holder p))"
    by (rule set_update_subset_insert)
  then have held: "t \<in> insert (po_next p) (set (po_group p)) \<and> t \<notin> set (po_joined p)"
    if "Some t \<in> set ((po_holder p)[i := Some (po_next p)])" for t
    using that assms fresh(2) by (auto simp: pool_inv_def)
  have one: "k = j" if "k < length (po_holder p)" "j < length (po_holder p)"
      "(po_holder p)[i := Some (po_next p)] ! k = Some t" "(po_holder p)[i := Some (po_next p)] ! j = Some t" for k j t
    using that assms fresh(3) True
    by (auto simp: pool_inv_def nth_list_update split: if_splits) (metis nth_mem)+
  have "pool_inv (p\<lparr>po_group := po_group p @ [po_next p], po_holder := (po_holder p)[i := Some (po_next p)],
      po_next := po_next p + 1, po_tasks := po_tasks p @ [(po_next p, func)]\<rparr>)"
    using assms fresh(1) held one unfolding pool_inv_def by (auto simp: less_Suc_eq)
  then show ?thesis using True by (simp add: add_task_def)
qed (use assms in \<open>auto simp: add_task_def\<close>)

lemma pool_inv_join:
  assumes "pool_inv p" and "join_task_and_remove fin i p = Some p'"
  shows "pool_inv p'"
proof (cases "i < length (po_holder p) \<and> po_holder p ! i \<noteq> None")
  case True
  then obtain t where t: "i < length (po_holder p)" "po_holder p ! i = Some t" by blast
  then have p': "p' = p\<lparr>po_holder := (po_holder p)[i := None], po_joined := po_joined p @ [t],
      po_group := remove1 t (po_group p)\<rparr>"
    using assms(2) by (simp add: join_task_and_remove_def split: if_splits)
  have group: "t \<in> set (po_group p)" using inv_held [OF assms(1)] t by (metis nth_mem)
  have left: "set (remove1 t (po_group p)) = set (po_group p) - {t}"
    using inv_distinct [OF assms(1)] by (rule set_remove1_eq)
  have at: "k \<noteq> i \<and> po_holder p ! k = Some s" if "(po_holder p)[i := None] ! k = Some s" "k < length (po_holder p)" for k s
    using that by (cases "k = i") simp_all
  show ?thesis
  proof (rule pool_invI)
    fix k j s
    assume "po_holder p' ! k = Some s" "po_holder p' ! j = Some s" "k < length (po_holder p')" "j < length (po_holder p')"
    then show "k = j" using at inv_one [OF assms(1)] by (simp add: p')
  next
    fix s
    assume "Some s \<in> set (po_holder p')"
    then obtain k where k: "k < length (po_holder p)" "(po_holder p)[i := None] ! k = Some s"
      by (auto simp: p' in_set_conv_nth simp del: nth_list_update)
    note held = at [OF k(2,1)]
    then have "s \<noteq> t" using inv_one [OF assms(1) _ t(2) k(1) t(1)] by blast
    moreover have "s \<in> set (po_group p) \<and> s \<notin> set (po_joined p)"
      using inv_held [OF assms(1), of s] held k(1) by (metis nth_mem)
    ultimately show "s \<in> set (po_group p') \<and> s \<notin> set (po_joined p')" by (simp add: p' left)
  next
    fix s
    assume "s \<in> set (po_group p') \<union> set (po_joined p')"
    then show "s < po_next p'" using inv_numbers [OF assms(1)] group by (auto simp: p' left)
  next
    show "distinct (po_group p')" using inv_distinct [OF assms(1)] by (simp add: p')
  qed
qed (use assms in \<open>auto simp: join_task_and_remove_def split: if_splits\<close>)

lemma pool_inv_step:
  assumes "pool_inv p"
  shows "pool_inv (pool_step fin p f)"
proof (cases f)
  case (Join_task i)
  then show ?thesis using assms pool_inv_join [OF assms, of fin i] by (auto split: option.split)
next
  case Stop_all
  have "pool_inv (clear_task_holder (p\<lparr>po_interrupted := po_interrupted p @ po_group p\<rparr>))"
    using assms by (intro pool_inv_clear) (auto simp: pool_inv_def)
  then show ?thesis using Stop_all by (simp add: stop_all_tasks_def)
next
  case Wait_all
  have "pool_inv (clear_task_holder (p\<lparr>po_joined := po_joined p @ po_group p\<rparr>))"
    using assms by (intro pool_inv_clear) (auto simp: pool_inv_def)
  then show ?thesis using assms Wait_all by (simp add: wait_all_tasks_def)
qed (use assms pool_inv_add in \<open>auto simp: resize_does_nothing\<close>)

lemma slots_step: "length (po_holder (pool_step fin p f)) = length (po_holder p)"
  by (cases f) (auto simp: add_task_def join_task_and_remove_def stop_all_tasks_def wait_all_tasks_def
      resize_does_nothing split: option.splits)

lemma pool_run_inv:
  "pool_inv p \<Longrightarrow> pool_inv (pool_run ops p) \<and> length (po_holder (pool_run ops p)) = length (po_holder p)"
proof (induction ops arbitrary: p)
  case (Cons e ops)
  obtain fin f where e: "e = (fin, f)" by fastforce
  show ?case
    using Cons.IH [OF pool_inv_step [OF Cons.prems, of fin f]] slots_step [of fin p f] by (simp add: pool_run_def e)
qed (simp add: pool_run_def)

lemma new_pool_inv: "pool_inv (new_pool n)"
  by (rule pool_invI) (auto simp: new_pool_def)

subsection \<open>What the pool promises\<close>

lemma last_slot:
  "list_all (\<lambda>slot. case slot of Some t \<Rightarrow> ok t | None \<Rightarrow> True) slots \<Longrightarrow>
   foldl (\<lambda>state slot. case slot of Some t \<Rightarrow> ok t | None \<Rightarrow> state) start slots \<longleftrightarrow>
   start \<or> (\<exists>t. Some t \<in> set slots)"
  by (induction slots arbitrary: start) (auto split: option.splits)

text \<open>However a pool is used, it keeps the number of slots it was built with, no thread is held in
  two slots, and it says that it has unfinished tasks exactly when some slot is taken, even when the
  threads in the slots have all ended. That only the last slot decides does not show, because a slot
  never holds a joined thread.\<close>

theorem pool_unfinished_iff:
  "pool_inv (pool_run ops (new_pool n)) \<and> length (po_holder (pool_run ops (new_pool n))) = n \<and>
   (has_unfinished_task (pool_run ops (new_pool n)) \<longleftrightarrow> (\<exists>t. Some t \<in> set (po_holder (pool_run ops (new_pool n)))))"
proof -
  let ?p = "pool_run ops (new_pool n)"
  have inv: "pool_inv ?p \<and> length (po_holder ?p) = n"
    using pool_run_inv [OF new_pool_inv, of ops n] by (simp add: new_pool_def)
  then have "list_all (\<lambda>slot. case slot of Some t \<Rightarrow> t \<notin> set (po_joined ?p) | None \<Rightarrow> True) (po_holder ?p)"
    by (auto simp: list_all_iff pool_inv_def split: option.split)
  from last_slot [OF this, of False] inv show ?thesis by (simp add: has_unfinished_task_def)
qed

text \<open>A default-constructed pool has no slot and resizing gives it none: it never runs a task.\<close>

theorem default_pool_runs_nothing:
  "po_tasks (pool_run ops default_pool) = []"
proof -
  have "po_holder p = [] \<Longrightarrow> po_holder (pool_run ops p) = [] \<and> po_tasks (pool_run ops p) = po_tasks p" for p :: "'a pool"
  proof (induction ops arbitrary: p)
    case (Cons e ops)
    obtain fin f where e: "e = (fin, f)" by fastforce
    have "po_holder (pool_step fin p f) = [] \<and> po_tasks (pool_step fin p f) = po_tasks p"
      using Cons.prems slots_step [of fin p f]
      by (cases f) (auto simp: add_task_def join_task_and_remove_def stop_all_tasks_def wait_all_tasks_def
          resize_does_nothing clear_task_holder_def vresize_def)
    then show ?case using Cons.IH [of "pool_step fin p f"] by (simp add: pool_run_def e)
  qed (simp add: pool_run_def)
  then show ?thesis by (simp add: default_pool_def new_pool_def)
qed

text \<open>Stopping interrupts the threads but does not wait for them: the slots are free while they run, and
  more threads than slots can run at once.\<close>

lemma stop_breaks_limit:
  "po_group (pool_run [(fin, Add_task 0 f), (fin, Stop_all), (fin, Add_task 0 g)] (new_pool 1)) = [0, 1]"
  by (simp add: pool_run_def new_pool_def add_task_def stop_all_tasks_def clear_task_holder_def vresize_def)

end
