(* ===== verification/Mongoose_Text.thy ===== *)
theory Mongoose_Text
  imports Http_Utility
begin

section \<open>The web server's text routines\<close>

text \<open>
  The string helpers of \<open>src/src/common/network/details/mongoose.c\<close> that the request path runs
  on: case-insensitive comparison, word splitting, option lists, glob patterns, URL coding and
  the removal of parent directories from a path.

  A C string is the list of its characters before the terminator, so that \<open>deref []\<close> is the
  terminator; a pointer into a string is a suffix of it. A \<open>struct vec\<close> is the suffix it points
  to and a length.
\<close>

abbreviation NUL :: char where "NUL \<equiv> CHR 0x00"

definition cstr :: "string \<Rightarrow> string" where
  "cstr bytes = takeWhile (\<lambda>c. c \<noteq> NUL) bytes"

definition deref :: "string \<Rightarrow> char" where
  "deref s = (case s of [] \<Rightarrow> NUL | c # _ \<Rightarrow> c)"

lemma deref_simps [simp]: "deref [] = NUL" "deref (c # s) = c"
  by (simp_all add: deref_def)

lemma cstr_id: "NUL \<notin> set s \<Longrightarrow> cstr s = s"
  by (auto simp: cstr_def takeWhile_eq_all_conv)

lemma NUL_notin_cstr: "NUL \<notin> set (cstr s)"
  by (auto simp: cstr_def dest: set_takeWhileD)

subsection \<open>Copies and comparisons\<close>

text \<open>What \<open>mg_strlcpy\<close> writes to \<open>dst\<close>, terminator included.\<close>

fun mg_strlcpy :: "string \<Rightarrow> nat \<Rightarrow> string" where
  "mg_strlcpy [] n = [NUL]"
| "mg_strlcpy (c # src) n = (if 1 < n then c # mg_strlcpy src (n - 1) else [NUL])"

text \<open>The C string that \<open>mg_strndup\<close> allocates; \<open>malloc\<close> does not fail.\<close>

definition mg_strndup :: "string \<Rightarrow> nat \<Rightarrow> string" where
  "mg_strndup ptr len = cstr (mg_strlcpy ptr (len + 1))"

definition mg_strdup :: "string \<Rightarrow> string" where
  "mg_strdup str = mg_strndup str (length str)"

text \<open>Writing bytes into a buffer of fixed size.\<close>

definition overwrite :: "string \<Rightarrow> nat \<Rightarrow> string \<Rightarrow> string" where
  "overwrite buf pos bs = take pos buf @ bs @ drop (pos + length bs) buf"

lemma length_overwrite [simp]: "pos + length bs \<le> length buf \<Longrightarrow> length (overwrite buf pos bs) = length buf"
  by (simp add: overwrite_def)

lemma take_overwrite: "pos \<le> length buf \<Longrightarrow> take (pos + length bs) (overwrite buf pos bs) = take pos buf @ bs"
  by (simp add: overwrite_def)

definition lowercase :: "char \<Rightarrow> int" where
  "lowercase c = (let b = of_char c in if 65 \<le> b \<and> b \<le> 90 then b + 32 else b)"

fun mg_strncasecmp :: "string \<Rightarrow> string \<Rightarrow> nat \<Rightarrow> int" where
  "mg_strncasecmp s1 s2 0 = 0"
| "mg_strncasecmp s1 s2 (Suc n) =
     (let diff = lowercase (deref s1) - lowercase (deref s2)
      in if diff = 0 \<and> deref s1 \<noteq> NUL then mg_strncasecmp (tl s1) (tl s2) n else diff)"

fun mg_strcasecmp :: "string \<Rightarrow> string \<Rightarrow> int" where
  "mg_strcasecmp [] s2 = lowercase NUL - lowercase (deref s2)"
| "mg_strcasecmp (c # s1) s2 =
     (let diff = lowercase c - lowercase (deref s2)
      in if diff = 0 \<and> c \<noteq> NUL then mg_strcasecmp s1 (tl s2) else diff)"

subsection \<open>Splitting words and options\<close>

text \<open>
  \<open>skip_quoted\<close> returns the word at the start of the buffer and what is left. A delimiter after
  the quote character belongs to the word, and the quote character is removed.
\<close>

function quoted_word :: "(char \<Rightarrow> bool) \<Rightarrow> char \<Rightarrow> string \<Rightarrow> string \<Rightarrow> string \<times> string" where
  "quoted_word delimiters quotechar w rest =
     (if w \<noteq> [] \<and> last w = quotechar
      then case rest of
             [] \<Rightarrow> (butlast w, [])
           | d # r \<Rightarrow> quoted_word delimiters quotechar
                        (butlast w @ d # takeWhile (\<lambda>c. \<not> delimiters c) r)
                        (dropWhile (\<lambda>c. \<not> delimiters c) r)
      else (w, rest))"
  by pat_completeness auto
termination
  by (relation "measure (\<lambda>(_, _, _, rest). length rest)")
     (auto simp: less_Suc_eq_le length_dropWhile_le)

declare quoted_word.simps [simp del]

definition skip_quoted :: "string \<Rightarrow> string \<Rightarrow> string \<Rightarrow> char \<Rightarrow> string \<times> string" where
  "skip_quoted buf delimiters whitespace quotechar =
     (let is_delim = (\<lambda>c. c \<in> set delimiters);
          (word, rest) = quoted_word is_delim quotechar
                           (takeWhile (\<lambda>c. \<not> is_delim c) buf) (dropWhile (\<lambda>c. \<not> is_delim c) buf)
      in case rest of
           [] \<Rightarrow> (word, [])
         | _ # r \<Rightarrow> (word, dropWhile (\<lambda>c. c \<in> set whitespace) r))"

definition skip :: "string \<Rightarrow> string \<Rightarrow> string \<times> string" where
  "skip buf delimiters = skip_quoted buf delimiters delimiters NUL"

record vec =
  vec_ptr :: string
  vec_len :: nat

definition vec_str :: "vec \<Rightarrow> string" where
  "vec_str v = take (vec_len v) (vec_ptr v)"

text \<open>
  One step over a comma separated list: the rest of the list, the value, and, where the caller
  asks for it, the part after the equals sign. \<open>None\<close> is the end of the list.
\<close>

definition next_option :: "bool \<Rightarrow> string option \<Rightarrow> (string \<times> vec \<times> vec option) option" where
  "next_option wants_eq list =
     (case list of
        None \<Rightarrow> None
      | Some [] \<Rightarrow> None
      | Some s \<Rightarrow>
          let n = length (takeWhile (\<lambda>c. c \<noteq> CHR '','') s);
              rest = (if n < length s then drop (Suc n) s else [])
          in Some (case (if wants_eq then find_first_of CHR ''='' (take n s) else None) of
                     None \<Rightarrow> (rest, \<lparr>vec_ptr = s, vec_len = n\<rparr>, None)
                   | Some i \<Rightarrow> (rest, \<lparr>vec_ptr = s, vec_len = i\<rparr>,
                               Some \<lparr>vec_ptr = drop (Suc i) s, vec_len = n - Suc i\<rparr>)))"

text \<open>The loop \<open>while ((list = next_option(list, ...)) != NULL)\<close>: the values it sees.\<close>

lemma next_option_shorter:
  "next_option w (Some s) = Some (rest, v) \<Longrightarrow> length rest < length s"
  by (auto simp: next_option_def Let_def split: list.splits option.splits if_splits)

function each_option :: "bool \<Rightarrow> string \<Rightarrow> (vec \<times> vec option) list" where
  "each_option w s =
     (case next_option w (Some s) of
        None \<Rightarrow> []
      | Some (rest, v) \<Rightarrow> v # each_option w rest)"
  by pat_completeness auto
termination
  by (relation "measure (\<lambda>(_, s). length s)") (auto dest: next_option_shorter)

declare each_option.simps [simp del]

subsection \<open>Glob patterns\<close>

text \<open>
  \<open>match_prefix\<close> on the pattern's characters within its length; a result of -1 is no match. The
  character after the pattern is a bar, a list separator or a terminator, never an asterisk.
  \<open>match_loop\<close> is the loop over the pattern with the matched length \<open>j\<close>, and \<open>match_star\<close> the
  retries with ever shorter spans.
\<close>

definition alt_split :: "string \<Rightarrow> (string \<times> string) option" where
  "alt_split pattern =
     (case find_first_of CHR ''|'' pattern of
        None \<Rightarrow> None
      | Some i \<Rightarrow> Some (take i pattern, drop (Suc i) pattern))"

lemma alt_split_shorter:
  "alt_split p = Some (l, r) \<Longrightarrow> length l < length p \<and> length r < length p"
  by (auto simp: alt_split_def split: option.splits dest!: find_first_of_bound)

definition star_rest :: "string \<Rightarrow> string \<Rightarrow> string \<times> nat" where
  "star_rest p str =
     (if p \<noteq> [] \<and> hd p = CHR ''*'' then (tl p, length str)
      else (p, length (takeWhile (\<lambda>c. c \<noteq> CHR ''/'') str)))"

lemma star_rest_length: "length (fst (star_rest p str)) \<le> length p"
  by (simp add: star_rest_def)

function match_prefix :: "string \<Rightarrow> string \<Rightarrow> int"
  and match_loop :: "string \<Rightarrow> string \<Rightarrow> int \<Rightarrow> int"
  and match_star :: "string \<Rightarrow> string \<Rightarrow> nat \<Rightarrow> int \<Rightarrow> int" where
  "match_prefix pattern str =
     (case alt_split pattern of
        Some (l, r) \<Rightarrow> (let res = match_prefix l str in if res > 0 then res else match_prefix r str)
      | None \<Rightarrow> match_loop pattern str 0)"
| "match_loop [] str j = j"
| "match_loop (x # p) str j =
     (if x = CHR ''?'' \<and> str \<noteq> [] then match_loop p (tl str) (j + 1)
      else if x = CHR ''$'' then (if str = [] then j else -1)
      else if x = CHR ''*'' then
        (let q = fst (star_rest p str); len = snd (star_rest p str)
         in if q = [] then j + int len else match_star q str len j)
      else if str = [] \<or> x \<noteq> hd str then -1
      else match_loop p (tl str) (j + 1))"
| "match_star q str len j =
     (let res = match_prefix q (drop len str)
      in if res \<noteq> -1 then j + res + int len
         else if 0 < len then match_star q str (len - 1) j
         else -1)"
  by pat_completeness auto
termination
  by (relation "inv_image (less_than <*lex*> less_than <*lex*> less_than)
        (\<lambda>x. case x of Inl (p, s) \<Rightarrow> (length p, 1::nat, 0::nat)
                     | Inr (Inl (p, s, j)) \<Rightarrow> (length p, 0, 0)
                     | Inr (Inr (q, s, n, j)) \<Rightarrow> (length q, 2, n))")
     (auto dest: alt_split_shorter simp: le_imp_less_Suc star_rest_length)

declare match_prefix.simps [simp del] match_loop.simps(2) [simp del] match_star.simps [simp del]

text \<open>
  What a pattern without alternatives means: \<open>glob p s n\<close> holds when \<open>p\<close> matches the first \<open>n\<close>
  characters of \<open>s\<close>. A question mark is any character, a dollar the end of the string, an
  asterisk any run without a slash, a double asterisk any run.
\<close>

inductive glob :: "string \<Rightarrow> string \<Rightarrow> nat \<Rightarrow> bool" where
  glob_done: "glob [] s 0"
| glob_any: "glob p s n \<Longrightarrow> glob (CHR ''?'' # p) (c # s) (Suc n)"
| glob_end: "glob (CHR ''$'' # p) [] 0"
| glob_char: "x \<notin> {CHR ''?'', CHR ''$'', CHR ''*''} \<Longrightarrow> glob p s n \<Longrightarrow> glob (x # p) (x # s) (Suc n)"
| glob_segment: "p = [] \<or> hd p \<noteq> CHR ''*'' \<Longrightarrow> k \<le> length s \<Longrightarrow> CHR ''/'' \<notin> set (take k s) \<Longrightarrow>
    glob p (drop k s) n \<Longrightarrow> glob (CHR ''*'' # p) s (k + n)"
| glob_deep: "k \<le> length s \<Longrightarrow> glob p (drop k s) n \<Longrightarrow> glob (CHR ''*'' # CHR ''*'' # p) s (k + n)"

inductive_simps glob_Nil [simp]: "glob [] s n"
inductive_simps glob_Cons: "glob (x # p) s n"

lemma takeWhile_length_iff:
  "k \<le> length (takeWhile P s) \<longleftrightarrow> k \<le> length s \<and> (\<forall>c \<in> set (take k s). P c)"
proof (induction s arbitrary: k)
  case (Cons a s)
  then show ?case by (cases k) auto
qed simp

definition star_span :: "string \<Rightarrow> string \<Rightarrow> nat \<Rightarrow> nat \<Rightarrow> bool" where
  "star_span q str len n \<longleftrightarrow> (\<exists>k m. k \<le> len \<and> n = k + m \<and> glob q (drop k str) m)"

lemma glob_star:
  "glob (CHR ''*'' # p) s n \<longleftrightarrow> star_span (fst (star_rest p s)) s (snd (star_rest p s)) n"
proof (cases "p \<noteq> [] \<and> hd p = CHR ''*''")
  case True
  then obtain q where "p = CHR ''*'' # q" by (cases p) auto
  then show ?thesis by (auto simp: glob_Cons star_rest_def star_span_def)
next
  case False
  then have "glob (CHR ''*'' # p) s n \<longleftrightarrow>
      (\<exists>k m. n = k + m \<and> k \<le> length s \<and> CHR ''/'' \<notin> set (take k s) \<and> glob p (drop k s) m)"
    by (auto simp: glob_Cons)
  also have "\<dots> \<longleftrightarrow> star_span p s (length (takeWhile (\<lambda>c. c \<noteq> CHR ''/'') s)) n"
    unfolding star_span_def takeWhile_length_iff by metis
  finally show ?thesis using False by (auto simp: star_rest_def)
qed

text \<open>A result decides a set of match lengths; zero is only answered when no match is longer.\<close>

definition decides :: "(nat \<Rightarrow> bool) \<Rightarrow> int \<Rightarrow> bool" where
  "decides G r \<longleftrightarrow>
     (r = -1 \<and> (\<forall>n. \<not> G n)) \<or> (\<exists>n. r = int n \<and> G n \<and> (n = 0 \<longrightarrow> (\<forall>m. G m \<longrightarrow> m = 0)))"

definition from_pos :: "int \<Rightarrow> int \<Rightarrow> int" where
  "from_pos j r = (if r = -1 then -1 else j + r)"

lemma from_pos_simps [simp]: "from_pos j (-1) = -1" "from_pos j (int n) = j + int n"
  "from_pos 0 r = r" "from_pos j 0 = j"
  by (simp_all add: from_pos_def)

lemma decides_none: "(\<And>n. \<not> G n) \<Longrightarrow> decides G (-1)"
  by (simp add: decides_def)

lemma decides_some: "G n \<Longrightarrow> (\<And>m. n = 0 \<Longrightarrow> G m \<Longrightarrow> m = 0) \<Longrightarrow> decides G (int n)"
  by (auto simp: decides_def)

lemma decidesE:
  assumes "decides G r"
  obtains "r = -1" "\<And>n. \<not> G n"
  | n where "r = int n" "G n" "\<And>m. n = 0 \<Longrightarrow> G m \<Longrightarrow> m = 0"
  using assms by (auto simp: decides_def)

text \<open>One matched character shifts the position by one.\<close>

lemma decides_step:
  assumes "\<exists>r. decides G r \<and> res = from_pos (j + 1) r"
    and "\<And>n. H n \<longleftrightarrow> (\<exists>m. n = Suc m \<and> G m)"
  shows "\<exists>r. decides H r \<and> res = from_pos j r"
proof -
  obtain r where r: "decides G r" "res = from_pos (j + 1) r" using assms(1) by blast
  from r(1) show ?thesis
  proof (cases rule: decidesE)
    case 1
    then have "decides H (-1)" using assms(2) by (intro decides_none) auto
    with 1 r(2) show ?thesis by force
  next
    case (2 n)
    then have "decides H (int (Suc n))" using assms(2) by (intro decides_some) auto
    moreover have "res = from_pos j (int (Suc n))" unfolding r(2) 2(1) from_pos_simps by simp
    ultimately show ?thesis by blast
  qed
qed

lemma star_span_0: "star_span q str 0 = glob q str"
  by (auto simp: star_span_def fun_eq_iff)

text \<open>A failed try at the longest span leaves the shorter ones.\<close>

lemma star_span_shrink:
  assumes "0 < len" and "\<And>n. \<not> glob q (drop len str) n"
  shows "star_span q str len = star_span q str (len - 1)"
proof
  fix n
  show "star_span q str len n = star_span q str (len - 1) n"
  proof
    assume "star_span q str len n"
    then obtain k m where km: "k \<le> len" "n = k + m" "glob q (drop k str) m"
      by (auto simp: star_span_def)
    with assms have "k \<noteq> len" by auto
    with km show "star_span q str (len - 1) n" unfolding star_span_def
      by (intro exI [of _ k] exI [of _ m]) auto
  next
    assume "star_span q str (len - 1) n"
    then obtain k m where "k \<le> len - 1" "n = k + m" "glob q (drop k str) m"
      by (auto simp: star_span_def)
    then show "star_span q str len n" unfolding star_span_def
      by (intro exI [of _ k] exI [of _ m]) auto
  qed
qed

lemma alt_split_None: "alt_split p = None \<longleftrightarrow> CHR ''|'' \<notin> set p"
  unfolding alt_split_def find_first_of_None [symmetric] by (simp split: option.split)

lemma match_decides:
  "CHR ''|'' \<notin> set p \<Longrightarrow> decides (glob p s) (match_prefix p s)"
  "CHR ''|'' \<notin> set q \<Longrightarrow> \<exists>r. decides (glob q t) r \<and> match_loop q t j = from_pos j r"
  "CHR ''|'' \<notin> set u \<Longrightarrow> \<exists>r. decides (star_span u v len) r \<and> match_star u v len i = from_pos i r"
proof (induction p s and q t j and u v len i rule: match_prefix_match_loop_match_star.induct)
  case (1 pattern str)
  have "alt_split pattern = None" using 1(4) by (simp only: alt_split_None not_False_eq_True)
  with 1 obtain r where "decides (glob pattern str) r" "match_loop pattern str 0 = from_pos 0 r"
    by auto
  with \<open>alt_split pattern = None\<close> show ?case by (simp add: match_prefix.simps)
next
  case (2 str j)
  have "decides (glob [] str) (int 0)" by (intro decides_some) auto
  then show ?case by (intro exI [of _ "int 0"]) (simp del: glob_Nil)
next
  case (3 x p str j)
  have bar: "CHR ''|'' \<notin> set p" using 3(4) by simp
  consider (any) "x = CHR ''?''" "str \<noteq> []" | (dollar) "x = CHR ''$''" | (star) "x = CHR ''*''"
    | (fail) "x \<noteq> CHR ''$''" "x \<noteq> CHR ''*''" "\<not> (x = CHR ''?'' \<and> str \<noteq> [])" "str = [] \<or> x \<noteq> hd str"
    | (char) "x \<noteq> CHR ''$''" "x \<noteq> CHR ''*''" "\<not> (x = CHR ''?'' \<and> str \<noteq> [])" "str \<noteq> []" "x = hd str"
    by blast
  then show ?case
  proof cases
    case any
    then have e: "match_loop (x # p) str j = match_loop p (tl str) (j + 1)"
      by (simp add: match_loop.simps)
    have "\<exists>r. decides (glob p (tl str)) r \<and> match_loop p (tl str) (j + 1) = from_pos (j + 1) r"
      by (rule 3(1)) (use any bar in auto)
    then show ?thesis unfolding e
      by (rule decides_step) (use any in \<open>cases str; auto simp: glob_Cons\<close>)
  next
    case dollar
    show ?thesis
    proof (cases "str = []")
      case True
      have "decides (glob (x # p) str) (int 0)"
        using dollar True by (intro decides_some) (auto simp: glob_Cons)
      then show ?thesis using dollar True by (intro exI [of _ "int 0"]) (simp add: match_loop.simps)
    next
      case False
      then have "decides (glob (x # p) str) (-1)"
        using dollar by (intro decides_none) (auto simp: glob_Cons)
      then show ?thesis using dollar False by (intro exI [of _ "-1"]) (simp add: match_loop.simps)
    qed
  next
    case star
    let ?q = "fst (star_rest p str)" and ?len = "snd (star_rest p str)"
    have G: "glob (x # p) str = star_span ?q str ?len" using star by (auto simp: glob_star)
    show ?thesis
    proof (cases "?q = []")
      case True
      have "decides (star_span ?q str ?len) (int ?len)"
        using True by (intro decides_some) (auto simp: star_span_def)
      moreover have "match_loop (x # p) str j = from_pos j (int ?len)"
        using star True by (simp add: match_loop.simps)
      ultimately show ?thesis unfolding G by blast
    next
      case False
      have "set ?q \<subseteq> set p" by (cases p) (auto simp: star_rest_def)
      then have "\<exists>r. decides (star_span ?q str ?len) r \<and> match_star ?q str ?len j = from_pos j r"
        using 3(2)[OF _ _ star refl refl False] star bar by auto
      moreover have "match_loop (x # p) str j = match_star ?q str ?len j"
        using star False by (simp add: match_loop.simps)
      ultimately show ?thesis unfolding G by simp
    qed
  next
    case fail
    have "decides (glob (x # p) str) (-1)"
      using fail by (intro decides_none) (auto simp: glob_Cons)
    then show ?thesis using fail by (intro exI [of _ "-1"]) (auto simp: match_loop.simps)
  next
    case char
    have e: "match_loop (x # p) str j = match_loop p (tl str) (j + 1)"
      using char by (auto simp: match_loop.simps)
    have "\<exists>r. decides (glob p (tl str)) r \<and> match_loop p (tl str) (j + 1) = from_pos (j + 1) r"
      by (rule 3(3)) (use char bar in auto)
    then show ?thesis unfolding e
      by (rule decides_step) (use char in \<open>cases str; auto simp: glob_Cons\<close>)
  qed
next
  case (4 q str len j)
  have d: "decides (glob q (drop len str)) (match_prefix q (drop len str))" by (rule 4(1)) (rule 4(3))
  then show ?case
  proof (cases rule: decidesE)
    case 1
    show ?thesis
    proof (cases "0 < len")
      case True
      have "\<exists>r. decides (star_span q str (len - 1)) r \<and> match_star q str (len - 1) j = from_pos j r"
        by (rule 4(2)) (use 1 True 4(3) in auto)
      moreover have "match_star q str len j = match_star q str (len - 1) j"
        using 1 True by (subst match_star.simps) simp
      ultimately show ?thesis using star_span_shrink [OF True 1(2)] by simp
    next
      case False
      then have "decides (star_span q str len) (-1)"
        using 1 by (intro decides_none) (auto simp: star_span_def)
      moreover have "match_star q str len j = from_pos j (-1)"
        using 1 False by (subst match_star.simps) simp
      ultimately show ?thesis by blast
    qed
  next
    case (2 n)
    have "star_span q str len (len + n)" using 2(2) by (auto simp: star_span_def)
    moreover have "m = 0" if "len + n = 0" "star_span q str len m" for m
      using that 2 by (auto simp: star_span_def)
    ultimately have "decides (star_span q str len) (int (len + n))" by (rule decides_some)
    moreover have "match_star q str len j = from_pos j (int (len + n))"
      unfolding from_pos_simps using 2(1) by (subst match_star.simps) simp
    ultimately show ?thesis by blast
  qed
qed

text \<open>The alternatives of a pattern, between its bars.\<close>

fun alternatives :: "string \<Rightarrow> string list" where
  "alternatives [] = [[]]"
| "alternatives (c # p) =
     (if c = CHR ''|'' then [] # alternatives p
      else (c # hd (alternatives p)) # tl (alternatives p))"

lemma alternatives_nonempty [simp]: "alternatives p \<noteq> []"
  by (induction p) auto

lemma alternatives_bar_free: "a \<in> set (alternatives p) \<Longrightarrow> CHR ''|'' \<notin> set a"
proof (induction p arbitrary: a)
  case (Cons c p)
  have "hd (alternatives p) \<in> set (alternatives p)" by simp
  moreover have "set (tl (alternatives p)) \<subseteq> set (alternatives p)" by (cases "alternatives p") auto
  ultimately show ?case using Cons by (auto split: if_splits)
qed simp

lemma alternatives_single: "CHR ''|'' \<notin> set p \<Longrightarrow> alternatives p = [p]"
  by (induction p) auto

lemma alternatives_split: "alt_split p = Some (l, r) \<Longrightarrow> alternatives p = l # alternatives r"
proof (induction p arbitrary: l)
  case (Cons c p)
  show ?case
  proof (cases "c = CHR ''|''")
    case True
    with Cons.prems show ?thesis by (simp add: alt_split_def)
  next
    case False
    with Cons.prems obtain i where "find_first_of CHR ''|'' p = Some i"
      "l = c # take i p" "r = drop (Suc i) p"
      by (auto simp: alt_split_def split: option.splits)
    moreover from this have "alt_split p = Some (take i p, r)" by (simp add: alt_split_def)
    ultimately show ?thesis using Cons.IH [of "take i p"] False by simp
  qed
qed (simp add: alt_split_def)

lemma match_single_positive:
  assumes "CHR ''|'' \<notin> set p"
  shows "0 < match_prefix p s \<longleftrightarrow> (\<exists>n > 0. glob p s n)"
  using match_decides(1) [OF assms, of s]
proof (cases rule: decidesE)
  case (2 n)
  then show ?thesis by (cases "n = 0") auto
qed auto

lemma match_alternatives:
  "0 < match_prefix p s \<longleftrightarrow> (\<exists>a \<in> set (alternatives p). 0 < match_prefix a s)"
proof (induction p rule: length_induct)
  case (1 p)
  show ?case
  proof (cases "alt_split p")
    case None
    then show ?thesis by (simp add: alt_split_None alternatives_single)
  next
    case (Some lr)
    then obtain l r where lr: "alt_split p = Some (l, r)" by (cases lr) auto
    then have "length r < length p" by (simp add: alt_split_shorter)
    with 1 have "0 < match_prefix r s \<longleftrightarrow> (\<exists>a \<in> set (alternatives r). 0 < match_prefix a s)"
      by simp
    moreover have "0 < match_prefix p s \<longleftrightarrow> 0 < match_prefix l s \<or> 0 < match_prefix r s"
      by (subst match_prefix.simps) (simp add: lr Let_def)
    ultimately show ?thesis by (simp add: alternatives_split [OF lr])
  qed
qed

text \<open>C32. The test that every caller makes of a pattern: \<open>match_prefix\<close> returns a positive number
  exactly when some alternative of the pattern matches a non-empty prefix of the string. The
  backtracking over asterisks misses no match, and never loops.
\<close>

theorem match_prefix_positive:
  "0 < match_prefix p s \<longleftrightarrow> (\<exists>a \<in> set (alternatives p). \<exists>n > 0. glob a s n)"
  using match_alternatives [of p s] match_single_positive alternatives_bar_free by blast

lemma glob_bound: "glob p s n \<Longrightarrow> n \<le> length s"
  by (induction rule: glob.induct) auto

lemma match_prefix_bound: "match_prefix p s \<le> int (length s)"
proof (induction p rule: length_induct)
  case (1 p)
  show ?case
  proof (cases "alt_split p")
    case None
    then have "decides (glob p s) (match_prefix p s)"
      by (simp add: alt_split_None match_decides(1))
    then show ?thesis by (cases rule: decidesE) (auto dest: glob_bound)
  next
    case (Some lr)
    then obtain l r where lr: "alt_split p = Some (l, r)" by (cases lr) auto
    then have "match_prefix l s \<le> int (length s)" "match_prefix r s \<le> int (length s)"
      using 1 alt_split_shorter by blast+
    then show ?thesis by (subst match_prefix.simps) (simp add: lr Let_def)
  qed
qed

subsection \<open>Lemmas on comparisons, words and options\<close>

lemma lowercase_NUL [simp]: "lowercase NUL = 0"
  by (simp add: lowercase_def)

lemma lowercase_eq_0: "lowercase c = 0 \<longleftrightarrow> c = NUL"
proof
  assume "lowercase c = 0"
  moreover have "0 \<le> (of_char c :: int)" by (metis of_nat_0_le_iff of_nat_of_char)
  ultimately have "of_char c = (0 :: int)"
    by (auto simp: lowercase_def Let_def split: if_splits)
  then have "of_char c = (of_char NUL :: int)" by simp
  then show "c = NUL" by (simp only: of_char_eq_iff)
qed simp

lemma takeWhile_stop: "\<forall>c \<in> set w. P c \<Longrightarrow> \<not> P d \<Longrightarrow> takeWhile P (w @ d # r) = w"
  by (induction w) auto

lemma dropWhile_stop: "\<forall>c \<in> set w. P c \<Longrightarrow> \<not> P d \<Longrightarrow> dropWhile P (w @ d # r) = d # r"
  by (induction w) auto

lemma mg_strcasecmp_eq:
  "NUL \<notin> set a \<Longrightarrow> NUL \<notin> set b \<Longrightarrow> mg_strcasecmp a b = 0 \<longleftrightarrow> map lowercase a = map lowercase b"
proof (induction a arbitrary: b)
  case Nil
  then show ?case by (cases b) (auto simp: lowercase_eq_0)
next
  case (Cons c a)
  then show ?case by (cases b) (auto simp: Let_def lowercase_eq_0)
qed

lemma mg_strncasecmp_eq:
  "NUL \<notin> set a \<Longrightarrow> NUL \<notin> set b \<Longrightarrow> length a = n \<Longrightarrow>
   mg_strncasecmp a b n = 0 \<longleftrightarrow> map lowercase a = map lowercase (take n b)"
proof (induction n arbitrary: a b)
  case (Suc n)
  then show ?case by (cases a; cases b) (auto simp: Let_def lowercase_eq_0)
qed simp

lemma mg_strlcpy_length: "length (mg_strlcpy src n) \<le> max 1 n"
  by (induction src n rule: mg_strlcpy.induct) auto

lemma mg_strlcpy_take: "0 < n \<Longrightarrow> mg_strlcpy src n = take (n - 1) src @ [NUL]"
proof (induction src n rule: mg_strlcpy.induct)
  case (2 c src n)
  show ?case
  proof (cases "1 < n")
    case True
    then obtain m where "n = Suc (Suc m)" using less_imp_Suc_add [of 1 n] by auto
    with 2 show ?thesis by simp
  next
    case False
    with 2(2) have "n = 1" by simp
    then show ?thesis by simp
  qed
qed simp

lemma mg_strdup_id: "NUL \<notin> set s \<Longrightarrow> mg_strdup s = s"
  unfolding mg_strdup_def mg_strndup_def cstr_def
  by (simp add: mg_strlcpy_take takeWhile_stop) (auto intro!: takeWhile_stop)

lemma quoted_word_plain: "w = [] \<or> last w \<noteq> quotechar \<Longrightarrow> quoted_word d quotechar w rest = (w, rest)"
  by (subst quoted_word.simps) auto

lemma skip_word:
  assumes w: "\<forall>c \<in> set w. c \<notin> set ds \<and> c \<noteq> NUL" and d: "d \<in> set ds"
  shows "skip_quoted (w @ d # r) ds ws NUL = (w, dropWhile (\<lambda>c. c \<in> set ws) r)"
proof -
  have ne: "w = [] \<or> last w \<noteq> NUL" using w by (meson last_in_set)
  have tw: "takeWhile (\<lambda>c. c \<notin> set ds) (w @ d # r) = w" using w d by (intro takeWhile_stop) blast+
  have dw: "dropWhile (\<lambda>c. c \<notin> set ds) (w @ d # r) = d # r" using w d by (intro dropWhile_stop) blast+
  show ?thesis unfolding skip_quoted_def Let_def tw dw quoted_word_plain [OF ne] by simp
qed

lemma skip_last_word:
  assumes w: "\<forall>c \<in> set w. c \<notin> set ds \<and> c \<noteq> NUL"
  shows "skip_quoted w ds ws NUL = (w, [])"
proof -
  have ne: "w = [] \<or> last w \<noteq> NUL" using w by (meson last_in_set)
  have tw: "takeWhile (\<lambda>c. c \<notin> set ds) w = w" using w by (subst takeWhile_eq_all_conv) blast
  have dw: "dropWhile (\<lambda>c. c \<notin> set ds) w = []" using w by (subst dropWhile_eq_Nil_conv) blast
  show ?thesis unfolding skip_quoted_def Let_def tw dw quoted_word_plain [OF ne] by simp
qed

text \<open>A list of values written the way an option expects it.\<close>

fun join_options :: "string list \<Rightarrow> string" where
  "join_options [] = []"
| "join_options [v] = v"
| "join_options (v # vs) = v @ CHR '','' # join_options vs"

lemma each_option_Nil [simp]: "each_option w [] = []"
  by (subst each_option.simps) (simp add: next_option_def)

lemma next_option_plain:
  "s \<noteq> [] \<Longrightarrow> next_option False (Some s) =
     (let n = length (takeWhile (\<lambda>c. c \<noteq> CHR '','') s)
      in Some (if n < length s then drop (Suc n) s else [], \<lparr>vec_ptr = s, vec_len = n\<rparr>, None))"
  by (cases s) (simp_all add: next_option_def Let_def)

lemma next_option_first:
  assumes "CHR '','' \<notin> set v" and "v = [] \<longrightarrow> r \<noteq> None"
  shows "next_option False (Some (v @ (case r of None \<Rightarrow> [] | Some t \<Rightarrow> CHR '','' # t))) =
    Some (case r of None \<Rightarrow> [] | Some t \<Rightarrow> t,
      \<lparr>vec_ptr = v @ (case r of None \<Rightarrow> [] | Some t \<Rightarrow> CHR '','' # t), vec_len = length v\<rparr>, None)"
proof (cases r)
  case None
  moreover have "takeWhile (\<lambda>c. c \<noteq> CHR '','') v = v"
    using assms(1) by (subst takeWhile_eq_all_conv) auto
  ultimately show ?thesis using assms(2) by (cases v) (simp_all add: next_option_def)
next
  case (Some t)
  have "takeWhile (\<lambda>c. c \<noteq> CHR '','') (v @ CHR '','' # t) = v"
    using assms(1) by (intro takeWhile_stop) auto
  with Some show ?thesis by (simp add: next_option_plain Let_def)
qed

lemma each_option_join:
  "\<forall>v \<in> set vs. CHR '','' \<notin> set v \<Longrightarrow> vs \<noteq> [] \<longrightarrow> last vs \<noteq> [] \<Longrightarrow>
   map (\<lambda>(v, _). vec_str v) (each_option False (join_options vs)) = vs"
proof (induction vs rule: join_options.induct)
  case (2 v)
  then have "next_option False (Some v) = Some ([], \<lparr>vec_ptr = v, vec_len = length v\<rparr>, None)"
    using next_option_first [of v None] by simp
  then show ?case by (simp add: each_option.simps [of False v] vec_str_def)
next
  case (3 v w vs)
  let ?t = "join_options (w # vs)"
  have "next_option False (Some (v @ CHR '','' # ?t)) =
      Some (?t, \<lparr>vec_ptr = v @ CHR '','' # ?t, vec_len = length v\<rparr>, None)"
    using next_option_first [of v "Some ?t"] 3(2) by simp
  then have "each_option False (join_options (v # w # vs)) =
      (\<lparr>vec_ptr = v @ CHR '','' # ?t, vec_len = length v\<rparr>, None) # each_option False ?t"
    by (simp add: each_option.simps [of False "v @ CHR '','' # ?t"])
  with 3 show ?case by (simp add: vec_str_def)
qed simp

end
