(* ===== verification/Mongoose_Uri.thy ===== *)
theory Mongoose_Uri
  imports Mongoose_Text
begin

section \<open>The web server's URIs, variables and MIME types\<close>

text \<open>
  URL coding, the removal of parent directories, query variables and the built-in MIME types of
  \<open>src/src/common/network/details/mongoose.c\<close>. The names that \<open>http_utility\<close> also has carry the
  prefix \<open>mg_\<close>.
\<close>

subsection \<open>URL coding\<close>

text \<open>Two hexadecimal digits at the start of a string.\<close>

definition hex_pair :: "string \<Rightarrow> nat option" where
  "hex_pair s =
     (case s of
        a # b # _ \<Rightarrow>
          (case (hex_value a, hex_value b) of (Some x, Some y) \<Rightarrow> Some (16 * x + y) | _ \<Rightarrow> None)
      | _ \<Rightarrow> None)"

text \<open>
  The decoding loop at a position of the source with \<open>n\<close> characters of its length left and room
  for \<open>room\<close> more in the destination. The two digits of an escape may lie behind the length.
\<close>

fun mg_decode_loop :: "bool \<Rightarrow> string \<Rightarrow> nat \<Rightarrow> nat \<Rightarrow> string" where
  "mg_decode_loop form src n 0 = []"
| "mg_decode_loop form [] n (Suc room) = []"
| "mg_decode_loop form (c # r) n (Suc room) =
     (if n = 0 then []
      else case (if c = CHR ''%'' then hex_pair r else None) of
             Some b \<Rightarrow> char_of b # mg_decode_loop form (drop 2 r) (n - 3) room
           | None \<Rightarrow>
               (if form \<and> c = CHR ''+'' then CHR '' '' else c) # mg_decode_loop form r (n - 1) room)"

text \<open>What is written before the terminator; \<open>dst_len - 1\<close> wraps for an empty destination.\<close>

definition mg_url_decode :: "string \<Rightarrow> nat \<Rightarrow> nat \<Rightarrow> bool \<Rightarrow> string" where
  "mg_url_decode src src_len dst_len form =
     mg_decode_loop form src src_len (if dst_len = 0 then 2 ^ 64 - 1 else dst_len - 1)"

definition dont_escape :: "char \<Rightarrow> bool" where
  "dont_escape c \<longleftrightarrow>
     (let n = of_char c :: nat
      in 48 \<le> n \<and> n \<le> 57 \<or> 65 \<le> n \<and> n \<le> 90 \<or> 97 \<le> n \<and> n \<le> 122)
     \<or> c \<in> set ''._-$,;~()''"

definition lower_hex :: "nat \<Rightarrow> char" where
  "lower_hex k = ''0123456789abcdef'' ! k"

text \<open>
  The encoder over the destination's old contents (without the last byte): an escape that does not
  fit leaves the old byte in place.
\<close>

fun mg_url_encode :: "string \<Rightarrow> string \<Rightarrow> string" where
  "mg_url_encode [] old = []"
| "mg_url_encode (c # src) [] = []"
| "mg_url_encode (c # src) (o1 # old) =
     (if dont_escape c then c # mg_url_encode src old
      else if 2 \<le> length old then
        CHR ''%'' # lower_hex (of_char c div 16) # lower_hex (of_char c mod 16)
          # mg_url_encode src (drop 2 old)
      else o1 # mg_url_encode src old)"

subsection \<open>Parent directories\<close>

definition is_slash :: "char \<Rightarrow> bool" where
  "is_slash c \<longleftrightarrow> c = CHR ''/'' \<or> c = BACKSLASH"

function skip_slashes_and_dots :: "string \<Rightarrow> string" where
  "skip_slashes_and_dots [] = []"
| "skip_slashes_and_dots (c # s) =
     (if is_slash c then skip_slashes_and_dots s
      else if c = CHR ''.'' \<and> deref s = CHR ''.'' then skip_slashes_and_dots (tl s)
      else c # s)"
  by pat_completeness auto
termination
  by (relation "measure length") auto

lemma skip_slashes_length: "length (skip_slashes_and_dots s) \<le> length s"
  by (induction s rule: skip_slashes_and_dots.induct) auto

function remove_double_dots_and_double_slashes :: "string \<Rightarrow> string" where
  "remove_double_dots_and_double_slashes [] = []"
| "remove_double_dots_and_double_slashes (c # s) =
     c # remove_double_dots_and_double_slashes (if is_slash c then skip_slashes_and_dots s else s)"
  by pat_completeness auto
termination
  by (relation "measure length") (auto simp: le_imp_less_Suc skip_slashes_length)

definition is_valid_uri :: "string \<Rightarrow> bool" where
  "is_valid_uri uri \<longleftrightarrow> deref uri = CHR ''/'' \<or> uri = ''*''"

subsection \<open>Query variables\<close>

text \<open>The position of the variable's value and the number of characters to the buffer's end.\<close>

fun find_var :: "string \<Rightarrow> char option \<Rightarrow> string \<Rightarrow> nat \<Rightarrow> (string \<times> nat) option" where
  "find_var name prev [] n = None"
| "find_var name prev (c # p) n =
     (if length name < n then
        (if (prev = None \<or> prev = Some CHR ''&'') \<and> deref (drop (length name) (c # p)) = CHR ''=''
            \<and> mg_strncasecmp name (c # p) (length name) = 0
         then Some (drop (length name) p, n - length name - 1)
         else find_var name (Some c) p (n - 1))
      else None)"

text \<open>
  The result and what the destination holds as a C string. The buffer may be followed by more
  memory than its length; \<open>None\<close> is a null pointer.
\<close>

definition mg_get_var :: "string option \<Rightarrow> nat \<Rightarrow> string option \<Rightarrow> nat \<Rightarrow> int \<times> string" where
  "mg_get_var buf buf_len name dst_len =
     (if dst_len = 0 then (-2, [])
      else case (buf, name) of
        (Some b, Some nm) \<Rightarrow>
          if buf_len = 0 then (-1, [])
          else (case find_var nm None b buf_len of
                  None \<Rightarrow> (-1, [])
                | Some (p, left) \<Rightarrow>
                    let k = length (takeWhile (\<lambda>c. c \<noteq> CHR ''&'') (take left p))
                    in if k < dst_len
                       then let out = mg_url_decode p k dst_len True in (int (length out), cstr out)
                       else (-1, []))
      | _ \<Rightarrow> (-1, []))"

subsection \<open>MIME types\<close>

definition builtin_mime_types :: "(string \<times> nat \<times> string) list" where
  "builtin_mime_types =
    [(''.html'', 5, ''text/html''),
     (''.htm'', 4, ''text/html''),
     (''.shtm'', 5, ''text/html''),
     (''.shtml'', 6, ''text/html''),
     (''.css'', 4, ''text/css''),
     (''.js'', 3, ''application/x-javascript''),
     (''.ico'', 4, ''image/x-icon''),
     (''.gif'', 4, ''image/gif''),
     (''.jpg'', 4, ''image/jpeg''),
     (''.jpeg'', 5, ''image/jpeg''),
     (''.png'', 4, ''image/png''),
     (''.svg'', 4, ''image/svg+xml''),
     (''.txt'', 4, ''text/plain''),
     (''.torrent'', 8, ''application/x-bittorrent''),
     (''.wav'', 4, ''audio/x-wav''),
     (''.mp3'', 4, ''audio/x-mp3''),
     (''.mid'', 4, ''audio/mid''),
     (''.m3u'', 4, ''audio/x-mpegurl''),
     (''.ram'', 4, ''audio/x-pn-realaudio''),
     (''.xml'', 4, ''text/xml''),
     (''.json'', 5, ''text/json''),
     (''.xslt'', 5, ''application/xml''),
     (''.xsl'', 4, ''application/xml''),
     (''.ra'', 3, ''audio/x-pn-realaudio''),
     (''.doc'', 4, ''application/msword''),
     (''.exe'', 4, ''application/octet-stream''),
     (''.zip'', 4, ''application/x-zip-compressed''),
     (''.xls'', 4, ''application/excel''),
     (''.tgz'', 4, ''application/x-tar-gz''),
     (''.tar'', 4, ''application/x-tar''),
     (''.gz'', 3, ''application/x-gunzip''),
     (''.arj'', 4, ''application/x-arj-compressed''),
     (''.rar'', 4, ''application/x-arj-compressed''),
     (''.rtf'', 4, ''application/rtf''),
     (''.pdf'', 4, ''application/pdf''),
     (''.swf'', 4, ''application/x-shockwave-flash''),
     (''.mpg'', 4, ''video/mpeg''),
     (''.webm'', 5, ''video/webm''),
     (''.mpeg'', 5, ''video/mpeg''),
     (''.mp4'', 4, ''video/mp4''),
     (''.m4v'', 4, ''video/x-m4v''),
     (''.asf'', 4, ''video/x-ms-asf''),
     (''.avi'', 4, ''video/x-msvideo''),
     (''.bmp'', 4, ''image/bmp'')]"

fun find_mime_type :: "string \<Rightarrow> (string \<times> nat \<times> string) list \<Rightarrow> string" where
  "find_mime_type path [] = ''text/plain''"
| "find_mime_type path ((extension, ext_len, mime_type) # rows) =
     (if length path > ext_len \<and> mg_strcasecmp (drop (length path - ext_len) path) extension = 0
      then mime_type
      else find_mime_type path rows)"

definition mg_get_builtin_mime_type :: "string \<Rightarrow> string" where
  "mg_get_builtin_mime_type path = find_mime_type path builtin_mime_types"

subsection \<open>Lemmas on URL coding\<close>

lemma mg_decode_length: "length (mg_decode_loop form src n room) \<le> min n room"
proof (induction form src n room rule: mg_decode_loop.induct)
  case (3 form c r n room)
  then show ?case by (cases "if c = CHR ''%'' then hex_pair r else None") (auto split: if_splits)
qed simp_all

lemma lower_hex_value: "k < 16 \<Longrightarrow> hex_value (lower_hex k) = Some k"
proof -
  assume "k < 16"
  then have "k \<in> set [0..<16]" by simp
  then show ?thesis by (auto simp: lower_hex_def hex_value_def upt_rec)
qed

lemma hex_pair_byte:
  "hex_pair (lower_hex (of_char c div 16) # lower_hex (of_char c mod 16) # r) = Some (of_char (c :: char))"
proof -
  have "of_char c div 16 < (16 :: nat)"
    using nat_of_char_less_256 [of c] by (simp add: less_mult_imp_div_less)
  then show ?thesis by (simp add: hex_pair_def lower_hex_value)
qed

lemma dont_escape_plain: "dont_escape c \<Longrightarrow> c \<noteq> CHR ''%'' \<and> c \<noteq> CHR ''+''"
  by (auto simp: dont_escape_def)

lemma mg_decode_encode:
  "3 * length s \<le> length old \<Longrightarrow> length s \<le> room \<Longrightarrow>
   mg_decode_loop form (mg_url_encode s old) (length (mg_url_encode s old)) room = s"
proof (induction s arbitrary: old room)
  case Nil
  then show ?case by (cases room) simp_all
next
  case (Cons c s)
  then obtain o1 o2 o3 old' where old: "old = o1 # o2 # o3 # old'"
    by (auto simp: Suc_le_length_iff numeral_3_eq_3)
  obtain room' where room: "room = Suc room'" using Cons.prems(2) by (cases room) auto
  show ?case
  proof (cases "dont_escape c")
    case True
    have "mg_decode_loop form (mg_url_encode s (o2 # o3 # old')) (length (mg_url_encode s (o2 # o3 # old'))) room' = s"
      using Cons.prems old room by (intro Cons.IH) auto
    with True old room show ?thesis using dont_escape_plain [OF True] by simp
  next
    case False
    have "mg_decode_loop form (mg_url_encode s old') (length (mg_url_encode s old')) room' = s"
      using Cons.prems old room by (intro Cons.IH) auto
    with False old room show ?thesis by (simp add: hex_pair_byte)
  qed
qed

text \<open>
  C2. URL coding loses nothing: with three bytes of room for each character, what \<open>url_encode\<close>
  writes is decoded by \<open>url_decode\<close>, in both of its forms, to the string that was encoded.
\<close>

theorem mg_url_round_trip:
  "3 * length s \<le> length old \<Longrightarrow> length s < dst_len \<Longrightarrow>
   mg_url_decode (mg_url_encode s old) (length (mg_url_encode s old)) dst_len form = s"
  unfolding mg_url_decode_def by (intro mg_decode_encode) auto

theorem mg_url_round_trip_witness:
  "mg_url_encode ''a b+c'' (replicate 18 NUL) = ''a%20b%2bc'' \<and>
   mg_url_decode (mg_url_encode ''a b+c'' (replicate 18 NUL))
     (length (mg_url_encode ''a b+c'' (replicate 18 NUL))) 10 True = ''a b+c''"
proof
  show "mg_url_encode ''a b+c'' (replicate 18 NUL) = ''a%20b%2bc''" by code_simp
  show "mg_url_decode (mg_url_encode ''a b+c'' (replicate 18 NUL))
     (length (mg_url_encode ''a b+c'' (replicate 18 NUL))) 10 True = ''a b+c''"
    by (rule mg_url_round_trip) simp_all
qed

subsection \<open>Lemmas on parent directories\<close>

text \<open>
  The reference: a path is split at its slashes, and its segments are walked from a directory
  (the innermost first); \<open>None\<close> is a walk that leaves the directory it started from.
\<close>

fun segments :: "string \<Rightarrow> string list" where
  "segments [] = [[]]"
| "segments (c # s) =
     (if is_slash c then [] # segments s else (c # hd (segments s)) # tl (segments s))"

fun walk :: "string list \<Rightarrow> string list \<Rightarrow> string list option" where
  "walk below [] = Some below"
| "walk below (s # ss) =
     (if s = [] \<or> s = ''.'' then walk below ss
      else if s = ''..'' then (case below of [] \<Rightarrow> None | _ # b \<Rightarrow> walk b ss)
      else walk (s # below) ss)"

definition starts_badly :: "string \<Rightarrow> bool" where
  "starts_badly s \<longleftrightarrow> is_slash (deref s) \<or> deref s = CHR ''.'' \<and> deref (tl s) = CHR ''.''"

fun clean_path :: "string \<Rightarrow> bool" where
  "clean_path [] = True"
| "clean_path (c # s) = ((is_slash c \<longrightarrow> \<not> starts_badly s) \<and> clean_path s)"

lemma not_slash_NUL [simp]: "\<not> is_slash NUL"
  by (simp add: is_slash_def)

lemma skip_not_bad: "\<not> starts_badly (skip_slashes_and_dots s)"
proof (induction s rule: skip_slashes_and_dots.induct)
  case (2 c s)
  then show ?case by (auto simp: starts_badly_def)
qed (simp add: starts_badly_def)

lemma remove_starts: "starts_badly (remove_double_dots_and_double_slashes s) = starts_badly s"
proof (cases s)
  case (Cons c r)
  show ?thesis
  proof (cases "is_slash c")
    case True
    with Cons show ?thesis by (simp add: starts_badly_def)
  next
    case False
    with Cons show ?thesis by (cases r) (auto simp: starts_badly_def)
  qed
qed simp

lemma remove_clean: "clean_path (remove_double_dots_and_double_slashes s)"
proof (induction s rule: remove_double_dots_and_double_slashes.induct)
  case (2 c s)
  then show ?case using skip_not_bad [of s] by (auto simp: remove_starts)
qed simp

lemma remove_clean_id: "clean_path s \<Longrightarrow> remove_double_dots_and_double_slashes s = s"
proof (induction s)
  case (Cons c s)
  have "skip_slashes_and_dots s = s" if "\<not> starts_badly s"
    using that by (cases s) (auto simp: starts_badly_def)
  with Cons show ?case by auto
qed simp

lemma segments_nonempty [simp]: "segments s \<noteq> []"
  by (cases s) auto

lemma hd_segments_dots: "hd (segments s) = ''..'' \<Longrightarrow> starts_badly s"
proof (cases s)
  case (Cons a r)
  assume "hd (segments s) = ''..''"
  with Cons show ?thesis by (cases r) (auto simp: starts_badly_def split: if_splits)
qed simp

lemma clean_segments: "clean_path s \<Longrightarrow> ''..'' \<notin> set (tl (segments s))"
proof (induction s)
  case (Cons c s)
  have "set (segments s) = insert (hd (segments s)) (set (tl (segments s)))"
    by (cases "segments s") auto
  with Cons show ?case using hd_segments_dots [of s] by auto
qed simp

lemma walk_stays: "''..'' \<notin> set ss \<Longrightarrow> \<exists>below. walk b ss = Some (below @ b)"
proof (induction ss arbitrary: b)
  case (Cons s ss)
  show ?case
  proof (cases "s = [] \<or> s = ''.''")
    case True
    with Cons show ?thesis by auto
  next
    case False
    from Cons obtain below where "walk (s # b) ss = Some (below @ s # b)" by auto
    with False Cons.prems show ?thesis by (intro exI [of _ "below @ [s]"]) auto
  qed
qed simp

lemma removed_stays_below:
  assumes "is_valid_uri uri"
  shows "\<exists>below. walk root (segments (remove_double_dots_and_double_slashes uri)) = Some (below @ root)"
proof (rule walk_stays)
  let ?t = "remove_double_dots_and_double_slashes uri"
  have "hd (segments ?t) \<noteq> ''..''"
    using assms by (cases uri) (auto simp: is_valid_uri_def is_slash_def)
  moreover have "''..'' \<notin> set (tl (segments ?t))" by (rule clean_segments) (rule remove_clean)
  moreover have "set (segments ?t) = insert (hd (segments ?t)) (set (tl (segments ?t)))"
    by (cases "segments ?t") auto
  ultimately show "''..'' \<notin> set (segments ?t)" by auto
qed

lemma remove_idempotent:
  "remove_double_dots_and_double_slashes (remove_double_dots_and_double_slashes s) =
   remove_double_dots_and_double_slashes s"
  by (rule remove_clean_id) (rule remove_clean)

end
