(* ===== verification/Mongoose_Parser.thy ===== *)
theory Mongoose_Parser
  imports Mongoose_Uri
begin

section \<open>The web server's request parser\<close>

text \<open>
  Finding the end of a request in the receive buffer and splitting the request into its parts
  (\<open>get_request_len\<close>, \<open>parse_http_message\<close> and its callers in
  \<open>src/src/common/network/details/mongoose.c\<close>). The parser works in place; the parts it returns
  are disjoint pieces of the buffer, so the model returns them as values. A buffer is the list of
  its bytes, those behind the received data included.
\<close>

subsection \<open>The end of the request\<close>

definition is_print :: "char \<Rightarrow> bool" where
  "is_print c \<longleftrightarrow> (let n = of_char c :: nat in 32 \<le> n \<and> n \<le> 126)"

definition bad_char :: "char \<Rightarrow> bool" where
  "bad_char c \<longleftrightarrow> \<not> is_print c \<and> c \<noteq> CR \<and> c \<noteq> LF \<and> of_char c < (128 :: nat)"

text \<open>The scan from position \<open>k\<close>; it stops before the last byte.\<close>

fun request_len_scan :: "string \<Rightarrow> nat \<Rightarrow> int" where
  "request_len_scan (c # d # r) k =
     (if bad_char c then -1
      else if c = LF \<and> d = LF then int k + 2
      else if c = LF \<and> d = CR \<and> r \<noteq> [] \<and> hd r = LF then int k + 3
      else request_len_scan (d # r) (Suc k))"
| "request_len_scan _ k = 0"

definition get_request_len :: "string \<Rightarrow> nat \<Rightarrow> int" where
  "get_request_len buf buflen = request_len_scan (take buflen buf) 0"

subsection \<open>Requests\<close>

text \<open>
  \<open>struct mg_request_info\<close> (\<open>mongoose.h\<close>); null pointers are \<open>None\<close>, and the headers are the
  first \<open>num_headers\<close> entries of the array. The user data is always the pointer given to \<open>mg_start\<close>.
\<close>

record request_info =
  req_method :: "string option"
  req_uri :: "string option"
  req_version :: "string option"
  query_string :: "string option"
  remote_user :: "string option"
  http_headers :: "(string \<times> string) list"
  ev_data :: "int option"

definition blank_request_info :: request_info where
  "blank_request_info =
     \<lparr>req_method = None, req_uri = None, req_version = None, query_string = None,
      remote_user = None, http_headers = [], ev_data = None\<rparr>"

fun find_header :: "(string \<times> string) list \<Rightarrow> string \<Rightarrow> string option" where
  "find_header [] name = None"
| "find_header ((n, v) # hs) name = (if mg_strcasecmp name n = 0 then Some v else find_header hs name)"

definition get_header :: "request_info \<Rightarrow> string \<Rightarrow> string option" where
  "get_header ri name = find_header (http_headers ri) name"

text \<open>The loop over the 64 slots of the header array; \<open>slots\<close> of them are left.\<close>

fun parse_http_headers :: "nat \<Rightarrow> string \<Rightarrow> (string \<times> string) list" where
  "parse_http_headers 0 buf = []"
| "parse_http_headers (Suc slots) buf =
     (let (name, rest) = skip_quoted buf '':'' '' '' NUL;
          (val, rest') = skip rest crlf
      in if name = [] then [] else (name, val) # parse_http_headers slots rest')"

definition is_valid_http_method :: "string \<Rightarrow> bool" where
  "is_valid_http_method m \<longleftrightarrow>
     m = ''GET'' \<or> m = ''POST'' \<or> m = ''HEAD'' \<or> m = ''CONNECT'' \<or> m = ''PUT'' \<or> m = ''DELETE''
     \<or> m = ''OPTIONS'' \<or> m = ''PROPFIND''"

definition parse_http_message :: "string \<Rightarrow> nat \<Rightarrow> request_info \<Rightarrow> int \<times> request_info" where
  "parse_http_message buf len ri =
     (let request_length = get_request_len buf len
      in if 0 < request_length then
           let s = dropWhile is_space (cstr (take (nat request_length - 1) buf));
               (m, s1) = skip s '' '';
               (u, s2) = skip s1 '' '';
               (v, s3) = skip s2 crlf
           in (request_length,
               ri\<lparr>remote_user := None, req_method := Some m, req_uri := Some u, req_version := Some v,
                  http_headers := parse_http_headers 64 s3\<rparr>)
         else (request_length, ri))"

definition starts_with :: "string \<Rightarrow> string \<Rightarrow> bool" where
  "starts_with s prefix \<longleftrightarrow> take (length prefix) s = prefix"

definition parse_http_request :: "string \<Rightarrow> nat \<Rightarrow> request_info \<Rightarrow> int \<times> request_info" where
  "parse_http_request buf len ri =
     (case parse_http_message buf len ri of
        (result, ri') \<Rightarrow>
          (case (req_method ri', req_version ri') of
             (Some m, Some v) \<Rightarrow>
               if 0 < result \<and> is_valid_http_method m \<and> starts_with v ''HTTP/''
               then (result, ri'\<lparr>req_version := Some (drop 5 v)\<rparr>)
               else (-1, ri')
           | _ \<Rightarrow> (-1, ri')))"

definition parse_http_response :: "string \<Rightarrow> nat \<Rightarrow> request_info \<Rightarrow> int \<times> request_info" where
  "parse_http_response buf len ri =
     (case parse_http_message buf len ri of
        (result, ri') \<Rightarrow>
          (case req_method ri' of
             Some m \<Rightarrow> (if 0 < result \<and> starts_with m ''HTTP/'' then result else -1, ri')
           | None \<Rightarrow> (-1, ri')))"

subsection \<open>Lemmas on the end of the request\<close>

text \<open>
  The specification of the end: the shortest prefix that ends with an empty line. Only a bad
  character before that end makes the request malformed.
\<close>

definition ends_request :: "string \<Rightarrow> bool" where
  "ends_request s \<longleftrightarrow> (\<exists>p. s = p @ [LF, LF] \<or> s = p @ [LF, CR, LF])"

lemma request_len_range:
  "request_len_scan s k = -1 \<or> request_len_scan s k = 0 \<or>
   (int k + 2 \<le> request_len_scan s k \<and> request_len_scan s k \<le> int k + int (length s))"
proof (induction s k rule: request_len_scan.induct)
  case (1 c d r k)
  then show ?case by (cases r) auto
qed auto

lemma get_request_len_range:
  "get_request_len buf n = -1 \<or> get_request_len buf n = 0 \<or>
   (2 \<le> get_request_len buf n \<and> get_request_len buf n \<le> int n \<and> get_request_len buf n \<le> int (length buf))"
  using request_len_range [of "take n buf" 0] by (auto simp: get_request_len_def)

text \<open>A verdict stays when more data arrives.\<close>

lemma request_len_scan_append:
  "request_len_scan s k \<noteq> 0 \<Longrightarrow> request_len_scan (s @ t) k = request_len_scan s k"
proof (induction s k rule: request_len_scan.induct)
  case (1 c d r k)
  show ?case
  proof (cases "bad_char c \<or> c = LF \<and> d = LF \<or> c = LF \<and> d = CR \<and> r \<noteq> [] \<and> hd r = LF")
    case True
    then show ?thesis by (cases r) auto
  next
    case False
    with 1 have "request_len_scan (d # r @ t) (Suc k) = request_len_scan (d # r) (Suc k)" by auto
    moreover have "\<not> (c = LF \<and> d = CR \<and> r @ t \<noteq> [] \<and> hd (r @ t) = LF)"
    proof
      assume a: "c = LF \<and> d = CR \<and> r @ t \<noteq> [] \<and> hd (r @ t) = LF"
      with False have "r = []" by (cases r) auto
      with a False 1 show False by auto
    qed
    ultimately show ?thesis using False 1 by auto
  qed
qed auto

lemma get_request_len_stable:
  assumes "get_request_len buf n \<noteq> 0" "n \<le> m" "take n buf' = take n buf"
  shows "get_request_len buf' m = get_request_len buf n"
proof -
  have "take m buf' = take n buf @ drop n (take m buf')"
    using assms(2,3) by (metis append_take_drop_id min.absorb1 take_take)
  with assms(1) show ?thesis
    using request_len_scan_append [of "take n buf" 0 "drop n (take m buf')"]
    by (simp add: get_request_len_def)
qed

lemma ends_request_Cons:
  "ends_request (c # s) \<longleftrightarrow> ends_request s \<or> c = LF \<and> s = [LF] \<or> c = LF \<and> s = [CR, LF]"
proof
  assume "ends_request (c # s)"
  then obtain p where p: "c # s = p @ [LF, LF] \<or> c # s = p @ [LF, CR, LF]"
    by (auto simp: ends_request_def)
  then show "ends_request s \<or> c = LF \<and> s = [LF] \<or> c = LF \<and> s = [CR, LF]"
    by (cases p) (auto simp: ends_request_def)
next
  assume "ends_request s \<or> c = LF \<and> s = [LF] \<or> c = LF \<and> s = [CR, LF]"
  then show "ends_request (c # s)"
  proof (elim disjE)
    assume "ends_request s"
    then obtain p where "s = p @ [LF, LF] \<or> s = p @ [LF, CR, LF]" by (auto simp: ends_request_def)
    then have "c # s = (c # p) @ [LF, LF] \<or> c # s = (c # p) @ [LF, CR, LF]" by (elim disjE) simp_all
    then show ?thesis unfolding ends_request_def by (rule exI [of _ "c # p"])
  next
    assume "c = LF \<and> s = [LF]"
    then have "c # s = [] @ [LF, LF]" by simp
    then show ?thesis unfolding ends_request_def by blast
  next
    assume "c = LF \<and> s = [CR, LF]"
    then have "c # s = [] @ [LF, CR, LF]" by simp
    then show ?thesis unfolding ends_request_def by blast
  qed
qed

lemma ends_request_short: "ends_request s \<Longrightarrow> 2 \<le> length s"
  by (auto simp: ends_request_def)

lemma ends_request_Nil [simp]: "\<not> ends_request []"
  by (simp add: ends_request_def)

text \<open>\<open>request_end s m\<close>: the request in \<open>s\<close> is its first \<open>m\<close> characters.\<close>

definition request_end :: "string \<Rightarrow> nat \<Rightarrow> bool" where
  "request_end s m \<longleftrightarrow>
     m \<le> length s \<and> ends_request (take m s) \<and> (\<forall>j < m. \<not> ends_request (take j s))
     \<and> (\<forall>c \<in> set (take m s). \<not> bad_char c)"

lemma not_bad_LF [simp]: "\<not> bad_char LF" "\<not> bad_char CR"
  by (simp_all add: bad_char_def)

lemma request_end_unique: "request_end s m \<Longrightarrow> request_end s m' \<Longrightarrow> m = m'"
  unfolding request_end_def by (metis linorder_neqE_nat)

lemma request_end_Cons:
  assumes "\<not> bad_char c" "\<not> (c = LF \<and> take 1 s = [LF])" "\<not> (c = LF \<and> take 2 s = [CR, LF])"
  shows "request_end (c # s) m \<longleftrightarrow> (\<exists>m'. m = Suc m' \<and> request_end s m')"
proof -
  have step: "ends_request (take (Suc j) (c # s)) \<longleftrightarrow> ends_request (take j s)" for j
  proof -
    have "take k s = x" if "take j s = x" "length x = k" for k x
    proof -
      have "k \<le> j" using that by auto
      then have "take k s = take k (take j s)" by (simp add: min_def)
      with that show ?thesis by simp
    qed
    from this [of "[LF]" 1] this [of "[CR, LF]" 2]
    have "\<not> (c = LF \<and> take j s = [LF])" "\<not> (c = LF \<and> take j s = [CR, LF])"
      using assms(2,3) by auto
    then show ?thesis by (simp only: take_Suc_Cons ends_request_Cons) blast
  qed
  show ?thesis
  proof (cases m)
    case 0
    then show ?thesis by (auto simp: request_end_def)
  next
    case (Suc m')
    have "(\<forall>j < Suc m'. \<not> ends_request (take j (c # s))) \<longleftrightarrow> (\<forall>j < m'. \<not> ends_request (take j s))"
      by (simp only: All_less_Suc2 step) simp
    then show ?thesis using Suc step assms(1) by (auto simp: request_end_def)
  qed
qed

lemma request_end_short: "request_end s m \<Longrightarrow> 2 \<le> m \<and> m \<le> length s"
  by (auto simp: request_end_def dest: ends_request_short)

lemma request_end_pos: "request_end s m \<Longrightarrow> 0 < m"
  using request_end_short by fastforce

lemma request_end_LF_LF: "request_end (LF # LF # r) 2"
proof -
  have "ends_request [LF, LF]" unfolding ends_request_def by (rule exI [of _ "[]"]) simp
  then show ?thesis
    by (auto simp: request_end_def numeral_2_eq_2 All_less_Suc2 dest: ends_request_short)
qed

lemma request_end_LF_CR_LF: "request_end (LF # CR # LF # r) 3"
proof -
  have "ends_request [LF, CR, LF]" unfolding ends_request_def by (rule exI [of _ "[]"]) simp
  moreover have "\<not> ends_request [LF, CR]" by (simp add: ends_request_Cons)
  ultimately show ?thesis
    by (auto simp: request_end_def numeral_3_eq_3 All_less_Suc2 dest: ends_request_short)
qed

lemma request_len_scan_iff:
  "0 < m \<Longrightarrow> request_len_scan s k = int (k + m) \<longleftrightarrow> request_end s m"
proof (induction s k arbitrary: m rule: request_len_scan.induct)
  case (1 c d r k)
  consider (bad) "bad_char c" | (two) "c = LF" "d = LF"
    | (three) r' where "c = LF" "d = CR" "r = LF # r'"
    | (on) "\<not> bad_char c" "\<not> (c = LF \<and> d = LF)" "\<not> (c = LF \<and> d = CR \<and> r \<noteq> [] \<and> hd r = LF)"
    by (cases r) auto
  then show ?case
  proof cases
    case bad
    have "\<not> request_end (c # d # r) m"
    proof
      assume "request_end (c # d # r) m"
      moreover from this have "2 \<le> m" by (simp add: request_end_short)
      ultimately show False using bad by (cases m) (auto simp: request_end_def)
    qed
    with bad show ?thesis by simp
  next
    case two
    have "request_len_scan (c # d # r) k = int k + 2" using two by simp
    moreover have "request_end (c # d # r) 2" unfolding two by (rule request_end_LF_LF)
    ultimately show ?thesis using request_end_unique by fastforce
  next
    case three
    have "request_len_scan (c # d # r) k = int k + 3" using three by simp
    moreover have "request_end (c # d # r) 3" unfolding three by (rule request_end_LF_CR_LF)
    ultimately show ?thesis using request_end_unique by fastforce
  next
    case on
    have e: "request_len_scan (c # d # r) k = request_len_scan (d # r) (Suc k)" using on by auto
    have "request_end (c # d # r) m \<longleftrightarrow> (\<exists>m'. m = Suc m' \<and> request_end (d # r) m')"
      by (rule request_end_Cons) (use on in \<open>cases r; auto\<close>)+
    also have "\<dots> \<longleftrightarrow> (\<exists>m'. m = Suc m' \<and> 0 < m' \<and> request_end (d # r) m')"
      by (auto dest: request_end_pos)
    also have "\<dots> \<longleftrightarrow> (\<exists>m'. m = Suc m' \<and> 0 < m' \<and> request_len_scan (d # r) (Suc k) = int (Suc k + m'))"
      using 1(1) on by auto
    also have "\<dots> \<longleftrightarrow> request_len_scan (d # r) (Suc k) = int (k + m)"
    proof
      assume a: "request_len_scan (d # r) (Suc k) = int (k + m)"
      then have "1 < m" using request_len_range [of "d # r" "Suc k"] 1(2) by auto
      with a show "\<exists>m'. m = Suc m' \<and> 0 < m' \<and> request_len_scan (d # r) (Suc k) = int (Suc k + m')"
        by (intro exI [of _ "m - 1"]) auto
    qed auto
    finally show ?thesis using e by simp
  qed
qed (auto dest: request_end_short)

text \<open>C31. The end of a request: \<open>get_request_len\<close> returns a length exactly when that prefix of the
  received data ends with an empty line, no shorter prefix does, and no character of it is a control
  character. The scan needs no look-ahead beyond the data.
\<close>

theorem get_request_len_exact:
  "0 < m \<Longrightarrow> get_request_len buf n = int m \<longleftrightarrow> request_end (take n buf) m"
  unfolding get_request_len_def using request_len_scan_iff [of m "take n buf" 0] by simp

theorem get_request_len_exact_witness:
  "get_request_len (''GET / HTTP/1.0'' @ crlf @ crlf @ ''body'') 22 = 18 \<and>
   request_end (take 22 (''GET / HTTP/1.0'' @ crlf @ crlf @ ''body'')) 18"
proof -
  have "get_request_len (''GET / HTTP/1.0'' @ crlf @ crlf @ ''body'') 22 = int 18" by code_simp
  then show ?thesis
    using get_request_len_exact [of 18 "''GET / HTTP/1.0'' @ crlf @ crlf @ ''body''" 22] by simp
qed

subsection \<open>Lemmas on parsing what was printed\<close>

definition plain :: "string \<Rightarrow> bool" where
  "plain s \<longleftrightarrow> (\<forall>c \<in> set s. \<not> bad_char c \<and> c \<noteq> CR \<and> c \<noteq> LF)"

fun mg_header_ok :: "string \<times> string \<Rightarrow> bool" where
  "mg_header_ok (n, x) \<longleftrightarrow>
     n \<noteq> [] \<and> plain n \<and> CHR '':'' \<notin> set n \<and> plain x \<and> (x \<noteq> [] \<longrightarrow> hd x \<noteq> CHR '' '')"

fun header_line :: "string \<times> string \<Rightarrow> string" where
  "header_line (n, x) = n @ '': '' @ x"

text \<open>The lines of a request, and the request itself.\<close>

definition request_lines :: "string \<Rightarrow> string \<Rightarrow> string \<Rightarrow> (string \<times> string) list \<Rightarrow> string list" where
  "request_lines m u v hs = (m @ '' '' @ u @ '' HTTP/'' @ v) # map header_line hs"

definition print_lines :: "string list \<Rightarrow> string" where
  "print_lines ls = concat (map (\<lambda>l. l @ crlf) ls)"

definition print_message :: "string \<Rightarrow> string \<Rightarrow> string \<Rightarrow> (string \<times> string) list \<Rightarrow> string" where
  "print_message m u t hs = print_lines ((m @ '' '' @ u @ '' '' @ t) # map header_line hs) @ crlf"

definition print_http :: "string \<Rightarrow> string \<Rightarrow> string \<Rightarrow> (string \<times> string) list \<Rightarrow> string" where
  "print_http m u v hs = print_lines (request_lines m u v hs) @ crlf"

lemma print_lines_simps [simp]:
  "print_lines [] = []" "print_lines (l # ls) = l @ CR # LF # print_lines ls"
  by (simp_all add: print_lines_def)

lemma plain_simps [simp]:
  "plain []" "plain (c # s) \<longleftrightarrow> \<not> bad_char c \<and> c \<noteq> CR \<and> c \<noteq> LF \<and> plain s"
  "plain (s @ t) \<longleftrightarrow> plain s \<and> plain t"
  by (auto simp: plain_def)

lemma bad_char_NUL [simp]: "bad_char NUL"
  by (simp add: bad_char_def is_print_def)

lemma scan_char:
  "\<not> bad_char c \<Longrightarrow> c \<noteq> LF \<Longrightarrow> request_len_scan (c # s) k = request_len_scan s (Suc k)"
  by (cases s) auto

lemma scan_plain: "plain l \<Longrightarrow> request_len_scan (l @ s) k = request_len_scan s (k + length l)"
  by (induction l arbitrary: k) (simp_all add: scan_char)

lemma scan_lines:
  "ls \<noteq> [] \<Longrightarrow> \<forall>l \<in> set ls. plain l \<and> l \<noteq> [] \<Longrightarrow>
   request_len_scan (print_lines ls @ CR # LF # r) k = int k + int (length (print_lines ls)) + 2"
proof (induction ls arbitrary: k)
  case (Cons l ls)
  show ?case
  proof (cases ls)
    case Nil
    with Cons.prems show ?thesis by (simp add: scan_plain scan_char)
  next
    case (Cons l' ls')
    with Cons.prems obtain c t where l': "l' = c # t" by (cases l') auto
    have "request_len_scan (print_lines (l # ls) @ CR # LF # r) k =
        request_len_scan (LF # print_lines ls @ CR # LF # r) (Suc (k + length l))"
      using Cons.prems by (simp add: scan_plain scan_char)
    also have "\<dots> = request_len_scan (print_lines ls @ CR # LF # r) (Suc (Suc (k + length l)))"
      using Cons Cons.prems l' by simp
    finally show ?thesis using Cons.IH Cons.prems Cons by simp
  qed
qed simp

definition word_ok :: "string \<Rightarrow> bool" where
  "word_ok m \<longleftrightarrow> plain m \<and> m \<noteq> [] \<and> CHR '' '' \<notin> set m \<and> \<not> is_space (hd m)"

lemma valid_method_word: "is_valid_http_method m \<Longrightarrow> word_ok m"
  by (auto simp: is_valid_http_method_def word_ok_def plain_def bad_char_def is_print_def is_space_def)

lemma header_line_plain: "mg_header_ok h \<Longrightarrow> plain (header_line h) \<and> header_line h \<noteq> []"
  by (cases h) (auto simp: bad_char_def is_print_def)

lemma message_lines_plain:
  assumes "word_ok m" "plain u" "plain t" "\<forall>h \<in> set hs. mg_header_ok h"
  shows "\<forall>l \<in> set ((m @ '' '' @ u @ '' '' @ t) # map header_line hs). plain l \<and> l \<noteq> []"
proof -
  have "plain '' ''" by (simp add: bad_char_def is_print_def)
  with assms header_line_plain show ?thesis by (auto simp: word_ok_def)
qed

lemma print_message_len:
  assumes "word_ok m" "plain u" "plain t" "\<forall>h \<in> set hs. mg_header_ok h"
    and "length (print_message m u t hs) \<le> n"
  shows "get_request_len (print_message m u t hs @ r) n = int (length (print_message m u t hs))"
proof -
  let ?p = "print_message m u t hs" and ?ls = "(m @ '' '' @ u @ '' '' @ t) # map header_line hs"
  have "get_request_len (?p @ r) n = request_len_scan (?p @ take (n - length ?p) r) 0"
    using assms(5) by (simp add: get_request_len_def)
  also have "?p @ take (n - length ?p) r = print_lines ?ls @ CR # LF # take (n - length ?p) r"
    by (simp add: print_message_def)
  also have "request_len_scan \<dots> 0 = int (length (print_lines ?ls)) + 2"
    using scan_lines [OF _ message_lines_plain [OF assms(1-4)], where k = 0] by simp
  finally show ?thesis by (simp add: print_message_def)
qed

lemma print_http_message: "print_http m u v hs = print_message m u (''HTTP/'' @ v) hs"
  by (simp add: print_http_def print_message_def request_lines_def)

lemma plain_HTTP: "plain v \<Longrightarrow> plain (''HTTP/'' @ v)"
  by (simp add: bad_char_def is_print_def)

lemma print_http_len:
  assumes "word_ok m" "plain u" "plain v" "\<forall>h \<in> set hs. mg_header_ok h"
    and "length (print_http m u v hs) \<le> n"
  shows "get_request_len (print_http m u v hs @ r) n = int (length (print_http m u v hs))"
  using assms print_message_len [of m u "''HTTP/'' @ v" hs n r] plain_HTTP by (simp add: print_http_message)

lemma plain_char: "plain s \<Longrightarrow> c \<in> set s \<Longrightarrow> c \<noteq> NUL \<and> c \<noteq> CR \<and> c \<noteq> LF"
  unfolding plain_def using bad_char_NUL by blast

lemma plain_no_NUL: "plain s \<Longrightarrow> NUL \<notin> set s"
  using plain_char by blast

lemma skip_plain:
  assumes "plain w"
  shows "skip (w @ CR # r) crlf = (w, dropWhile (\<lambda>c. c = CR \<or> c = LF) r)"
proof -
  have "\<forall>c \<in> set w. c \<notin> set crlf \<and> c \<noteq> NUL" using plain_char [OF assms] by simp
  then show ?thesis unfolding skip_def by (subst skip_word) simp_all
qed

lemma parse_printed_headers:
  "length hs \<le> slots \<Longrightarrow> \<forall>h \<in> set hs. mg_header_ok h \<Longrightarrow>
   parse_http_headers slots
     (dropWhile (\<lambda>c. c = CR \<or> c = LF) (print_lines (map header_line hs) @ [CR])) = hs"
proof (induction hs arbitrary: slots)
  case Nil
  have "skip_quoted [] '':'' '' '' NUL = ([], [])" by (rule skip_last_word) simp
  then show ?case by (cases slots) (simp_all add: Let_def split: prod.split)
next
  case (Cons h hs)
  obtain n x where h: "h = (n, x)" by (cases h)
  obtain slots' where s: "slots = Suc slots'" using Cons.prems(1) by (cases slots) auto
  let ?t = "print_lines (map header_line hs) @ [CR]"
  have ok: "n \<noteq> []" "plain n" "CHR '':'' \<notin> set n" "plain x" "x \<noteq> [] \<longrightarrow> hd x \<noteq> CHR '' ''"
    using Cons.prems(2) h by auto
  have first: "dropWhile (\<lambda>c. c = CR \<or> c = LF) (print_lines (map header_line (h # hs)) @ [CR]) =
      n @ CHR '':'' # CHR '' '' # x @ CR # LF # ?t"
    using ok h by (cases n) auto
  have "skip_quoted (n @ CHR '':'' # CHR '' '' # x @ CR # LF # ?t) '':'' '' '' NUL =
      (n, dropWhile (\<lambda>c. c \<in> set '' '') (CHR '' '' # x @ CR # LF # ?t))"
    using ok plain_no_NUL [of n] by (intro skip_word) auto
  also have "dropWhile (\<lambda>c. c \<in> set '' '') (CHR '' '' # x @ CR # LF # ?t) = x @ CR # LF # ?t"
    using ok by (cases x) auto
  finally have name: "skip_quoted (n @ CHR '':'' # CHR '' '' # x @ CR # LF # ?t) '':'' '' '' NUL =
      (n, x @ CR # LF # ?t)" .
  have val: "skip (x @ CR # LF # ?t) crlf = (x, dropWhile (\<lambda>c. c = CR \<or> c = LF) ?t)"
    using skip_plain [OF ok(4), of "LF # ?t"] by simp
  have "parse_http_headers slots' (dropWhile (\<lambda>c. c = CR \<or> c = LF) ?t) = hs"
    using Cons.IH Cons.prems s by simp
  then show ?case unfolding first s using name val ok h by (simp add: Let_def)
qed

lemma print_message_cstr:
  assumes "word_ok m" "plain u" "plain t" "\<forall>h \<in> set hs. mg_header_ok h"
  shows "cstr (take (length (print_message m u t hs) - 1) (print_message m u t hs @ r)) =
    print_lines ((m @ '' '' @ u @ '' '' @ t) # map header_line hs) @ [CR]"
proof -
  let ?ls = "(m @ '' '' @ u @ '' '' @ t) # map header_line hs"
  have "NUL \<notin> set (print_lines ls)" if "\<forall>l \<in> set ls. plain l \<and> l \<noteq> []" for ls
    using that plain_no_NUL by (induction ls) auto
  from this [OF message_lines_plain [OF assms]] have "NUL \<notin> set (print_lines ?ls @ [CR])" by simp
  from cstr_id [OF this] show ?thesis by (simp add: print_message_def del: print_lines_simps)
qed

lemma skip_space:
  assumes "plain w" "CHR '' '' \<notin> set w" "r \<noteq> []" "hd r \<noteq> CHR '' ''"
  shows "skip (w @ CHR '' '' # r) '' '' = (w, r)"
proof -
  have "skip (w @ CHR '' '' # r) '' '' = (w, dropWhile (\<lambda>c. c \<in> set '' '') r)"
    unfolding skip_def using assms(2) plain_char [OF assms(1)] by (intro skip_word) auto
  with assms(3,4) show ?thesis by (cases r) auto
qed

lemma parse_message:
  assumes "word_ok m" and "plain u" "u \<noteq> []" "CHR '' '' \<notin> set u" and "plain t" "t \<noteq> []" "hd t \<noteq> CHR '' ''"
    and "length hs \<le> 64" "\<forall>h \<in> set hs. mg_header_ok h"
    and "length (print_message m u t hs) \<le> n"
  shows "parse_http_message (print_message m u t hs @ r) n ri =
    (int (length (print_message m u t hs)),
     ri\<lparr>remote_user := None, req_method := Some m, req_uri := Some u, req_version := Some t, http_headers := hs\<rparr>)"
proof -
  let ?p = "print_message m u t hs"
  let ?t = "print_lines (map header_line hs) @ [CR]"
  have m: "plain m" "m \<noteq> []" "CHR '' '' \<notin> set m" "\<not> is_space (hd m)"
    using assms(1) by (auto simp: word_ok_def)
  have len: "get_request_len (?p @ r) n = int (length ?p)"
    using assms by (intro print_message_len) auto
  have pos: "0 < length ?p" by (simp add: print_message_def)
  have "cstr (take (nat (int (length ?p)) - 1) (?p @ r)) = m @ CHR '' '' # u @ CHR '' '' # t @ CR # LF # ?t"
    using print_message_cstr [of m u t hs r] assms by simp
  moreover have "dropWhile is_space (m @ s) = m @ s" for s
    using m by (cases m) auto
  moreover have "skip (m @ CHR '' '' # u @ s) '' '' = (m, u @ s)" for s
    using m assms(3,4) by (intro skip_space) (cases u; auto)+
  moreover have "skip (u @ CHR '' '' # t @ s) '' '' = (u, t @ s)" for s
    using assms(2,4,6,7) by (intro skip_space) (cases t; auto)+
  moreover have "skip (t @ CR # LF # ?t) crlf = (t, dropWhile (\<lambda>c. c = CR \<or> c = LF) ?t)"
    using skip_plain [OF assms(5), of "LF # ?t"] by simp
  moreover have "parse_http_headers 64 (dropWhile (\<lambda>c. c = CR \<or> c = LF) ?t) = hs"
    using assms by (intro parse_printed_headers) auto
  ultimately show ?thesis using len pos by (simp add: parse_http_message_def Let_def)
qed

lemma parse_printed_message:
  assumes "word_ok m" and "plain u" "u \<noteq> []" "CHR '' '' \<notin> set u" and "plain v"
    and "length hs \<le> 64" "\<forall>h \<in> set hs. mg_header_ok h"
    and "length (print_http m u v hs) \<le> n"
  shows "parse_http_message (print_http m u v hs @ r) n ri =
    (int (length (print_http m u v hs)),
     ri\<lparr>remote_user := None, req_method := Some m, req_uri := Some u, req_version := Some (''HTTP/'' @ v),
        http_headers := hs\<rparr>)"
  using assms parse_message [of m u "''HTTP/'' @ v" hs n r ri] plain_HTTP by (simp add: print_http_message)

lemma mg_parse_printed:
  assumes "is_valid_http_method m" and "plain u" "u \<noteq> []" "CHR '' '' \<notin> set u" and "plain v"
    and "length hs \<le> 64" "\<forall>h \<in> set hs. mg_header_ok h"
    and "length (print_http m u v hs) \<le> n"
  shows "parse_http_request (print_http m u v hs @ r) n ri =
    (int (length (print_http m u v hs)),
     ri\<lparr>remote_user := None, req_method := Some m, req_uri := Some u, req_version := Some v,
        http_headers := hs\<rparr>)"
  using parse_printed_message [OF valid_method_word [OF assms(1)] assms(2-8), of r ri] assms(1)
  by (simp add: parse_http_request_def starts_with_def print_http_def)

text \<open>C30. Parsing is the inverse of printing: a request with a known method, a URI without spaces and at
  most 64 well-formed headers is recognised at its full length, whatever bytes follow it in the
  buffer, and yields the method, URI, version and headers it was printed from, in their order.
\<close>

theorem mg_parse_print:
  assumes "is_valid_http_method m" and "plain u" "u \<noteq> []" "CHR '' '' \<notin> set u" and "plain v"
    and "length hs \<le> 64" "\<forall>h \<in> set hs. mg_header_ok h"
    and "length (print_http m u v hs) \<le> n"
  shows "parse_http_request (print_http m u v hs @ r) n ri =
    (int (length (print_http m u v hs)),
     ri\<lparr>remote_user := None, req_method := Some m, req_uri := Some u, req_version := Some v,
        http_headers := hs\<rparr>)"
  using mg_parse_printed [OF assms] .

theorem mg_parse_print_witness:
  "parse_http_request
     (print_http ''GET'' ''/a.mp4'' ''1.1'' [(''Range'', ''bytes=0-''), (''Host'', '''')] @ ''rest'')
     100 blank_request_info =
   (48, blank_request_info\<lparr>req_method := Some ''GET'', req_uri := Some ''/a.mp4'',
          req_version := Some ''1.1'',
          http_headers := [(''Range'', ''bytes=0-''), (''Host'', '''')]\<rparr>)"
proof -
  let ?hs = "[(''Range'', ''bytes=0-''), (''Host'', '''')]"
  have "length (print_http ''GET'' ''/a.mp4'' ''1.1'' ?hs) = 48" by code_simp
  moreover have "parse_http_request (print_http ''GET'' ''/a.mp4'' ''1.1'' ?hs @ ''rest'') 100 blank_request_info =
    (int (length (print_http ''GET'' ''/a.mp4'' ''1.1'' ?hs)),
     blank_request_info\<lparr>remote_user := None, req_method := Some ''GET'', req_uri := Some ''/a.mp4'',
        req_version := Some ''1.1'', http_headers := ?hs\<rparr>)"
    by (rule mg_parse_print; code_simp)
  ultimately show ?thesis by (simp add: blank_request_info_def)
qed

end
