(* ===== verification/Mongoose_Config.thy ===== *)
theory Mongoose_Config
  imports Mongoose_Uri
begin

section \<open>The web server's options, ports and access list\<close>

text \<open>
  Options and their defaults, the listening ports, the access control list and \<open>mg_start\<close> up to
  the creation of its threads (\<open>src/src/common/network/details/mongoose.c\<close>). Sockets, the file
  system, user identities and thread creation are parameters; memory does not run out, and a number
  in a text fits an \<open>int\<close>.
\<close>

subsection \<open>Options\<close>

datatype config_key =
    CGI_EXTENSIONS | CGI_ENVIRONMENT | PUT_DELETE_PASSWORDS_FILE | CGI_INTERPRETER
  | PROTECT_URI | AUTHENTICATION_DOMAIN | SSI_EXTENSIONS | THROTTLE
  | ACCESS_LOG_FILE | ENABLE_DIRECTORY_LISTING | ERROR_LOG_FILE
  | GLOBAL_PASSWORDS_FILE | INDEX_FILES | ENABLE_KEEP_ALIVE | ACCESS_CONTROL_LIST
  | EXTRA_MIME_TYPES | LISTENING_PORTS | DOCUMENT_ROOT | SSL_CERTIFICATE
  | NUM_THREADS | RUN_AS_USER | REWRITE | HIDE_FILES

type_synonym config = "config_key \<Rightarrow> string option"

definition config_options :: "(config_key \<times> string \<times> string \<times> string option) list" where
  "config_options =
    [(CGI_EXTENSIONS, ''C'', ''cgi_pattern'', Some ''**.cgi$|**.pl$|**.php$''),
     (CGI_ENVIRONMENT, ''E'', ''cgi_environment'', None),
     (PUT_DELETE_PASSWORDS_FILE, ''G'', ''put_delete_passwords_file'', None),
     (CGI_INTERPRETER, ''I'', ''cgi_interpreter'', None),
     (PROTECT_URI, ''P'', ''protect_uri'', None),
     (AUTHENTICATION_DOMAIN, ''R'', ''authentication_domain'', Some ''mydomain.com''),
     (SSI_EXTENSIONS, ''S'', ''ssi_pattern'', Some ''**.shtml$|**.shtm$''),
     (THROTTLE, ''T'', ''throttle'', None),
     (ACCESS_LOG_FILE, ''a'', ''access_log_file'', None),
     (ENABLE_DIRECTORY_LISTING, ''d'', ''enable_directory_listing'', Some ''yes''),
     (ERROR_LOG_FILE, ''e'', ''error_log_file'', None),
     (GLOBAL_PASSWORDS_FILE, ''g'', ''global_passwords_file'', None),
     (INDEX_FILES, ''i'', ''index_files'', Some ''index.html,index.htm,index.cgi,index.shtml,index.php''),
     (ENABLE_KEEP_ALIVE, ''k'', ''enable_keep_alive'', Some ''no''),
     (ACCESS_CONTROL_LIST, ''l'', ''access_control_list'', None),
     (EXTRA_MIME_TYPES, ''m'', ''extra_mime_types'', None),
     (LISTENING_PORTS, ''p'', ''listening_ports'', Some ''8080''),
     (DOCUMENT_ROOT, ''r'', ''document_root'', Some ''.''),
     (SSL_CERTIFICATE, ''s'', ''ssl_certificate'', None),
     (NUM_THREADS, ''t'', ''num_threads'', Some ''20''),
     (RUN_AS_USER, ''u'', ''run_as_user'', None),
     (REWRITE, ''w'', ''url_rewrite_patterns'', None),
     (HIDE_FILES, ''x'', ''hide_files_patterns'', None)]"

fun find_option ::
  "(config_key \<times> string \<times> string \<times> string option) list \<Rightarrow> string \<Rightarrow> config_key option" where
  "find_option [] name = None"
| "find_option ((k, short, long, d) # rows) name =
     (if short = name \<or> long = name then Some k else find_option rows name)"

definition get_option_index :: "string \<Rightarrow> config_key option" where
  "get_option_index name = find_option config_options name"

text \<open>\<open>None\<close> is a null pointer: an unknown option. An option without a value is empty.\<close>

definition mg_get_option :: "config \<Rightarrow> string \<Rightarrow> string option" where
  "mg_get_option ctx name =
     (case get_option_index name of
        None \<Rightarrow> None
      | Some k \<Rightarrow> (case ctx k of None \<Rightarrow> Some [] | Some v \<Rightarrow> Some v))"

datatype start_error =
  Invalid_option string | Null_value string | Bad_passwords | Bad_ssl | Bad_ports | Bad_user | Bad_acl

text \<open>
  The loop over the caller's array of pointers, which a null pointer ends; reading behind the
  array is undefined. A repeated option only causes a warning.
\<close>

fun read_options :: "string option list \<Rightarrow> config \<Rightarrow> (start_error + config) cpp" where
  "read_options [] cfg = Undef"
| "read_options (None # ps) cfg = Ret (Inr cfg)"
| "read_options [Some name] cfg =
     (case get_option_index name of None \<Rightarrow> Ret (Inl (Invalid_option name)) | Some k \<Rightarrow> Undef)"
| "read_options (Some name # v # ps) cfg =
     (case get_option_index name of
        None \<Rightarrow> Ret (Inl (Invalid_option name))
      | Some k \<Rightarrow>
          (case v of
             None \<Rightarrow> Ret (Inl (Null_value name))
           | Some x \<Rightarrow> read_options ps (cfg(k := Some (mg_strdup x)))))"

fun default_value :: "(config_key \<times> string \<times> string \<times> string option) list \<Rightarrow> config" where
  "default_value [] k = None"
| "default_value ((k', _, _, d) # rows) k = (if k' = k then map_option mg_strdup d else default_value rows k)"

definition fill_defaults :: "config \<Rightarrow> config" where
  "fill_defaults cfg k = (case cfg k of Some v \<Rightarrow> Some v | None \<Rightarrow> default_value config_options k)"

subsection \<open>Numbers in texts\<close>

text \<open>\<open>%d\<close> of \<open>sscanf\<close>: the number and the rest of the text.\<close>

definition mg_digit :: "char \<Rightarrow> bool" where
  "mg_digit c \<longleftrightarrow> (let n = of_char c :: nat in 48 \<le> n \<and> n \<le> 57)"

definition scan_int :: "string \<Rightarrow> (int \<times> string) option" where
  "scan_int s =
     (let s1 = dropWhile is_space s;
          neg = (deref s1 = CHR ''-'');
          s2 = (if neg \<or> deref s1 = CHR ''+'' then tl s1 else s1);
          ds = takeWhile mg_digit s2
      in if ds = [] then None
         else Some (if neg then - digits_value ds else digits_value ds, dropWhile mg_digit s2))"

definition scan_char :: "char \<Rightarrow> string \<Rightarrow> string option" where
  "scan_char c s = (if s \<noteq> [] \<and> hd s = c then Some (tl s) else None)"

text \<open>\<open>%d.%d.%d.%d\<close>\<close>

definition scan_quad :: "string \<Rightarrow> ((int \<times> int \<times> int \<times> int) \<times> string) option" where
  "scan_quad s =
     Option.bind (scan_int s) (\<lambda>(a, s). Option.bind (scan_char CHR ''.'' s) (\<lambda>s.
     Option.bind (scan_int s) (\<lambda>(b, s). Option.bind (scan_char CHR ''.'' s) (\<lambda>s.
     Option.bind (scan_int s) (\<lambda>(c, s). Option.bind (scan_char CHR ''.'' s) (\<lambda>s.
     Option.bind (scan_int s) (\<lambda>(d, s). Some ((a, b, c, d), s))))))))"

definition atoi :: "string \<Rightarrow> int" where
  "atoi s = (case scan_int s of None \<Rightarrow> 0 | Some (v, _) \<Rightarrow> v)"

definition pack_address :: "int \<times> int \<times> int \<times> int \<Rightarrow> 32 word" where
  "pack_address q =
     (case q of (a, b, c, d) \<Rightarrow>
        or (or (push_bit 24 (word_of_int a)) (push_bit 16 (word_of_int b)))
           (or (push_bit 8 (word_of_int c)) (word_of_int d)))"

subsection \<open>Access control list\<close>

definition isbyte :: "int \<Rightarrow> bool" where
  "isbyte n \<longleftrightarrow> 0 \<le> n \<and> n \<le> 255"

text \<open>The network, the mask and the number of characters read; \<open>None\<close> is a length of zero.\<close>

definition parse_net :: "string \<Rightarrow> (32 word \<times> 32 word \<times> nat) option" where
  "parse_net spec =
     (case scan_quad spec of
        None \<Rightarrow> None
      | Some ((a, b, c, d), rest) \<Rightarrow>
          let (slash, rest') =
                (case Option.bind (scan_char CHR ''/'' rest) scan_int of
                   Some (n, r) \<Rightarrow> (n, r)
                 | None \<Rightarrow> (32, rest))
          in if isbyte a \<and> isbyte b \<and> isbyte c \<and> isbyte d \<and> 0 \<le> slash \<and> slash < 33
             then Some (pack_address (a, b, c, d),
                        if slash \<noteq> 0 then push_bit (nat (32 - slash)) 0xFFFFFFFF else 0,
                        length spec - length rest')
             else None)"

fun acl_loop :: "32 word \<Rightarrow> vec list \<Rightarrow> bool \<Rightarrow> int" where
  "acl_loop remote_ip [] allowed = (if allowed then 1 else 0)"
| "acl_loop remote_ip (v # vs) allowed =
     (let flag = deref (vec_ptr v)
      in if flag \<noteq> CHR ''+'' \<and> flag \<noteq> CHR ''-'' then -1
         else case parse_net (tl (vec_ptr v)) of
           None \<Rightarrow> -1
         | Some (net, msk, _) \<Rightarrow>
             acl_loop remote_ip vs (if net = and remote_ip msk then flag = CHR ''+'' else allowed))"

definition check_acl :: "config \<Rightarrow> 32 word \<Rightarrow> int" where
  "check_acl ctx remote_ip =
     (case ctx ACCESS_CONTROL_LIST of
        None \<Rightarrow> acl_loop remote_ip [] True
      | Some list \<Rightarrow> acl_loop remote_ip (map fst (each_option False list)) False)"

definition set_acl_option :: "config \<Rightarrow> bool" where
  "set_acl_option ctx \<longleftrightarrow> check_acl ctx 0x7F000001 \<noteq> -1"

subsection \<open>Listening ports\<close>

record listener =
  l_addr :: "32 word"
  l_port :: "16 word"
  l_ssl :: bool
  l_sock :: int

text \<open>
  After an address the port is not checked against the end of the list entry; without one, what
  follows the number must end the entry or be the letter \<open>s\<close>.
\<close>

definition parse_port_string :: "vec \<Rightarrow> listener option" where
  "parse_port_string v =
     (let s = vec_ptr v
      in case Option.bind (scan_quad s) (\<lambda>(q, r). Option.bind (scan_char CHR '':'' r) (\<lambda>r.
              Option.bind (scan_int r) (\<lambda>(port, r). Some (q, port, r)))) of
           Some (q, port, r) \<Rightarrow>
             Some \<lparr>l_addr = pack_address q, l_port = word_of_int port, l_ssl = (deref r = CHR ''s''), l_sock = -1\<rparr>
         | None \<Rightarrow>
             (case scan_int s of
                None \<Rightarrow> None
              | Some (port, r) \<Rightarrow>
                  let len = length s - length r
                  in if len = 0 \<or> len > vec_len v \<or> deref r \<notin> {NUL, CHR ''s'', CHR '',''} then None
                     else Some \<lparr>l_addr = 0, l_port = word_of_int port, l_ssl = (deref r = CHR ''s''), l_sock = -1\<rparr>))"

text \<open>
  What the operating system answers: the bound and listening socket of an address (\<open>None\<close> when
  any call fails), whether a path exists, whether a user can be switched to, whether the SSL library
  accepts the certificate, and whether the n-th thread is created.
\<close>

record os_env =
  os_listen :: "listener \<Rightarrow> int option"
  os_exists :: "string \<Rightarrow> bool"
  os_become :: "string \<Rightarrow> bool"
  os_ssl :: "string \<Rightarrow> bool"
  os_thread :: "nat \<Rightarrow> bool"

text \<open>
  There is no SSL context unless a certificate is configured. The listeners are pushed at the front
  of the list; a failure closes all of them.
\<close>

fun open_ports :: "os_env \<Rightarrow> bool \<Rightarrow> vec list \<Rightarrow> listener list \<Rightarrow> listener list option" where
  "open_ports os ssl [] opened = Some opened"
| "open_ports os ssl (v # vs) opened =
     (case parse_port_string v of
        None \<Rightarrow> None
      | Some so \<Rightarrow>
          if l_ssl so \<and> \<not> ssl then None
          else case os_listen os so of
                 None \<Rightarrow> None
               | Some sock \<Rightarrow> open_ports os ssl vs (so\<lparr>l_sock := sock\<rparr> # opened))"

definition set_ports_option :: "os_env \<Rightarrow> config \<Rightarrow> listener list option" where
  "set_ports_option os ctx =
     (case ctx LISTENING_PORTS of
        None \<Rightarrow> Some []
      | Some list \<Rightarrow> open_ports os (ctx SSL_CERTIFICATE \<noteq> None) (map fst (each_option False list)) [])"

definition set_gpass_option :: "os_env \<Rightarrow> config \<Rightarrow> bool" where
  "set_gpass_option os ctx \<longleftrightarrow> (case ctx GLOBAL_PASSWORDS_FILE of None \<Rightarrow> True | Some path \<Rightarrow> os_exists os path)"

definition set_ssl_option :: "os_env \<Rightarrow> config \<Rightarrow> bool" where
  "set_ssl_option os ctx \<longleftrightarrow> (case ctx SSL_CERTIFICATE of None \<Rightarrow> True | Some pem \<Rightarrow> os_ssl os pem)"

definition set_uid_option :: "os_env \<Rightarrow> config \<Rightarrow> bool" where
  "set_uid_option os ctx \<longleftrightarrow> (case ctx RUN_AS_USER of None \<Rightarrow> True | Some uid \<Rightarrow> os_become os uid)"

subsection \<open>Starting the server\<close>

record mg_context =
  ctx_config :: config
  ctx_listeners :: "listener list"
  ctx_workers :: nat

text \<open>
  A null array of options leaves all defaults. \<open>num_threads\<close> counts the threads that could be
  created.
\<close>

definition mg_start :: "os_env \<Rightarrow> string option list option \<Rightarrow> (start_error + mg_context) cpp" where
  "mg_start os options =
     cbind (case options of None \<Rightarrow> Ret (Inr (\<lambda>_. None)) | Some ps \<Rightarrow> read_options ps (\<lambda>_. None))
       (\<lambda>r. case r of
          Inl e \<Rightarrow> Ret (Inl e)
        | Inr given \<Rightarrow>
            let ctx = fill_defaults given
            in if \<not> set_gpass_option os ctx then Ret (Inl Bad_passwords)
               else if \<not> set_ssl_option os ctx then Ret (Inl Bad_ssl)
               else case set_ports_option os ctx of
                 None \<Rightarrow> Ret (Inl Bad_ports)
               | Some listeners \<Rightarrow>
                   if \<not> set_uid_option os ctx then Ret (Inl Bad_user)
                   else if \<not> set_acl_option ctx then Ret (Inl Bad_acl)
                   else Ret (Inr \<lparr>ctx_config = ctx, ctx_listeners = listeners,
                          ctx_workers = length (List.filter (os_thread os)
                            [0..<nat (atoi (case ctx NUM_THREADS of Some v \<Rightarrow> v | None \<Rightarrow> []))])\<rparr>))"

text \<open>The options the transport passes (\<open>http_mongoose_transport.cpp\<close>).\<close>

definition mongoose_options :: "string \<Rightarrow> string \<Rightarrow> string option list" where
  "mongoose_options root port =
     [Some ''document_root'', Some root, Some ''listening_ports'', Some port,
      Some ''enable_directory_listing'', Some ''no'', Some ''num_threads'', Some ''6'', None]"

subsection \<open>Lemmas on the access control list\<close>

definition acl_entry_ok :: "vec \<Rightarrow> bool" where
  "acl_entry_ok v \<longleftrightarrow>
     deref (vec_ptr v) \<in> {CHR ''+'', CHR ''-''} \<and> parse_net (tl (vec_ptr v)) \<noteq> None"

definition acl_applies :: "32 word \<Rightarrow> vec \<Rightarrow> bool" where
  "acl_applies ip v \<longleftrightarrow>
     (case parse_net (tl (vec_ptr v)) of None \<Rightarrow> False | Some (net, msk, _) \<Rightarrow> net = and ip msk)"

definition acl_allows :: "vec \<Rightarrow> bool" where
  "acl_allows v \<longleftrightarrow> deref (vec_ptr v) = CHR ''+''"

lemma acl_loop_malformed: "acl_loop ip vs d = -1 \<longleftrightarrow> \<not> (\<forall>v \<in> set vs. acl_entry_ok v)"
proof (induction vs arbitrary: d)
  case (Cons v vs)
  then show ?case by (auto simp: acl_entry_ok_def Let_def split: option.splits)
qed simp

lemma acl_loop_last:
  "\<forall>v \<in> set vs. acl_entry_ok v \<Longrightarrow>
   acl_loop ip vs d = (if fold (\<lambda>v a. if acl_applies ip v then acl_allows v else a) vs d then 1 else 0)"
proof (induction vs arbitrary: d)
  case (Cons v vs)
  then show ?case
    by (auto simp: acl_entry_ok_def acl_applies_def acl_allows_def Let_def split: option.splits)
qed simp

lemma fold_last_verdict:
  "fold (\<lambda>v a. if P v then f v else a) vs d = (case List.filter P vs of [] \<Rightarrow> d | ws \<Rightarrow> f (last ws))"
proof (induction vs arbitrary: d)
  case (Cons v vs)
  then show ?case by (cases "List.filter P vs") auto
qed simp

text \<open>C37. Access control: once \<open>set_acl_option\<close> has accepted the list, the answer for every address is
  the sign of the last entry whose subnet contains it, and no when there is none; without a list
  everybody is let in. The error value, which \<open>accept_new_connection\<close> would take for a yes, never
  occurs.
\<close>

theorem acl_last_match_wins:
  assumes "set_acl_option ctx"
  shows "check_acl ctx ip =
    (case ctx ACCESS_CONTROL_LIST of
       None \<Rightarrow> 1
     | Some list \<Rightarrow>
         (case List.filter (acl_applies ip) (map fst (each_option False list)) of
            [] \<Rightarrow> 0
          | vs \<Rightarrow> if acl_allows (last vs) then 1 else 0))"
proof (cases "ctx ACCESS_CONTROL_LIST")
  case None
  then show ?thesis by (simp add: check_acl_def)
next
  case (Some list)
  with assms have "\<forall>v \<in> set (map fst (each_option False list)). acl_entry_ok v"
    by (simp only: set_acl_option_def check_acl_def option.case acl_loop_malformed not_not)
  from acl_loop_last [OF this, of ip False] Some show ?thesis
    unfolding check_acl_def fold_last_verdict by (auto split: list.splits)
qed

theorem acl_last_match_wins_witness:
  "check_acl ((\<lambda>_. None)(ACCESS_CONTROL_LIST := Some ''-0.0.0.0/0,+127.0.0.0/8'')) 0x7F000005 = 1 \<and>
   check_acl ((\<lambda>_. None)(ACCESS_CONTROL_LIST := Some ''-0.0.0.0/0,+127.0.0.0/8'')) 0x0A000001 = 0"
  (is "check_acl ?ctx _ = 1 \<and> _")
proof -
  have "set_acl_option ?ctx" by code_simp
  then show ?thesis
    using acl_last_match_wins [of ?ctx "0x7F000005"] acl_last_match_wins [of ?ctx "0x0A000001"]
    by code_simp
qed

subsection \<open>Lemmas on starting the server\<close>

lemma digit_char_mg_digit: "d < 10 \<Longrightarrow> mg_digit (digit_char d)"
  by (simp add: mg_digit_def digit_char_def Let_def)

lemma decimal_mg_digits: "\<forall>c \<in> set (decimal n). mg_digit c"
  using set_decimal [of n] digit_char_mg_digit by blast

lemma digit_not: "mg_digit c \<Longrightarrow> \<not> is_space c \<and> c \<notin> {CHR ''-'', CHR ''+'', CHR '','', CHR ''.'', CHR ''/'', NUL}"
  by (auto simp: mg_digit_def is_space_def)

lemma scan_decimal: "scan_int (decimal n) = Some (int n, [])"
proof -
  obtain c s where d: "decimal n = c # s" by (cases "decimal n") (use decimal_nonempty in auto)
  then have c: "mg_digit c" using decimal_mg_digits [of n] by simp
  have "takeWhile mg_digit (decimal n) = decimal n" "dropWhile mg_digit (decimal n) = []"
    using decimal_mg_digits [of n] by (auto simp: takeWhile_eq_all_conv dropWhile_eq_Nil_conv)
  moreover have "dropWhile is_space (decimal n) = decimal n" using digit_not [OF c] d by simp
  ultimately show ?thesis
    using digit_not [OF c] d digits_value_decimal [of n] by (simp add: scan_int_def Let_def)
qed

lemma parse_plain_port:
  "parse_port_string \<lparr>vec_ptr = decimal n, vec_len = length (decimal n)\<rparr> =
   Some \<lparr>l_addr = 0, l_port = word_of_nat n, l_ssl = False, l_sock = -1\<rparr>"
  by (simp add: parse_port_string_def scan_quad_def scan_decimal scan_char_def Let_def)

lemma one_option: "CHR '','' \<notin> set s \<Longrightarrow> s \<noteq> [] \<Longrightarrow>
   each_option False s = [(\<lparr>vec_ptr = s, vec_len = length s\<rparr>, None)]"
  using next_option_first [of s None] by (subst each_option.simps) simp

lemma decimal_no_comma: "CHR '','' \<notin> set (decimal n)" "NUL \<notin> set (decimal n)"
  using decimal_mg_digits [of n] digit_not by blast+

text \<open>What the transport starts: with a document root and a port number, \<open>mg_start\<close> succeeds when the
  system lets it listen; the server then has one listener on that port for all addresses, six
  workers if the threads can be created, keep-alive and directory listings off, and neither an
  access list nor a password file.
\<close>

theorem transport_starts_server:
  assumes "NUL \<notin> set root"
    and "os_listen os \<lparr>l_addr = 0, l_port = word_of_nat n, l_ssl = False, l_sock = -1\<rparr> = Some sock"
    and "\<forall>i < 6. os_thread os i"
  shows "\<exists>ctx. mg_start os (Some (mongoose_options root (decimal n))) = Ret (Inr ctx)
    \<and> ctx_listeners ctx = [\<lparr>l_addr = 0, l_port = word_of_nat n, l_ssl = False, l_sock = sock\<rparr>]
    \<and> ctx_workers ctx = 6 \<and> ctx_config ctx DOCUMENT_ROOT = Some root
    \<and> ctx_config ctx ENABLE_KEEP_ALIVE = Some ''no''
    \<and> ctx_config ctx ENABLE_DIRECTORY_LISTING = Some ''no''
    \<and> ctx_config ctx ACCESS_CONTROL_LIST = None \<and> ctx_config ctx GLOBAL_PASSWORDS_FILE = None"
proof -
  define given where "given = (\<lambda>_. None)(DOCUMENT_ROOT := Some root, LISTENING_PORTS := Some (decimal n),
     ENABLE_DIRECTORY_LISTING := Some ''no'', NUM_THREADS := Some ''6'')"
  have id: "mg_strdup root = root" "mg_strdup (decimal n) = decimal n" "mg_strdup ''no'' = ''no''"
    "mg_strdup ''6'' = ''6''"
    using assms(1) decimal_no_comma by (simp_all add: mg_strdup_id)
  have index: "get_option_index ''document_root'' = Some DOCUMENT_ROOT"
    "get_option_index ''listening_ports'' = Some LISTENING_PORTS"
    "get_option_index ''enable_directory_listing'' = Some ENABLE_DIRECTORY_LISTING"
    "get_option_index ''num_threads'' = Some NUM_THREADS"
    by code_simp+
  have read: "read_options (mongoose_options root (decimal n)) (\<lambda>_. None) = Ret (Inr given)"
    by (simp add: mongoose_options_def given_def index id)
  have filled: "fill_defaults given DOCUMENT_ROOT = Some root"
    "fill_defaults given LISTENING_PORTS = Some (decimal n)"
    "fill_defaults given NUM_THREADS = Some ''6''"
    "fill_defaults given ENABLE_DIRECTORY_LISTING = Some ''no''"
    by (simp_all add: fill_defaults_def given_def)
  have defaults: "fill_defaults given ENABLE_KEEP_ALIVE = Some ''no''"
    "fill_defaults given ACCESS_CONTROL_LIST = None" "fill_defaults given GLOBAL_PASSWORDS_FILE = None"
    "fill_defaults given RUN_AS_USER = None" "fill_defaults given SSL_CERTIFICATE = None"
    by (simp_all add: fill_defaults_def given_def config_options_def mg_strdup_id)
  have ports: "set_ports_option os (fill_defaults given) =
      Some [\<lparr>l_addr = 0, l_port = word_of_nat n, l_ssl = False, l_sock = sock\<rparr>]"
    using assms(2) filled
    by (simp add: set_ports_option_def one_option decimal_no_comma parse_plain_port)
  have "nat (atoi ''6'') = 6" by code_simp
  moreover have "List.filter (os_thread os) [0..<6] = [0..<6]" using assms(3) by (simp add: filter_id_conv)
  ultimately show ?thesis using read filled defaults ports
    by (simp add: mg_start_def set_gpass_option_def set_uid_option_def set_ssl_option_def
        set_acl_option_def check_acl_def Let_def)
qed

theorem transport_starts_server_witness:
  "\<exists>ctx. mg_start \<lparr>os_listen = (\<lambda>l. if l_port l = 8080 then Some 5 else None), os_exists = (\<lambda>_. False),
      os_become = (\<lambda>_. False), os_ssl = (\<lambda>_. False), os_thread = (\<lambda>_. True)\<rparr>
      (Some (mongoose_options ''/srv'' (decimal 8080))) = Ret (Inr ctx) \<and> ctx_workers ctx = 6"
  using transport_starts_server [of "''/srv''" "\<lparr>os_listen = (\<lambda>l. if l_port l = 8080 then Some 5 else None),
      os_exists = (\<lambda>_. False), os_become = (\<lambda>_. False), os_ssl = (\<lambda>_. False), os_thread = (\<lambda>_. True)\<rparr>" 8080 5]
  by auto

end
