(* ===== verification/Mongoose_Io.thy ===== *)
theory Mongoose_Io
  imports Mongoose_Parser Mongoose_Config Http_Server
begin

section \<open>The web server's connections: reading and error replies\<close>

text \<open>
  Reading from a client and answering errors (\<open>src/src/common/network/details/mongoose.c\<close>). What
  the client and the other threads do is a script: one \<open>pull_env\<close> for each call of \<open>pull\<close>, with
  the results of \<open>select\<close>, what \<open>recv\<close> finds, and whether the server is being stopped when the call
  returns. A script that has ended is a server that stops. Sockets are never SSL sockets, since no
  certificate is configured.
\<close>

subsection \<open>Connections\<close>

text \<open>A result of \<open>select\<close>: the value, whether it was interrupted, and the stop flag after it.\<close>

datatype poll = Poll int bool bool

record pull_env =
  polls :: "poll list"
  incoming :: "string option"
  stop_after :: bool

text \<open>The other end of the socket: its address as a text, its port, and the server's port.\<close>

record peer =
  pe_addr :: string
  pe_port :: int
  pe_server_port :: int

definition no_peer :: peer where
  "no_peer = \<lparr>pe_addr = [], pe_port = 0, pe_server_port = 0\<rparr>"

text \<open>
  \<open>struct mg_connection\<close>. \<open>c_buf\<close> is the whole receive buffer, of which the first \<open>c_data_len\<close>
  bytes are data. \<open>c_out\<close> is the sending side of the socket.
\<close>

record connection =
  c_info :: request_info
  c_out :: mg_connection
  c_env :: "pull_env list"
  c_buf :: string
  c_data_len :: nat
  c_request_len :: int
  c_content_len :: int
  c_consumed :: int
  c_must_close :: bool
  c_status :: int
  c_num_sent :: int
  c_path_info :: "string option"
  c_peer :: peer

definition MAX_REQUEST_SIZE :: nat where "MAX_REQUEST_SIZE = 16384"

definition MG_BUF_LEN :: nat where "MG_BUF_LEN = 8192"

fun wait_until_socket_is_readable :: "poll list \<Rightarrow> bool" where
  "wait_until_socket_is_readable [] = False"
| "wait_until_socket_is_readable (Poll result eintr stop # ps) =
     (if (result = 0 \<or> result < 0 \<and> eintr) \<and> \<not> stop then wait_until_socket_is_readable ps
      else \<not> (stop \<or> result < 0))"

text \<open>The result, the bytes written to the buffer, and the rest of the script.\<close>

definition pull :: "bool \<Rightarrow> pull_env list \<Rightarrow> nat \<Rightarrow> int \<times> string \<times> pull_env list" where
  "pull must_close env len =
     (case env of
        [] \<Rightarrow> (-1, [], [])
      | e # es \<Rightarrow>
          if \<not> must_close \<and> \<not> wait_until_socket_is_readable (polls e) then (-1, [], es)
          else case incoming e of
                 None \<Rightarrow> (-1, [], es)
               | Some bs \<Rightarrow>
                   (if stop_after e then -1 else int (min len (length bs)), take len bs,
                    if len < length bs then e\<lparr>incoming := Some (drop len bs)\<rparr> # es else es))"

function read_loop ::
  "bool \<Rightarrow> nat \<Rightarrow> string \<Rightarrow> nat \<Rightarrow> int \<Rightarrow> int \<Rightarrow> pull_env list
     \<Rightarrow> int \<times> string \<times> nat \<times> pull_env list" where
  "read_loop must_close bufsiz buf nread request_len n env =
     (if nread < bufsiz \<and> request_len = 0 \<and> 0 < n then
        (case pull must_close env (bufsiz - nread) of
           (n', bs, env') \<Rightarrow>
             let buf' = overwrite buf nread bs
             in if 0 < n'
                then read_loop must_close bufsiz buf' (nread + nat n')
                       (get_request_len buf' (nread + nat n')) n' env'
                else read_loop must_close bufsiz buf' nread request_len n' env')
      else (if n < 0 then -1 else request_len, buf, nread, env))"
  by pat_completeness auto
termination
  by (relation "inv_image (less_than <*lex*> less_than)
        (\<lambda>(_, bufsiz, _, nread, _, n, _). (bufsiz - nread, nat n))") auto

declare read_loop.simps [simp del]

text \<open>The request's length, the buffer, the length of the data in it, and the rest of the script.\<close>

definition read_request ::
  "bool \<Rightarrow> pull_env list \<Rightarrow> string \<Rightarrow> nat \<Rightarrow> nat \<Rightarrow> int \<times> string \<times> nat \<times> pull_env list" where
  "read_request must_close env buf bufsiz nread =
     read_loop must_close bufsiz buf nread (get_request_len buf nread) 1 env"

subsection \<open>Reading the body\<close>

text \<open>Reading \<open>len\<close> more bytes from the socket; \<open>nread\<close> bytes are \<open>got\<close> so far.\<close>

function read_body ::
  "bool \<Rightarrow> nat \<Rightarrow> string \<Rightarrow> pull_env list \<Rightarrow> int \<times> string \<times> nat \<times> pull_env list" where
  "read_body must_close len got env =
     (if len = 0 then (int (length got), got, 0, env)
      else case pull must_close env len of
             (n, bs, env') \<Rightarrow>
               if n < 0 then (n, got @ bs, 0, env')
               else if n = 0 then (int (length got), got, 0, env')
               else case read_body must_close (len - nat n) (got @ bs) env' of
                      (r, got', k, env'') \<Rightarrow> (r, got', k + nat n, env''))"
  by pat_completeness auto
termination
  by (relation "measure (\<lambda>(_, len, _, _). len)") auto

declare read_body.simps [simp del]

text \<open>\<open>mg_read\<close>: the result, the bytes stored, and the connection. Lengths are those of an \<open>int\<close>.\<close>

definition mg_read :: "connection \<Rightarrow> nat \<Rightarrow> int \<times> string \<times> connection" where
  "mg_read conn len =
     (if c_consumed conn < c_content_len conn then
        let to_read = c_content_len conn - c_consumed conn;
            len1 = (if to_read < int len then nat to_read else len);
            body = nat (c_request_len conn + c_consumed conn);
            buffered = int (c_data_len conn) - int body;
            k = (if 0 < buffered then min len1 (nat buffered) else 0);
            first = take k (drop body (c_buf conn))
        in case read_body (c_must_close conn) (len1 - k) first (c_env conn) of
             (n, bytes, extra, env) \<Rightarrow>
               (n, bytes, conn\<lparr>c_consumed := c_consumed conn + int k + int extra, c_env := env\<rparr>)
      else (0, [], conn))"

subsection \<open>Keep-alive and error replies\<close>

definition mg_get_header :: "connection \<Rightarrow> string \<Rightarrow> string option" where
  "mg_get_header conn name = get_header (c_info conn) name"

text \<open>The option always has a value, its default at least.\<close>

definition should_keep_alive :: "config \<Rightarrow> connection \<Rightarrow> bool" where
  "should_keep_alive ctx conn \<longleftrightarrow>
     (let header = mg_get_header conn ''Connection''
      in \<not> (c_must_close conn \<or> c_status conn = 401
            \<or> mg_strcasecmp (case ctx ENABLE_KEEP_ALIVE of Some v \<Rightarrow> v | None \<Rightarrow> []) ''yes'' \<noteq> 0
            \<or> (case header of Some h \<Rightarrow> mg_strcasecmp h ''keep-alive'' \<noteq> 0
               | None \<Rightarrow> (case req_version (c_info conn) of Some v \<Rightarrow> v \<noteq> ''1.1'' | None \<Rightarrow> False))))"

definition suggest_connection_header :: "config \<Rightarrow> connection \<Rightarrow> string" where
  "suggest_connection_header ctx conn = (if should_keep_alive ctx conn then ''keep-alive'' else ''close'')"

text \<open>
  \<open>mg_printf\<close> of a text that is already formatted; \<open>mg_write\<close> is the one of the socket stream. A
  text that just fills the local buffer loses its last character to the terminator.
\<close>

definition mg_printf :: "connection \<Rightarrow> string \<Rightarrow> int \<times> connection" where
  "mg_printf conn s =
     (if s = [] then (0, conn)
      else case mg_write (c_out conn)
                  (if length s = MG_BUF_LEN then take (MG_BUF_LEN - 1) s @ [NUL] else s) of
             (n, out) \<Rightarrow> (n, conn\<lparr>c_out := out\<rparr>))"

text \<open>
  The user's callback sees the event, the connection and its own state; its answer is whether the
  pointer it returns is not null.
\<close>

type_synonym 'w callback = "mg_event \<Rightarrow> connection \<times> 'w \<Rightarrow> (bool \<times> connection \<times> 'w) cpp"

text \<open>\<open>mg_vsnprintf\<close> truncates to the buffer.\<close>

definition mg_snprintf :: "nat \<Rightarrow> string \<Rightarrow> string" where
  "mg_snprintf buflen s = (if buflen = 0 then [] else take (buflen - 1) s)"

definition error_body :: "int \<Rightarrow> string \<Rightarrow> string \<Rightarrow> string" where
  "error_body status reason text1 =
     (if status > 199 \<and> status \<noteq> 204 \<and> status \<noteq> 304 then
        let head = mg_snprintf MG_BUF_LEN (''Error '' @ decimal_int status @ '': '' @ reason) @ [LF]
        in head @ mg_snprintf (MG_BUF_LEN - length head) text1
      else [])"

definition send_http_error ::
  "'w callback \<Rightarrow> config \<Rightarrow> int \<Rightarrow> string \<Rightarrow> string \<Rightarrow> connection \<times> 'w \<Rightarrow> (connection \<times> 'w) cpp" where
  "send_http_error user_callback ctx status reason text1 cw =
     (let conn1 = (fst cw)\<lparr>c_status := status, c_info := (c_info (fst cw))\<lparr>ev_data := Some status\<rparr>\<rparr>
      in cbind (user_callback MG_HTTP_ERROR (conn1, snd cw)) (\<lambda>(served, conn2, w).
           if served then Ret (conn2, w)
           else let body = error_body status reason text1;
                    conn3 = snd (mg_printf conn2
                      (''HTTP/1.1 '' @ decimal_int status @ '' '' @ reason @ crlf @ ''Content-Length: ''
                       @ decimal (length body) @ crlf @ ''Connection: '' @ suggest_connection_header ctx conn2
                       @ crlf @ crlf));
                    (n, conn4) = mg_printf conn3 body
                in Ret (conn4\<lparr>c_num_sent := c_num_sent conn4 + n\<rparr>, w)))"

definition reset_per_request_attributes :: "connection \<Rightarrow> connection" where
  "reset_per_request_attributes conn =
     conn\<lparr>c_info := (c_info conn)\<lparr>ev_data := None\<rparr>, c_num_sent := 0, c_consumed := 0, c_status := -1,
          c_must_close := False, c_request_len := 0, c_path_info := None\<rparr>"

end
