(* ===== verification/Rfc_1321.thy ===== *)
theory Rfc_1321
  imports Complex_Main "HOL-Library.Word"
begin

section \<open>The constants of RFC 1321\<close>

text \<open>
  RFC 1321 takes the constants of MD5 from the sine: the one of step \<open>i\<close> is the integer part of
  \<open>2^32 * |sin i|\<close>, with \<open>i\<close> in radians and counted from 1. The table below is proved to be those
  numbers: from integer approximations of the powers of \<open>cis 1\<close>, the point of the unit circle at the angle
  1, with a bound on their error.
\<close>

definition rfc_sine :: "nat \<Rightarrow> int" where
  "rfc_sine i = \<lfloor>2 ^ 32 * \<bar>sin (real i)\<bar>\<rfloor>"

definition sine_table :: "int list" where
  "sine_table =
    [0xd76aa478, 0xe8c7b756, 0x242070db, 0xc1bdceee, 0xf57c0faf, 0x4787c62a, 0xa8304613,
     0xfd469501, 0x698098d8, 0x8b44f7af, 0xffff5bb1, 0x895cd7be, 0x6b901122, 0xfd987193,
     0xa679438e, 0x49b40821, 0xf61e2562, 0xc040b340, 0x265e5a51, 0xe9b6c7aa, 0xd62f105d,
     0x02441453, 0xd8a1e681, 0xe7d3fbc8, 0x21e1cde6, 0xc33707d6, 0xf4d50d87, 0x455a14ed,
     0xa9e3e905, 0xfcefa3f8, 0x676f02d9, 0x8d2a4c8a, 0xfffa3942, 0x8771f681, 0x6d9d6122,
     0xfde5380c, 0xa4beea44, 0x4bdecfa9, 0xf6bb4b60, 0xbebfbc70, 0x289b7ec6, 0xeaa127fa,
     0xd4ef3085, 0x04881d05, 0xd9d4d039, 0xe6db99e5, 0x1fa27cf8, 0xc4ac5665, 0xf4292244,
     0x432aff97, 0xab9423a7, 0xfc93a039, 0x655b59c3, 0x8f0ccc92, 0xffeff47d, 0x85845dd1,
     0x6fa87e4f, 0xfe2ce6e0, 0xa3014314, 0x4e0811a1, 0xf7537e82, 0xbd3af235, 0x2ad7d2bb,
     0xeb86d391]"

subsection \<open>The sine and cosine of 1\<close>

definition sin1 :: int where "sin1 = 60634374617982832"
definition cos1 :: int where "cos1 = 38932884214002780"

lemma sum_numeral: "(\<Sum>m<n. f m) = sum_list (map f [0..<n])" for f :: "nat \<Rightarrow> real"
  by (simp add: interv_sum_list_conv_sum_set_nat atLeast0LessThan)

lemma upto_20: "[0..<20] = [0, 1, 2, 3, 4, 5, 6, 7, 8, 9, 10, 11, 12, 13, 14, 15, 16, 17, 18, 19]"
  by (simp add: upt_rec)

lemma scaled_bound:
  fixes x a k d c :: real
  assumes "0 \<le> c" "\<bar>x - a\<bar> \<le> d" "\<bar>c * a - k\<bar> \<le> 1"
  shows "\<bar>c * x - k\<bar> \<le> 1 + c * d"
proof -
  have "\<bar>c * (x - a)\<bar> \<le> c * d" using assms(1,2) by (simp add: abs_mult mult_left_mono)
  moreover have "c * x - k = c * (x - a) + (c * a - k)" by (simp add: algebra_simps)
  ultimately show ?thesis using assms(3) by linarith
qed

lemma sin1_bound: "\<bar>2 ^ 56 * sin (1 :: real) - of_int sin1\<bar> \<le> 1 + 2 ^ 56 * inverse (fact 20)"
proof (rule scaled_bound)
  show "0 \<le> (2 :: real) ^ 56" by simp
  show "\<bar>sin (1 :: real) - (\<Sum>m<20. sin_coeff m * 1 ^ m)\<bar> \<le> inverse (fact 20)"
    using Maclaurin_sin_bound [of 1 20] by simp
  show "\<bar>2 ^ 56 * (\<Sum>m<20. sin_coeff m * (1 :: real) ^ m) - of_int sin1\<bar> \<le> 1"
    unfolding sum_numeral upto_20 by (simp add: sin_coeff_def fact_numeral sin1_def)
qed

lemma cos1_bound: "\<bar>2 ^ 56 * cos (1 :: real) - of_int cos1\<bar> \<le> 1 + 2 ^ 56 * inverse (fact 20)"
proof (rule scaled_bound)
  show "0 \<le> (2 :: real) ^ 56" by simp
  obtain t :: real where t:
    "cos 1 = (\<Sum>m<20. cos_coeff m * 1 ^ m) + (cos (t + 1/2 * real 20 * pi) / fact 20) * 1 ^ 20"
    using Maclaurin_cos_expansion [of 1 20] by blast
  obtain k :: real where k: "\<bar>k\<bar> \<le> 1" "cos 1 = (\<Sum>m<20. cos_coeff m * 1 ^ m) + k / fact 20"
    by (rule that [of "cos (t + 1/2 * real 20 * pi)"]) (simp_all only: abs_cos_le_one t power_one mult_1_right)
  have "\<bar>k / fact 20\<bar> \<le> inverse (fact 20)"
    using k(1) by (simp add: inverse_eq_divide divide_right_mono del: fact_Suc)
  then show "\<bar>cos (1 :: real) - (\<Sum>m<20. cos_coeff m * 1 ^ m)\<bar> \<le> inverse (fact 20)"
    unfolding k(2) by (simp only: add_diff_cancel_left')
  show "\<bar>2 ^ 56 * (\<Sum>m<20. cos_coeff m * (1 :: real) ^ m) - of_int cos1\<bar> \<le> 1"
    unfolding sum_numeral upto_20 by (simp add: cos_coeff_def fact_numeral cos1_def)
qed

subsection \<open>The powers of \<open>cis 1\<close>\<close>

definition point :: "int \<times> int \<Rightarrow> complex" where
  "point p = Complex (of_int (fst p)) (of_int (snd p))"

lemma norm_components: "\<bar>Re z\<bar> \<le> a \<Longrightarrow> \<bar>Im z\<bar> \<le> b \<Longrightarrow> norm z \<le> a + b"
  using cmod_le [of z] by linarith

lemma point_one: "norm (2 ^ 56 * cis 1 - point (cos1, sin1)) \<le> 3"
proof -
  have p: "Re ((2 :: complex) ^ 56 * cis 1) = 2 ^ 56 * cos 1" "Im ((2 :: complex) ^ 56 * cis 1) = 2 ^ 56 * sin 1"
    by simp_all
  have "\<bar>Re (2 ^ 56 * cis 1 - point (cos1, sin1))\<bar> \<le> 1 + 2 ^ 56 * inverse (fact 20)"
    "\<bar>Im (2 ^ 56 * cis 1 - point (cos1, sin1))\<bar> \<le> 1 + 2 ^ 56 * inverse (fact 20)"
    using sin1_bound cos1_bound unfolding minus_complex.simps p by (simp_all only: point_def complex.sel fst_conv snd_conv)
  from norm_components [OF this] show ?thesis by (simp add: fact_numeral)
qed

text \<open>A step of the angle 1, each coordinate within 1 of the product, scaled.\<close>

definition near :: "int \<Rightarrow> int \<Rightarrow> bool" where
  "near a b \<longleftrightarrow> \<bar>a - b * 2 ^ 56\<bar> \<le> 2 ^ 56"

definition next_point :: "int \<times> int \<Rightarrow> int \<times> int \<Rightarrow> bool" where
  "next_point p q \<longleftrightarrow> near (fst p * cos1 - snd p * sin1) (fst q) \<and> near (fst p * sin1 + snd p * cos1) (snd q)"

fun turning :: "int \<times> int \<Rightarrow> (int \<times> int) list \<Rightarrow> bool" where
  "turning p [] = True"
| "turning p (q # qs) = (next_point p q \<and> turning q qs)"

lemma near_error: "near a b \<Longrightarrow> \<bar>of_int a / 2 ^ 56 - of_int b :: real\<bar> \<le> 1"
proof -
  assume "near a b"
  then have "real_of_int \<bar>a - b * 2 ^ 56\<bar> \<le> of_int (2 ^ 56)" unfolding near_def by (simp only: of_int_le_iff)
  then show ?thesis by (simp add: abs_le_iff)
qed

lemma point_product:
  "point p * point (cos1, sin1) / 2 ^ 56
    = Complex (of_int (fst p * cos1 - snd p * sin1) / 2 ^ 56) (of_int (fst p * sin1 + snd p * cos1) / 2 ^ 56)"
  by (simp add: point_def complex_eq_iff)

lemma point_step:
  assumes near: "norm (2 ^ 56 * z - point p) \<le> e" and z: "norm z = 1" and e: "e \<le> 2 ^ 56"
    and q: "next_point p q"
  shows "norm (2 ^ 56 * (z * cis 1) - point q) \<le> e + 8"
proof -
  let ?q = "point p * point (cos1, sin1) / 2 ^ 56"
  have "norm (point p) \<le> norm (2 ^ 56 * z) + norm (2 ^ 56 * z - point p)"
    by (metis add.commute norm_minus_commute norm_triangle_sub)
  moreover have "norm (2 ^ 56 * z) = 2 ^ 56" using z by (simp add: norm_mult norm_power)
  ultimately have p: "norm (point p / 2 ^ 56) \<le> 2" using near e by (simp add: norm_divide norm_power)
  have "2 ^ 56 * (z * cis 1) - ?q
      = (2 ^ 56 * z - point p) * cis 1 + (point p / 2 ^ 56) * (2 ^ 56 * cis 1 - point (cos1, sin1))"
    by (simp add: field_simps)
  also have "norm \<dots> \<le> norm (2 ^ 56 * z - point p) + norm (point p / 2 ^ 56) * norm (2 ^ 56 * cis 1 - point (cos1, sin1))"
    by (rule order_trans [OF norm_triangle_ineq]) (simp only: norm_mult norm_cis mult_1_right order_refl)
  also have "\<dots> \<le> e + 2 * 3"
    using near p point_one by (intro add_mono mult_mono) simp_all
  finally have one: "norm (2 ^ 56 * (z * cis 1) - ?q) \<le> e + 2 * 3" .
  have "norm (?q - point q) \<le> 1 + 1"
    using q unfolding next_point_def point_product
    by (intro norm_components) (simp_all only: point_def minus_complex.simps complex.sel near_error)
  then show ?thesis using one norm_triangle_ineq [of "2 ^ 56 * (z * cis 1) - ?q" "?q - point q"] by simp
qed

lemma turning_near:
  assumes "turning p qs" "norm (2 ^ 56 * z - point p) \<le> e" "norm z = 1" "e + 8 * real (length qs) \<le> 2 ^ 56" "i < length qs"
  shows "norm (2 ^ 56 * (z * cis (Suc i)) - point (qs ! i)) \<le> e + 8 * real (Suc i)"
  using assms
proof (induction qs arbitrary: p z e i)
  case (Cons q qs)
  have q: "norm (2 ^ 56 * (z * cis 1) - point q) \<le> e + 8"
    using Cons.prems by (intro point_step [of z p e q]) simp_all
  show ?case
  proof (cases i)
    case 0
    then show ?thesis using q by simp
  next
    case (Suc j)
    have "norm (2 ^ 56 * ((z * cis 1) * cis (Suc j)) - point (qs ! j)) \<le> (e + 8) + 8 * real (Suc j)"
      using Cons.prems Suc q by (intro Cons.IH) (simp_all add: norm_mult)
    then show ?thesis using Suc by (simp add: mult.assoc cis_mult add.assoc)
  qed
qed simp

text \<open>Cosine and sine of the numbers from 1 to 64, scaled by \<open>2^56\<close>.\<close>

definition circle_points :: "(int \<times> int) list" where
  "circle_points =
    [(38932884214002780, 60634374617982832), (-29986539808081939, 65521784841937453),
     (-71336477420629650, 10168768251407028), (-47099986677671427, -54533366973789557),
     (20440014604020584, -69097776096790935), (69187560722732971, -20134008537123582),
     (54324382587748535, 47340873618837571), (-10484382368685867, 71290774893263828),
     (-65653854526557019, 29696266505076284), (-60461475610974451, -39200852356528790),
     (318905148957444, -72056888345534291), (60806085985644309, -38664153497021731),
     (65388431788762546, 30276225767773212), (9852954959495633, 71380782687646240),
     (-54741283220301718, 46858177193842488), (-69006638059715478, -20745620314424295),
     (-19827608107443089, -69275990178939224), (47580833299112832, -54114334155534633),
     (71243676000719546, 10799791129430436), (29405411544310002, 65784638255785723),
     (-39468052675934927, 60287392351174488), (-72054771282175687, -637804051552074),
     (-38394665469186948, -60976606350665743), (30565318710100590, -65253797979005032),
     (71423689826510833, -9536948678754606), (46615449903648600, 54948127254850587),
     (-21050819682466653, 68914148396618097), (-69363062733350906, 19520819316413255),
     (-53903225791345195, -47819861018431289), (11114988355761328, -71195181665518041),
     (65914133467975931, -29113980622729714), (60112128248334104, 39734479938595634),
     (-956690461543421, 72051242889318832), (-61145932373082034, 38124425408933106),
     (-65117886049723689, -30853812972629927), (-9220755598766920, -71465197996805650),
     (55153895026003036, -46371809561364578), (68820308919084444, 21355606730238589),
     (19213648173075018, 69448776680486723), (-48057952094981239, 53691061630138342),
     (-71145292837512935, -11429967873942430), (-28821979448563328, -66042337626718049),
     (40000128926027135, -59935686735333505), (72046303236073999, 1275558132935713),
     (37853438609424861, 61314060736321553), (-31141702904653357, 64980698663011693),
     (-71505306385514366, 8904381912774369), (-46127260939149096, -55358582503406596),
     (21659975487907108, -68725121465138845), (69533130341476285, -18906100693958410),
     (53477845827551984, 48295101865296913), (-11744723514501862, 71094010493871644),
     (-66169248220890219, 28529413741208230), (-59758071268114711, -40264994434989650),
     (1594400820100207, -72039952419193672), (61480988147271100, -37581710378453172),
     (64842238505944477, 31428982867299978), (8587833817556259, 71544014207038042),
     (-55562185677868405, 45881808826951223), (-68628587899208311, -21963919993832218),
     (-18598182902964716, -69616122064092991), (48531305684349813, -53263582559822424),
     (71041335639056236, 12059249112352815), (28236289231119261, 66294862764707509)]"

lemma turning_circle: "turning (2 ^ 56, 0) circle_points"
  by (simp add: circle_points_def next_point_def near_def cos1_def sin1_def)

lemma circle_near:
  assumes "i < 64"
  shows "\<bar>2 ^ 56 * sin (real (Suc i)) - of_int (snd (circle_points ! i))\<bar> \<le> 2 ^ 10"
proof -
  let ?z = "2 ^ 56 * (1 * cis (Suc i)) - point (circle_points ! i)"
  have l: "length circle_points = 64" by (simp add: circle_points_def)
  have "norm ?z \<le> 0 + 8 * real (Suc i)"
  proof (rule turning_near [OF turning_circle])
    have "point (2 ^ 56, 0) = 2 ^ 56 * 1" by (simp add: point_def complex_eq_iff)
    then show "norm (2 ^ 56 * 1 - point (2 ^ 56, 0)) \<le> 0" by simp
  qed (use assms in \<open>simp_all add: l\<close>)
  moreover have "\<bar>Im ?z\<bar> \<le> norm ?z" by (rule abs_Im_le_cmod)
  moreover have "8 * real (Suc i) \<le> 2 ^ 10" using assms by simp
  ultimately have "\<bar>Im ?z\<bar> \<le> 2 ^ 10" by linarith
  moreover have "Im ?z = 2 ^ 56 * sin (real (Suc i)) - of_int (snd (circle_points ! i))"
    by (simp add: point_def del: of_nat_Suc)
  ultimately show ?thesis by simp
qed

subsection \<open>The table\<close>

text \<open>An approximation settles the integer part when it is far enough from the next integers.\<close>

definition settles :: "int \<times> int \<Rightarrow> int \<Rightarrow> bool" where
  "settles p t \<longleftrightarrow> t * 2 ^ 24 + 2 ^ 10 \<le> \<bar>snd p\<bar> \<and> \<bar>snd p\<bar> + 2 ^ 10 < (t + 1) * 2 ^ 24"

lemma settles_floor:
  fixes x :: real
  assumes "\<bar>2 ^ 56 * x - of_int (snd p)\<bar> \<le> 2 ^ 10" "settles p t"
  shows "\<lfloor>2 ^ 32 * \<bar>x\<bar>\<rfloor> = t"
proof (rule floor_unique)
  have "\<bar>\<bar>2 ^ 56 * x\<bar> - \<bar>of_int (snd p)\<bar>\<bar> \<le> \<bar>2 ^ 56 * x - of_int (snd p)\<bar>" by (rule abs_triangle_ineq3)
  then have "\<bar>2 ^ 56 * \<bar>x\<bar> - \<bar>of_int (snd p)\<bar>\<bar> \<le> 2 ^ 10" using assms(1) by (simp add: abs_mult)
  moreover have "real_of_int (t * 2 ^ 24 + 2 ^ 10) \<le> of_int \<bar>snd p\<bar>"
    "real_of_int (\<bar>snd p\<bar> + 2 ^ 10) < of_int ((t + 1) * 2 ^ 24)"
    using assms(2) unfolding settles_def of_int_le_iff of_int_less_iff by blast+
  ultimately show "of_int t \<le> 2 ^ 32 * \<bar>x\<bar>" "2 ^ 32 * \<bar>x\<bar> < of_int t + 1" by (simp_all add: abs_le_iff)
qed

lemma circle_settles: "list_all2 settles circle_points sine_table"
  by (simp add: circle_points_def sine_table_def settles_def)

lemma rfc_sine_table: "i < 64 \<Longrightarrow> rfc_sine (Suc i) = sine_table ! i"
  unfolding rfc_sine_def
  using list_all2_nthD [OF circle_settles, of i] circle_near [of i]
  by (intro settles_floor) (simp_all add: circle_points_def)

lemma rfc_sines: "map rfc_sine [1..<65] = sine_table"
proof (rule nth_equalityI)
  show "length (map rfc_sine [1..<65]) = length sine_table" by (simp add: sine_table_def)
  show "map rfc_sine [1..<65] ! i = sine_table ! i" if "i < length (map rfc_sine [1..<65])" for i
    using that rfc_sine_table [of i] by simp
qed

end
