(* ===== verification/Mongoose_Md5.thy ===== *)
theory Mongoose_Md5
  imports Mongoose_Uri Rfc_1321
begin

unbundle bit_operations_syntax

section \<open>MD5\<close>

text \<open>
  The hash function behind digest authentication (\<open>MD5Init\<close> to \<open>mg_md5\<close> of
  \<open>src/src/common/network/details/mongoose.c\<close>), which takes its input in pieces, against the hash of
  RFC 1321 over a whole message. Bytes are characters; a 64-byte block becomes sixteen 32-bit words,
  lowest byte first, on every machine.
\<close>

subsection \<open>Bytes and words\<close>

definition le_word :: "char \<Rightarrow> char \<Rightarrow> char \<Rightarrow> char \<Rightarrow> 32 word" where
  "le_word b0 b1 b2 b3 =
     push_bit 16 (push_bit 8 (of_char b3) OR of_char b2) OR (push_bit 8 (of_char b1) OR of_char b0)"

fun byteReverse :: "string \<Rightarrow> 32 word list" where
  "byteReverse (b0 # b1 # b2 # b3 # buf) = le_word b0 b1 b2 b3 # byteReverse buf"
| "byteReverse _ = []"

definition le_bytes :: "32 word \<Rightarrow> string" where
  "le_bytes t = map (\<lambda>i. char_of (unat (drop_bit (8 * i) t))) [0..<4]"

subsection \<open>The transformation of one block\<close>

type_synonym md5_state = "32 word \<times> 32 word \<times> 32 word \<times> 32 word"
type_synonym md5_mix = "32 word \<Rightarrow> 32 word \<Rightarrow> 32 word \<Rightarrow> 32 word"

definition F1 :: md5_mix where "F1 x y z = z XOR (x AND (y XOR z))"
definition F2 :: md5_mix where "F2 x y z = F1 z x y"
definition F3 :: md5_mix where "F3 x y z = x XOR y XOR z"
definition F4 :: md5_mix where "F4 x y z = y XOR (x OR NOT z)"

definition MD5STEP ::
  "md5_mix \<Rightarrow> 32 word \<Rightarrow> 32 word \<Rightarrow> 32 word \<Rightarrow> 32 word \<Rightarrow> 32 word \<Rightarrow> nat \<Rightarrow> 32 word" where
  "MD5STEP f w x y z data s =
     (let w1 = w + f x y z + data in (push_bit s w1 OR drop_bit (32 - s) w1) + x)"

text \<open>
  The 64 steps: the index into the block, the constant and the rotation of each. A step writes the
  first register, and the next one writes the last: its registers are the previous ones rotated.
\<close>

definition md5_table1 :: "(nat \<times> 32 word \<times> nat) list" where
  "md5_table1 =
    [(0, 0xd76aa478, 7), (1, 0xe8c7b756, 12), (2, 0x242070db, 17), (3, 0xc1bdceee, 22),
     (4, 0xf57c0faf, 7), (5, 0x4787c62a, 12), (6, 0xa8304613, 17), (7, 0xfd469501, 22),
     (8, 0x698098d8, 7), (9, 0x8b44f7af, 12), (10, 0xffff5bb1, 17), (11, 0x895cd7be, 22),
     (12, 0x6b901122, 7), (13, 0xfd987193, 12), (14, 0xa679438e, 17), (15, 0x49b40821, 22)]"

definition md5_table2 :: "(nat \<times> 32 word \<times> nat) list" where
  "md5_table2 =
    [(1, 0xf61e2562, 5), (6, 0xc040b340, 9), (11, 0x265e5a51, 14), (0, 0xe9b6c7aa, 20),
     (5, 0xd62f105d, 5), (10, 0x02441453, 9), (15, 0xd8a1e681, 14), (4, 0xe7d3fbc8, 20),
     (9, 0x21e1cde6, 5), (14, 0xc33707d6, 9), (3, 0xf4d50d87, 14), (8, 0x455a14ed, 20),
     (13, 0xa9e3e905, 5), (2, 0xfcefa3f8, 9), (7, 0x676f02d9, 14), (12, 0x8d2a4c8a, 20)]"

definition md5_table3 :: "(nat \<times> 32 word \<times> nat) list" where
  "md5_table3 =
    [(5, 0xfffa3942, 4), (8, 0x8771f681, 11), (11, 0x6d9d6122, 16), (14, 0xfde5380c, 23),
     (1, 0xa4beea44, 4), (4, 0x4bdecfa9, 11), (7, 0xf6bb4b60, 16), (10, 0xbebfbc70, 23),
     (13, 0x289b7ec6, 4), (0, 0xeaa127fa, 11), (3, 0xd4ef3085, 16), (6, 0x04881d05, 23),
     (9, 0xd9d4d039, 4), (12, 0xe6db99e5, 11), (15, 0x1fa27cf8, 16), (2, 0xc4ac5665, 23)]"

definition md5_table4 :: "(nat \<times> 32 word \<times> nat) list" where
  "md5_table4 =
    [(0, 0xf4292244, 6), (7, 0x432aff97, 10), (14, 0xab9423a7, 15), (5, 0xfc93a039, 21),
     (12, 0x655b59c3, 6), (3, 0x8f0ccc92, 10), (10, 0xffeff47d, 15), (1, 0x85845dd1, 21),
     (8, 0x6fa87e4f, 6), (15, 0xfe2ce6e0, 10), (6, 0xa3014314, 15), (13, 0x4e0811a1, 21),
     (4, 0xf7537e82, 6), (11, 0xbd3af235, 10), (2, 0x2ad7d2bb, 15), (9, 0xeb86d391, 21)]"

definition md5_step :: "md5_mix \<Rightarrow> 32 word list \<Rightarrow> nat \<times> 32 word \<times> nat \<Rightarrow> md5_state \<Rightarrow> md5_state" where
  "md5_step f in_words step st =
     (case step of (i, k, s) \<Rightarrow> case st of (w, x, y, z) \<Rightarrow>
        (z, MD5STEP f w x y z (in_words ! i + k) s, x, y))"

definition MD5Transform :: "md5_state \<Rightarrow> 32 word list \<Rightarrow> md5_state" where
  "MD5Transform st in_words =
     (case st of (a0, b0, c0, d0) \<Rightarrow>
      case fold (md5_step F4 in_words) md5_table4 (fold (md5_step F3 in_words) md5_table3
        (fold (md5_step F2 in_words) md5_table2 (fold (md5_step F1 in_words) md5_table1 st))) of
        (a, b, c, d) \<Rightarrow> (a0 + a, b0 + b, c0 + c, d0 + d))"

subsection \<open>The context\<close>

text \<open>The buffer holds whatever was there before; \<open>mbits\<close> counts the bits, low word first.\<close>

record md5_ctx =
  mstate :: md5_state
  mbits :: "32 word \<times> 32 word"
  md5_in :: string

definition MD5Init :: "string \<Rightarrow> md5_ctx" where
  "MD5Init garbage =
     \<lparr>mstate = (0x67452301, 0xefcdab89, 0x98badcfe, 0x10325476), mbits = (0, 0), md5_in = garbage\<rparr>"

text \<open>The loop over whole blocks, and the copy of the rest.\<close>

fun md5_loop :: "md5_state \<Rightarrow> string \<Rightarrow> string \<Rightarrow> md5_state \<times> string" where
  "md5_loop st buf data =
     (if 64 \<le> length data
      then md5_loop (MD5Transform st (byteReverse (take 64 data))) (take 64 data) (drop 64 data)
      else (st, overwrite buf 0 data))"

declare md5_loop.simps [simp del]

text \<open>The 64-bit counter in two words.\<close>

definition count_bits :: "32 word \<times> 32 word \<Rightarrow> 32 word \<Rightarrow> 32 word \<times> 32 word" where
  "count_bits bits len =
     (case bits of (bits0, bits1) \<Rightarrow>
        let sum = bits0 + push_bit 3 len
        in (sum, (if sum < bits0 then bits1 + 1 else bits1) + drop_bit 29 len))"

definition buffered :: "32 word \<times> 32 word \<Rightarrow> nat" where
  "buffered bits = unat (drop_bit 3 (fst bits) AND 0x3f)"

definition MD5Update :: "md5_ctx \<Rightarrow> string \<Rightarrow> md5_ctx" where
  "MD5Update ctx data =
     (let ctx1 = ctx\<lparr>mbits := count_bits (mbits ctx) (word_of_nat (length data))\<rparr>;
          t = buffered (mbits ctx)
      in if t \<noteq> 0 \<and> length data < 64 - t then ctx1\<lparr>md5_in := overwrite (md5_in ctx) t data\<rparr>
         else
           let n = (if t = 0 then 0 else 64 - t);
               buf1 = (if t = 0 then md5_in ctx else overwrite (md5_in ctx) t (take n data));
               st1 = (if t = 0 then mstate ctx else MD5Transform (mstate ctx) (byteReverse buf1));
               (st2, buf2) = md5_loop st1 buf1 (drop n data)
           in ctx1\<lparr>mstate := st2, md5_in := buf2\<rparr>)"

definition MD5Final :: "md5_ctx \<Rightarrow> string" where
  "MD5Final ctx =
     (let count = buffered (mbits ctx);
          buf1 = overwrite (md5_in ctx) count [CHR 0x80];
          room = 64 - 1 - count;
          (st1, buf2) =
            (if room < 8 then
               let full = overwrite buf1 (count + 1) (replicate room NUL)
               in (MD5Transform (mstate ctx) (byteReverse full), overwrite full 0 (replicate 56 NUL))
             else (mstate ctx, overwrite buf1 (count + 1) (replicate (room - 8) NUL)));
          (a, b, c, d) = MD5Transform st1 (byteReverse (take 56 buf2) @ [fst (mbits ctx), snd (mbits ctx)])
      in le_bytes a @ le_bytes b @ le_bytes c @ le_bytes d)"

definition bin2str :: "string \<Rightarrow> string" where
  "bin2str p = concat (map (\<lambda>c. [lower_hex (of_char c div 16), lower_hex (of_char c mod 16)]) p)"

text \<open>
  The arguments up to the first null pointer, each read up to its terminator; a length is an
  \<open>unsigned\<close>. The context lies on the stack, with any bytes in its buffer.
\<close>

definition mg_md5 :: "string \<Rightarrow> string option list \<Rightarrow> string" where
  "mg_md5 garbage args =
     bin2str (MD5Final (fold (\<lambda>p ctx. MD5Update ctx (take (length (cstr p) mod 2 ^ 32) (cstr p)))
       (map the (takeWhile (\<lambda>p. p \<noteq> None) args)) (MD5Init garbage)))"

subsection \<open>Lemmas on the counter\<close>


lemma unat_drop_word: "unat (drop_bit k (word_of_nat n :: 32 word)) = n mod 2 ^ 32 div 2 ^ k"
  unfolding unat_drop_bit_eq unat_of_nat by (simp add: drop_bit_eq_div)

lemma word_and_63: "unat (w AND 0x3f) = unat (w :: 32 word) mod 64"
proof -
  have "(0x3f :: 32 word) = mask 6" by (simp add: mask_eq_exp_minus_1)
  then have "w AND 0x3f = take_bit 6 w" by (simp only: take_bit_eq_mask)
  then have "unat (w AND 0x3f) = take_bit 6 (unat w)" by (simp only: unsigned_take_bit_eq)
  then show ?thesis by (simp add: take_bit_eq_mod)
qed

text \<open>The counter after some bytes, and the index into the buffer.\<close>

definition bit_count :: "nat \<Rightarrow> 32 word \<times> 32 word" where
  "bit_count n = (word_of_nat (8 * n), word_of_nat (8 * n div 2 ^ 32))"

lemma buffered_count: "buffered (bit_count n) = n mod 64"
proof -
  have "8 * n mod 2 ^ 32 div 8 = n mod 2 ^ 29"
    using mod_mult_mult1 [of 8 n "2 ^ 29"] by simp
  then have "unat (drop_bit 3 (word_of_nat (8 * n) :: 32 word)) = n mod 2 ^ 29"
    by (simp only: unat_drop_word) simp
  then have "unat (drop_bit 3 (word_of_nat (8 * n) :: 32 word) AND 0x3f) = n mod 2 ^ 29 mod 64"
    by (simp only: word_and_63)
  also have "\<dots> = n mod 64" by (rule mod_mod_cancel) simp
  finally show ?thesis by (simp only: buffered_def bit_count_def fst_conv)
qed

lemma md5_carry:
  assumes "l < 2 ^ 32"
  shows "(if word_of_nat (8 * n) + push_bit 3 (word_of_nat l) < (word_of_nat (8 * n) :: 32 word)
      then word_of_nat (8 * n div 2 ^ 32) + 1 else word_of_nat (8 * n div 2 ^ 32)) + drop_bit 29 (word_of_nat l)
    = (word_of_nat (8 * (n + l) div 2 ^ 32) :: 32 word)"
proof -
  define x where "x = 8 * n mod 2 ^ 32"
  define y where "y = 8 * l mod 2 ^ 32"
  have "push_bit 3 (word_of_nat l :: 32 word) = word_of_nat (8 * l)"
    by (simp add: push_bit_eq_mult mult.commute)
  moreover have "unat (word_of_nat (8 * n) :: 32 word) = x"
    by (simp add: unat_of_nat x_def del: of_nat_mult)
  moreover have "unat (word_of_nat (8 * n) + word_of_nat (8 * l) :: 32 word) = (x + y) mod 2 ^ 32"
    by (simp add: unat_word_ariths unat_of_nat x_def y_def mod_add_eq del: of_nat_mult)
  moreover have bnd: "x < 2 ^ 32" "y < 2 ^ 32" by (simp_all add: x_def y_def)
  moreover have "(x + y) mod 2 ^ 32 < x \<longleftrightarrow> 2 ^ 32 \<le> x + y"
  proof (cases "x + y < 2 ^ 32")
    case False
    then have "(x + y) mod 2 ^ 32 = x + y - 2 ^ 32" using bnd by (simp add: mod_if)
    then show ?thesis using bnd False by auto
  qed simp
  ultimately have c: "word_of_nat (8 * n) + push_bit 3 (word_of_nat l) < (word_of_nat (8 * n) :: 32 word)
      \<longleftrightarrow> 2 ^ 32 \<le> x + y"
    by (simp only: word_less_nat_alt)
  have d: "drop_bit 29 (word_of_nat l :: 32 word) = word_of_nat (8 * l div 2 ^ 32)"
  proof (rule word_unat_eq_iff [THEN iffD2])
    have eq: "8 * l div 2 ^ 32 = l div 2 ^ 29" by simp
    have "l div 2 ^ 29 < 2 ^ 32" using assms by (simp add: less_mult_imp_div_less)
    then have "unat (word_of_nat (l div 2 ^ 29) :: 32 word) = l div 2 ^ 29"
      unfolding unat_of_nat by (intro mod_less) simp
    moreover have "unat (drop_bit 29 (word_of_nat l :: 32 word)) = l div 2 ^ 29"
      unfolding unat_drop_word using assms by (simp only: mod_less)
    ultimately show "unat (drop_bit 29 (word_of_nat l :: 32 word)) = unat (word_of_nat (8 * l div 2 ^ 32) :: 32 word)"
      by (simp only: eq)
  qed
  have "8 * (n + l) div 2 ^ 32 = 8 * n div 2 ^ 32 + 8 * l div 2 ^ 32 + (x + y) div 2 ^ 32"
    unfolding x_def y_def add_mult_distrib2 by (rule div_add1_eq)
  moreover have "(x + y) div 2 ^ 32 = (if 2 ^ 32 \<le> x + y then 1 else 0)"
  proof (cases "2 ^ 32 \<le> x + y")
    case True
    then have "x + y = 2 ^ 32 + (x + y - 2 ^ 32)" by simp
    then have "(x + y) div 2 ^ 32 = 1 + (x + y - 2 ^ 32) div 2 ^ 32"
      by (metis div_add_self1 add.commute power_not_zero zero_neq_numeral)
    then show ?thesis using True bnd by simp
  qed simp
  ultimately show ?thesis
    unfolding c d by (simp add: algebra_simps del: of_nat_mult)
qed


lemma count_bits_add: "l < 2 ^ 32 \<Longrightarrow> count_bits (bit_count n) (word_of_nat l) = bit_count (n + l)"
  unfolding count_bits_def bit_count_def Let_def split_conv
  using md5_carry [of l n] by (simp only: prod.inject) (simp add: push_bit_eq_mult)

subsection \<open>The hash of a whole message\<close>

text \<open>
  RFC 1321: one block by the round functions, word indices and rotations of the standard, and its constants,
  the integer parts of \<open>2^32 * |sin i|\<close> for \<open>i\<close> from 1 to 64.
\<close>

definition rfc_function :: "nat \<Rightarrow> md5_mix" where
  "rfc_function i x y z =
     (if i < 16 then (x AND y) OR (NOT x AND z)
      else if i < 32 then (x AND z) OR (y AND NOT z)
      else if i < 48 then x XOR y XOR z
      else y XOR (x OR NOT z))"

definition rfc_index :: "nat \<Rightarrow> nat" where
  "rfc_index i =
     (if i < 16 then i else if i < 32 then (5 * i + 1) mod 16
      else if i < 48 then (3 * i + 5) mod 16 else 7 * i mod 16)"

definition rfc_shift :: "nat \<Rightarrow> nat" where
  "rfc_shift i = [[7, 12, 17, 22], [5, 9, 14, 20], [4, 11, 16, 23], [6, 10, 15, 21]] ! (i div 16) ! (i mod 4)"

definition rfc_constants :: "32 word list" where
  "rfc_constants = map (\<lambda>i. word_of_int (rfc_sine i)) [1..<65]"

definition rfc_step :: "32 word list \<Rightarrow> nat \<Rightarrow> md5_state \<Rightarrow> md5_state" where
  "rfc_step block i st =
     (case st of (a, b, c, d) \<Rightarrow>
        (d, b + word_rotl (rfc_shift i) (a + rfc_function i b c d + rfc_constants ! i + block ! rfc_index i), b, c))"

definition rfc_transform :: "md5_state \<Rightarrow> 32 word list \<Rightarrow> md5_state" where
  "rfc_transform st block =
     (case (st, fold (rfc_step block) [0..<64] st) of
        ((a0, b0, c0, d0), (a, b, c, d)) \<Rightarrow> (a0 + a, b0 + b, c0 + c, d0 + d))"


lemma rotl_word:
  assumes "0 < s" "s < 32"
  shows "push_bit s w OR drop_bit (32 - s) w = word_rotl s (w :: 32 word)"
proof (rule bit_word_eqI)
  fix n assume "n < LENGTH(32)"
  then have n: "n < 32" by simp
  have e: "(n + (32 - s)) mod 32 = (if s \<le> n then n - s else n + (32 - s))"
  proof (cases "s \<le> n")
    case True
    then have "n + (32 - s) = n - s + 32" using assms by simp
    then show ?thesis using True n by (simp only: mod_add_self2) simp
  qed (use n in simp)
  have "bit (word_rotl s w) n = bit w ((n + (32 - s)) mod 32)"
    using n assms by (simp add: bit_word_rotl_iff)
  moreover have "bit (push_bit s w OR drop_bit (32 - s) w) n =
      (s \<le> n \<and> bit w (n - s) \<or> bit w (n + (32 - s)))"
    using n by (simp add: bit_simps add.commute)
  moreover have "s \<le> n \<Longrightarrow> \<not> bit w (n + (32 - s))"
    using assms by (auto dest!: bit_imp_le_length)
  ultimately show "bit (push_bit s w OR drop_bit (32 - s) w) n = bit (word_rotl s w) n"
    by (auto simp: e)
qed

definition rfc_row :: "nat \<Rightarrow> nat \<times> 32 word \<times> nat" where
  "rfc_row i = (rfc_index i, rfc_constants ! i, rfc_shift i)"

lemmas md5_tables = md5_table1_def md5_table2_def md5_table3_def md5_table4_def

lemma rfc_constants_table [code]: "rfc_constants = map word_of_int sine_table"
  unfolding rfc_constants_def rfc_sines [symmetric] by simp

lemma md5_tables_rfc:
  "md5_table1 = map rfc_row [0..<16]" "md5_table2 = map rfc_row [16..<32]"
  "md5_table3 = map rfc_row [32..<48]" "md5_table4 = map rfc_row [48..<64]"
  by (simp_all add: md5_tables rfc_row_def rfc_index_def rfc_shift_def rfc_constants_table sine_table_def upt_rec)

lemma rfc_functions:
  "i < 16 \<Longrightarrow> F1 = rfc_function i" "16 \<le> i \<Longrightarrow> i < 32 \<Longrightarrow> F2 = rfc_function i"
  "32 \<le> i \<Longrightarrow> i < 48 \<Longrightarrow> F3 = rfc_function i" "48 \<le> i \<Longrightarrow> F4 = rfc_function i"
  by (auto simp: fun_eq_iff rfc_function_def F1_def F2_def F3_def F4_def bit_simps intro!: bit_word_eqI)

lemma rfc_shift_bounds: "i < 64 \<Longrightarrow> 0 < rfc_shift i \<and> rfc_shift i < 32"
proof -
  have "\<forall>i \<in> set [0..<64]. 0 < rfc_shift i \<and> rfc_shift i < 32" by code_simp
  then show "i < 64 \<Longrightarrow> 0 < rfc_shift i \<and> rfc_shift i < 32" by simp
qed

lemma md5_step_rfc: "i < 64 \<Longrightarrow> md5_step (rfc_function i) block (rfc_row i) = rfc_step block i"
  using rfc_shift_bounds [of i]
  by (auto simp: fun_eq_iff md5_step_def rfc_row_def rfc_step_def MD5STEP_def Let_def rotl_word ac_simps)

lemma md5_round_rfc:
  assumes "\<And>i. m \<le> i \<Longrightarrow> i < n \<Longrightarrow> f = rfc_function i" "n \<le> 64"
  shows "fold (md5_step f block) (map rfc_row [m..<n]) st = fold (rfc_step block) [m..<n] st"
  unfolding fold_map comp_def
proof (rule fold_cong)
  fix i assume "i \<in> set [m..<n]"
  then have "m \<le> i" "i < n" by simp_all
  then show "md5_step f block (rfc_row i) = rfc_step block i"
    using assms(2) by (simp only: assms(1) md5_step_rfc)
qed simp_all

lemma MD5Transform_rfc: "MD5Transform = rfc_transform"
proof (intro ext)
  fix st block
  have "[0..<64] = [0..<16] @ [16..<32] @ [32..<48] @ [48..<64]"
    using upt_add_eq_append [of 0 48 16] upt_add_eq_append [of 0 32 16] upt_add_eq_append [of 0 16 16]
    by (simp del: upt_rec_numeral)
  then show "MD5Transform st block = rfc_transform st block"
    unfolding MD5Transform_def rfc_transform_def md5_tables_rfc
    by (simp only: md5_round_rfc rfc_functions fold_append comp_apply split: prod.splits) auto
qed

text \<open>A whole message: its full blocks, then the padding, with the length in bits at the end.\<close>

fun hash_blocks :: "md5_state \<Rightarrow> string \<Rightarrow> md5_state" where
  "hash_blocks st m =
     (if 64 \<le> length m then hash_blocks (rfc_transform st (byteReverse (take 64 m))) (drop 64 m) else st)"

declare hash_blocks.simps [simp del]

definition md5_initial :: md5_state where
  "md5_initial = (0x67452301, 0xefcdab89, 0x98badcfe, 0x10325476)"

definition rfc_padding :: "nat \<Rightarrow> string" where
  "rfc_padding n =
     CHR 0x80 # replicate ((119 - n mod 64) mod 64) NUL @ le_bytes (word_of_nat (8 * n))
       @ le_bytes (word_of_nat (8 * n div 2 ^ 32))"

definition rfc_md5 :: "string \<Rightarrow> string" where
  "rfc_md5 m =
     (case hash_blocks md5_initial (m @ rfc_padding (length m)) of
        (a, b, c, d) \<Rightarrow> le_bytes a @ le_bytes b @ le_bytes c @ le_bytes d)"

subsection \<open>Lemmas on hashing in pieces\<close>

lemma hash_blocks_short [simp]: "length m < 64 \<Longrightarrow> hash_blocks st m = st"
  by (simp add: hash_blocks.simps)

lemma hash_blocks_one: "length m = 64 \<Longrightarrow> hash_blocks st m = rfc_transform st (byteReverse m)"
  by (subst hash_blocks.simps) simp

lemma hash_blocks_append:
  "64 dvd length a \<Longrightarrow> hash_blocks st (a @ b) = hash_blocks (hash_blocks st a) b"
proof (induction st a rule: hash_blocks.induct)
  case (1 st a)
  show ?case
  proof (cases "64 \<le> length a")
    case True
    have "64 dvd length (drop 64 a)" using 1(2) True by (simp add: dvd_diff_nat)
    with 1(1) [OF True] True show ?thesis
      by (simp add: hash_blocks.simps [of st a] hash_blocks.simps [of st "a @ b"])
  next
    case False
    with 1(2) have "a = []" by (auto dest: dvd_imp_le)
    then show ?thesis by simp
  qed
qed

definition full_part :: "string \<Rightarrow> string" where
  "full_part m = take (64 * (length m div 64)) m"

definition open_part :: "string \<Rightarrow> string" where
  "open_part m = drop (64 * (length m div 64)) m"

lemma parts [simp]: "full_part m @ open_part m = m" "length (full_part m) = 64 * (length m div 64)"
    "length (open_part m) = length m mod 64"
  by (simp_all add: full_part_def open_part_def minus_mult_div_eq_mod min_absorb2)

lemma parts_unique:
  assumes "m = a @ b" "64 dvd length a" "length b < 64"
  shows "full_part m = a" "open_part m = b"
proof -
  obtain k where "length a = 64 * k" using assms(2) by (auto simp: dvd_def)
  then have "64 * (length m div 64) = length a" using assms(1,3) by simp
  then show "full_part m = a" "open_part m = b" using assms(1) by (simp_all add: full_part_def open_part_def)
qed

lemma md5_loop_blocks:
  "length buf = 64 \<Longrightarrow> \<exists>buf'. md5_loop st buf data = (hash_blocks st (full_part data), buf')
     \<and> length buf' = 64 \<and> take (length data mod 64) buf' = open_part data"
proof (induction st buf data rule: md5_loop.induct)
  case (1 st buf data)
  show ?case
  proof (cases "64 \<le> length data")
    case True
    let ?d = "drop 64 data"
    have "data = take 64 data @ full_part ?d @ open_part ?d" by simp
    then have p: "full_part data = take 64 data @ full_part ?d" "open_part data = open_part ?d"
      using parts_unique [of data "take 64 data @ full_part ?d" "open_part ?d"] True by simp_all
    have "length ?d mod 64 = length data mod 64" using True by (simp add: le_mod_geq)
    with 1(1) [OF True] True show ?thesis
      unfolding p by (subst md5_loop.simps) (simp add: MD5Transform_rfc hash_blocks_append hash_blocks_one)
  next
    case False
    then have "full_part data = []" "open_part data = data" by (simp_all add: full_part_def open_part_def)
    with False 1(2) show ?thesis
      by (subst md5_loop.simps) (use take_overwrite [of 0 buf data] in simp)
  qed
qed

definition md5_holds :: "string \<Rightarrow> md5_ctx \<Rightarrow> bool" where
  "md5_holds m ctx \<longleftrightarrow>
     length (md5_in ctx) = 64 \<and> mstate ctx = hash_blocks md5_initial (full_part m)
     \<and> mbits ctx = bit_count (length m) \<and> take (length m mod 64) (md5_in ctx) = open_part m"

lemma MD5Init_holds: "length garbage = 64 \<Longrightarrow> md5_holds [] (MD5Init garbage)"
  by (simp add: md5_holds_def MD5Init_def bit_count_def md5_initial_def full_part_def open_part_def)

lemma MD5Update_holds:
  assumes "md5_holds m ctx" "length data < 2 ^ 32"
  shows "md5_holds (m @ data) (MD5Update ctx data)"
proof -
  define t where "t = length m mod 64"
  have t: "t < 64" by (simp add: t_def)
  have h: "length (md5_in ctx) = 64" "mstate ctx = hash_blocks md5_initial (full_part m)"
    "mbits ctx = bit_count (length m)" "take t (md5_in ctx) = open_part m"
    using assms(1) by (auto simp: md5_holds_def t_def)
  have m: "m @ data = full_part m @ open_part m @ data"
    using parts(1) [of m] by (metis append.assoc)
  note upd = MD5Update_def Let_def buffered_count count_bits_add [OF assms(2)] t_def [symmetric]
  show ?thesis
  proof (cases "t \<noteq> 0 \<and> length data < 64 - t")
    case True
    then have lt: "t + length data < 64" by linarith
    then have p: "full_part (m @ data) = full_part m" "open_part (m @ data) = open_part m @ data"
      by (rule_tac parts_unique [OF m]; simp add: t_def [symmetric])+
    have "length (m @ data) mod 64 = t + length data"
      using parts(3) [of "m @ data"] unfolding p by (simp add: t_def)
    then show ?thesis
      using True h t lt take_overwrite [of t "md5_in ctx" data]
      by (simp add: md5_holds_def upd p del: of_nat_mult)
  next
    case False
    define n where "n = (if t = 0 then 0 else 64 - t)"
    define buf1 where "buf1 = (if t = 0 then md5_in ctx else overwrite (md5_in ctx) t (take n data))"
    define st1 where "st1 = (if t = 0 then mstate ctx else MD5Transform (mstate ctx) (byteReverse buf1))"
    have n: "n \<le> length data" using False by (auto simp: n_def)
    have buf1: "length buf1 = 64" using h(1) t n by (auto simp: buf1_def n_def)
    have len: "length (open_part m @ take n data) = (if t = 0 then 0 else 64)"
      using n t by (auto simp: n_def t_def [symmetric])
    have st1: "st1 = hash_blocks md5_initial (full_part m @ open_part m @ take n data)"
    proof (cases "t = 0")
      case True
      moreover from this have "open_part m = []" using parts(3) [of m] unfolding t_def by (metis length_0_conv)
      ultimately have "open_part m @ take n data = []" by (simp add: n_def)
      with True show ?thesis by (simp only: st1_def h(2) append_Nil2 refl if_True)
    next
      case False
      then have "buf1 = open_part m @ take n data"
        using take_overwrite [of t "md5_in ctx" "take n data"] h(1,4) t n buf1
        by (simp add: buf1_def n_def)
      with False len show ?thesis
        by (simp add: st1_def h(2) hash_blocks_append hash_blocks_one MD5Transform_rfc)
    qed
    have "m @ data = (full_part m @ open_part m @ take n data @ full_part (drop n data)) @ open_part (drop n data)"
      unfolding m by simp
    moreover have "64 dvd length (full_part m @ open_part m @ take n data @ full_part (drop n data))"
      using len by (cases "t = 0") (simp_all add: add.assoc [symmetric])
    ultimately have p: "full_part (m @ data) = full_part m @ open_part m @ take n data @ full_part (drop n data)"
        "open_part (m @ data) = open_part (drop n data)"
      using parts_unique by (metis mod_less_divisor parts(3) zero_less_numeral)+
    have "length (m @ data) mod 64 = length (drop n data) mod 64"
      using p(2) parts(3) by metis
    moreover have "64 dvd length (full_part m @ open_part m @ take n data)"
      using len by (cases "t = 0") simp_all
    then have "hash_blocks md5_initial (full_part (m @ data)) = hash_blocks st1 (full_part (drop n data))"
      using hash_blocks_append [of "full_part m @ open_part m @ take n data"] by (simp add: p st1)
    moreover obtain buf2 where "md5_loop st1 buf1 (drop n data) = (hash_blocks st1 (full_part (drop n data)), buf2)"
        "length buf2 = 64" "take (length (drop n data) mod 64) buf2 = open_part (drop n data)"
      using md5_loop_blocks [OF buf1] by blast
    moreover have "MD5Update ctx data =
        (case md5_loop st1 buf1 (drop n data) of (st2, buf2) \<Rightarrow>
          ctx\<lparr>mbits := bit_count (length (m @ data)), mstate := st2, md5_in := buf2\<rparr>)"
      using False h(3) by (auto simp: upd n_def buf1_def st1_def)
    ultimately show ?thesis
      by (simp add: md5_holds_def p(2))
  qed
qed

lemma byteReverse_append: "4 dvd length a \<Longrightarrow> byteReverse (a @ b) = byteReverse a @ byteReverse b"
proof (induction a rule: byteReverse.induct)
  case (1 b0 b1 b2 b3 buf)
  then have "4 dvd length buf" using 1(2) by simp presburger
  with 1 show ?case by simp
qed (auto dest: dvd_imp_le)

lemma bit_of_char_of: "bit (of_char (char_of n) :: 32 word) i \<longleftrightarrow> i < 8 \<and> bit (n :: nat) i"
proof -
  have "(of_char (char_of n) :: 32 word) = word_of_nat (take_bit 8 n)"
    using of_nat_of_char [of "char_of n", where 'a = "32 word"] by (simp add: take_bit_eq_mod)
  then show ?thesis
    by (auto simp: bit_simps)
qed

lemma le_word_bytes: "byteReverse (le_bytes w @ r) = w # byteReverse r"
proof -
  have "le_word (char_of (unat w)) (char_of (unat (drop_bit 8 w))) (char_of (unat (drop_bit 16 w)))
      (char_of (unat (drop_bit 24 w))) = w"
    unfolding le_word_def
  proof (rule bit_word_eqI)
    fix n assume "n < LENGTH(32)"
    then consider "n < 8" | "8 \<le> n" "n < 16" | "16 \<le> n" "n < 24" | "24 \<le> n" "n < 32" by fastforce
    then show "bit (push_bit 16 (push_bit 8 (of_char (char_of (unat (drop_bit 24 w)))) OR of_char (char_of (unat (drop_bit 16 w))))
        OR (push_bit 8 (of_char (char_of (unat (drop_bit 8 w)))) OR of_char (char_of (unat w))) :: 32 word) n = bit w n"
      by cases (auto simp: bit_of_char_of bit_simps bit_unsigned_iff)
  qed
  then show ?thesis by (simp add: le_bytes_def upt_rec)
qed

lemma length_le_bytes [simp]: "length (le_bytes w) = 4"
  by (simp add: le_bytes_def)

lemma MD5Final_holds:
  assumes "md5_holds m ctx"
  shows "MD5Final ctx = rfc_md5 m"
proof -
  define t where "t = length m mod 64"
  define z where "z = le_bytes (word_of_nat (8 * length m)) @ le_bytes (word_of_nat (8 * length m div 2 ^ 32))"
  have t: "t < 64" by (simp add: t_def)
  have h: "length (md5_in ctx) = 64" "mstate ctx = hash_blocks md5_initial (full_part m)"
    "mbits ctx = bit_count (length m)" "take t (md5_in ctx) = open_part m"
    using assms(1) by (auto simp: md5_holds_def t_def)
  have z: "length z = 8" "byteReverse z = [fst (mbits ctx), snd (mbits ctx)]"
    using le_word_bytes [of _ "[]"] by (simp_all add: z_def h(3) bit_count_def le_word_bytes)
  have buf1: "overwrite (md5_in ctx) t [CHR 0x80] = open_part m @ CHR 0x80 # drop (t + 1) (md5_in ctx)"
    using h(4) by (simp add: overwrite_def)
  have op: "length (open_part m) = t" by (simp add: t_def)
  show ?thesis
  proof (cases "64 - 1 - t < 8")
    case True
    define full where "full = open_part m @ CHR 0x80 # replicate (63 - t) NUL"
    have "overwrite (overwrite (md5_in ctx) t [CHR 0x80]) (t + 1) (replicate (63 - t) NUL) = full"
      unfolding buf1 full_def using h(1) t op by (simp add: overwrite_def)
    moreover have "length full = 64" using t op by (simp add: full_def)
    moreover have "take 56 (overwrite full 0 (replicate 56 NUL)) = replicate 56 NUL"
      by (simp add: overwrite_def)
    moreover have "m @ rfc_padding (length m) = (full_part m @ full) @ replicate 56 NUL @ z"
    proof -
      have "(119 - t) mod 64 = 63 - t + 56" using True t by (simp add: mod_if)
      moreover have "replicate (63 - t + 56) NUL = replicate (63 - t) NUL @ replicate 56 NUL"
        by (rule replicate_add)
      ultimately have "rfc_padding (length m) = CHR 0x80 # replicate (63 - t) NUL @ replicate 56 NUL @ z"
        by (simp only: rfc_padding_def z_def t_def [symmetric] append_assoc)
      then show ?thesis using parts(1) [of m] by (simp add: full_def)
    qed
    ultimately show ?thesis
      using True z h
      by (simp add: MD5Final_def rfc_md5_def Let_def buffered_count t_def [symmetric] hash_blocks_append
          hash_blocks_one MD5Transform_rfc byteReverse_append)
  next
    case False
    then have t56: "t < 56" by simp
    define last where "last = open_part m @ CHR 0x80 # replicate (55 - t) NUL"
    have "take 56 (overwrite (overwrite (md5_in ctx) t [CHR 0x80]) (t + 1) (replicate (64 - 1 - t - 8) NUL)) = last"
      unfolding buf1 last_def using h(1) t56 op
      by (simp add: overwrite_def Suc_diff_le [symmetric] take_Cons')
    moreover have "length last = 56" using t56 op by (simp add: last_def)
    moreover have "m @ rfc_padding (length m) = full_part m @ last @ z"
    proof -
      have "(119 - t) mod 64 = 55 - t" using t56 by (simp add: mod_if)
      then have "rfc_padding (length m) = CHR 0x80 # replicate (55 - t) NUL @ z"
        by (simp only: rfc_padding_def z_def t_def [symmetric] append_assoc)
      then show ?thesis using parts(1) [of m] by (simp add: last_def)
    qed
    ultimately show ?thesis
      using False z h
      by (simp add: MD5Final_def rfc_md5_def Let_def buffered_count t_def [symmetric] hash_blocks_append
          hash_blocks_one MD5Transform_rfc byteReverse_append)
  qed
qed

lemma fold_MD5Update_holds:
  "md5_holds m ctx \<Longrightarrow> \<forall>p \<in> set ps. length p < 2 ^ 32 \<Longrightarrow>
    md5_holds (m @ concat ps) (fold (\<lambda>p ctx. MD5Update ctx p) ps ctx)"
proof (induction ps arbitrary: m ctx)
  case (Cons p ps)
  then have "md5_holds ((m @ p) @ concat ps) (fold (\<lambda>p ctx. MD5Update ctx p) ps (MD5Update ctx p))"
    by (intro Cons.IH MD5Update_holds) auto
  then show ?case by simp
qed simp

lemma mg_md5_concat:
  assumes "length garbage = 64" "\<forall>p \<in> set ps. NUL \<notin> set p \<and> length p < 2 ^ 32"
  shows "mg_md5 garbage (map Some ps @ None # rest) = bin2str (rfc_md5 (concat ps))"
proof -
  have "fold (\<lambda>p ctx. MD5Update ctx (take (length (cstr p) mod 2 ^ 32) (cstr p))) ps ctx =
      fold (\<lambda>p ctx. MD5Update ctx p) ps ctx" for ctx
    using assms(2) by (intro fold_cong) (auto simp: cstr_id)
  moreover have "map the (takeWhile (\<lambda>p. p \<noteq> None) (map Some ps @ None # rest)) = ps"
    by (subst takeWhile_append2) (auto simp: comp_def)
  ultimately show ?thesis
    using fold_MD5Update_holds [OF MD5Init_holds [OF assms(1)], of ps] assms(2)
    by (simp add: mg_md5_def MD5Final_holds)
qed

text \<open>C12. The hash that the server computes from the pieces of a text is the MD5 of the standard of the
  text as a whole, however it is cut and whatever the uninitialised buffer held: for pieces without
  terminators and shorter than 4 gigabytes, up to the null pointer that ends the arguments.
\<close>

theorem mg_md5_correct:
  assumes "length garbage = 64" "\<forall>p \<in> set ps. NUL \<notin> set p \<and> length p < 2 ^ 32"
  shows "mg_md5 garbage (map Some ps @ None # rest) = bin2str (rfc_md5 (concat ps))"
  by (rule mg_md5_concat [OF assms])

theorem mg_md5_correct_witness:
  "mg_md5 (replicate 64 CHR ''x'') [Some ''joe'', Some '':'', Some ''t2h'', None, Some ''x''] = bin2str (rfc_md5 ''joe:t2h'')"
  using mg_md5_correct [of "replicate 64 CHR ''x''" "[''joe'', '':'', ''t2h'']" "[Some ''x'']"] by simp

end
