(* ===== verification/Mongoose_Auth.thy ===== *)
theory Mongoose_Auth
  imports Mongoose_Io Mongoose_Md5
begin

section \<open>The web server's passwords\<close>

text \<open>
  Files as the web server sees them, digest authentication and the passwords file
  (\<open>mg_stat\<close>, \<open>mg_fopen\<close>, \<open>parse_auth_header\<close>, \<open>authorize\<close>, \<open>check_authorization\<close> and
  \<open>mg_modify_passwords_file\<close> of \<open>src/src/common/network/details/mongoose.c\<close>). The callback serves no
  file from memory, so that a file is what the operating system says it is.
\<close>

subsection \<open>Files\<close>

text \<open>
  \<open>struct file\<close> without its stream, and the answers of the operating system: \<open>stat\<close>, what reading
  a file gives when it can be opened, and the names in a directory.
\<close>

record file_stat =
  is_directory :: bool
  modification_time :: int
  fs_size :: int

record web_disk =
  dk_stat :: "string \<Rightarrow> file_stat option"
  dk_open :: "string \<Rightarrow> string option"
  dk_list :: "string \<Rightarrow> string list option"

definition no_stat :: file_stat where
  "no_stat = \<lparr>is_directory = False, modification_time = 0, fs_size = 0\<rparr>"

text \<open>\<open>mg_stat\<close>: whether there is a file, and the structure; a file of the epoch does not exist.\<close>

definition mg_stat :: "web_disk \<Rightarrow> string \<Rightarrow> file_stat \<Rightarrow> bool \<times> file_stat" where
  "mg_stat disk path file =
     (let file' = (case dk_stat disk path of Some st \<Rightarrow> st | None \<Rightarrow> file\<lparr>modification_time := 0\<rparr>)
      in (modification_time file' \<noteq> 0, file'))"

definition mg_fopen :: "web_disk \<Rightarrow> string \<Rightarrow> string option" where
  "mg_fopen disk path = dk_open disk path"

text \<open>\<open>fgets\<close> with a buffer of \<open>n\<close> bytes: the line and the rest.\<close>

definition fgets :: "nat \<Rightarrow> string \<Rightarrow> (string \<times> string) option" where
  "fgets n s =
     (if s = [] then None
      else let i = length (takeWhile (\<lambda>c. c \<noteq> LF) s); k = min (n - 1) (if i < length s then Suc i else i)
           in Some (take k s, drop k s))"

subsection \<open>Digests\<close>

text \<open>
  \<open>stack\<close> is what the hash context holds before it is initialised. A C string that may be null is a
  \<open>cstring\<close>.
\<close>

type_synonym cstring = "string option"

definition check_password ::
  "string \<Rightarrow> cstring \<Rightarrow> string \<Rightarrow> cstring \<Rightarrow> cstring \<Rightarrow> cstring \<Rightarrow> cstring \<Rightarrow> cstring \<Rightarrow> cstring
     \<Rightarrow> bool" where
  "check_password stack http_method ha1 uri nonce nc cnonce qop response =
     (case (http_method, nonce, nc, cnonce, qop, response) of
        (Some m, Some n, Some c, Some cn, Some q, Some r) \<Rightarrow>
          if length r \<noteq> 32 then False
          else let ha2 = mg_md5 stack [Some m, Some '':'', uri, None];
                   expected_response = mg_md5 stack [Some ha1, Some '':'', Some n, Some '':'', Some c, Some '':'',
                     Some cn, Some '':'', Some q, Some '':'', Some ha2, None]
               in mg_strcasecmp r expected_response = 0
      | _ \<Rightarrow> False)"

subsection \<open>The Authorization header\<close>

record ah =
  ah_user :: "string option"
  ah_uri :: "string option"
  ah_cnonce :: "string option"
  ah_response :: "string option"
  ah_qop :: "string option"
  ah_nc :: "string option"
  ah_nonce :: "string option"

definition empty_ah :: ah where
  "empty_ah = \<lparr>ah_user = None, ah_uri = None, ah_cnonce = None, ah_response = None, ah_qop = None,
     ah_nc = None, ah_nonce = None\<rparr>"

definition set_ah :: "string \<Rightarrow> string \<Rightarrow> ah \<Rightarrow> ah" where
  "set_ah name v a =
     (if name = ''username'' then a\<lparr>ah_user := Some v\<rparr>
      else if name = ''cnonce'' then a\<lparr>ah_cnonce := Some v\<rparr>
      else if name = ''response'' then a\<lparr>ah_response := Some v\<rparr>
      else if name = ''uri'' then a\<lparr>ah_uri := Some v\<rparr>
      else if name = ''qop'' then a\<lparr>ah_qop := Some v\<rparr>
      else if name = ''nc'' then a\<lparr>ah_nc := Some v\<rparr>
      else if name = ''nonce'' then a\<lparr>ah_nonce := Some v\<rparr>
      else a)"

text \<open>A value after its name, up to its quote or to the first comma or space.\<close>

definition auth_value :: "string \<Rightarrow> string \<times> string" where
  "auth_value s =
     (if deref s = DQUOTE then
        (case skip_quoted (tl s) [DQUOTE] '' '' BACKSLASH of
           (v, s1) \<Rightarrow> (v, if deref s1 = CHR '','' then tl s1 else s1))
      else skip_quoted s '', '' '' '' NUL)"

lemma quoted_word_length:
  "length (fst (quoted_word d q w r)) + length (snd (quoted_word d q w r)) \<le> length w + length r"
proof (induction d q w r rule: quoted_word.induct)
  case (1 d q w r)
  show ?case
  proof (cases "w \<noteq> [] \<and> last w = q")
    case True
    show ?thesis
    proof (cases r)
      case Nil
      with True show ?thesis by (subst (1 2) quoted_word.simps) simp
    next
      case (Cons x r')
      have "length (takeWhile (\<lambda>c. \<not> d c) r') + length (dropWhile (\<lambda>c. \<not> d c) r') = length r'"
        by (metis length_append takeWhile_dropWhile_id)
      then show ?thesis
        using 1 [OF True Cons] True Cons by (subst (1 2) quoted_word.simps) auto
    qed
  next
    case False
    then have "quoted_word d q w r = (w, r)" by (auto simp: quoted_word.simps)
    then show ?thesis by simp
  qed
qed

lemma skip_quoted_length:
  "length (fst (skip_quoted s d w q)) + length (snd (skip_quoted s d w q)) \<le> length s"
proof -
  let ?q = "quoted_word (\<lambda>c. c \<in> set d) q (takeWhile (\<lambda>c. c \<notin> set d) s) (dropWhile (\<lambda>c. c \<notin> set d) s)"
  have "length (takeWhile (\<lambda>c. c \<notin> set d) s) + length (dropWhile (\<lambda>c. c \<notin> set d) s) = length s"
    by (metis length_append takeWhile_dropWhile_id)
  then have "length (fst ?q) + length (snd ?q) \<le> length s"
    using quoted_word_length [of "\<lambda>c. c \<in> set d" q "takeWhile (\<lambda>c. c \<notin> set d) s" "dropWhile (\<lambda>c. c \<notin> set d) s"]
    by simp
  moreover have "length (snd (skip_quoted s d w q)) \<le> length (snd ?q)" "fst (skip_quoted s d w q) = fst ?q"
    by (auto simp: skip_quoted_def Let_def length_dropWhile_le le_SucI split: prod.split list.split)
  ultimately show ?thesis by simp
qed

lemma auth_value_length: "length (snd (auth_value s)) \<le> length s"
  using skip_quoted_length [of "tl s" "[DQUOTE]" "'' ''" BACKSLASH]
    skip_quoted_length [of s "'', ''" "'' ''" NUL]
  by (auto simp: auth_value_def split: prod.split)

lemma auth_step_shorter:
  assumes "(name, s1) = skip_quoted (dropWhile is_space s) ''='' '' '' NUL" "(v, s2) = auth_value s1" "name \<noteq> []"
  shows "length s2 < length s"
proof -
  have "length s2 \<le> length s1" using auth_value_length [of s1] assms(2) by (metis snd_conv)
  moreover have "length name + length s1 \<le> length (dropWhile is_space s)"
    using skip_quoted_length [of "dropWhile is_space s" "''=''" "'' ''" NUL] assms(1) by (metis fst_conv snd_conv)
  moreover have "length (dropWhile is_space s) \<le> length s" by (rule length_dropWhile_le)
  moreover have "0 < length name" using assms(3) by simp
  ultimately show ?thesis by linarith
qed

text \<open>The loop over the names and values.\<close>

function auth_loop :: "string \<Rightarrow> ah \<Rightarrow> ah" where
  "auth_loop s a =
     (case skip_quoted (dropWhile is_space s) ''='' '' '' NUL of
        (name, s1) \<Rightarrow>
          case auth_value s1 of
            (v, s2) \<Rightarrow> if name = [] then a else auth_loop s2 (set_ah name v a))"
  by pat_completeness auto
termination
  by (relation "measure (\<lambda>(s, _). length s)") (auto dest: auth_step_shorter)

declare auth_loop.simps [simp del]

text \<open>The fields, and the connection with its remote user; \<open>None\<close> is a failure.\<close>

definition parse_auth_header :: "connection \<Rightarrow> (ah \<times> connection) option" where
  "parse_auth_header conn =
     (case mg_get_header conn ''Authorization'' of
        None \<Rightarrow> None
      | Some auth_header \<Rightarrow>
          if mg_strncasecmp auth_header ''Digest '' 7 \<noteq> 0 then None
          else let a = auth_loop (cstr (mg_strlcpy (drop 7 auth_header) MG_BUF_LEN)) empty_ah
               in case ah_user a of
                    None \<Rightarrow> None
                  | Some u \<Rightarrow> Some (a, conn\<lparr>c_info := (c_info conn)\<lparr>remote_user := Some (mg_strdup u)\<rparr>\<rparr>))"

subsection \<open>The passwords file\<close>

text \<open>
  What \<open>sscanf\<close> reads from a line: a user, a domain, and for the three-part format the hash. The
  first two end at a colon, the third at white space.
\<close>

definition scan_field :: "string \<Rightarrow> (string \<times> string) option" where
  "scan_field s =
     (let w = takeWhile (\<lambda>c. c \<noteq> CHR '':'') s
      in if w = [] then None else Some (w, drop (length w) s))"

definition scan_user :: "string \<Rightarrow> (string \<times> string \<times> string) option" where
  "scan_user line =
     Option.bind (scan_field line) (\<lambda>(u, s). Option.bind (scan_char CHR '':'' s) (\<lambda>s.
     Option.bind (scan_field s) (\<lambda>(d, s). Some (u, d, s))))"

definition scan_entry :: "string \<Rightarrow> (string \<times> string \<times> string) option" where
  "scan_entry line =
     Option.bind (scan_user line) (\<lambda>(u, d, s). Option.bind (scan_char CHR '':'' s) (\<lambda>s.
       let h = takeWhile (\<lambda>c. \<not> is_space c) (dropWhile is_space s)
       in if h = [] then None else Some (u, d, h)))"

lemma fgets_shorter: "fgets n s = Some (line, rest) \<Longrightarrow> 1 < n \<Longrightarrow> length rest < length s"
  by (cases s) (auto simp: fgets_def Let_def split: if_splits)

text \<open>The hash of the first line for the user and the domain.\<close>

function find_password :: "string \<Rightarrow> string option \<Rightarrow> string \<Rightarrow> string option" where
  "find_password user domain content =
     (case fgets 256 content of
        None \<Rightarrow> None
      | Some (line, rest) \<Rightarrow>
          (case scan_entry (cstr line) of
             None \<Rightarrow> find_password user domain rest
           | Some (f_user, f_domain, ha1) \<Rightarrow>
               if user = f_user \<and> domain = Some f_domain then Some ha1
               else find_password user domain rest))"
  by pat_completeness auto
termination
  by (relation "measure (\<lambda>(_, _, content). length content)") (auto dest: fgets_shorter)

declare find_password.simps [simp del]

text \<open>\<open>authorize\<close> with the content of an opened passwords file.\<close>

definition authorize :: "string \<Rightarrow> config \<Rightarrow> string \<Rightarrow> connection \<Rightarrow> bool \<times> connection" where
  "authorize stack ctx content conn =
     (case parse_auth_header conn of
        None \<Rightarrow> (False, conn)
      | Some (a, conn') \<Rightarrow>
          (case find_password (the (ah_user a)) (ctx AUTHENTICATION_DOMAIN) content of
             None \<Rightarrow> False
           | Some ha1 \<Rightarrow> check_password stack (req_method (c_info conn')) ha1 (ah_uri a) (ah_nonce a) (ah_nc a)
                           (ah_cnonce a) (ah_qop a) (ah_response a), conn'))"

definition PATH_MAX :: nat where "PATH_MAX = 4096"

definition PASSWORDS_FILE_NAME :: string where "PASSWORDS_FILE_NAME = ''.htpasswd''"

text \<open>
  The directory of a path that is no directory: the characters before its last slash, unless that is
  the first character.
\<close>

definition directory_of :: "string \<Rightarrow> string" where
  "directory_of path = rev (tl (dropWhile (\<lambda>c. c \<noteq> CHR ''/'') (rev path)))"

text \<open>The name of the passwords file for a path, and its content when it can be opened.\<close>

definition auth_file_name :: "web_disk \<Rightarrow> config \<Rightarrow> string \<Rightarrow> string" where
  "auth_file_name disk ctx path =
     (case ctx GLOBAL_PASSWORDS_FILE of
        Some gpass \<Rightarrow> gpass
      | None \<Rightarrow>
          let (found, file) = mg_stat disk path no_stat
          in mg_snprintf PATH_MAX
               ((if found \<and> is_directory file then path else directory_of path) @ ''/'' @ PASSWORDS_FILE_NAME))"

definition open_auth_file :: "web_disk \<Rightarrow> config \<Rightarrow> string \<Rightarrow> string option" where
  "open_auth_file disk ctx path = mg_fopen disk (auth_file_name disk ctx path)"

text \<open>The file that protects the URI, from the first matching rule.\<close>

fun protect_file :: "(vec \<times> vec option) list \<Rightarrow> string \<Rightarrow> string option" where
  "protect_file [] uri = None"
| "protect_file ((uri_vec, filename_vec) # rules) uri =
     (if starts_with uri (vec_str uri_vec)
      then Some (mg_snprintf PATH_MAX (case filename_vec of None \<Rightarrow> [] | Some v \<Rightarrow> vec_str v))
      else protect_file rules uri)"

definition check_authorization :: "string \<Rightarrow> web_disk \<Rightarrow> config \<Rightarrow> string \<Rightarrow> connection \<Rightarrow> bool \<times> connection" where
  "check_authorization stack disk ctx path conn =
     (let uri = (case req_uri (c_info conn) of Some u \<Rightarrow> u | None \<Rightarrow> []);
          protected = (case ctx PROTECT_URI of
              None \<Rightarrow> None
            | Some list \<Rightarrow> Option.bind (protect_file (each_option True list) uri) (mg_fopen disk));
          file = (case protected of Some content \<Rightarrow> Some content | None \<Rightarrow> open_auth_file disk ctx path)
      in case file of
           None \<Rightarrow> (True, conn)
         | Some content \<Rightarrow> authorize stack ctx content conn)"

definition is_authorized_for_put :: "string \<Rightarrow> web_disk \<Rightarrow> config \<Rightarrow> connection \<Rightarrow> bool \<times> connection" where
  "is_authorized_for_put stack disk ctx conn =
     (case Option.bind (ctx PUT_DELETE_PASSWORDS_FILE) (mg_fopen disk) of
        None \<Rightarrow> (False, conn)
      | Some content \<Rightarrow> authorize stack ctx content conn)"

subsection \<open>Changing a password\<close>

text \<open>
  The loop that copies the file: the new text and whether the user was found. A line that cannot be
  read is dropped, and a null password drops the user's line.
\<close>

definition password_line :: "string \<Rightarrow> string \<Rightarrow> string \<Rightarrow> string" where
  "password_line user domain ha1 = user @ '':'' @ domain @ '':'' @ ha1 @ [LF]"

definition new_line :: "string \<Rightarrow> string \<Rightarrow> string \<Rightarrow> string \<Rightarrow> string" where
  "new_line stack domain user pass =
     password_line user domain
       (mg_md5 stack [Some user, Some '':'', Some domain, Some '':'', Some pass, None])"

function copy_passwords ::
  "string \<Rightarrow> string \<Rightarrow> string \<Rightarrow> string option \<Rightarrow> string \<Rightarrow> string \<times> bool" where
  "copy_passwords stack domain user pass content =
     (case fgets 512 content of
        None \<Rightarrow> ([], False)
      | Some (line, rest) \<Rightarrow>
          case copy_passwords stack domain user pass rest of
            (text1, found) \<Rightarrow>
              (case scan_user (cstr line) of
                 None \<Rightarrow> (text1, found)
               | Some (u, d, _) \<Rightarrow>
                   if u = user \<and> d = domain
                   then ((case pass of None \<Rightarrow> [] | Some p \<Rightarrow> new_line stack domain user p) @ text1, True)
                   else (cstr line @ text1, found)))"
  by pat_completeness auto
termination
  by (relation "measure (\<lambda>(_, _, _, _, content). length content)") (auto dest: fgets_shorter)

declare copy_passwords.simps [simp del]

text \<open>
  What the call returns, and the file afterwards: its text, or \<open>None\<close> when it is gone. The world decides
  whether the file could be opened for reading, after the attempt to create it, and the temporary file
  for writing; how much of what was printed reached the temporary file; and whether the old file was
  removed and the temporary one renamed, which the code does not ask.
\<close>

record passwords_io =
  io_open :: bool
  io_temp :: bool
  io_stored :: "string \<Rightarrow> string"
  io_removed :: bool
  io_renamed :: bool

definition mg_modify_passwords_file ::
  "string \<Rightarrow> passwords_io \<Rightarrow> string \<Rightarrow> string \<Rightarrow> string \<Rightarrow> string option \<Rightarrow> bool \<times> string option" where
  "mg_modify_passwords_file stack io content domain user pass0 =
     (let pass = (if pass0 = Some [] then None else pass0)
      in if \<not> io_open io \<or> \<not> io_temp io then (False, Some content)
         else case copy_passwords stack domain user pass content of
           (text1, found) \<Rightarrow>
             let printed = (if \<not> found then text1 @ (case pass of None \<Rightarrow> [] | Some p \<Rightarrow> new_line stack domain user p)
                            else text1)
             in (True, if io_renamed io then Some (io_stored io printed)
                       else if io_removed io then None else Some content))"

definition io_ok :: "passwords_io \<Rightarrow> bool" where
  "io_ok io \<longleftrightarrow> io_open io \<and> io_temp io \<and> io_renamed io \<and> (\<forall>s. io_stored io s = s)"

text \<open>A rename that fails after the old file was removed: success is reported and no file is left.\<close>

lemma failed_rename_loses_passwords:
  "io_open io \<Longrightarrow> io_temp io \<Longrightarrow> io_removed io \<Longrightarrow> \<not> io_renamed io \<Longrightarrow>
    mg_modify_passwords_file stack io content domain user pass = (True, None)"
  by (simp add: mg_modify_passwords_file_def Let_def split: prod.split)

text \<open>A full disk: nothing printed is stored, success is reported and the file is empty.\<close>

lemma full_disk_loses_passwords:
  "io_open io \<Longrightarrow> io_temp io \<Longrightarrow> io_renamed io \<Longrightarrow> io_stored io = (\<lambda>_. []) \<Longrightarrow>
    mg_modify_passwords_file stack io content domain user pass = (True, Some [])"
  by (simp add: mg_modify_passwords_file_def Let_def split: prod.split)

end
