(* ===== verification/Mongoose_Files.thy ===== *)
theory Mongoose_Files
  imports Mongoose_Auth
begin

section \<open>The web server's static files\<close>

text \<open>
  How the web server serves a file itself (\<open>get_mime_type\<close>, \<open>parse_date_string\<close>,
  \<open>is_not_modified\<close>, \<open>handle_file_request\<close>, \<open>substitute_index_file\<close> of
  \<open>src/src/common/network/details/mongoose.c\<close>): what happens to a request that the callback leaves
  to it.
\<close>

subsection \<open>MIME types\<close>

text \<open>
  The configured types come first. A suffix longer than the path is compared from before the start
  of the path.
\<close>

fun extra_mime_type :: "(vec \<times> vec option) list \<Rightarrow> string \<Rightarrow> string option cpp" where
  "extra_mime_type [] path = Ret None"
| "extra_mime_type ((ext_vec, mime_vec) # rules) path =
     (if length path < vec_len ext_vec then Undef
      else if mg_strncasecmp (drop (length path - vec_len ext_vec) path) (vec_ptr ext_vec) (vec_len ext_vec) = 0
      then Ret (Some (case mime_vec of None \<Rightarrow> [] | Some v \<Rightarrow> vec_str v))
      else extra_mime_type rules path)"

definition get_mime_type :: "config \<Rightarrow> string \<Rightarrow> string cpp" where
  "get_mime_type ctx path =
     cbind (extra_mime_type (case ctx EXTRA_MIME_TYPES of None \<Rightarrow> [] | Some list \<Rightarrow> each_option True list) path)
       (\<lambda>r. Ret (case r of Some m \<Rightarrow> m | None \<Rightarrow> mg_get_builtin_mime_type path))"

definition PASSWORDS_PATTERN :: string where
  "PASSWORDS_PATTERN = ''**'' @ PASSWORDS_FILE_NAME @ ''$''"

definition must_hide_file :: "config \<Rightarrow> string \<Rightarrow> bool" where
  "must_hide_file ctx path \<longleftrightarrow>
     0 < match_prefix PASSWORDS_PATTERN path
     \<or> (case ctx HIDE_FILES of None \<Rightarrow> False | Some pattern \<Rightarrow> 0 < match_prefix pattern path)"

subsection \<open>Dates\<close>

definition month_names :: "string list" where
  "month_names = [''Jan'', ''Feb'', ''Mar'', ''Apr'', ''May'', ''Jun'', ''Jul'', ''Aug'', ''Sep'', ''Oct'', ''Nov'', ''Dec'']"

definition get_month_index :: "string \<Rightarrow> nat option" where
  "get_month_index s =
     (let i = length (takeWhile (\<lambda>m. m \<noteq> s) month_names) in if i < 12 then Some i else None)"

definition num_leap_years :: "int \<Rightarrow> int" where
  "num_leap_years year = year div 4 - year div 100 + year div 400"

definition days_before_month :: "int list" where
  "days_before_month = [0, 31, 59, 90, 120, 151, 181, 212, 243, 273, 304, 334]"

text \<open>\<open>%3s\<close> of \<open>sscanf\<close>, and the four formats; a space in a format skips white space.\<close>

definition scan_word3 :: "string \<Rightarrow> (string \<times> string) option" where
  "scan_word3 s =
     (let s1 = dropWhile is_space s; w = take 3 (takeWhile (\<lambda>c. \<not> is_space c) s1)
      in if w = [] then None else Some (w, drop (length w) s1))"

definition scan_time :: "string \<Rightarrow> (int \<times> int \<times> int) option" where
  "scan_time s =
     Option.bind (scan_int s) (\<lambda>(h, s). Option.bind (scan_char CHR '':'' s) (\<lambda>s.
     Option.bind (scan_int s) (\<lambda>(m, s). Option.bind (scan_char CHR '':'' s) (\<lambda>s.
     Option.bind (scan_int s) (\<lambda>(sec, s). Some (h, m, sec))))))"

type_synonym date_fields = "int \<times> string \<times> int \<times> int \<times> int \<times> int"

text \<open>Day, month and year with the given separator, then the time.\<close>

definition scan_date :: "char \<Rightarrow> string \<Rightarrow> date_fields option" where
  "scan_date sep s =
     Option.bind (scan_int s) (\<lambda>(day, s).
     Option.bind (if sep = CHR '' '' then Some s else scan_char sep s) (\<lambda>s.
     Option.bind (scan_word3 s) (\<lambda>(month_str, s).
     Option.bind (if sep = CHR '' '' then Some s else scan_char sep s) (\<lambda>s.
     Option.bind (scan_int s) (\<lambda>(year, s).
     Option.bind (scan_time s) (\<lambda>(h, m, sec). Some (day, month_str, year, h, m, sec)))))))"

text \<open>The weekday in front: \<open>%*3s, \<close>\<close>

definition scan_weekday :: "string \<Rightarrow> string option" where
  "scan_weekday s = Option.bind (scan_word3 s) (\<lambda>(_, s). scan_char CHR '','' s)"

definition scan_date_string :: "string \<Rightarrow> date_fields option" where
  "scan_date_string s =
     (case scan_date CHR ''/'' s of
        Some f \<Rightarrow> Some f
      | None \<Rightarrow>
          (case scan_date CHR '' '' s of
             Some f \<Rightarrow> Some f
           | None \<Rightarrow>
               (case Option.bind (scan_weekday s) (scan_date CHR '' '') of
                  Some f \<Rightarrow> Some f
                | None \<Rightarrow> scan_date CHR ''-'' s)))"

text \<open>The arithmetic is that of \<open>int\<close>: leaving its range is undefined behaviour.\<close>

definition int_range :: "int \<Rightarrow> bool" where
  "int_range v \<longleftrightarrow> - (2 ^ 31) \<le> v \<and> v < 2 ^ 31"

definition parse_date_string :: "string \<Rightarrow> int cpp" where
  "parse_date_string datetime =
     (case scan_date_string datetime of
        None \<Rightarrow> Ret 0
      | Some (day, month_str, year, hour, minute, second) \<Rightarrow>
          if \<not> (int_range day \<and> int_range year \<and> int_range hour \<and> int_range minute \<and> int_range second) then Undef
          else if year \<le> 1970 then Ret 0
          else case get_month_index month_str of
                 None \<Rightarrow> Ret 0
               | Some month \<Rightarrow>
                   let leap_days = num_leap_years year - num_leap_years 1970;
                       years = (year - 1970) * 365;
                       days = years + days_before_month ! month + (day - 1) + leap_days;
                       result = days * 24 * 3600 + hour * 3600 + minute * 60 + second
                   in if int_range years \<and> int_range (years + days_before_month ! month) \<and> int_range (day - 1)
                         \<and> int_range (years + days_before_month ! month + (day - 1)) \<and> int_range days
                         \<and> int_range (days * 24) \<and> int_range (days * 24 * 3600) \<and> int_range (hour * 3600)
                         \<and> int_range (days * 24 * 3600 + hour * 3600) \<and> int_range (minute * 60)
                         \<and> int_range (days * 24 * 3600 + hour * 3600 + minute * 60) \<and> int_range result
                      then Ret result else Undef)"

subsection \<open>Conditional requests\<close>

definition construct_etag :: "file_stat \<Rightarrow> string" where
  "construct_etag file =
     mg_snprintf 64 ([DQUOTE] @ hexadecimal (unat (word_of_int (modification_time file) :: 64 word)) @ ''.''
       @ decimal_int (fs_size file) @ [DQUOTE])"

definition is_not_modified :: "connection \<Rightarrow> file_stat \<Rightarrow> bool cpp" where
  "is_not_modified conn file =
     (if (case mg_get_header conn ''If-None-Match'' of
            None \<Rightarrow> False
          | Some inm \<Rightarrow> mg_strcasecmp (construct_etag file) inm = 0) then Ret True
      else case mg_get_header conn ''If-Modified-Since'' of
             None \<Rightarrow> Ret False
           | Some ims \<Rightarrow> cbind (parse_date_string ims) (\<lambda>t. Ret (modification_time file \<le> t)))"

subsection \<open>Sending a file\<close>

text \<open>\<open>%lld\<close> stops at the ends of its range. The number of fields read, and the two values.\<close>

definition scan_int64 :: "string \<Rightarrow> (int \<times> string) option" where
  "scan_int64 s = map_option (\<lambda>(v, r). (max (- (2 ^ 63)) (min (2 ^ 63 - 1) v), r)) (scan_int s)"

definition parse_range_header :: "string \<Rightarrow> nat \<times> int \<times> int" where
  "parse_range_header header =
     (if \<not> starts_with header ''bytes='' then (0, 0, 0)
      else case scan_int64 (drop 6 header) of
             None \<Rightarrow> (0, 0, 0)
           | Some (a, r) \<Rightarrow>
               (case Option.bind (scan_char CHR ''-'' r) scan_int64 of
                  None \<Rightarrow> (1, a, 0)
                | Some (b, _) \<Rightarrow> (2, a, b)))"

text \<open>The loop of \<open>send_file_data\<close> over what is left of the file behind the offset.\<close>

function send_loop :: "connection \<Rightarrow> string \<Rightarrow> int \<Rightarrow> connection" where
  "send_loop conn content len =
     (let chunk = take (nat (min (int MG_BUF_LEN) len)) content
      in if len \<le> 0 \<or> chunk = [] then conn
         else case mg_write (c_out conn) chunk of
                (num_written, out) \<Rightarrow>
                  if num_written \<noteq> int (length chunk) then conn\<lparr>c_out := out\<rparr>
                  else send_loop (conn\<lparr>c_out := out, c_num_sent := c_num_sent conn + num_written\<rparr>)
                         (drop (length chunk) content) (len - num_written))"
  by pat_completeness auto
termination
  by (relation "measure (\<lambda>(_, content, _). length content)") auto

declare send_loop.simps [simp del]

definition send_file_data :: "connection \<Rightarrow> string \<Rightarrow> int \<Rightarrow> int \<Rightarrow> connection" where
  "send_file_data conn content offset len =
     (if 0 < len then send_loop conn (drop (nat offset) content) len else conn)"

text \<open>
  What the web server asks of the C library: formatting a time (in two ways), the current time, the
  text of the last error and the environment variables; and what is in memory before it is
  initialised: the hash context, the file structure of a directory scan and the buffer of a link; and the
  local time at which a request started, as the access log prints it.
\<close>

record web_env =
  we_gmt :: "int \<Rightarrow> string"
  we_local :: "int \<Rightarrow> string"
  we_now :: int
  we_error :: string
  we_getenv :: "string \<Rightarrow> string option"
  we_stack :: string
  we_stale :: file_stat
  we_href :: string
  we_date :: string

text \<open>The head of a reply. The size is the one that \<open>stat\<close> gave before the file was opened.\<close>

definition file_head :: "web_env \<Rightarrow> config \<Rightarrow> connection \<Rightarrow> file_stat \<Rightarrow> string \<Rightarrow> int \<Rightarrow> string \<Rightarrow> string \<Rightarrow> string" where
  "file_head we ctx conn file mime cl msg range_line =
     ''HTTP/1.1 '' @ decimal_int (c_status conn) @ '' '' @ msg @ crlf
     @ ''Date: '' @ we_gmt we (we_now we) @ crlf
     @ ''Last-Modified: '' @ we_gmt we (modification_time file) @ crlf
     @ ''Etag: '' @ construct_etag file @ crlf
     @ ''Content-Type: '' @ mime @ crlf
     @ ''Content-Length: '' @ decimal_int cl @ crlf
     @ ''Connection: '' @ suggest_connection_header ctx conn @ crlf
     @ ''Accept-Ranges: bytes'' @ crlf
     @ range_line @ crlf"

text \<open>The status, the message, the first byte, the number of bytes and the range line of the reply.\<close>

definition reply_range :: "string option \<Rightarrow> int \<Rightarrow> int \<times> string \<times> int \<times> int \<times> string" where
  "reply_range hdr fsize =
     (case hdr of
        None \<Rightarrow> (200, ''OK'', 0, fsize, [])
      | Some h \<Rightarrow>
          (case parse_range_header h of
             (n, r1, r2) \<Rightarrow>
               if 0 < n \<and> 0 \<le> r1 \<and> 0 < r2 then
                 let cl = (if n = 2 then (if r2 > fsize then fsize else r2) - r1 + 1 else fsize - r1)
                 in (206, ''Partial Content'', r1, cl,
                     mg_snprintf 64 (''Content-Range: bytes '' @ decimal_int r1 @ ''-'' @ decimal_int (r1 + cl - 1) @ ''/''
                       @ decimal_int fsize @ crlf))
               else (200, ''OK'', if 0 < n then r1 else 0, fsize, [])))"

definition handle_file_request ::
  "web_env \<Rightarrow> web_disk \<Rightarrow> 'w callback \<Rightarrow> config \<Rightarrow> string \<Rightarrow> file_stat \<Rightarrow> connection \<times> 'w
     \<Rightarrow> (connection \<times> 'w) cpp" where
  "handle_file_request we disk user_callback ctx path file cw =
     cbind (get_mime_type ctx path) (\<lambda>mime.
       let conn0 = (fst cw)\<lparr>c_status := 200\<rparr>
       in case mg_fopen disk path of
            None \<Rightarrow> send_http_error user_callback ctx 500 ''Internal Server Error'' (''fopen('' @ path @ ''): '' @ we_error we) (conn0, snd cw)
          | Some content \<Rightarrow>
              (case reply_range (mg_get_header conn0 ''Range'') (fs_size file) of
                 (status, msg, r1, cl, range_line) \<Rightarrow>
                   let conn1 = conn0\<lparr>c_status := status\<rparr>;
                       conn2 = snd (mg_printf conn1 (file_head we ctx conn1 file mime cl msg range_line))
                   in Ret (if req_method (c_info conn2) \<noteq> Some ''HEAD'' then send_file_data conn2 content r1 cl else conn2,
                           snd cw)))"

subsection \<open>Index files\<close>

text \<open>The path without its trailing slashes.\<close>

definition strip_slashes :: "string \<Rightarrow> string" where
  "strip_slashes path = rev (dropWhile (\<lambda>c. c = CHR ''/'') (rev path))"

fun find_index :: "web_disk \<Rightarrow> nat \<Rightarrow> string \<Rightarrow> vec list \<Rightarrow> (string \<times> file_stat) option" where
  "find_index disk path_len base [] = None"
| "find_index disk path_len base (v # vs) =
     (if length base + 2 + vec_len v > path_len then find_index disk path_len base vs
      else let p = base @ ''/'' @ cstr (mg_strlcpy (vec_ptr v) (vec_len v + 1)); (found, file) = mg_stat disk p no_stat
           in if found then Some (p, file) else find_index disk path_len base vs)"

text \<open>Whether there is an index file, with the new path and its structure.\<close>

definition substitute_index_file :: "web_disk \<Rightarrow> config \<Rightarrow> string \<Rightarrow> file_stat \<Rightarrow> bool \<times> string \<times> file_stat" where
  "substitute_index_file disk ctx path file =
     (let list = (case ctx INDEX_FILES of None \<Rightarrow> [] | Some list \<Rightarrow> map fst (each_option False list))
      in case find_index disk PATH_MAX (strip_slashes path) list of
           Some (p, file') \<Rightarrow> (True, p, file')
         | None \<Rightarrow> (False, strip_slashes path, file))"

end
