(* ===== verification/Mongoose_Dav.thy ===== *)
theory Mongoose_Dav
  imports Mongoose_Files
begin

section \<open>The web server's directories and uploads\<close>

text \<open>
  Listings, \<open>PROPFIND\<close>, \<open>PUT\<close> and \<open>DELETE\<close> (\<open>scan_directory\<close>, \<open>handle_directory_request\<close>,
  \<open>handle_propfind\<close>, \<open>forward_body_data\<close>, \<open>put_dir\<close>, \<open>put_file\<close> of
  \<open>src/src/common/network/details/mongoose.c\<close>), and the server record that all handlers share.
\<close>

subsection \<open>The server and the operating system\<close>

record dir_entry =
  de_name :: string
  de_file :: file_stat

text \<open>Whether starting a script failed at its process or its streams, or succeeded.\<close>

datatype spawned = No_process | No_streams | Spawned

text \<open>
  The operating system's answers in the state \<open>'w\<close> of the world: what is on the disk, making a
  directory, removing a file, opening one for writing (which empties it), writing at a position,
  adding a line at the end of a file (nothing, when it cannot be opened),
  the output of a shell command, whether two pipes can be made, a script (its name, interpreter,
  directory and variables), its standard input and its output; and \<open>qsort\<close>.
\<close>

record 'w web_os =
  os_disk :: "'w \<Rightarrow> web_disk"
  os_mkdir :: "string \<Rightarrow> 'w \<Rightarrow> bool \<times> 'w"
  os_remove :: "string \<Rightarrow> 'w \<Rightarrow> bool \<times> 'w"
  os_create :: "string \<Rightarrow> 'w \<Rightarrow> bool \<times> 'w"
  os_put :: "string \<Rightarrow> int \<Rightarrow> string \<Rightarrow> 'w \<Rightarrow> bool \<times> 'w"
  os_append :: "string \<Rightarrow> string \<Rightarrow> 'w \<Rightarrow> 'w"
  os_popen :: "string \<Rightarrow> 'w \<Rightarrow> string option \<times> 'w"
  os_pipes :: "'w \<Rightarrow> bool"
  os_spawn :: "string \<Rightarrow> string option \<Rightarrow> string \<Rightarrow> string list \<Rightarrow> 'w \<Rightarrow> spawned \<times> 'w"
  os_feed :: "string \<Rightarrow> 'w \<Rightarrow> bool \<times> 'w"
  os_output :: "'w \<Rightarrow> pull_env list \<times> 'w"
  os_qsort :: "(dir_entry \<Rightarrow> dir_entry \<Rightarrow> int) \<Rightarrow> dir_entry list \<Rightarrow> dir_entry list"

text \<open>The context: the configuration, the user's callback, the C library and the operating system.\<close>

record 'w server =
  srv_config :: config
  srv_callback :: "'w callback"
  srv_env :: web_env
  srv_os :: "'w web_os"

text \<open>A disk without files, an operating system that refuses everything, and a C library to run them with.\<close>

definition no_disk :: web_disk where
  "no_disk = \<lparr>dk_stat = (\<lambda>_. None), dk_open = (\<lambda>_. None), dk_list = (\<lambda>_. None)\<rparr>"

definition idle_os :: "'w web_os" where
  "idle_os =
     \<lparr>os_disk = (\<lambda>_. no_disk), os_mkdir = (\<lambda>_ w. (False, w)), os_remove = (\<lambda>_ w. (False, w)),
      os_create = (\<lambda>_ w. (False, w)), os_put = (\<lambda>_ _ _ w. (False, w)), os_append = (\<lambda>_ _ w. w), os_popen = (\<lambda>_ w. (None, w)),
      os_pipes = (\<lambda>_. False), os_spawn = (\<lambda>_ _ _ _ w. (No_process, w)), os_feed = (\<lambda>_ w. (False, w)),
      os_output = (\<lambda>w. ([], w)), os_qsort = (\<lambda>_ es. es)\<rparr>"

definition plain_env :: web_env where
  "plain_env =
     \<lparr>we_gmt = (\<lambda>_. ''now''), we_local = (\<lambda>_. ''now''), we_now = 0, we_error = [], we_getenv = (\<lambda>_. None),
      we_stack = replicate 64 NUL, we_stale = no_stat, we_href = replicate 4095 NUL, we_date = ''now''\<rparr>"

definition srv_error ::
  "'w server \<Rightarrow> int \<Rightarrow> string \<Rightarrow> string \<Rightarrow> connection \<times> 'w \<Rightarrow> (connection \<times> 'w) cpp" where
  "srv_error srv = send_http_error (srv_callback srv) (srv_config srv)"

definition http_500_error :: string where "http_500_error = ''Internal Server Error''"

text \<open>How a text is printed that may be a null pointer.\<close>

definition null_text :: "string option \<Rightarrow> string" where
  "null_text s = (case s of Some t \<Rightarrow> t | None \<Rightarrow> ''(null)'')"

text \<open>\<open>mg_printf\<close> whose result is added to the bytes sent.\<close>

definition print_counted :: "connection \<Rightarrow> string \<Rightarrow> connection" where
  "print_counted conn s =
     (case mg_printf conn s of (n, conn1) \<Rightarrow> conn1\<lparr>c_num_sent := c_num_sent conn1 + n\<rparr>)"

definition send_options :: "connection \<Rightarrow> connection" where
  "send_options conn =
     snd (mg_printf (conn\<lparr>c_status := 200\<rparr>)
       (''HTTP/1.1 200 OK'' @ crlf @ ''Allow: GET, POST, HEAD, CONNECT, PUT, DELETE, OPTIONS'' @ crlf
        @ ''DAV: 1'' @ crlf @ crlf))"

subsection \<open>Reading a directory\<close>

text \<open>
  The entries in the order of \<open>readdir\<close>. The file structure is shared by all entries: \<open>mg_stat\<close> sets
  only its time when there is no file.
\<close>

fun scan_directory :: "config \<Rightarrow> web_disk \<Rightarrow> string \<Rightarrow> file_stat \<Rightarrow> string list \<Rightarrow> dir_entry list" where
  "scan_directory ctx disk dir file [] = []"
| "scan_directory ctx disk dir file (name # names) =
     (if name = ''.'' \<or> name = ''..'' \<or> must_hide_file ctx name then scan_directory ctx disk dir file names
      else let file' = snd (mg_stat disk (mg_snprintf PATH_MAX (dir @ ''/'' @ name)) file)
           in \<lparr>de_name = name, de_file = file'\<rparr> # scan_directory ctx disk dir file' names)"

subsection \<open>Listings\<close>

text \<open>\<open>%.1f\<close> of a quotient, rounded to even; sizes are below \<open>2 ^ 53\<close>, so that the division is exact.\<close>

definition one_decimal :: "int \<Rightarrow> int \<Rightarrow> string" where
  "one_decimal n d =
     (let q = (10 * n) div d; r = (10 * n) mod d;
          t = (if d < 2 * r \<or> d = 2 * r \<and> odd q then q + 1 else q)
      in decimal_int (t div 10) @ ''.'' @ decimal_int (t mod 10))"

definition size_text :: "file_stat \<Rightarrow> string" where
  "size_text file =
     (if is_directory file then ''[DIRECTORY]''
      else if fs_size file < 1024 then decimal_int (fs_size file)
      else if fs_size file < 0x100000 then one_decimal (fs_size file) 1024 @ ''k''
      else if fs_size file < 0x40000000 then one_decimal (fs_size file) 1048576 @ ''M''
      else one_decimal (fs_size file) 1073741824 @ ''G'')"

definition quoted_link :: "string \<Rightarrow> string \<Rightarrow> string" where
  "quoted_link href text1 = ''<a href='' @ [DQUOTE] @ href @ [DQUOTE] @ ''>'' @ text1 @ ''</a>''"

definition dir_entry_text :: "web_env \<Rightarrow> string \<Rightarrow> dir_entry \<Rightarrow> string" where
  "dir_entry_text we uri de =
     (let slash = (if is_directory (de_file de) then ''/'' else [])
      in ''<tr><td>'' @ quoted_link (uri @ mg_url_encode (de_name de) (we_href we) @ slash) (de_name de @ slash)
         @ ''</td>'' @ ''<td>&nbsp;'' @ we_local we (modification_time (de_file de))
         @ ''</td><td>&nbsp;&nbsp;'' @ mg_snprintf 64 (size_text (de_file de)) @ ''</td></tr>'' @ [LF])"

definition print_dir_entry :: "web_env \<Rightarrow> connection \<Rightarrow> dir_entry \<Rightarrow> connection" where
  "print_dir_entry we conn de =
     print_counted conn (dir_entry_text we (null_text (req_uri (c_info conn))) de)"

text \<open>\<open>strcmp\<close> compares characters as unsigned numbers.\<close>

fun strcmp :: "string \<Rightarrow> string \<Rightarrow> int" where
  "strcmp [] [] = 0"
| "strcmp [] (b # bs) = -1"
| "strcmp (a # as) [] = 1"
| "strcmp (a # as) (b # bs) = (if a = b then strcmp as bs else if (of_char a :: nat) < of_char b then -1 else 1)"

definition compare_dir_entries :: "string option \<Rightarrow> dir_entry \<Rightarrow> dir_entry \<Rightarrow> int" where
  "compare_dir_entries query a b =
     (let q = (case query of Some s \<Rightarrow> s | None \<Rightarrow> ''na'');
          three = (\<lambda>x y :: int. if x = y then 0 else if x > y then 1 else -1)
      in if is_directory (de_file a) \<and> \<not> is_directory (de_file b) then -1
         else if \<not> is_directory (de_file a) \<and> is_directory (de_file b) then 1
         else let cmp = (if deref q = CHR ''n'' then strcmp (de_name a) (de_name b)
                         else if deref q = CHR ''s'' then three (fs_size (de_file a)) (fs_size (de_file b))
                         else if deref q = CHR ''d''
                           then three (modification_time (de_file a)) (modification_time (de_file b))
                         else 0)
              in if deref (tl q) = CHR ''d'' then - cmp else cmp)"

definition listing_head :: "string \<Rightarrow> string \<Rightarrow> string" where
  "listing_head uri direction =
     ''<html><head><title>Index of '' @ uri @ ''</title>''
     @ ''<style>th {text-align: left;}</style></head>''
     @ ''<body><h1>Index of '' @ uri @ ''</h1><pre><table cellpadding='' @ [DQUOTE] @ ''0'' @ [DQUOTE] @ ''>''
     @ ''<tr><th>'' @ quoted_link (''?n'' @ direction) ''Name'' @ ''</th>''
     @ ''<th>'' @ quoted_link (''?d'' @ direction) ''Modified'' @ ''</th>''
     @ ''<th>'' @ quoted_link (''?s'' @ direction) ''Size'' @ ''</th></tr>''
     @ ''<tr><td colspan='' @ [DQUOTE] @ ''3'' @ [DQUOTE] @ ''><hr></td></tr>''"

definition parent_link :: "string \<Rightarrow> string" where
  "parent_link uri =
     ''<tr><td>'' @ quoted_link (uri @ ''..'') ''Parent directory'' @ ''</td>''
     @ ''<td>&nbsp;-</td><td>&nbsp;&nbsp;-</td></tr>'' @ [LF]"

text \<open>The entries of a listing in the order in which they are printed.\<close>

definition listed_entries :: "'w server \<Rightarrow> web_disk \<Rightarrow> string \<Rightarrow> string option \<Rightarrow> string list \<Rightarrow> dir_entry list" where
  "listed_entries srv disk dir query names =
     os_qsort (srv_os srv) (compare_dir_entries query)
       (scan_directory (srv_config srv) disk dir (we_stale (srv_env srv)) names)"

definition handle_directory_request ::
  "'w server \<Rightarrow> string \<Rightarrow> connection \<times> 'w \<Rightarrow> (connection \<times> 'w) cpp" where
  "handle_directory_request srv dir cw =
     (let conn = fst cw; w = snd cw; disk = os_disk (srv_os srv) w
      in case dk_list disk dir of
           None \<Rightarrow> srv_error srv 500 ''Cannot open directory''
                     (''Error: opendir('' @ dir @ ''): '' @ we_error (srv_env srv)) cw
         | Some names \<Rightarrow>
             let query = query_string (c_info conn);
                 uri = null_text (req_uri (c_info conn));
                 direction = (if deref (tl (case query of Some s \<Rightarrow> s | None \<Rightarrow> [])) = CHR ''d'' then ''a'' else ''d'');
                 conn1 = snd (mg_printf (conn\<lparr>c_must_close := True\<rparr>)
                   (''HTTP/1.1 200 OK'' @ crlf @ ''Connection: close'' @ crlf
                    @ ''Content-Type: text/html; charset=utf-8'' @ crlf @ crlf));
                 conn2 = print_counted (print_counted conn1 (listing_head uri direction)) (parent_link uri);
                 conn3 = foldl (print_dir_entry (srv_env srv)) conn2 (listed_entries srv disk dir query names)
             in Ret ((print_counted conn3 ''</table></body></html>'')\<lparr>c_status := 200\<rparr>, w))"

subsection \<open>PROPFIND\<close>

definition print_props :: "web_env \<Rightarrow> connection \<Rightarrow> string \<Rightarrow> file_stat \<Rightarrow> connection" where
  "print_props we conn uri file =
     print_counted conn
       (''<d:response>'' @ ''<d:href>'' @ uri @ ''</d:href>'' @ ''<d:propstat>'' @ ''<d:prop>''
        @ ''<d:resourcetype>'' @ (if is_directory file then ''<d:collection/>'' else []) @ ''</d:resourcetype>''
        @ ''<d:getcontentlength>'' @ decimal_int (fs_size file) @ ''</d:getcontentlength>''
        @ ''<d:getlastmodified>'' @ we_gmt we (modification_time file) @ ''</d:getlastmodified>''
        @ ''</d:prop>'' @ ''<d:status>HTTP/1.1 200 OK</d:status>'' @ ''</d:propstat>'' @ ''</d:response>'' @ [LF])"

definition print_dav_dir_entry :: "web_env \<Rightarrow> connection \<Rightarrow> dir_entry \<Rightarrow> connection" where
  "print_dav_dir_entry we conn de =
     print_props we conn
       (mg_snprintf PATH_MAX (null_text (req_uri (c_info conn)) @ de_name de)) (de_file de)"

definition listings_on :: "config \<Rightarrow> bool" where
  "listings_on ctx \<longleftrightarrow> mg_strcasecmp (case ctx ENABLE_DIRECTORY_LISTING of Some v \<Rightarrow> v | None \<Rightarrow> []) ''yes'' = 0"

definition handle_propfind :: "'w server \<Rightarrow> string \<Rightarrow> file_stat \<Rightarrow> connection \<times> 'w \<Rightarrow> connection \<times> 'w" where
  "handle_propfind srv path file cw =
     (let we = srv_env srv; disk = os_disk (srv_os srv) (snd cw);
          depth = mg_get_header (fst cw) ''Depth'';
          conn1 = snd (mg_printf ((fst cw)\<lparr>c_must_close := True, c_status := 207\<rparr>)
            (''HTTP/1.1 207 Multi-Status'' @ crlf @ ''Connection: close'' @ crlf
             @ ''Content-Type: text/xml; charset=utf-8'' @ crlf @ crlf));
          conn2 = print_counted conn1
            (''<?xml version='' @ [DQUOTE] @ ''1.0'' @ [DQUOTE] @ '' encoding='' @ [DQUOTE] @ ''utf-8'' @ [DQUOTE]
             @ ''?>'' @ ''<d:multistatus xmlns:d='' @ [CHR 0x27] @ ''DAV:'' @ [CHR 0x27] @ ''>'' @ [LF]);
          conn3 = print_props we conn2 (null_text (req_uri (c_info conn2))) file;
          conn4 = (if is_directory file \<and> listings_on (srv_config srv) \<and> depth \<noteq> Some ''0'' then
                     foldl (print_dav_dir_entry we) conn3
                       (scan_directory (srv_config srv) disk path (we_stale we)
                          (case dk_list disk path of Some names \<Rightarrow> names | None \<Rightarrow> []))
                   else conn3)
      in (print_counted conn4 (''</d:multistatus>'' @ [LF]), snd cw))"

subsection \<open>The body of a request\<close>

text \<open>
  Where a body goes: the sink gets the number of bytes already taken and the next bytes, and says
  whether they were written.
\<close>

type_synonym 'w body_sink = "int \<Rightarrow> string \<Rightarrow> 'w \<Rightarrow> bool \<times> 'w"

text \<open>
  The loop over what the client still sends: the last result of \<open>pull\<close>, the bytes consumed, the
  script of the client and the world. Once a write has failed, the error flag of the stream stays
  set, and every later one counts as failed; \<open>good\<close> says that it is not set.
\<close>

function forward_loop ::
  "'w body_sink \<Rightarrow> bool \<Rightarrow> bool \<Rightarrow> int \<Rightarrow> int \<Rightarrow> int \<Rightarrow> pull_env list \<Rightarrow> 'w \<Rightarrow> int \<times> int \<times> pull_env list \<times> 'w" where
  "forward_loop sink good must_close content_len consumed nread env w =
     (if content_len \<le> consumed then (nread, consumed, env, w)
      else case pull must_close env (nat (min (int MG_BUF_LEN) (content_len - consumed))) of
             (n, bs, env') \<Rightarrow>
               if n \<le> 0 then (n, consumed, env', w)
               else case sink consumed bs w of
                      (ok, w') \<Rightarrow>
                        if \<not> ok \<or> \<not> good then (n, consumed, env', w')
                        else forward_loop sink good must_close content_len (consumed + n) n env' w')"
  by pat_completeness auto
termination
  by (relation "measure (\<lambda>(_, _, _, content_len, consumed, _, _, _). nat (content_len - consumed))") auto

declare forward_loop.simps [simp del]

text \<open>
  Whether the whole body was forwarded. What is buffered behind the request goes first; whether that
  was written is not looked at. A failed assertion is \<open>Undef\<close>.
\<close>

definition forward_body_data ::
  "'w server \<Rightarrow> 'w body_sink \<Rightarrow> connection \<times> 'w \<Rightarrow> (bool \<times> connection \<times> 'w) cpp" where
  "forward_body_data srv sink cw =
     (let conn = fst cw; w = snd cw; expect = mg_get_header conn ''Expect''
      in if c_content_len conn = -1 then
           cbind (srv_error srv 411 ''Length Required'' [] cw) (\<lambda>cw1. Ret (False, cw1))
         else if expect \<noteq> None \<and> mg_strcasecmp (the expect) ''100-continue'' \<noteq> 0 then
           cbind (srv_error srv 417 ''Expectation Failed'' [] cw) (\<lambda>cw1. Ret (False, cw1))
         else
           let conn1 = (if expect \<noteq> None then snd (mg_printf conn (''HTTP/1.1 100 Continue'' @ crlf @ crlf)) else conn);
               body = nat (c_request_len conn1 + c_consumed conn1);
               buffered = int (c_data_len conn1) - int body
           in if buffered < 0 \<or> c_consumed conn1 \<noteq> 0 then Undef
              else
                let k = min buffered (c_content_len conn1);
                    (good, w1) =
                      (if 0 < buffered \<and> 0 < k then sink 0 (take (nat k) (drop body (c_buf conn1))) w else (True, w));
                    consumed = (if 0 < buffered then k else 0)
                in case forward_loop sink good (c_must_close conn1) (c_content_len conn1) consumed 0 (c_env conn1) w1 of
                     (nread, consumed', env, w2) \<Rightarrow>
                       let conn2 = conn1\<lparr>c_consumed := consumed', c_env := env\<rparr>
                       in if consumed' = c_content_len conn2 \<and> 0 \<le> nread then Ret (True, conn2, w2)
                          else cbind (srv_error srv 577 http_500_error [] (conn2, w2)) (\<lambda>cw1. Ret (False, cw1)))"

subsection \<open>PUT\<close>

text \<open>
  The directories on the way to a path, from position \<open>s\<close> on: 0 for a path that is a directory, -1
  for an error, 1 otherwise.
\<close>

function put_dirs :: "'w web_os \<Rightarrow> string \<Rightarrow> nat \<Rightarrow> int \<Rightarrow> 'w \<Rightarrow> int \<times> 'w" where
  "put_dirs os path s res w =
     (case find_first_of CHR ''/'' (drop s path) of
        None \<Rightarrow> (res, w)
      | Some i \<Rightarrow>
          if PATH_MAX \<le> s + i then (-1, w)
          else let buf = take (s + i) path;
                   (ok, w1) = (if fst (mg_stat (os_disk os w) buf no_stat) then (True, w) else os_mkdir os buf w)
               in if \<not> ok then (-1, w1)
                  else put_dirs os path (s + i + 1) (if s + i + 1 = length path then 0 else res) w1)"
  by pat_completeness auto
termination
  by (relation "measure (\<lambda>(_, path, s, _, _). length path - s)") (auto dest: find_first_of_bound)

declare put_dirs.simps [simp del]

text \<open>The search starts behind the second character, which a shorter path does not have.\<close>

definition put_dir :: "'w web_os \<Rightarrow> string \<Rightarrow> 'w \<Rightarrow> (int \<times> 'w) cpp" where
  "put_dir os path w = (if length path < 2 then Undef else Ret (put_dirs os path 2 1 w))"

definition status_ok_reply :: "connection \<Rightarrow> connection" where
  "status_ok_reply conn =
     snd (mg_printf conn (''HTTP/1.1 '' @ decimal_int (c_status conn) @ '' OK'' @ crlf @ crlf))"

definition put_file :: "'w server \<Rightarrow> string \<Rightarrow> connection \<times> 'w \<Rightarrow> (connection \<times> 'w) cpp" where
  "put_file srv path cw =
     (let os = srv_os srv;
          conn1 = (fst cw)\<lparr>c_status := (if fst (mg_stat (os_disk os (snd cw)) path no_stat) then 200 else 201)\<rparr>
      in cbind (put_dir os path (snd cw)) (\<lambda>(rc, w1).
           if rc = 0 then Ret (status_ok_reply conn1, w1)
           else if rc = -1 then
             srv_error srv 500 http_500_error (''put_dir('' @ path @ ''): '' @ we_error (srv_env srv)) (conn1, w1)
           else case os_create os path w1 of
                  (ok, w2) \<Rightarrow>
                    if \<not> ok then
                      srv_error srv 500 http_500_error (''fopen('' @ path @ ''): '' @ we_error (srv_env srv)) (conn1, w2)
                    else
                      let (n, r1, r2) = (case mg_get_header conn1 ''Content-Range'' of
                                           None \<Rightarrow> (0, 0, 0)
                                         | Some range_text \<Rightarrow> parse_range_header range_text);
                          conn2 = (if 0 < n then conn1\<lparr>c_status := 206\<rparr> else conn1);
                          start = (if 0 < n \<and> 0 \<le> r1 then r1 else 0)
                      in cbind (forward_body_data srv (\<lambda>k. os_put os path (start + k)) (conn2, w2)) (\<lambda>(sent, conn3, w3).
                           Ret (if sent then status_ok_reply conn3 else conn3, w3))))"

text \<open>\<open>DELETE\<close>, a branch of \<open>handle_request\<close>.\<close>

definition delete_file :: "'w server \<Rightarrow> string \<Rightarrow> connection \<times> 'w \<Rightarrow> (connection \<times> 'w) cpp" where
  "delete_file srv path cw =
     (case os_remove (srv_os srv) path (snd cw) of
        (ok, w1) \<Rightarrow>
          if ok then srv_error srv 200 ''OK'' [] (fst cw, w1)
          else srv_error srv 500 http_500_error (''remove('' @ path @ ''): '' @ we_error (srv_env srv)) (fst cw, w1))"

end
