(* ===== verification/Mongoose_Scripts.thy ===== *)
theory Mongoose_Scripts
  imports Mongoose_Dav
begin

section \<open>The web server's scripts\<close>

text \<open>
  Server-side includes and CGI (\<open>send_ssi_file\<close>, \<open>do_ssi_include\<close>, \<open>do_ssi_exec\<close>, \<open>addenv\<close>,
  \<open>prepare_cgi_environment\<close>, \<open>handle_cgi_request\<close> of \<open>src/src/common/network/details/mongoose.c\<close>). What
  shell commands and scripts do is up to the operating system.
\<close>

subsection \<open>Server-side includes\<close>

definition INT64_MAX :: int where "INT64_MAX = 2 ^ 63 - 1"

definition write_text :: "connection \<Rightarrow> string \<Rightarrow> connection" where
  "write_text conn s = conn\<lparr>c_out := snd (mg_write (c_out conn) s)\<rparr>"

text \<open>What \<open>sscanf\<close> reads with a format of white space, \<open>prefix\<close> and a non-empty text before a quote.\<close>

definition scan_quoted :: "string \<Rightarrow> string \<Rightarrow> string option" where
  "scan_quoted prefix tag =
     (let s = dropWhile is_space tag; name = takeWhile (\<lambda>c. c \<noteq> DQUOTE) (drop (length prefix) s)
      in if starts_with s prefix \<and> name \<noteq> [] then Some name else None)"

text \<open>The directory of a document with its slash, or the whole name.\<close>

definition with_directory :: "string \<Rightarrow> string" where
  "with_directory path =
     (if CHR ''/'' \<in> set path then rev (dropWhile (\<lambda>c. c \<noteq> CHR ''/'') (rev path)) else path)"

definition ssi_include_path :: "config \<Rightarrow> string \<Rightarrow> string \<Rightarrow> string option" where
  "ssi_include_path ctx ssi tag =
     (case scan_quoted (''virtual='' @ [DQUOTE]) tag of
        Some name \<Rightarrow>
          Some (mg_snprintf PATH_MAX ((case ctx DOCUMENT_ROOT of Some r \<Rightarrow> r | None \<Rightarrow> ''(null)'') @ ''/'' @ name))
      | None \<Rightarrow>
          (case scan_quoted (''file='' @ [DQUOTE]) tag of
             Some name \<Rightarrow> Some (mg_snprintf PATH_MAX name)
           | None \<Rightarrow>
               (case scan_quoted [DQUOTE] tag of
                  Some name \<Rightarrow>
                    let dir = with_directory (mg_snprintf PATH_MAX ssi)
                    in Some (dir @ mg_snprintf (PATH_MAX - length dir) name)
                | None \<Rightarrow> None)))"

definition ssi_pattern :: "config \<Rightarrow> string" where
  "ssi_pattern ctx = (case ctx SSI_EXTENSIONS of Some p \<Rightarrow> p | None \<Rightarrow> [])"

text \<open>\<open>deeper\<close> sends a document one level deeper. A file that cannot be opened is only logged.\<close>

definition do_ssi_include ::
  "'w server \<Rightarrow> (string \<Rightarrow> string \<Rightarrow> connection \<times> 'w \<Rightarrow> connection \<times> 'w) \<Rightarrow> string \<Rightarrow> string
     \<Rightarrow> connection \<times> 'w \<Rightarrow> connection \<times> 'w" where
  "do_ssi_include srv deeper ssi tag cw =
     (case ssi_include_path (srv_config srv) ssi tag of
        None \<Rightarrow> cw
      | Some path \<Rightarrow>
          (case mg_fopen (os_disk (srv_os srv) (snd cw)) path of
             None \<Rightarrow> cw
           | Some content \<Rightarrow>
               if 0 < match_prefix (ssi_pattern (srv_config srv)) path then deeper path content cw
               else (send_file_data (fst cw) content 0 INT64_MAX, snd cw)))"

definition do_ssi_exec :: "'w server \<Rightarrow> string \<Rightarrow> connection \<times> 'w \<Rightarrow> connection \<times> 'w" where
  "do_ssi_exec srv tag cw =
     (case scan_quoted [DQUOTE] tag of
        None \<Rightarrow> cw
      | Some cmd \<Rightarrow>
          (case os_popen (srv_os srv) cmd (snd cw) of
             (None, w) \<Rightarrow> (fst cw, w)
           | (Some output, w) \<Rightarrow> (send_file_data (fst cw) output 0 INT64_MAX, w)))"

definition ssi_mark :: string where "ssi_mark = ''<!--#''"

definition run_ssi_tag ::
  "'w server \<Rightarrow> (string \<Rightarrow> string \<Rightarrow> connection \<times> 'w \<Rightarrow> connection \<times> 'w) \<Rightarrow> string \<Rightarrow> string
     \<Rightarrow> connection \<times> 'w \<Rightarrow> connection \<times> 'w" where
  "run_ssi_tag srv deeper path buf cw =
     (if length buf < 6 \<or> take 5 buf \<noteq> ssi_mark then (write_text (fst cw) buf, snd cw)
      else if take 7 (drop 5 buf) = ''include'' then do_ssi_include srv deeper path (cstr (drop 12 buf)) cw
      else if take 4 (drop 5 buf) = ''exec'' then do_ssi_exec srv (cstr (drop 9 buf)) cw
      else cw)"

text \<open>
  One character: the buffer, whether it may hold a tag, and the rest. A tag that fills the buffer is
  dropped.
\<close>

definition ssi_char ::
  "'w server \<Rightarrow> (string \<Rightarrow> string \<Rightarrow> connection \<times> 'w \<Rightarrow> connection \<times> 'w) \<Rightarrow> string
     \<Rightarrow> string \<times> bool \<times> connection \<times> 'w \<Rightarrow> char \<Rightarrow> string \<times> bool \<times> connection \<times> 'w" where
  "ssi_char srv deeper path st ch =
     (case st of (buf, in_ssi_tag, conn, w) \<Rightarrow>
        if in_ssi_tag \<and> ch = CHR ''>'' then ([], False, run_ssi_tag srv deeper path (buf @ [ch]) (conn, w))
        else if in_ssi_tag then
          if length buf = 5 \<and> buf \<noteq> ssi_mark then (buf @ [ch], False, conn, w)
          else if length buf = MG_BUF_LEN - 2 then ([ch], True, conn, w)
          else (buf @ [ch], True, conn, w)
        else if ch = CHR ''<'' then
          ([ch], True, if buf \<noteq> [] then write_text conn buf else conn, w)
        else if length buf + 1 = MG_BUF_LEN then ([], False, write_text conn (buf @ [ch]), w)
        else (buf @ [ch], False, conn, w))"

definition ssi_scan ::
  "'w server \<Rightarrow> (string \<Rightarrow> string \<Rightarrow> connection \<times> 'w \<Rightarrow> connection \<times> 'w) \<Rightarrow> string \<Rightarrow> string
     \<Rightarrow> connection \<times> 'w \<Rightarrow> connection \<times> 'w" where
  "ssi_scan srv deeper path content cw =
     (case foldl (ssi_char srv deeper path) ([], False, cw) content of
        (buf, _, conn, w) \<Rightarrow> (if buf \<noteq> [] then write_text conn buf else conn, w))"

text \<open>\<open>send_ssi_file\<close> with the number of levels that are left: a document at a level above 10 is not sent.\<close>

primrec send_ssi_file :: "'w server \<Rightarrow> nat \<Rightarrow> string \<Rightarrow> string \<Rightarrow> connection \<times> 'w \<Rightarrow> connection \<times> 'w" where
  "send_ssi_file srv 0 = (\<lambda>path content cw. cw)"
| "send_ssi_file srv (Suc levels) = ssi_scan srv (send_ssi_file srv levels)"

definition handle_ssi_file_request :: "'w server \<Rightarrow> string \<Rightarrow> connection \<times> 'w \<Rightarrow> (connection \<times> 'w) cpp" where
  "handle_ssi_file_request srv path cw =
     (case mg_fopen (os_disk (srv_os srv) (snd cw)) path of
        None \<Rightarrow> srv_error srv 500 http_500_error (''fopen('' @ path @ ''): '' @ we_error (srv_env srv)) cw
      | Some content \<Rightarrow>
          let conn1 = (fst cw)\<lparr>c_must_close := True\<rparr>;
              conn2 = snd (mg_printf conn1
                (''HTTP/1.1 200 OK'' @ crlf @ ''Content-Type: text/html'' @ crlf @ ''Connection: ''
                 @ suggest_connection_header (srv_config srv) conn1 @ crlf @ crlf))
          in Ret (send_ssi_file srv 11 path content (conn2, snd cw)))"

subsection \<open>The environment of a script\<close>

definition CGI_ENVIRONMENT_SIZE :: nat where "CGI_ENVIRONMENT_SIZE = 4096"
definition MAX_CGI_ENVIR_VARS :: nat where "MAX_CGI_ENVIR_VARS = 64"

text \<open>The block: its variables in order. \<open>blk_len\<close> is the space that they take with their terminators.\<close>

definition blk_len :: "string list \<Rightarrow> nat" where
  "blk_len vars = sum_list (map (\<lambda>v. length v + 1) vars)"

definition addenv :: "string list \<Rightarrow> string \<Rightarrow> string list" where
  "addenv vars v =
     (let space = CGI_ENVIRONMENT_SIZE - blk_len vars - 2; n = length (mg_snprintf space v)
      in if 0 < n \<and> n + 1 < space \<and> length vars < MAX_CGI_ENVIR_VARS - 2 then vars @ [v] else vars)"

definition to_upper :: "char \<Rightarrow> char" where
  "to_upper c = (let n = of_char c :: nat in if 97 \<le> n \<and> n \<le> 122 then char_of (n - 32) else c)"

text \<open>A header as a variable: its name in capitals, with underscores.\<close>

definition header_variable :: "string \<times> string \<Rightarrow> string" where
  "header_variable h =
     (let v = ''HTTP_'' @ fst h @ ''='' @ snd h; name = takeWhile (\<lambda>c. c \<noteq> CHR ''='') v
      in map (\<lambda>c. to_upper (if c = CHR ''-'' then CHR ''_'' else c)) name @ drop (length name) v)"

text \<open>The variables in the order in which they are added; a null pointer adds none.\<close>

definition optional_variable :: "string \<Rightarrow> string option \<Rightarrow> string list" where
  "optional_variable name v = (case v of None \<Rightarrow> [] | Some t \<Rightarrow> [name @ ''='' @ t])"

text \<open>The part of a text before its last slash, and from that slash on.\<close>

definition before_last_slash :: "string \<Rightarrow> string" where
  "before_last_slash s = rev (tl (dropWhile (\<lambda>c. c \<noteq> CHR ''/'') (rev s)))"

definition from_last_slash :: "string \<Rightarrow> string" where
  "from_last_slash s =
     (if CHR ''/'' \<in> set s then CHR ''/'' # rev (takeWhile (\<lambda>c. c \<noteq> CHR ''/'') (rev s)) else s)"

definition cgi_variables :: "'w server \<Rightarrow> connection \<Rightarrow> string \<Rightarrow> string list" where
  "cgi_variables srv conn prog =
     (let ctx = srv_config srv; we = srv_env srv; ri = c_info conn; uri = null_text (req_uri ri)
      in [''SERVER_NAME='' @ null_text (ctx AUTHENTICATION_DOMAIN), ''SERVER_ROOT='' @ null_text (ctx DOCUMENT_ROOT),
          ''DOCUMENT_ROOT='' @ null_text (ctx DOCUMENT_ROOT), ''GATEWAY_INTERFACE=CGI/1.1'',
          ''SERVER_PROTOCOL=HTTP/1.1'', ''REDIRECT_STATUS=200'',
          ''SERVER_PORT='' @ decimal_int (pe_server_port (c_peer conn)),
          ''REQUEST_METHOD='' @ null_text (req_method ri), ''REMOTE_ADDR='' @ pe_addr (c_peer conn),
          ''REMOTE_PORT='' @ decimal_int (pe_port (c_peer conn)), ''REQUEST_URI='' @ uri,
          ''SCRIPT_NAME='' @ before_last_slash uri @ from_last_slash prog,
          ''SCRIPT_FILENAME='' @ prog, ''PATH_TRANSLATED='' @ prog, ''HTTPS=off'']
         @ optional_variable ''CONTENT_TYPE'' (mg_get_header conn ''Content-Type'')
         @ optional_variable ''QUERY_STRING'' (query_string ri)
         @ optional_variable ''CONTENT_LENGTH'' (mg_get_header conn ''Content-Length'')
         @ optional_variable ''PATH'' (we_getenv we ''PATH'')
         @ optional_variable ''PATH_INFO'' (c_path_info conn)
         @ optional_variable ''LD_LIBRARY_PATH'' (we_getenv we ''LD_LIBRARY_PATH'')
         @ optional_variable ''PERLLIB'' (we_getenv we ''PERLLIB'')
         @ (case remote_user ri of None \<Rightarrow> [] | Some u \<Rightarrow> [''REMOTE_USER='' @ u, ''AUTH_TYPE=Digest''])
         @ map header_variable (http_headers ri)
         @ (case ctx CGI_ENVIRONMENT of None \<Rightarrow> [] | Some list \<Rightarrow> map (\<lambda>(v, _). vec_str v) (each_option False list)))"

text \<open>The array of variables, with the null pointer at its end left out. The URI is asserted to start with a slash.\<close>

definition prepare_cgi_environment :: "'w server \<Rightarrow> connection \<Rightarrow> string \<Rightarrow> string list cpp" where
  "prepare_cgi_environment srv conn prog =
     (if deref (null_text (req_uri (c_info conn))) \<noteq> CHR ''/'' then Undef
      else Ret (foldl addenv [] (cgi_variables srv conn prog)))"

subsection \<open>Running a script\<close>

text \<open>\<open>spawn_process\<close> as the server sees it: it answers a failed \<open>fork\<close> itself, and its caller does so again.\<close>

definition spawn_process ::
  "'w server \<Rightarrow> string \<Rightarrow> string \<Rightarrow> string list \<Rightarrow> connection \<times> 'w \<Rightarrow> (spawned \<times> connection \<times> 'w) cpp" where
  "spawn_process srv prog dir vars cw =
     (case os_spawn (srv_os srv) prog (srv_config srv CGI_INTERPRETER) dir vars (snd cw) of
        (No_process, w) \<Rightarrow>
          cbind (srv_error srv 500 http_500_error (''fork(): '' @ we_error (srv_env srv)) (fst cw, w))
            (\<lambda>cw1. Ret (No_process, cw1))
      | (r, w) \<Rightarrow> Ret (r, fst cw, w))"

text \<open>What \<open>fread\<close> gives of a stream until its end.\<close>

fun stream_rest :: "pull_env list \<Rightarrow> string" where
  "stream_rest [] = []"
| "stream_rest (e # es) =
     (case incoming e of
        None \<Rightarrow> []
      | Some bs \<Rightarrow> if bs = [] then [] else bs @ stream_rest es)"

definition CGI_BUF_SIZE :: nat where "CGI_BUF_SIZE = 16384"

text \<open>The status and its text, from the headers that a script has printed.\<close>

definition cgi_status :: "(string \<times> string) list \<Rightarrow> int \<times> string" where
  "cgi_status hs =
     (case find_header hs ''Status'' of
        Some status \<Rightarrow> (atoi status, dropWhile (\<lambda>c. mg_digit c \<or> c = CHR '' '') status)
      | None \<Rightarrow> ((if find_header hs ''Location'' \<noteq> None then 302 else 200), ''OK''))"

text \<open>
  The reply from the script's output. The headers are parsed into a structure whose count of headers
  is only set when there is a header.
\<close>

definition send_cgi_reply :: "'w server \<Rightarrow> pull_env list \<Rightarrow> connection \<times> 'w \<Rightarrow> (connection \<times> 'w) cpp" where
  "send_cgi_reply srv output cw =
     (case read_request True output (replicate CGI_BUF_SIZE NUL) CGI_BUF_SIZE 0 of
        (headers_len, buf, data_len, rest) \<Rightarrow>
          if headers_len \<le> 0 then
            srv_error srv 500 http_500_error
              (''CGI program sent malformed or too big (>'' @ decimal CGI_BUF_SIZE @ '' bytes) HTTP headers: [''
               @ cstr (take data_len buf) @ '']'') cw
          else
            let hs = parse_http_headers 64 (cstr (take (nat headers_len - 1) buf));
                (status, status_text) = cgi_status hs;
                close = (case find_header hs ''Connection'' of None \<Rightarrow> False | Some c \<Rightarrow> mg_strcasecmp c ''keep-alive'' = 0);
                conn1 = (fst cw)\<lparr>c_status := status, c_must_close := close \<or> c_must_close (fst cw)\<rparr>;
                conn2 = snd (mg_printf conn1 (''HTTP/1.1 '' @ decimal_int status @ '' '' @ status_text @ crlf));
                conn3 = foldl (\<lambda>c (n, v). snd (mg_printf c (n @ '': '' @ v @ crlf))) conn2 hs;
                conn4 = write_text conn3 crlf;
                (n, out) = mg_write (c_out conn4) (take (data_len - nat headers_len) (drop (nat headers_len) buf));
                conn5 = conn4\<lparr>c_out := out, c_num_sent := c_num_sent conn4 + n\<rparr>
            in if hs = [] then Undef
               else Ret (send_file_data conn5 (stream_rest rest) 0 INT64_MAX, snd cw))"

definition handle_cgi_request :: "'w server \<Rightarrow> string \<Rightarrow> connection \<times> 'w \<Rightarrow> (connection \<times> 'w) cpp" where
  "handle_cgi_request srv prog cw =
     cbind (prepare_cgi_environment srv (fst cw) prog) (\<lambda>vars.
       let path = mg_snprintf PATH_MAX prog; err = we_error (srv_env srv);
           (dir, p) = (if CHR ''/'' \<in> set path then (before_last_slash path, tl (from_last_slash path)) else (''.'', prog))
       in if \<not> os_pipes (srv_os srv) (snd cw) then
            srv_error srv 500 http_500_error (''Cannot create CGI pipe: '' @ err) cw
          else
              cbind (spawn_process srv p dir vars cw) (\<lambda>(r, conn1, w1).
                if r = No_process then
                  srv_error srv 500 http_500_error (''Cannot spawn CGI process ['' @ prog @ '']: '' @ err) (conn1, w1)
                else if r \<noteq> Spawned then srv_error srv 500 http_500_error (''fopen: '' @ err) (conn1, w1)
                else cbind (if req_method (c_info conn1) = Some ''POST''
                            then forward_body_data srv (\<lambda>_. os_feed (srv_os srv)) (conn1, w1)
                            else Ret (True, conn1, w1)) (\<lambda>(sent, conn2, w2).
                       if \<not> sent then Ret (conn2, w2)
                       else case os_output (srv_os srv) w2 of
                              (output, w3) \<Rightarrow> send_cgi_reply srv output (conn2, w3))))"

end
