(* ===== verification/Mongoose_Request.thy ===== *)
theory Mongoose_Request
  imports Mongoose_Scripts
begin

section \<open>The web server's choice of an answer\<close>

text \<open>
  \<open>handle_request\<close> and \<open>convert_uri_to_file_name\<close> of \<open>src/src/common/network/details/mongoose.c\<close>: from the
  URI to a path, through authorization and the user's callback, to the handler that answers.
\<close>

subsection \<open>Handling a request\<close>

text \<open>The URI without its query, decoded in place, and cleaned.\<close>

definition split_query :: "string \<Rightarrow> string \<times> string option" where
  "split_query uri =
     (case find_first_of CHR ''?'' uri of
        None \<Rightarrow> (uri, None)
      | Some i \<Rightarrow> (take i uri, Some (drop (Suc i) uri)))"

definition clean_uri :: "string \<Rightarrow> string" where
  "clean_uri uri =
     remove_double_dots_and_double_slashes (cstr (mg_url_decode uri (length uri) (length uri + 1) False))"

text \<open>The first rewrite rule that matches the URI.\<close>

fun rewrite_uri :: "(vec \<times> vec option) list \<Rightarrow> string \<Rightarrow> string option" where
  "rewrite_uri [] uri = None"
| "rewrite_uri ((a, b) # rules) uri =
     (let match_len = match_prefix (vec_str a) uri
      in if 0 < match_len
         then Some ((case b of None \<Rightarrow> [] | Some v \<Rightarrow> vec_str v) @ drop (nat match_len) uri)
         else rewrite_uri rules uri)"

text \<open>
  The longest prefix before a slash that is an existing script, from \<open>i\<close> characters down, and the file
  structure that all attempts share.
\<close>

fun cgi_prefix :: "web_disk \<Rightarrow> string \<Rightarrow> string \<Rightarrow> nat \<Rightarrow> file_stat \<Rightarrow> nat option \<times> file_stat" where
  "cgi_prefix disk pattern path 0 file = (None, file)"
| "cgi_prefix disk pattern path (Suc i) file =
     (if Suc i \<le> 1 then (None, file)
      else if Suc i < length path \<and> path ! Suc i = CHR ''/'' \<and> 0 < match_prefix pattern (take (Suc i) path)
      then let (found, file') = mg_stat disk (take (Suc i) path) file
           in if found then (Some (Suc i), file') else cgi_prefix disk pattern path i file'
      else cgi_prefix disk pattern path i file)"

definition cgi_pattern :: "config \<Rightarrow> string" where
  "cgi_pattern ctx = (case ctx CGI_EXTENSIONS of Some c \<Rightarrow> c | None \<Rightarrow> [])"

text \<open>The path, the path info of a script, and the file.\<close>

definition convert_uri_to_file_name ::
  "config \<Rightarrow> web_disk \<Rightarrow> string \<Rightarrow> string \<times> string option \<times> file_stat" where
  "convert_uri_to_file_name ctx disk uri =
     (let root = (case ctx DOCUMENT_ROOT of Some r \<Rightarrow> r | None \<Rightarrow> ''(null)'');
          rules = (case ctx REWRITE of Some r \<Rightarrow> each_option True r | None \<Rightarrow> []);
          path = mg_snprintf (PATH_MAX - 1)
                   (case rewrite_uri rules uri of Some p \<Rightarrow> p | None \<Rightarrow> root @ uri);
          (found, file) = mg_stat disk path no_stat
      in if found then (path, None, file)
         else case cgi_prefix disk (cgi_pattern ctx) path (length path) file of
                (Some i, file') \<Rightarrow> (take i path, Some (drop i path), file')
              | (None, file') \<Rightarrow> (path, None, file'))"

definition send_authorization_request :: "string \<Rightarrow> config \<Rightarrow> connection \<Rightarrow> connection" where
  "send_authorization_request nonce ctx conn =
     snd (mg_printf (conn\<lparr>c_status := 401\<rparr>)
       (''HTTP/1.1 401 Unauthorized'' @ crlf @ ''Content-Length: 0'' @ crlf
        @ ''WWW-Authenticate: Digest qop='' @ [DQUOTE] @ ''auth'' @ [DQUOTE] @ '', realm='' @ [DQUOTE]
        @ (case ctx AUTHENTICATION_DOMAIN of Some d \<Rightarrow> d | None \<Rightarrow> ''(null)'') @ [DQUOTE]
        @ '', nonce='' @ [DQUOTE] @ nonce @ [DQUOTE] @ crlf @ crlf))"

text \<open>
  The character at the place of the URI's old end, after the URI was decoded and cleaned in place:
  behind a URI that has shrunk there is its terminator, or what was there before.
\<close>

definition old_last_char :: "string \<Rightarrow> char" where
  "old_last_char u =
     (let decoded = overwrite (u @ [NUL]) 0 (mg_url_decode u (length u) (length u + 1) False @ [NUL])
      in overwrite decoded 0 (clean_uri u @ [NUL]) ! (length u - 1))"

text \<open>
  What the server does with a request that the callback leaves to it. \<open>nonce\<close> is the clock as a
  text, \<open>final\<close> the character that is looked at for a final slash.
\<close>

definition serve_file :: "'w server \<Rightarrow> string \<Rightarrow> file_stat \<Rightarrow> connection \<times> 'w \<Rightarrow> (connection \<times> 'w) cpp" where
  "serve_file srv path file cw =
     (let ctx = srv_config srv; m = null_text (req_method (c_info (fst cw)))
      in if 0 < match_prefix (cgi_pattern ctx) path then
           (if m \<noteq> ''POST'' \<and> m \<noteq> ''GET''
            then srv_error srv 501 ''Not Implemented'' (''Method '' @ m @ '' is not implemented'') cw
            else handle_cgi_request srv path cw)
         else if 0 < match_prefix (ssi_pattern ctx) path then handle_ssi_file_request srv path cw
         else cbind (is_not_modified (fst cw) file) (\<lambda>same.
           if same then srv_error srv 304 ''Not Modified'' [] cw
           else handle_file_request (srv_env srv) (os_disk (srv_os srv) (snd cw)) (srv_callback srv) ctx path file cw))"

definition serve_path ::
  "'w server \<Rightarrow> string \<Rightarrow> file_stat \<Rightarrow> char \<Rightarrow> connection \<times> 'w \<Rightarrow> (connection \<times> 'w) cpp" where
  "serve_path srv path file final cw =
     (let ctx = srv_config srv; disk = os_disk (srv_os srv) (snd cw); ri = c_info (fst cw)
      in if modification_time file = 0 \<or> must_hide_file ctx path then srv_error srv 404 ''Not Found'' ''File not found'' cw
         else if is_directory file \<and> final \<noteq> CHR ''/'' then
           Ret (snd (mg_printf (fst cw) (''HTTP/1.1 301 Moved Permanently'' @ crlf @ ''Location: ''
                  @ null_text (req_uri ri) @ ''/'' @ crlf @ crlf)), snd cw)
         else if req_method ri = Some ''PROPFIND'' then Ret (handle_propfind srv path file cw)
         else if is_directory file then
           (case substitute_index_file disk ctx path file of
              (found, path', file') \<Rightarrow>
                if found then serve_file srv path' file' cw
                else if listings_on ctx then handle_directory_request srv path' cw
                else srv_error srv 403 ''Directory Listing Denied'' ''Directory listing denied'' cw)
         else serve_file srv path file cw)"

definition serve_request ::
  "'w server \<Rightarrow> string \<Rightarrow> string \<Rightarrow> file_stat \<Rightarrow> char \<Rightarrow> connection \<times> 'w \<Rightarrow> (connection \<times> 'w) cpp" where
  "serve_request srv nonce path file final cw =
     (let ctx = srv_config srv; m = null_text (req_method (c_info (fst cw)));
          disk = os_disk (srv_os srv) (snd cw)
      in if m = ''OPTIONS'' then Ret (send_options (fst cw), snd cw)
         else if ctx DOCUMENT_ROOT = None then srv_error srv 404 ''Not Found'' ''Not Found'' cw
         else if m = ''PUT'' \<or> m = ''DELETE'' then
           (case (if ctx PUT_DELETE_PASSWORDS_FILE = None then (False, fst cw)
                  else is_authorized_for_put (we_stack (srv_env srv)) disk ctx (fst cw)) of
              (authorized, conn1) \<Rightarrow>
                if \<not> authorized then Ret (send_authorization_request nonce ctx conn1, snd cw)
                else if m = ''PUT'' then put_file srv path (conn1, snd cw)
                else delete_file srv path (conn1, snd cw))
         else serve_path srv path file final cw)"

definition handle_request :: "'w server \<Rightarrow> string \<Rightarrow> connection \<times> 'w \<Rightarrow> (connection \<times> 'w) cpp" where
  "handle_request srv nonce cw =
     (case cw of (conn, w) \<Rightarrow>
        let ctx = srv_config srv; disk = os_disk (srv_os srv) w;
            (u, query) = split_query (null_text (req_uri (c_info conn)));
            uri = clean_uri u;
            (path, info, file) = convert_uri_to_file_name ctx disk uri;
            conn1 = conn\<lparr>c_info := (c_info conn)\<lparr>query_string := query, req_uri := Some uri\<rparr>, c_path_info := info\<rparr>
        in case check_authorization (we_stack (srv_env srv)) disk ctx path conn1 of
             (authorized, conn2) \<Rightarrow>
               if \<not> authorized then Ret (send_authorization_request nonce ctx conn2, w)
               else cbind (srv_callback srv MG_NEW_REQUEST (conn2, w)) (\<lambda>(served, conn3, w').
                      if served then Ret (conn3, w')
                      else serve_request srv nonce path file (old_last_char u) (conn3, w')))"

subsection \<open>Unprotected servers\<close>

text \<open>A server whose disk holds no passwords file that applies to a path.\<close>

definition unprotected :: "'w server \<Rightarrow> 'w \<Rightarrow> bool" where
  "unprotected srv w \<longleftrightarrow>
     srv_config srv PROTECT_URI = None \<and> (\<forall>path. open_auth_file (os_disk (srv_os srv) w) (srv_config srv) path = None)"

lemma check_authorization_unprotected:
  "unprotected srv w \<Longrightarrow>
   check_authorization stack (os_disk (srv_os srv) w) (srv_config srv) path conn = (True, conn)"
  by (simp add: unprotected_def check_authorization_def)

lemma unprotected_no_disk:
  "srv_config srv PROTECT_URI = None \<Longrightarrow> srv_os srv = idle_os \<Longrightarrow> unprotected srv w"
  by (simp add: unprotected_def idle_os_def no_disk_def open_auth_file_def mg_fopen_def)

end
