(* ===== verification/Mongoose_Server.thy ===== *)
theory Mongoose_Server
  imports Mongoose_Request
begin

section \<open>The web server's worker: one request after the other\<close>

text \<open>
  \<open>process_new_connection\<close> and the loop of \<open>worker_thread\<close> over its clients
  (\<open>src/src/common/network/details/mongoose.c\<close>). The user's callback and the operating system are
  parameters. The callback serves no file from memory. The access log is written; the messages of \<open>cry\<close> for
  the error log, and the event with which it asks the callback, are left out.
\<close>

subsection \<open>The access log\<close>

text \<open>The line of a request, with the date of its start, and its way to the end of the log file.\<close>

definition log_header :: "connection \<Rightarrow> string \<Rightarrow> string" where
  "log_header conn header =
     (case mg_get_header conn header of
        None \<Rightarrow> '' -''
      | Some header_value \<Rightarrow> CHR '' '' # DQUOTE # header_value @ [DQUOTE])"

definition or_dash :: "string option \<Rightarrow> string" where
  "or_dash s = (case s of None \<Rightarrow> ''-'' | Some x \<Rightarrow> x)"

definition access_line :: "string \<Rightarrow> connection \<Rightarrow> string" where
  "access_line date conn =
     (let ri = c_info conn
      in pe_addr (c_peer conn) @ '' - '' @ or_dash (remote_user ri) @ '' ['' @ date @ ''] ''
           @ DQUOTE # or_dash (req_method ri) @ '' '' @ or_dash (req_uri ri) @ '' HTTP/'' @ null_text (req_version ri)
           @ DQUOTE # '' '' @ decimal_int (c_status conn) @ '' '' @ decimal_int (c_num_sent conn)
           @ log_header conn ''Referer'' @ log_header conn ''User-Agent'' @ [LF])"

definition log_access :: "'w server \<Rightarrow> connection \<times> 'w \<Rightarrow> 'w" where
  "log_access srv cw =
     (case srv_config srv ACCESS_LOG_FILE of
        None \<Rightarrow> snd cw
      | Some name \<Rightarrow> os_append (srv_os srv) name (access_line (we_date (srv_env srv)) (fst cw)) (snd cw))"

text \<open>No access log, or one that the program's state does not depend on.\<close>

definition quiet_log :: "'w server \<Rightarrow> bool" where
  "quiet_log srv \<longleftrightarrow>
     (\<forall>name. srv_config srv ACCESS_LOG_FILE = Some name \<longrightarrow> (\<forall>line w. os_append (srv_os srv) name line w = w))"

lemma log_access_quiet: "quiet_log srv \<Longrightarrow> log_access srv cw = snd cw"
  by (simp add: quiet_log_def log_access_def split: option.split)

subsection \<open>One connection\<close>

definition strtoll :: "string \<Rightarrow> int" where
  "strtoll s =
     (case scan_int s of
        None \<Rightarrow> 0
      | Some (v, _) \<Rightarrow> max (- (2 ^ 63)) (min (2 ^ 63 - 1) v))"

definition request_content_len :: "request_info \<Rightarrow> string \<Rightarrow> int" where
  "request_content_len ri m =
     (case get_header ri ''Content-Length'' of
        Some cl \<Rightarrow> strtoll cl
      | None \<Rightarrow> if mg_strcasecmp m ''POST'' = 0 \<or> mg_strcasecmp m ''PUT'' = 0 then -1 else 0)"

text \<open>
  The text of a 400 reply: the buffer as a C string, in which the parser has put a terminator after
  the method.
\<close>

definition unparsed_text :: "string \<Rightarrow> nat \<Rightarrow> string" where
  "unparsed_text buf rl =
     (let s = cstr (take (rl - 1) buf)
      in takeWhile is_space s @ fst (skip (dropWhile is_space s) '' ''))"

definition discard_request :: "connection \<Rightarrow> connection" where
  "discard_request conn =
     (let discard_len =
            (if 0 \<le> c_content_len conn \<and> c_request_len conn + c_content_len conn < int (c_data_len conn)
             then nat (c_request_len conn + c_content_len conn) else c_data_len conn);
          rest = c_data_len conn - discard_len
      in conn\<lparr>c_buf := overwrite (c_buf conn) 0 (take rest (drop discard_len (c_buf conn))),
              c_data_len := rest\<rparr>)"

text \<open>The end of a round: whether the loop goes on, the server's stop flag apart.\<close>

definition finish_request :: "'w server \<Rightarrow> connection \<times> 'w \<Rightarrow> (bool \<times> connection \<times> 'w) cpp" where
  "finish_request srv cw =
     (let conn = discard_request (fst cw)
      in Ret (srv_config srv ENABLE_KEEP_ALIVE = Some ''yes'' \<and> 0 \<le> c_content_len conn
              \<and> should_keep_alive (srv_config srv) conn, conn, snd cw))"

text \<open>
  One round of the loop in \<open>process_new_connection\<close>. A 400 or 505 reply leaves \<open>content_len\<close> as the last request set it.
\<close>

definition process_request :: "'w server \<Rightarrow> string \<Rightarrow> connection \<times> 'w \<Rightarrow> (bool \<times> connection \<times> 'w) cpp" where
  "process_request srv nonce cw =
     (let conn0 = reset_per_request_attributes (fst cw);
          bufsiz = length (c_buf conn0);
          ctx = srv_config srv
      in case read_request (c_must_close conn0) (c_env conn0) (c_buf conn0) bufsiz (c_data_len conn0) of
        (rl, buf, dl, env) \<Rightarrow>
          let conn1 = conn0\<lparr>c_request_len := rl, c_buf := buf, c_data_len := dl, c_env := env\<rparr>
          in if rl = 0 \<and> dl = bufsiz then
               cbind (send_http_error (srv_callback srv) ctx 413 ''Request Too Large'' [] (conn1, snd cw))
                 (\<lambda>(conn2, w). Ret (False, conn2, w))
             else if rl \<le> 0 then Ret (False, conn1, snd cw)
             else case parse_http_request buf bufsiz (c_info conn1) of
               (res, ri) \<Rightarrow>
                 let conn2 = conn1\<lparr>c_info := ri\<rparr>;
                     m = (case req_method ri of Some x \<Rightarrow> x | None \<Rightarrow> []);
                     v = (case req_version ri of Some x \<Rightarrow> x | None \<Rightarrow> [])
                 in cbind
                   (if res \<le> 0 \<or> \<not> is_valid_uri (case req_uri ri of Some u \<Rightarrow> u | None \<Rightarrow> []) then
                      cbind (send_http_error (srv_callback srv) ctx 400 ''Bad Request''
                               (''Cannot parse HTTP request: ['' @ unparsed_text buf (nat rl) @ '']'') (conn2, snd cw))
                        (\<lambda>(conn3, w). Ret (conn3\<lparr>c_must_close := True\<rparr>, w))
                    else if v \<noteq> ''1.0'' \<and> v \<noteq> ''1.1'' then
                      cbind (send_http_error (srv_callback srv) ctx 505 ''HTTP version not supported'' [] (conn2, snd cw))
                        (\<lambda>cw1. Ret (fst cw1, log_access srv cw1))
                    else
                      cbind (handle_request srv nonce
                               (conn2\<lparr>c_content_len := request_content_len ri m\<rparr>, snd cw)) (\<lambda>cw1.
                      cbind (srv_callback srv MG_REQUEST_COMPLETE cw1) (\<lambda>(_, conn4, w).
                      Ret (conn4, log_access srv (conn4, w)))))
                   (finish_request srv))"

text \<open>
  \<open>process_new_connection\<close>: the list holds the stop flag at the end of each round; \<open>None\<close> is a loop
  that is not over when the list is.
\<close>

fun process_new_connection ::
  "'w server \<Rightarrow> string \<Rightarrow> bool list \<Rightarrow> connection \<times> 'w \<Rightarrow> (connection \<times> 'w) cpp option" where
  "process_new_connection srv nonce [] cw = None"
| "process_new_connection srv nonce (stop # stops) cw =
     (case process_request srv nonce cw of
        Ret (again, cw') \<Rightarrow>
          if again \<and> \<not> stop then process_new_connection srv nonce stops cw' else Some (Ret cw')
      | Throw e \<Rightarrow> Some (Throw e)
      | Undef \<Rightarrow> Some Undef)"

subsection \<open>The worker's clients\<close>

text \<open>
  A worker has one connection object for all of its clients: an accepted socket replaces the socket
  and the addresses, and nothing else of the object.
\<close>

record client =
  cl_sends :: "int list"
  cl_env :: "pull_env list"
  cl_stops :: "bool list"
  cl_peer :: peer

definition new_worker :: connection where
  "new_worker =
     \<lparr>c_info = blank_request_info, c_out = \<lparr>send_results = [], peer_received = []\<rparr>, c_env = [],
      c_buf = replicate MAX_REQUEST_SIZE NUL, c_data_len = 0, c_request_len = 0, c_content_len = 0,
      c_consumed = 0, c_must_close = False, c_status = 0, c_num_sent = 0,
      c_path_info = None, c_peer = no_peer\<rparr>"

definition accept_socket :: "client \<Rightarrow> connection \<Rightarrow> connection" where
  "accept_socket cl conn =
     conn\<lparr>c_out := \<lparr>send_results = cl_sends cl, peer_received = []\<rparr>, c_env := cl_env cl,
       c_peer := cl_peer cl\<rparr>"

definition env_size :: "pull_env list \<Rightarrow> nat" where
  "env_size env = sum_list (map (\<lambda>e. case incoming e of None \<Rightarrow> 1 | Some bs \<Rightarrow> Suc (length bs)) env)"

lemma pull_shrinks:
  "pull m env len = (n, bs, env') \<Longrightarrow> 0 < len \<Longrightarrow> 0 < n \<Longrightarrow> env_size env' < env_size env"
  by (auto simp: pull_def env_size_def split: list.splits option.splits if_splits)

lemma MG_BUF_LEN_pos: "0 < MG_BUF_LEN"
  by (simp add: MG_BUF_LEN_def)

text \<open>\<open>close_socket_gracefully\<close> reads and drops what the client still sends.\<close>

function drain :: "pull_env list \<Rightarrow> pull_env list" where
  "drain env =
     (case pull True env MG_BUF_LEN of (n, bs, env') \<Rightarrow> if 0 < n then drain env' else env')"
  by pat_completeness auto
termination
  by (relation "measure env_size") (auto intro: pull_shrinks [OF sym] simp: MG_BUF_LEN_pos)

declare drain.simps [simp del]

definition close_connection :: "connection \<Rightarrow> connection" where
  "close_connection conn = conn\<lparr>c_must_close := True, c_env := drain (c_env conn)\<rparr>"

text \<open>
  The loop of \<open>worker_thread\<close> over the sockets that it takes from the queue: the connection object
  and what each client received.
\<close>

fun serve_clients ::
  "'w server \<Rightarrow> string \<Rightarrow> client list \<Rightarrow> connection \<times> 'w \<Rightarrow> (connection \<times> 'w \<times> string list) cpp option" where
  "serve_clients srv nonce [] cw = Some (Ret (fst cw, snd cw, []))"
| "serve_clients srv nonce (cl # cls) cw =
     (case process_new_connection srv nonce (cl_stops cl) (accept_socket cl (fst cw), snd cw) of
        None \<Rightarrow> None
      | Some r \<Rightarrow>
          (case r of
             Throw e \<Rightarrow> Some (Throw e)
           | Undef \<Rightarrow> Some Undef
           | Ret (conn, w) \<Rightarrow>
               map_option (\<lambda>r. cbind r (\<lambda>(conn', w', rs). Ret (conn', w', peer_received (c_out conn) # rs)))
                 (serve_clients srv nonce cls (close_connection conn, w))))"

subsection \<open>Lemmas on what a worker keeps between its clients\<close>

lemma reset_simps [simp]:
  "c_out (reset_per_request_attributes conn) = c_out conn"
  "c_env (reset_per_request_attributes conn) = c_env conn"
  "c_buf (reset_per_request_attributes conn) = c_buf conn"
  "c_data_len (reset_per_request_attributes conn) = c_data_len conn"
  "c_content_len (reset_per_request_attributes conn) = c_content_len conn"
  "\<not> c_must_close (reset_per_request_attributes conn)"
  by (simp_all add: reset_per_request_attributes_def)

lemma accept_simps [simp]:
  "c_buf (accept_socket cl conn) = c_buf conn" "c_data_len (accept_socket cl conn) = c_data_len conn"
  "c_content_len (accept_socket cl conn) = c_content_len conn" "c_env (accept_socket cl conn) = cl_env cl"
  "c_out (accept_socket cl conn) = \<lparr>send_results = cl_sends cl, peer_received = []\<rparr>"
  "c_info (accept_socket cl conn) = c_info conn"
  by (simp_all add: accept_socket_def)

lemma close_simps [simp]:
  "c_buf (close_connection conn) = c_buf conn" "c_data_len (close_connection conn) = c_data_len conn"
  by (simp_all add: close_connection_def)

lemma read_request_ready:
  "get_request_len buf n \<noteq> 0 \<or> bufsiz \<le> n \<Longrightarrow>
   read_request m env buf bufsiz n = (get_request_len buf n, buf, n, env)"
  unfolding read_request_def
  using get_request_len_range [of buf n] by (subst read_loop.simps) auto

text \<open>The verdict on the data that a connection starts with.\<close>

definition leftover_len :: "connection \<Rightarrow> int" where
  "leftover_len conn = get_request_len (c_buf conn) (c_data_len conn)"

lemma process_malformed_leftover:
  assumes "leftover_len conn = -1"
  shows "process_request srv nonce (conn, w) =
    Ret (False, (reset_per_request_attributes conn)\<lparr>c_request_len := -1\<rparr>, w)"
  using assms read_request_ready [of "c_buf conn" "c_data_len conn"]
  by (simp add: process_request_def leftover_len_def Let_def)

lemma serve_malformed_leftover:
  "leftover_len conn = -1 \<Longrightarrow> \<forall>cl \<in> set cls. cl_stops cl \<noteq> [] \<Longrightarrow>
   \<exists>conn'. serve_clients srv nonce cls (conn, w) = Some (Ret (conn', w, map (\<lambda>_. []) cls))"
proof (induction cls arbitrary: conn)
  case (Cons cl cls)
  let ?conn1 = "(reset_per_request_attributes (accept_socket cl conn))\<lparr>c_request_len := -1\<rparr>"
  obtain st sts where st: "cl_stops cl = st # sts" using Cons.prems(2) by (cases "cl_stops cl") auto
  have "leftover_len (accept_socket cl conn) = -1" using Cons.prems(1) by (simp add: leftover_len_def)
  then have one: "process_new_connection srv nonce (cl_stops cl) (accept_socket cl conn, w) = Some (Ret (?conn1, w))"
    by (simp add: st process_malformed_leftover)
  have "leftover_len (close_connection ?conn1) = -1" using Cons.prems(1) by (simp add: leftover_len_def)
  with Cons obtain conn' where
    "serve_clients srv nonce cls (close_connection ?conn1, w) = Some (Ret (conn', w, map (\<lambda>_. []) cls))"
    by force
  with one show ?case by simp
qed simp

text \<open>A chunk of data that the worker can read at once.\<close>

definition readable :: "string \<Rightarrow> pull_env" where
  "readable bs = \<lparr>polls = [Poll 1 False False], incoming = Some bs, stop_after = False\<rparr>"

lemma pull_readable:
  "length bs \<le> len \<Longrightarrow> pull m (readable bs # env) len = (int (length bs), bs, env)"
  by (simp add: pull_def readable_def min_absorb2)

lemma get_request_len_data: "get_request_len buf n = get_request_len (take n buf) (length (take n buf))"
  by (cases "length buf \<le> n") (simp_all add: get_request_len_def)

lemma read_one_chunk:
  assumes "bs \<noteq> []" "length bs \<le> length buf" "get_request_len bs (length bs) \<noteq> 0"
  shows "read_request m (readable bs # env) buf (length buf) 0 =
    (get_request_len bs (length bs), overwrite buf 0 bs, length bs, env)"
proof -
  have first: "get_request_len buf 0 = 0" by (simp add: get_request_len_def)
  have len: "get_request_len (overwrite buf 0 bs) (length bs) = get_request_len bs (length bs)"
    by (simp add: get_request_len_def overwrite_def)
  have "0 < length buf" using assms(1,2) by (cases buf) auto
  then have "read_request m (readable bs # env) buf (length buf) 0 =
      read_loop m (length buf) (overwrite buf 0 bs) (length bs) (get_request_len bs (length bs)) (int (length bs)) env"
    unfolding read_request_def using assms pull_readable [of bs "length buf" m env] len
    by (subst read_loop.simps) (simp add: first)
  also have "\<dots> = (get_request_len bs (length bs), overwrite buf 0 bs, length bs, env)"
    using assms(3) by (subst read_loop.simps) simp
  finally show ?thesis .
qed

text \<open>C21. One malformed request takes a worker out of service: after a client whose first data hold a
  control character before the end of the head, the worker closes every later client's connection
  without reading from it, without calling the program and without sending a byte, because the
  received data are never dropped.
\<close>

theorem malformed_request_disables_worker:
  assumes "bs \<noteq> []" "length bs \<le> MAX_REQUEST_SIZE" "get_request_len bs (length bs) = -1"
    and "cl_env cl = readable bs # env" "\<forall>c \<in> set (cl # cls). cl_stops c \<noteq> []"
  shows "\<exists>conn'. serve_clients srv nonce (cl # cls) (new_worker, w) =
    Some (Ret (conn', w, map (\<lambda>_. []) (cl # cls)))"
proof -
  let ?conn = "accept_socket cl new_worker"
  have buf: "c_buf new_worker = replicate MAX_REQUEST_SIZE NUL" "c_data_len new_worker = 0"
    by (simp_all add: new_worker_def)
  obtain st sts where st: "cl_stops cl = st # sts" using assms(5) by (cases "cl_stops cl") auto
  define conn1 where "conn1 = (reset_per_request_attributes ?conn)\<lparr>c_request_len := -1,
      c_buf := overwrite (c_buf new_worker) 0 bs, c_data_len := length bs, c_env := env\<rparr>"
  have "read_request False (readable bs # env) (c_buf new_worker) (length (c_buf new_worker)) 0 =
      (-1, overwrite (c_buf new_worker) 0 bs, length bs, env)"
    using read_one_chunk [of bs "c_buf new_worker" False env] assms(1-3) buf by simp
  then have "process_request srv nonce (?conn, w) = Ret (False, conn1, w)"
    using assms(4) buf by (simp add: process_request_def Let_def conn1_def)
  then have one: "process_new_connection srv nonce (cl_stops cl) (?conn, w) = Some (Ret (conn1, w))"
    by (simp add: st)
  have "leftover_len (close_connection conn1) = -1"
    using assms(3) by (simp add: leftover_len_def conn1_def get_request_len_def overwrite_def)
  then obtain conn' where
    "serve_clients srv nonce cls (close_connection conn1, w) = Some (Ret (conn', w, map (\<lambda>_. []) cls))"
    using serve_malformed_leftover [of "close_connection conn1" cls srv nonce w] assms(5) by force
  then show ?thesis using one by (simp add: conn1_def)
qed

theorem malformed_request_disables_worker_witness:
  "\<exists>conn'. serve_clients \<lparr>srv_config = (\<lambda>_. None), srv_callback = (\<lambda>e (c, w). Ret (True, c, w)),
      srv_env = plain_env, srv_os = idle_os\<rparr> []
     [\<lparr>cl_sends = [100], cl_env = [readable (''GET'' @ [TAB] @ ''x'')], cl_stops = [False], cl_peer = no_peer\<rparr>,
      \<lparr>cl_sends = [100], cl_env = [readable ''GET''], cl_stops = [False], cl_peer = no_peer\<rparr>]
     (new_worker, 0::nat) = Some (Ret (conn', 0, map (\<lambda>_. [])
     [\<lparr>cl_sends = [100], cl_env = [readable (''GET'' @ [TAB] @ ''x'')], cl_stops = [False], cl_peer = no_peer\<rparr>,
      \<lparr>cl_sends = [100], cl_env = [readable ''GET''], cl_stops = [False], cl_peer = no_peer\<rparr>]))"
proof (rule malformed_request_disables_worker)
  show "get_request_len (''GET'' @ [TAB] @ ''x'') (length (''GET'' @ [TAB] @ ''x'')) = -1" by code_simp
qed (simp_all add: MAX_REQUEST_SIZE_def)

subsection \<open>Lemmas on requests that arrive in pieces\<close>

text \<open>Before its last byte a request is not recognised.\<close>

lemma incomplete_request:
  assumes "get_request_len req (length req) = int (length req)" "req = d @ r" "r \<noteq> []"
  shows "get_request_len d (length d) = 0"
proof (rule ccontr)
  assume a: "get_request_len d (length d) \<noteq> 0"
  then have "get_request_len req (length req) = get_request_len d (length d)"
    using assms(2) by (intro get_request_len_stable) auto
  moreover have "int (length d) < int (length req)" using assms(2,3) by simp
  ultimately show False
    using assms(1) get_request_len_range [of d "length d"] by auto
qed

lemma read_loop_pieces:
  assumes "get_request_len req (length req) = int (length req)" "req \<noteq> []"
  shows "take nread buf @ concat cs = req \<Longrightarrow> nread \<le> length buf \<Longrightarrow> length req \<le> length buf \<Longrightarrow>
    \<forall>c \<in> set cs. c \<noteq> [] \<Longrightarrow> rl = (if cs = [] then int (length req) else 0) \<Longrightarrow> 0 < n \<Longrightarrow>
    \<exists>buf'. read_loop m (length buf) buf nread rl n (map readable cs @ env) =
        (int (length req), buf', length req, env)
      \<and> length buf' = length buf \<and> take (length req) buf' = req"
proof (induction cs arbitrary: buf nread rl n)
  case Nil
  then have "length req = nread" by auto
  then show ?case using Nil assms(2) by (subst read_loop.simps) auto
next
  case (Cons c cs)
  let ?buf = "overwrite buf nread c"
  have fits: "nread + length c \<le> length buf"
    using Cons.prems(1-3) by (auto dest!: arg_cong [of _ _ length])
  have c: "c \<noteq> []" using Cons.prems(4) by simp
  have room: "nread < length buf" "length c \<le> length buf - nread" using fits c by (cases c; auto)+
  have taken: "take (nread + length c) ?buf = take nread buf @ c"
    using Cons.prems(2) by (rule take_overwrite)
  have split: "(take nread buf @ c) @ concat cs = req" using Cons.prems(1) by simp
  have concat: "concat cs = [] \<longleftrightarrow> cs = []" using Cons.prems(4) by (cases cs) auto
  have "get_request_len ?buf (nread + length c) = get_request_len (take nread buf @ c) (length (take nread buf @ c))"
    by (subst get_request_len_data) (simp add: taken)
  also have "\<dots> = (if cs = [] then int (length req) else 0)"
  proof (cases "cs = []")
    case True
    then have "take nread buf @ c = req" using split by simp
    with assms(1) True show ?thesis by simp
  next
    case False
    then show ?thesis
      using incomplete_request [OF assms(1), of "take nread buf @ c" "concat cs"] split concat by simp
  qed
  finally have rl: "get_request_len ?buf (nread + length c) = (if cs = [] then int (length req) else 0)" .
  have "read_loop m (length buf) buf nread rl n (map readable (c # cs) @ env) =
      read_loop m (length buf) ?buf (nread + length c) (get_request_len ?buf (nread + length c))
        (int (length c)) (map readable cs @ env)"
    using Cons.prems(5,6) c room pull_readable [of c "length buf - nread"]
    by (subst read_loop.simps) (simp add: Let_def)
  moreover have "length ?buf = length buf" using fits by simp
  ultimately show ?case
    using Cons.IH [of "nread + length c" ?buf "get_request_len ?buf (nread + length c)" "int (length c)"]
      taken split fits c rl Cons.prems(3,4) by auto
qed

lemma read_request_pieces:
  assumes "get_request_len req (length req) = int (length req)" "req \<noteq> []"
    and "concat cs = req" "\<forall>c \<in> set cs. c \<noteq> []" "length req \<le> length buf"
  obtains buf' where
    "read_request m (map readable cs @ env) buf (length buf) 0 = (int (length req), buf', length req, env)"
    "length buf' = length buf" "take (length req) buf' = req"
proof -
  have "cs \<noteq> []" using assms(2,3) by auto
  then have "\<exists>buf'. read_loop m (length buf) buf 0 0 1 (map readable cs @ env) =
        (int (length req), buf', length req, env) \<and> length buf' = length buf \<and> take (length req) buf' = req"
    using assms by (intro read_loop_pieces) auto
  then show ?thesis using that by (auto simp: read_request_def get_request_len_def)
qed

subsection \<open>Lemmas on well-formed requests\<close>

text \<open>
  A visit: one request without a body, the pieces in which it arrives, and the results of the
  sends on its socket.
\<close>

record visit =
  v_method :: string
  v_uri :: string
  v_version :: string
  v_headers :: "(string \<times> string) list"
  v_pieces :: "string list"
  v_sends :: "int list"

definition visit_text :: "visit \<Rightarrow> string" where
  "visit_text v = print_http (v_method v) (v_uri v) (v_version v) (v_headers v)"

definition visit_ok :: "visit \<Rightarrow> bool" where
  "visit_ok v \<longleftrightarrow>
     is_valid_http_method (v_method v) \<and> v_method v \<noteq> ''POST'' \<and> v_method v \<noteq> ''PUT''
     \<and> plain (v_uri v) \<and> CHR '' '' \<notin> set (v_uri v) \<and> is_valid_uri (v_uri v)
     \<and> (v_version v = ''1.0'' \<or> v_version v = ''1.1'')
     \<and> length (v_headers v) \<le> 64 \<and> (\<forall>h \<in> set (v_headers v). mg_header_ok h)
     \<and> find_header (v_headers v) ''Content-Length'' = None
     \<and> length (visit_text v) \<le> MAX_REQUEST_SIZE
     \<and> concat (v_pieces v) = visit_text v \<and> (\<forall>c \<in> set (v_pieces v). c \<noteq> [])"

definition visit_client :: "visit \<Rightarrow> client" where
  "visit_client v = \<lparr>cl_sends = v_sends v, cl_env = map readable (v_pieces v), cl_stops = [False], cl_peer = no_peer\<rparr>"

text \<open>What the program is shown of it.\<close>

definition seen_request :: "visit \<Rightarrow> request_info" where
  "seen_request v =
     \<lparr>req_method = Some (v_method v), req_uri = Some (clean_uri (fst (split_query (v_uri v)))),
      req_version = Some (v_version v), query_string = snd (split_query (v_uri v)),
      remote_user = None, http_headers = v_headers v, ev_data = None\<rparr>"

text \<open>
  A program that answers every request itself, and a server that leaves it to it; an access log does not
  change the program's state.
\<close>

definition answers_all :: "'w server \<Rightarrow> (request_info \<Rightarrow> 'w \<Rightarrow> mg_connection \<Rightarrow> mg_connection)
    \<Rightarrow> (request_info \<Rightarrow> 'w \<Rightarrow> 'w) \<Rightarrow> bool" where
  "answers_all srv reply after \<longleftrightarrow>
     srv_config srv ENABLE_KEEP_ALIVE = Some ''no'' \<and> (\<forall>w. unprotected srv w) \<and> quiet_log srv
     \<and> (\<forall>conn w. srv_callback srv MG_NEW_REQUEST (conn, w) =
           Ret (True, conn\<lparr>c_out := reply (c_info conn) w (c_out conn)\<rparr>, after (c_info conn) w))
     \<and> (\<forall>conn w. srv_callback srv MG_REQUEST_COMPLETE (conn, w) = Ret (False, conn, w))"

text \<open>The same for one request: the connection's output and the program's state before and after it.\<close>

definition answers :: "'w server \<Rightarrow> visit \<Rightarrow> mg_connection \<Rightarrow> 'w \<Rightarrow> mg_connection \<Rightarrow> 'w \<Rightarrow> bool" where
  "answers srv v out w out' w' \<longleftrightarrow>
     srv_config srv ENABLE_KEEP_ALIVE = Some ''no'' \<and> unprotected srv w
     \<and> (\<forall>conn. c_info conn = seen_request v \<and> c_out conn = out \<longrightarrow>
           srv_callback srv MG_NEW_REQUEST (conn, w) = Ret (True, conn\<lparr>c_out := out'\<rparr>, w'))
     \<and> (\<forall>conn. c_info conn = seen_request v \<and> c_out conn = out' \<longrightarrow>
           srv_callback srv MG_REQUEST_COMPLETE (conn, w') = Ret (False, conn, w'))"

lemma answers_all_answers:
  "answers_all srv reply after \<Longrightarrow>
   answers srv v out w (reply (seen_request v) w out) (after (seen_request v) w)"
  by (simp add: answers_all_def answers_def)

fun replies :: "(request_info \<Rightarrow> 'w \<Rightarrow> mg_connection \<Rightarrow> mg_connection) \<Rightarrow> (request_info \<Rightarrow> 'w \<Rightarrow> 'w)
    \<Rightarrow> visit list \<Rightarrow> 'w \<Rightarrow> string list" where
  "replies reply after [] w = []"
| "replies reply after (v # vs) w =
     peer_received (reply (seen_request v) w \<lparr>send_results = v_sends v, peer_received = []\<rparr>)
       # replies reply after vs (after (seen_request v) w)"

lemma visit_content_len:
  assumes "visit_ok v" "http_headers ri = v_headers v"
  shows "request_content_len ri (v_method v) = 0"
proof -
  have "v_method v \<in> {''GET'', ''HEAD'', ''CONNECT'', ''DELETE'', ''OPTIONS'', ''PROPFIND''}"
    using assms(1) by (auto simp: visit_ok_def is_valid_http_method_def)
  then have "mg_strcasecmp (v_method v) ''POST'' \<noteq> 0 \<and> mg_strcasecmp (v_method v) ''PUT'' \<noteq> 0"
    by (auto simp: lowercase_def Let_def)
  then show ?thesis using assms by (simp add: request_content_len_def get_header_def visit_ok_def)
qed

text \<open>Only what follows a request without a body stays in the buffer.\<close>

lemma discard_request_tail:
  assumes "c_content_len conn = 0" "c_request_len conn = int k" "k \<le> c_data_len conn"
    and "c_data_len conn \<le> length (c_buf conn)"
  shows "c_data_len (discard_request conn) = c_data_len conn - k"
    "length (c_buf (discard_request conn)) = length (c_buf conn)"
    "c_out (discard_request conn) = c_out conn"
    "take (c_data_len conn - k) (c_buf (discard_request conn)) = drop k (take (c_data_len conn) (c_buf conn))"
proof -
  have "(if 0 \<le> c_content_len conn \<and> c_request_len conn + c_content_len conn < int (c_data_len conn)
         then nat (c_request_len conn + c_content_len conn) else c_data_len conn) = k"
    using assms by auto
  then have d: "discard_request conn = conn\<lparr>c_buf := overwrite (c_buf conn) 0
      (take (c_data_len conn - k) (drop k (c_buf conn))), c_data_len := c_data_len conn - k\<rparr>"
    by (simp only: discard_request_def Let_def)
  show "c_data_len (discard_request conn) = c_data_len conn - k" "c_out (discard_request conn) = c_out conn"
    "length (c_buf (discard_request conn)) = length (c_buf conn)"
    using assms(3,4) by (simp_all add: d overwrite_def)
  show "take (c_data_len conn - k) (c_buf (discard_request conn)) = drop k (take (c_data_len conn) (c_buf conn))"
    using assms(3,4) by (simp add: d overwrite_def drop_take)
qed

lemma visit_text_facts:
  assumes "visit_ok v"
  shows "get_request_len (visit_text v @ r) (length (visit_text v) + n) = int (length (visit_text v))"
    and "visit_text v \<noteq> []"
    and "parse_http_request (visit_text v @ r) (length (visit_text v) + n) ri = (int (length (visit_text v)),
      ri\<lparr>remote_user := None, req_method := Some (v_method v), req_uri := Some (v_uri v),
         req_version := Some (v_version v), http_headers := v_headers v\<rparr>)"
proof -
  have "v_version v = ''1.0'' \<or> v_version v = ''1.1''" using assms by (simp add: visit_ok_def)
  then have v: "plain (v_version v)" by (auto simp: bad_char_def is_print_def)
  have ok: "is_valid_http_method (v_method v)" "plain (v_uri v)" "CHR '' '' \<notin> set (v_uri v)"
    "is_valid_uri (v_uri v)" "length (v_headers v) \<le> 64" "\<forall>h \<in> set (v_headers v). mg_header_ok h"
    using assms unfolding visit_ok_def by blast+
  have u: "v_uri v \<noteq> []" using ok(4) by (auto simp: is_valid_uri_def)
  show "get_request_len (visit_text v @ r) (length (visit_text v) + n) = int (length (visit_text v))"
    unfolding visit_text_def by (rule print_http_len [OF valid_method_word [OF ok(1)] ok(2) v ok(6)]) simp
  show "visit_text v \<noteq> []" by (simp add: visit_text_def print_http_def)
  show "parse_http_request (visit_text v @ r) (length (visit_text v) + n) ri = (int (length (visit_text v)),
      ri\<lparr>remote_user := None, req_method := Some (v_method v), req_uri := Some (v_uri v),
         req_version := Some (v_version v), http_headers := v_headers v\<rparr>)"
    unfolding visit_text_def by (rule mg_parse_printed [OF ok(1,2) u ok(3) v ok(5,6)]) simp
qed

text \<open>A request at the start of the buffer, with \<open>dl\<close> bytes of data in all.\<close>

lemma process_ready:
  assumes "visit_ok v" "answers srv v (c_out conn) w out w'"
    and "read_request False (c_env conn) (c_buf conn) (length (c_buf conn)) (c_data_len conn) =
      (int (length (visit_text v)), buf, dl, env)"
    and "length buf = length (c_buf conn)" "take (length (visit_text v)) buf = visit_text v"
    and "length (visit_text v) \<le> dl" "dl \<le> length buf"
  obtains conn' w'' where
    "process_request srv nonce (conn, w) = Ret (False, conn', w'')" "quiet_log srv \<Longrightarrow> w'' = w'" "c_out conn' = out"
    "c_data_len conn' = dl - length (visit_text v)" "length (c_buf conn') = length (c_buf conn)"
    "take (dl - length (visit_text v)) (c_buf conn') = drop (length (visit_text v)) (take dl buf)"
proof -
  let ?t = "visit_text v"
  have ne: "?t \<noteq> []" by (rule visit_text_facts(2)) (rule assms(1))
  define conn1 where "conn1 = (reset_per_request_attributes conn)
      \<lparr>c_request_len := int (length ?t), c_buf := buf, c_data_len := dl, c_env := env\<rparr>"
  define ri where "ri = (c_info conn1)\<lparr>remote_user := None, req_method := Some (v_method v),
      req_uri := Some (v_uri v), req_version := Some (v_version v), http_headers := v_headers v\<rparr>"
  define conn2 where "conn2 = conn1\<lparr>c_info := ri, c_content_len := 0\<rparr>"
  obtain path pinfo fs where conv: "convert_uri_to_file_name (srv_config srv) (os_disk (srv_os srv) w)
      (clean_uri (fst (split_query (v_uri v)))) = (path, pinfo, fs)"
    by (cases "convert_uri_to_file_name (srv_config srv) (os_disk (srv_os srv) w)
      (clean_uri (fst (split_query (v_uri v))))")
  define conn3 where "conn3 = conn2\<lparr>c_info := seen_request v, c_path_info := pinfo\<rparr>"
  define conn4 where "conn4 = conn3\<lparr>c_out := out\<rparr>"
  have "buf = ?t @ drop (length ?t) buf" using assms(5) by (metis append_take_drop_id)
  moreover have "length buf = length ?t + (length buf - length ?t)" using assms(6,7) by simp
  ultimately have parsed: "parse_http_request buf (length buf) (c_info conn1) = (int (length ?t), ri)"
    unfolding ri_def using visit_text_facts(3) [OF assms(1), of "drop (length ?t) buf" "length buf - length ?t" "c_info conn1"]
    by simp
  have info: "ri\<lparr>query_string := snd (split_query (v_uri v)), req_uri := Some (clean_uri (fst (split_query (v_uri v))))\<rparr> =
      seen_request v"
    by (rule request_info.equality)
       (simp_all add: ri_def seen_request_def conn1_def reset_per_request_attributes_def)
  have cb: "unprotected srv w" "srv_config srv ENABLE_KEEP_ALIVE = Some ''no''"
    "srv_callback srv MG_NEW_REQUEST (conn3, w) = Ret (True, conn4, w')"
    "srv_callback srv MG_REQUEST_COMPLETE (conn4, w') = Ret (False, conn4, w')"
    using assms(2) by (simp_all add: answers_def conn4_def conn3_def conn2_def conn1_def)
  have handled: "handle_request srv nonce (conn2, w) = Ret (conn4, w')"
  proof -
    obtain u q where uq: "split_query (v_uri v) = (u, q)" by (cases "split_query (v_uri v)")
    have "ri\<lparr>query_string := q, req_uri := Some (clean_uri u)\<rparr> = seen_request v" using info uq by simp
    moreover have "c_info conn2 = ri" "req_uri ri = Some (v_uri v)" by (simp_all add: conn2_def ri_def)
    ultimately show ?thesis
      using uq cb conv by (simp add: handle_request_def null_text_def check_authorization_unprotected Let_def
          conn3_def [symmetric])
  qed
  have "request_content_len ri (v_method v) = 0"
    using assms(1) by (rule visit_content_len) (simp add: ri_def)
  moreover have "0 < length ?t" using ne by simp
  moreover have "req_method ri = Some (v_method v)" "req_uri ri = Some (v_uri v)" "req_version ri = Some (v_version v)"
    by (simp_all add: ri_def)
  moreover have "v_version v = ''1.0'' \<or> v_version v = ''1.1''" "is_valid_uri (v_uri v)"
    using assms(1) by (simp_all add: visit_ok_def)
  ultimately have proc: "process_request srv nonce (conn, w) = finish_request srv (conn4, log_access srv (conn4, w'))"
    using parsed assms(3,4) handled cb
    unfolding process_request_def Let_def by (auto simp: conn2_def conn1_def)
  have fields: "c_content_len conn4 = 0" "c_request_len conn4 = int (length ?t)" "length ?t \<le> c_data_len conn4"
    "c_data_len conn4 \<le> length (c_buf conn4)" "c_buf conn4 = buf" "c_data_len conn4 = dl"
    "c_out conn4 = out"
    using assms(6,7) by (simp_all add: conn4_def conn3_def conn2_def conn1_def)
  show ?thesis
    using that [of "discard_request conn4" "log_access srv (conn4, w')"] log_access_quiet [of srv "(conn4, w')"] proc discard_request_tail [OF fields(1-4)] fields(5-7) assms(4) cb(2)
    by (simp add: finish_request_def Let_def)
qed

lemma process_visit:
  assumes "visit_ok v" "answers srv v (c_out conn) w out w'"
    and "c_data_len conn = 0" "length (c_buf conn) = MAX_REQUEST_SIZE" "c_env conn = map readable (v_pieces v)"
  obtains conn' w'' where
    "process_request srv nonce (conn, w) = Ret (False, conn', w'')" "quiet_log srv \<Longrightarrow> w'' = w'" "c_out conn' = out"
    "c_data_len conn' = 0" "length (c_buf conn') = MAX_REQUEST_SIZE"
proof -
  let ?t = "visit_text v"
  have ok: "length ?t \<le> MAX_REQUEST_SIZE" "concat (v_pieces v) = ?t" "\<forall>c \<in> set (v_pieces v). c \<noteq> []"
    using assms(1) unfolding visit_ok_def by blast+
  have len: "get_request_len ?t (length ?t) = int (length ?t)"
    using visit_text_facts(1) [OF assms(1), of "[]" 0] by simp
  obtain buf where "read_request False (map readable (v_pieces v) @ []) (c_buf conn) (length (c_buf conn)) 0 =
      (int (length ?t), buf, length ?t, [])" "length buf = length (c_buf conn)" "take (length ?t) buf = ?t"
    using read_request_pieces [OF len visit_text_facts(2) [OF assms(1)] ok(2,3)] ok(1) assms(4) by metis
  then show ?thesis
    using process_ready [OF assms(1,2), of buf "length ?t" "[]" nonce] that ok(1) assms(3-5) by auto
qed

lemma serve_visits:
  "answers_all srv reply after \<Longrightarrow> \<forall>v \<in> set vs. visit_ok v \<Longrightarrow>
   c_data_len conn = 0 \<Longrightarrow> length (c_buf conn) = MAX_REQUEST_SIZE \<Longrightarrow>
   \<exists>conn'. serve_clients srv nonce (map visit_client vs) (conn, w) =
     Some (Ret (conn', fold (\<lambda>v. after (seen_request v)) vs w, replies reply after vs w))"
proof (induction vs arbitrary: conn w)
  case (Cons v vs)
  have quiet: "quiet_log srv" using Cons.prems(1) by (simp add: answers_all_def)
  let ?w = "after (seen_request v) w"
  obtain conn1 where conn1: "process_request srv nonce (accept_socket (visit_client v) conn, w) = Ret (False, conn1, ?w)"
    "c_out conn1 = reply (seen_request v) w \<lparr>send_results = v_sends v, peer_received = []\<rparr>"
    "c_data_len conn1 = 0" "length (c_buf conn1) = MAX_REQUEST_SIZE"
    using process_visit [OF _ answers_all_answers [OF Cons.prems(1)],
        of v "accept_socket (visit_client v) conn" nonce w] Cons.prems quiet
    by (auto simp: visit_client_def)
  have one: "process_new_connection srv nonce (cl_stops (visit_client v)) (accept_socket (visit_client v) conn, w) =
      Some (Ret (conn1, ?w))"
  proof -
    have "cl_stops (visit_client v) = [False]" by (simp add: visit_client_def)
    then show ?thesis using conn1(1) by simp
  qed
  obtain conn' where "serve_clients srv nonce (map visit_client vs) (close_connection conn1, ?w) =
      Some (Ret (conn', fold (\<lambda>v. after (seen_request v)) vs ?w, replies reply after vs ?w))"
    using Cons.IH [of "close_connection conn1" ?w] Cons.prems conn1(3,4) by auto
  with one conn1(2) show ?case by simp
qed simp

text \<open>C3. A worker serves its clients as if each had a server of its own: when every client sends one
  well-formed request without a body, cut into pieces in any way, then each receives exactly the
  answer that the program gives to its request, and the program's state goes through the requests
  in order. Nothing of one client's data reaches the next.
\<close>

theorem worker_answers_each_client:
  assumes "answers_all srv reply after" and "\<forall>v \<in> set vs. visit_ok v"
  shows "\<exists>conn'. serve_clients srv nonce (map visit_client vs) (new_worker, w) =
    Some (Ret (conn', fold (\<lambda>v. after (seen_request v)) vs w, replies reply after vs w))"
  by (rule serve_visits [OF assms]) (simp_all add: new_worker_def)

definition echo_server :: "nat server" where
  "echo_server =
     \<lparr>srv_config = fill_defaults (\<lambda>_. None),
      srv_callback = (\<lambda>e (c, n).
        if e = MG_NEW_REQUEST
        then Ret (True, c\<lparr>c_out := (c_out c)\<lparr>peer_received := case req_uri (c_info c) of Some u \<Rightarrow> u | None \<Rightarrow> []\<rparr>\<rparr>, Suc n)
        else Ret (False, c, n)),
      srv_env = plain_env, srv_os = idle_os\<rparr>"

lemma echo_answers:
  "answers_all echo_server (\<lambda>ri n out. out\<lparr>peer_received := case req_uri ri of Some u \<Rightarrow> u | None \<Rightarrow> []\<rparr>)
     (\<lambda>ri n. Suc n)"
proof -
  have "fill_defaults (\<lambda>_. None) ENABLE_KEEP_ALIVE = Some ''no''" "fill_defaults (\<lambda>_. None) PROTECT_URI = None"
    by code_simp+
  then show ?thesis by (simp add: answers_all_def echo_server_def unprotected_no_disk quiet_log_def idle_os_def)
qed

definition echo_visit :: "string \<Rightarrow> string list \<Rightarrow> visit" where
  "echo_visit uri pieces =
     \<lparr>v_method = ''GET'', v_uri = uri, v_version = ''1.0'', v_headers = [], v_pieces = pieces, v_sends = [100]\<rparr>"

theorem worker_answers_each_client_witness:
  "\<exists>conn'. serve_clients echo_server [] (map visit_client
      [echo_visit ''/a'' [''GET /a HTTP/1.0'' @ crlf @ crlf],
       echo_visit ''/%62?x=1'' [''GET /%62?x=1 HT'', ''TP/1.0'' @ crlf, crlf]]) (new_worker, 0) =
    Some (Ret (conn', Suc (Suc 0), [''/a'', ''/b'']))"
proof -
  let ?vs = "[echo_visit ''/a'' [''GET /a HTTP/1.0'' @ crlf @ crlf],
       echo_visit ''/%62?x=1'' [''GET /%62?x=1 HT'', ''TP/1.0'' @ crlf, crlf]]"
  let ?reply = "\<lambda>ri (n :: nat) out. out\<lparr>peer_received := case req_uri ri of Some u \<Rightarrow> u | None \<Rightarrow> []\<rparr>"
  let ?after = "\<lambda>(ri :: request_info) (n :: nat). Suc n"
  have all: "answers_all echo_server ?reply ?after" by (rule echo_answers)
  have ok: "\<forall>v \<in> set ?vs. visit_ok v" by code_simp
  have "replies ?reply ?after ?vs 0 = [''/a'', ''/b'']" by code_simp
  then show ?thesis
    using worker_answers_each_client [OF all ok, of "[]" 0] by (simp del: serve_clients.simps replies.simps)
qed

text \<open>A client can have its request answered to somebody else: when it sends a second request behind
  the first in the same segment, the worker closes its connection after the first answer, keeps the
  second request in its buffer, and answers it to the next client, without reading what that client
  asks for.
\<close>

theorem pipelined_request_answers_next_client:
  assumes "answers_all srv reply after" "visit_ok v1" "visit_ok v2"
    and "length (visit_text v1 @ visit_text v2) \<le> MAX_REQUEST_SIZE"
    and "cl_env a = [readable (visit_text v1 @ visit_text v2)]" "cl_stops a \<noteq> []" "cl_stops b \<noteq> []"
  shows "\<exists>conn'. serve_clients srv nonce [a, b] (new_worker, w) =
    Some (Ret (conn', after (seen_request v2) (after (seen_request v1) w),
      [peer_received (reply (seen_request v1) w \<lparr>send_results = cl_sends a, peer_received = []\<rparr>),
       peer_received (reply (seen_request v2) (after (seen_request v1) w)
         \<lparr>send_results = cl_sends b, peer_received = []\<rparr>)]))"
proof -
  have quiet: "quiet_log srv" using assms(1) by (simp add: answers_all_def)
  let ?t1 = "visit_text v1" and ?t2 = "visit_text v2"
  let ?a = "accept_socket a new_worker"
  let ?buf = "overwrite (c_buf new_worker) 0 (?t1 @ ?t2)"
  obtain sa sas sb sbs where stops: "cl_stops a = sa # sas" "cl_stops b = sb # sbs"
    using assms(6,7) by (cases "cl_stops a"; cases "cl_stops b") auto
  have new: "length (c_buf new_worker) = MAX_REQUEST_SIZE" "c_data_len new_worker = 0"
    by (simp_all add: new_worker_def)
  have len: "length ?t1 + length ?t2 \<le> MAX_REQUEST_SIZE" using assms(4) by simp
  have ne: "?t1 \<noteq> []" "?t2 \<noteq> []" using visit_text_facts(2) assms(2,3) by blast+
  have l1: "get_request_len (?t1 @ ?t2) (length (?t1 @ ?t2)) = int (length ?t1)"
    using visit_text_facts(1) [OF assms(2), of ?t2 "length ?t2"] by simp
  have read: "read_request False (c_env ?a) (c_buf ?a) (length (c_buf ?a)) (c_data_len ?a) =
      (int (length ?t1), ?buf, length (?t1 @ ?t2), [])"
    using read_one_chunk [of "?t1 @ ?t2" "c_buf new_worker" False "[]"] ne l1 assms(4,5) new by simp
  have buf: "length ?buf = length (c_buf new_worker)" "take (length ?t1 + length ?t2) ?buf = ?t1 @ ?t2"
    using len new by (simp_all add: overwrite_def)
  have head: "take (length ?t1) ?buf = ?t1" by (simp add: overwrite_def)
  obtain conn1 where conn1:
    "process_request srv nonce (?a, w) = Ret (False, conn1, after (seen_request v1) w)"
    "c_out conn1 = reply (seen_request v1) w (c_out ?a)"
    "c_data_len conn1 = length ?t2" "length (c_buf conn1) = MAX_REQUEST_SIZE"
    "take (length ?t2) (c_buf conn1) = ?t2"
    using process_ready [OF assms(2) answers_all_answers [OF assms(1), where w = w] read, where nonce = nonce] quiet buf head len new by auto
  let ?b = "accept_socket b (close_connection conn1)"
  have rest: "c_buf conn1 = ?t2 @ drop (length ?t2) (c_buf conn1)"
    using conn1(5) by (metis append_take_drop_id)
  have l2: "get_request_len (c_buf conn1) (length ?t2) = int (length ?t2)"
    using visit_text_facts(1) [OF assms(3), of "drop (length ?t2) (c_buf conn1)" 0] rest by simp
  have read2: "read_request False (c_env ?b) (c_buf ?b) (length (c_buf ?b)) (c_data_len ?b) =
      (int (length ?t2), c_buf conn1, length ?t2, cl_env b)"
    using read_request_ready [of "c_buf conn1" "length ?t2"] l2 ne conn1(3) by simp
  obtain conn2 where conn2:
    "process_request srv nonce (?b, after (seen_request v1) w) =
      Ret (False, conn2, after (seen_request v2) (after (seen_request v1) w))"
    "c_out conn2 = reply (seen_request v2) (after (seen_request v1) w) (c_out ?b)"
    using process_ready [OF assms(3) answers_all_answers [OF assms(1), where w = "after (seen_request v1) w"] read2, where nonce = nonce] quiet conn1(4,5) len by auto
  show ?thesis using stops conn1(1,2) conn2 by simp
qed

theorem pipelined_request_answers_next_client_witness:
  "\<exists>conn'. serve_clients echo_server []
     [\<lparr>cl_sends = [100], cl_env = [readable (visit_text (echo_visit ''/a'' [''GET /a HTTP/1.0'' @ crlf @ crlf])
          @ visit_text (echo_visit ''/b'' [''GET /b HTTP/1.0'' @ crlf @ crlf]))], cl_stops = [False], cl_peer = no_peer\<rparr>,
      \<lparr>cl_sends = [100], cl_env = [readable (''GET /c HTTP/1.0'' @ crlf @ crlf)], cl_stops = [False], cl_peer = no_peer\<rparr>]
     (new_worker, 0) = Some (Ret (conn', Suc (Suc 0), [''/a'', ''/b'']))"
proof -
  let ?a = "echo_visit ''/a'' [''GET /a HTTP/1.0'' @ crlf @ crlf]"
  let ?b = "echo_visit ''/b'' [''GET /b HTTP/1.0'' @ crlf @ crlf]"
  let ?reply = "\<lambda>ri (n :: nat) out. out\<lparr>peer_received := case req_uri ri of Some u \<Rightarrow> u | None \<Rightarrow> []\<rparr>"
  let ?after = "\<lambda>(ri :: request_info) (n :: nat). Suc n"
  have all: "answers_all echo_server ?reply ?after" by (rule echo_answers)
  have ok: "visit_ok ?a" "visit_ok ?b" by code_simp+
  have fits: "length (visit_text ?a @ visit_text ?b) \<le> MAX_REQUEST_SIZE" by code_simp
  have uris: "req_uri (seen_request ?a) = Some ''/a''" "req_uri (seen_request ?b) = Some ''/b''" by code_simp+
  show ?thesis
    using pipelined_request_answers_next_client [OF all ok fits, of
        "\<lparr>cl_sends = [100], cl_env = [readable (visit_text ?a @ visit_text ?b)], cl_stops = [False], cl_peer = no_peer\<rparr>"
        "\<lparr>cl_sends = [100], cl_env = [readable (''GET /c HTTP/1.0'' @ crlf @ crlf)], cl_stops = [False], cl_peer = no_peer\<rparr>"
        "[]" 0] uris
    by (simp del: serve_clients.simps)
qed

subsection \<open>Lemmas on the paths that requests name\<close>

lemma mg_decode_plain_head:
  "c \<noteq> CHR ''%'' \<Longrightarrow> c \<noteq> CHR ''+'' \<Longrightarrow>
   mg_url_decode (c # s) (length (c # s)) (length (c # s) + 1) form = c # mg_decode_loop form s (length s) (length s)"
  by (simp add: mg_url_decode_def)

lemma decoded_uri_valid:
  assumes "is_valid_uri uri"
  shows "is_valid_uri (cstr (mg_url_decode (fst (split_query uri)) (length (fst (split_query uri)))
    (length (fst (split_query uri)) + 1) False))"
proof (cases "uri = ''*''")
  case True
  show ?thesis unfolding True by code_simp
next
  case False
  with assms obtain s where uri: "uri = CHR ''/'' # s" by (cases uri) (auto simp: is_valid_uri_def)
  obtain t where t: "fst (split_query uri) = CHR ''/'' # t"
    unfolding uri by (cases "find_first_of CHR ''?'' s") (auto simp: split_query_def)
  show ?thesis unfolding t
    by (subst mg_decode_plain_head) (simp_all add: is_valid_uri_def cstr_def)
qed

text \<open>C9. No request leaves the document root: whatever escapes, dots, slashes and backslashes the URI of
  an accepted request is made of, the path that the program is given, walked from any directory,
  never goes above that directory.
\<close>

theorem request_path_stays_below_root:
  assumes "is_valid_uri uri"
  shows "\<exists>below. walk base (segments (clean_uri (fst (split_query uri)))) = Some (below @ base)"
  unfolding clean_uri_def by (rule removed_stays_below) (rule decoded_uri_valid [OF assms])

theorem request_path_stays_below_root_witness:
  "clean_uri (fst (split_query ''/a/%2e%2e/..//%5c../etc?x'')) = ''/a/etc'' \<and>
   (\<exists>below. walk [''srv''] (segments (clean_uri (fst (split_query ''/a/%2e%2e/..//%5c../etc?x''))))
      = Some (below @ [''srv'']))"
proof
  show "clean_uri (fst (split_query ''/a/%2e%2e/..//%5c../etc?x'')) = ''/a/etc''" by code_simp
  have "is_valid_uri ''/a/%2e%2e/..//%5c../etc?x''" by code_simp
  then show "\<exists>below. walk [''srv''] (segments (clean_uri (fst (split_query ''/a/%2e%2e/..//%5c../etc?x''))))
      = Some (below @ [''srv''])"
    by (rule request_path_stays_below_root)
qed

end
