(* ===== verification/Mongoose_Transport.thy ===== *)
theory Mongoose_Transport
  imports Mongoose_Server
begin

section \<open>The HTTP server behind the web server\<close>

text \<open>
  The web server's worker calls the transport's callback
  (\<open>redirect_to_http_mongoose_transport_dispatcher\<close> of \<open>http_mongoose_transport.cpp\<close>), which
  dispatches to the HTTP server core: the path of a request from the bytes on the socket to the
  bytes of the reply.
\<close>

subsection \<open>The callback\<close>

text \<open>
  The user data is the transport (its connected flag). The URI is copied into a \<open>std::string\<close> for
  every event, which needs a request that was parsed. The core writes to the connection's socket;
  \<open>broken\<close> is the state that an exception leaves behind.
\<close>

definition transport_callback ::
  "request_world \<Rightarrow> bool option \<Rightarrow> range_header \<Rightarrow> (request_state \<Rightarrow> request_state) \<Rightarrow> request_state callback" where
  "transport_callback w user_data rheader0 broken event cs =
     (case cs of (conn, s) \<Rightarrow>
        if user_data \<noteq> Some True then Ret (False, conn, s)
        else case (req_method (c_info conn), req_uri (c_info conn), req_version (c_info conn)) of
          (Some m, Some u, Some v) \<Rightarrow>
            let s0 = s\<lparr>rq_conn := c_out conn\<rparr>
            in cbind (redirect_to_dispatcher (w_bx w) (core_handler w) (mg_get_header conn) user_data event
                        \<lparr>request_method = m, ri_uri = u, http_version = v\<rparr> rheader0 s0)
                 (\<lambda>(served, s').
                    let s1 = (case s' of Some t \<Rightarrow> t | None \<Rightarrow> broken s0)
                    in Ret (served, conn\<lparr>c_out := rq_conn s1\<rparr>, s1))
        | _ \<Rightarrow> Undef)"

definition transport_server ::
  "config \<Rightarrow> request_world \<Rightarrow> range_header \<Rightarrow> (request_state \<Rightarrow> request_state) \<Rightarrow> web_env
     \<Rightarrow> request_state web_os \<Rightarrow> request_state server" where
  "transport_server ctx w rheader0 broken we os =
     \<lparr>srv_config = ctx, srv_callback = transport_callback w (Some True) rheader0 broken,
      srv_env = we, srv_os = os\<rparr>"

subsection \<open>Errors\<close>

lemma error_reply_undefined:
  "send_http_error (transport_callback w (Some True) rheader0 broken) ctx status reason text1 cw = Undef"
  by (cases cw) (simp add: send_http_error_def transport_callback_def redirect_to_dispatcher_def
      dispatch_http_message_def Let_def split: option.splits)

text \<open>A request that is complete but cannot be parsed is answered with a 400 error.\<close>

lemma process_unparsed:
  assumes "read_request False (c_env conn) (c_buf conn) (length (c_buf conn)) (c_data_len conn) = (rl, buf, dl, env)"
    and "0 < rl" "length buf = length (c_buf conn)" "\<And>ri. fst (parse_http_request buf (length buf) ri) \<le> 0"
  obtains text1 conn2 where "process_request srv nonce (conn, w) =
    cbind (cbind (send_http_error (srv_callback srv) (srv_config srv) 400 ''Bad Request'' text1 (conn2, w))
       (\<lambda>(conn3, w). Ret (conn3\<lparr>c_must_close := True\<rparr>, w))) (finish_request srv)"
proof -
  define conn1 where "conn1 = (reset_per_request_attributes conn)
      \<lparr>c_request_len := rl, c_buf := buf, c_data_len := dl, c_env := env\<rparr>"
  obtain res ri where parse: "parse_http_request buf (length buf) (c_info conn1) = (res, ri)"
    by (cases "parse_http_request buf (length buf) (c_info conn1)")
  with assms(4) [of "c_info conn1"] have "res \<le> 0" by simp
  with parse assms(1-3) show ?thesis
    by (intro that [of "''Cannot parse HTTP request: ['' @ unparsed_text buf (nat rl) @ '']''" "conn1\<lparr>c_info := ri\<rparr>"])
       (simp add: process_request_def Let_def conn1_def)
qed

text \<open>C20. Any error reply takes the program down: while the transport is connected, a client whose request
  is complete but has an unknown method makes the server's behaviour undefined, because the
  callback prints the status number of the error as if it were a string.
\<close>

theorem unknown_method_undefined:
  assumes "word_ok m" "\<not> is_valid_http_method m" and "plain u" "u \<noteq> []" "CHR '' '' \<notin> set u" "plain v"
    and "length (print_http m u v []) \<le> MAX_REQUEST_SIZE"
    and "cl_env cl = [readable (print_http m u v [])]" "cl_stops cl \<noteq> []"
  shows "serve_clients (transport_server ctx w rheader0 broken we os) nonce (cl # cls) (new_worker, s) =
    Some Undef"
proof -
  let ?t = "print_http m u v []" and ?conn = "accept_socket cl new_worker"
  let ?srv = "transport_server ctx w rheader0 broken we os"
  let ?buf = "overwrite (c_buf new_worker) 0 ?t"
  obtain st sts where st: "cl_stops cl = st # sts" using assms(9) by (cases "cl_stops cl") auto
  have new: "length (c_buf new_worker) = MAX_REQUEST_SIZE" "c_data_len new_worker = 0"
    by (simp_all add: new_worker_def)
  have ne: "?t \<noteq> []" by (simp add: print_http_def)
  have len: "get_request_len ?t (length ?t) = int (length ?t)"
    using print_http_len [OF assms(1,3,6) _ le_refl, of "[]" "[]"] by simp
  have read: "read_request False (c_env ?conn) (c_buf ?conn) (length (c_buf ?conn)) (c_data_len ?conn) =
      (int (length ?t), ?buf, length ?t, [])"
    using read_one_chunk [of ?t "c_buf new_worker" False "[]"] ne len assms(7,8) new by simp
  have buf: "?buf = ?t @ drop (length ?t) (c_buf new_worker)" "length ?buf = MAX_REQUEST_SIZE"
    using assms(7) new by (simp_all add: overwrite_def)
  have "fst (parse_http_request ?buf (length ?buf) ri) = -1" for ri
    unfolding buf(2) using parse_printed_message [OF assms(1,3-6) _ _ assms(7), of "drop (length ?t) (c_buf new_worker)" ri]
      assms(2) by (simp add: parse_http_request_def buf(1))
  then have parse: "fst (parse_http_request ?buf (length ?buf) ri) \<le> 0" for ri by simp
  obtain text1 conn2 where "process_request ?srv nonce (?conn, s) =
    cbind (cbind (send_http_error (srv_callback ?srv) (srv_config ?srv) 400 ''Bad Request'' text1 (conn2, s))
       (\<lambda>(conn3, w). Ret (conn3\<lparr>c_must_close := True\<rparr>, w))) (finish_request ?srv)"
    using process_unparsed [OF read _ _ parse] ne buf(2) new by (metis accept_simps(1) length_greater_0_conv of_nat_0_less_iff)
  then have "process_request ?srv nonce (?conn, s) = Undef"
    by (simp add: transport_server_def error_reply_undefined)
  then show ?thesis using st by simp
qed

theorem unknown_method_undefined_witness:
  "serve_clients (transport_server (\<lambda>_. None) complete_world zero_range id plain_env idle_os) []
     [\<lparr>cl_sends = [100], cl_env = [readable (print_http ''BREW'' ''/'' ''1.1'' [])], cl_stops = [False], cl_peer = no_peer\<rparr>]
     (new_worker, complete_request) = Some Undef"
proof (rule unknown_method_undefined)
  show "length (print_http ''BREW'' ''/'' ''1.1'' []) \<le> MAX_REQUEST_SIZE" by code_simp
  show "word_ok ''BREW''" "\<not> is_valid_http_method ''BREW''" "plain ''/''" "plain ''1.1''" by code_simp+
qed simp_all

subsection \<open>Downloads\<close>

text \<open>The path of the file that a visit asks for, below the core's document root.\<close>

definition visit_path :: "visit \<Rightarrow> string" where
  "visit_path v = http_normalize_uri (clean_uri (fst (split_query (v_uri v))))"

lemma content_visit_answered:
  assumes "v_method v = ''GET''" "v_version v = ''1.0'' \<or> v_version v = ''1.1''"
    and "v_version v = ''1.1'' \<longrightarrow> find_header (v_headers v) ''Range'' = None"
    and "ctx ENABLE_KEEP_ALIVE = Some ''no''" "unprotected (transport_server ctx w rheader0 broken we os) s"
    and "core_on_content_request w (visit_path v) (s\<lparr>rq_conn := out\<rparr>) = Ret s'"
  shows "answers (transport_server ctx w rheader0 broken we os) v out s (rq_conn s') s'"
proof -
  have "mon_is_range_request (w_bx w) (mg_get_header conn)
      \<lparr>request_method = ''GET'', ri_uri = u, http_version = v_version v\<rparr> rheader0 = Ret (False, rheader0)"
    if "c_info conn = seen_request v" for conn u
    using assms(2,3) that
    by (auto simp: mon_is_range_request_def mg_get_header_def get_header_def seen_request_def)
  moreover have "\<not> mon_is_head_request \<lparr>request_method = ''GET'', ri_uri = u, http_version = v_version v\<rparr>"
    "mon_is_content_requst \<lparr>request_method = ''GET'', ri_uri = u, http_version = v_version v\<rparr>" for u
    using assms(2) by (auto simp: mon_is_head_request_def mon_is_content_requst_def)
  moreover have "s'\<lparr>rq_conn := rq_conn s'\<rparr> = s'" by simp
  ultimately show ?thesis
    using assms(1,4-6)
    by (auto simp: answers_def transport_server_def transport_callback_def redirect_to_dispatcher_def
        dispatch_http_message_def handle_new_request_def core_handler_def seen_request_def visit_path_def Let_def)
qed

lemma serve_one_visit:
  assumes "visit_ok v" "answers srv v \<lparr>send_results = v_sends v, peer_received = []\<rparr> s out' s'"
  shows "\<exists>conn' s''. serve_clients srv nonce [visit_client v] (new_worker, s) =
    Some (Ret (conn', s'', [peer_received out']))"
proof -
  have stops: "cl_stops (visit_client v) = [False]" by (simp add: visit_client_def)
  let ?conn = "accept_socket (visit_client v) new_worker"
  have "answers srv v (c_out ?conn) s out' s'" using assms(2) by (simp add: visit_client_def)
  then obtain conn1 s'' where "process_request srv nonce (?conn, s) = Ret (False, conn1, s'')" "c_out conn1 = out'"
    by (rule process_visit [OF assms(1)]) (auto simp: visit_client_def new_worker_def)
  with stops show ?thesis by simp
qed

text \<open>C2. A download from the first byte of the request to the last byte of the file: a client that asks
  for a file which is complete on disk, in a GET without a range and cut into pieces in any way,
  of a server on whose disk no passwords file applies, receives the head that announces the file's size, then exactly the file's contents, and nothing
  else.
\<close>

theorem file_downloaded:
  assumes "visit_ok v" "v_method v = ''GET''"
    and "v_version v = ''1.1'' \<longrightarrow> find_header (v_headers v) ''Range'' = None"
    and "ctx ENABLE_KEEP_ALIVE = Some ''no''"
    and "unprotected (transport_server ctx w rheader0 broken we os) s"
    and "core_fib (rq_core s) = Some b" and "fib_inv b"
    and "get_info b (doc_root (local_config (rq_core s)) @ visit_path v) = Some fi"
    and "info_heap b fi = Some info"
    and "file_size info = int (length content)" and "avaliable_bytes info = int (length content)"
    and "content \<noteq> []" and "quiet (file_path info) content (w_env w)"
    and "chunk = hsc_max_chunk_size (local_config (rq_core s))" and "0 < chunk" and "chunk \<le> int INT_MAX"
    and "head = fst (send_content_reply (w_bx w) (w_gmt w) (w_now w)
                  \<lparr>hd_fi = info, read_start = 0, read_end = file_size info\<rparr>)"
    and "int (length head) \<le> int INT_MAX"
    and "length content < length (v_sends v)"
    and "\<forall>r \<in> set (v_sends v). max (int (length head)) chunk \<le> r"
  shows "\<exists>conn' s'. serve_clients (transport_server ctx w rheader0 broken we os) nonce [visit_client v]
      (new_worker, s) = Some (Ret (conn', s', [head @ content]))"
proof -
  let ?out = "\<lparr>send_results = v_sends v, peer_received = []\<rparr>"
  have version: "v_version v = ''1.0'' \<or> v_version v = ''1.1''" using assms(1) by (simp add: visit_ok_def)
  obtain s' where s': "core_on_content_request w (visit_path v) (s\<lparr>rq_conn := ?out\<rparr>) = Ret s'"
    "peer_received (rq_conn s') = [] @ head @ content"
    using content_reply [of "s\<lparr>rq_conn := ?out\<rparr>" b "visit_path v" fi info content w chunk head] assms(6-20)
    by auto
  have "answers (transport_server ctx w rheader0 broken we os) v ?out s (rq_conn s') s'"
    using assms(2) version assms(3-5) s'(1) by (rule content_visit_answered)
  from serve_one_visit [OF assms(1) this, of nonce] obtain conn' s'' where
    "serve_clients (transport_server ctx w rheader0 broken we os) nonce [visit_client v] (new_worker, s) =
      Some (Ret (conn', s'', [peer_received (rq_conn s')]))" by blast
  then show ?thesis using s'(2) by (intro exI [of _ conn'] exI [of _ s'']) (simp del: serve_clients.simps)
qed

definition file_visit :: visit where
  "file_visit =
     \<lparr>v_method = ''GET'', v_uri = ''/f'', v_version = ''1.1'', v_headers = [(''Host'', ''x'')],
      v_pieces = [''GET /f HT'', ''TP/1.1'' @ crlf @ ''Host: x'' @ crlf, crlf],
      v_sends = [5000, 5000, 5000, 5000]\<rparr>"

definition file_state :: request_state where
  "file_state = complete_request\<lparr>rq_core := (rq_core complete_request)\<lparr>core_fib := Some
     (new_file_info_buffer\<lparr>infos := [(''/f'', 0)], next_info := 1, info_heap := [0 \<mapsto> complete_info]\<rparr>)\<rparr>\<rparr>"

theorem file_downloaded_witness:
  "\<exists>conn' s'. serve_clients (transport_server ((\<lambda>_. None)(ENABLE_KEEP_ALIVE := Some ''no'')) complete_world
      zero_range id plain_env idle_os) [] [visit_client file_visit] (new_worker, file_state) =
    Some (Ret (conn', s', [complete_head @ ''abc'']))"
proof -
  let ?b = "new_file_info_buffer\<lparr>infos := [(''/f'', 0)], next_info := 1, info_heap := [0 \<mapsto> complete_info]\<rparr>"
  have ok: "visit_ok file_visit" by code_simp
  have path: "visit_path file_visit = ''/f''" by code_simp
  have max: "(1000::int) \<le> int INT_MAX" "(5000::int) \<le> int INT_MAX" by (simp_all add: INT_MAX_def)
  have inv: "fib_inv ?b" by (simp add: fib_inv_def new_file_info_buffer_def)
  have hl: "int (length complete_head) \<le> int INT_MAX" using complete_head_length max by linarith
  show ?thesis
  proof (rule file_downloaded [OF ok _ _ _ _ _ inv, where fi = 0 and info = complete_info and chunk = 1000])
    show "v_version file_visit = ''1.1'' \<longrightarrow> find_header (v_headers file_visit) ''Range'' = None" by code_simp
    show "complete_head = fst (send_content_reply (w_bx complete_world) (w_gmt complete_world)
      (w_now complete_world) \<lparr>hd_fi = complete_info, read_start = 0, read_end = file_size complete_info\<rparr>)"
      by (rule complete_head)
    show "quiet (file_path complete_info) ''abc'' (w_env complete_world)" using sample_env_quiet by (simp add: complete_world_def)
    show "\<forall>r \<in> set (v_sends file_visit). max (int (length complete_head)) 1000 \<le> r"
      using complete_head_length by (simp add: file_visit_def)
    show "unprotected (transport_server ((\<lambda>_. None)(ENABLE_KEEP_ALIVE := Some ''no'')) complete_world
        zero_range id plain_env idle_os) file_state"
      by (rule unprotected_no_disk) (simp_all add: transport_server_def)
  qed (use max hl path in \<open>simp_all add: file_visit_def file_state_def complete_request_def complete_info_def
      get_info_def new_file_info_buffer_def\<close>)
qed

end
