(* ===== verification/Mongoose_Queue.thy ===== *)
theory Mongoose_Queue
  imports T2H_Prelude
begin

section \<open>The web server's threads and their queue of sockets\<close>

text \<open>
  The ring of accepted sockets between the master thread and the workers, the two threads' loops and
  the shutdown (\<open>consume_socket\<close>, \<open>produce_socket\<close>, \<open>worker_thread\<close>, \<open>master_thread\<close>,
  \<open>mg_stop\<close> in \<open>src/src/common/network/details/mongoose.c\<close>, and \<open>stop_connection\<close> of
  \<open>http_mongoose_transport.cpp\<close>, which calls it with the transport's lock held).
\<close>

subsection \<open>The bounded queue interface\<close>

datatype 'x queue_op = Enq 'x | Deq

locale bounded_fifo =
  fixes ok :: "'q \<Rightarrow> bool"
    and cont :: "'q \<Rightarrow> 'x list"
    and enq :: "'x \<Rightarrow> 'q \<Rightarrow> 'q"
    and deq :: "'q \<Rightarrow> 'x option \<times> 'q"
    and cap :: nat
  assumes cont_bound: "ok q \<Longrightarrow> length (cont q) \<le> cap"
    and enq_ok: "ok q \<Longrightarrow> ok (enq x q)"
    and deq_ok: "ok q \<Longrightarrow> ok (snd (deq q))"
    and cont_enq: "ok q \<Longrightarrow> cont (enq x q) = (if length (cont q) < cap then cont q @ [x] else cont q)"
    and deq_empty: "ok q \<Longrightarrow> cont q = [] \<Longrightarrow> deq q = (None, q)"
    and deq_first: "ok q \<Longrightarrow> cont q = y # ys \<Longrightarrow> fst (deq q) = Some y \<and> cont (snd (deq q)) = ys"
begin

fun run_ops :: "'x queue_op list \<Rightarrow> 'q \<Rightarrow> 'x list \<times> 'q" where
  "run_ops [] q = ([], q)"
| "run_ops (Enq x # ops) q = run_ops ops (enq x q)"
| "run_ops (Deq # ops) q =
     (case deq q of (r, q') \<Rightarrow>
        case run_ops ops q' of (out, q'') \<Rightarrow> ((case r of None \<Rightarrow> [] | Some x \<Rightarrow> [x]) @ out, q''))"

text \<open>The abstract queue is a list that refuses an element when it is full.\<close>

fun list_ops :: "'x queue_op list \<Rightarrow> 'x list \<Rightarrow> 'x list \<times> 'x list" where
  "list_ops [] xs = ([], xs)"
| "list_ops (Enq x # ops) xs = list_ops ops (if length xs < cap then xs @ [x] else xs)"
| "list_ops (Deq # ops) xs =
     (case xs of [] \<Rightarrow> list_ops ops []
      | y # ys \<Rightarrow> (case list_ops ops ys of (out, zs) \<Rightarrow> (y # out, zs)))"

lemma run_ops_refines:
  "ok q \<Longrightarrow> list_ops ops (cont q) = (fst (run_ops ops q), cont (snd (run_ops ops q)))"
proof (induction ops arbitrary: q)
  case (Cons op ops)
  show ?case
  proof (cases op)
    case (Enq x)
    have "list_ops ops (cont (enq x q)) = (fst (run_ops ops (enq x q)), cont (snd (run_ops ops (enq x q))))"
      by (rule Cons.IH) (rule enq_ok [OF Cons.prems])
    with Enq cont_enq [OF Cons.prems] show ?thesis by simp
  next
    case Deq
    have IH: "list_ops ops (cont (snd (deq q))) =
        (fst (run_ops ops (snd (deq q))), cont (snd (run_ops ops (snd (deq q)))))"
      by (rule Cons.IH) (rule deq_ok [OF Cons.prems])
    show ?thesis
    proof (cases "cont q")
      case Nil
      with Deq IH deq_empty [OF Cons.prems Nil] show ?thesis by (simp split: prod.split)
    next
      case (Cons y ys)
      with Deq IH deq_first [OF \<open>ok q\<close> Cons] show ?thesis by (cases "deq q") (simp split: prod.split)
    qed
  qed
qed simp

lemma run_ops_ok: "ok q \<Longrightarrow> ok (snd (run_ops ops q))"
proof (induction ops arbitrary: q)
  case (Cons op ops)
  show ?case
  proof (cases op)
    case (Enq x)
    with Cons show ?thesis by (simp add: enq_ok)
  next
    case Deq
    with Cons.IH [OF deq_ok [OF Cons.prems]] show ?thesis
      by (cases "deq q"; cases "run_ops ops (snd (deq q))") auto
  qed
qed simp

lemma deq_from_full: "ok q \<Longrightarrow> length (cont q) = cap \<Longrightarrow> cont (enq x q) = cont q"
  by (simp add: cont_enq)

end

subsection \<open>The ring of sockets\<close>

text \<open>\<open>queue\<close>, \<open>sq_head\<close> and \<open>sq_tail\<close> of \<open>struct mg_context\<close>.\<close>

record 's ring =
  slots :: "'s list"
  sq_head :: int
  sq_tail :: int

definition QUEUE_SIZE :: nat where "QUEUE_SIZE = 20"

definition ring_full :: "'s ring \<Rightarrow> bool" where
  "ring_full q \<longleftrightarrow> sq_head q - sq_tail q \<ge> int QUEUE_SIZE"

definition ring_empty :: "'s ring \<Rightarrow> bool" where
  "ring_empty q \<longleftrightarrow> sq_head q = sq_tail q"

definition put_socket :: "'s \<Rightarrow> 's ring \<Rightarrow> 's ring" where
  "put_socket x q =
     (if \<not> ring_full q
      then q\<lparr>slots := (slots q)[nat (sq_head q mod int QUEUE_SIZE) := x], sq_head := sq_head q + 1\<rparr>
      else q)"

text \<open>The loop that wraps the two pointers.\<close>

function wrap_pointers :: "'s ring \<Rightarrow> 's ring" where
  "wrap_pointers q =
     (if sq_tail q > int QUEUE_SIZE
      then wrap_pointers (q\<lparr>sq_tail := sq_tail q - int QUEUE_SIZE, sq_head := sq_head q - int QUEUE_SIZE\<rparr>)
      else q)"
  by pat_completeness auto
termination
  by (relation "measure (\<lambda>q. nat (sq_tail q))") (auto simp: QUEUE_SIZE_def)

declare wrap_pointers.simps [simp del]

definition take_socket :: "'s ring \<Rightarrow> 's option \<times> 's ring" where
  "take_socket q =
     (if sq_head q > sq_tail q
      then (Some (slots q ! nat (sq_tail q mod int QUEUE_SIZE)),
            wrap_pointers (q\<lparr>sq_tail := sq_tail q + 1\<rparr>))
      else (None, q))"

text \<open>What the ring holds, oldest first, and when it is well-formed.\<close>

definition ring_list :: "'s ring \<Rightarrow> 's list" where
  "ring_list q = map (\<lambda>i. slots q ! nat ((sq_tail q + int i) mod int QUEUE_SIZE)) [0..<nat (sq_head q - sq_tail q)]"

definition ring_ok :: "'s ring \<Rightarrow> bool" where
  "ring_ok q \<longleftrightarrow>
     length (slots q) = QUEUE_SIZE \<and> 0 \<le> sq_tail q \<and> sq_tail q \<le> int QUEUE_SIZE
     \<and> sq_tail q \<le> sq_head q \<and> sq_head q - sq_tail q \<le> int QUEUE_SIZE"

lemma wrap_small: "sq_tail q \<le> int QUEUE_SIZE \<Longrightarrow> wrap_pointers q = q"
  by (subst wrap_pointers.simps) simp

lemma wrap_once:
  "sq_tail q \<le> int QUEUE_SIZE + 1 \<Longrightarrow> wrap_pointers q =
     (if sq_tail q > int QUEUE_SIZE
      then q\<lparr>sq_tail := sq_tail q - int QUEUE_SIZE, sq_head := sq_head q - int QUEUE_SIZE\<rparr> else q)"
  by (subst wrap_pointers.simps) (simp add: wrap_small QUEUE_SIZE_def)

text \<open>Wrapping moves both pointers by the size of the ring, which no slot index notices.\<close>

lemma wrap_ring:
  assumes "length (slots q) = QUEUE_SIZE" "0 \<le> sq_tail q" "sq_tail q \<le> int QUEUE_SIZE + 1"
    "sq_tail q \<le> sq_head q" "sq_head q - sq_tail q \<le> int QUEUE_SIZE"
  shows "ring_ok (wrap_pointers q) \<and> ring_list (wrap_pointers q) = ring_list q"
proof -
  have "(t - int QUEUE_SIZE + i) mod int QUEUE_SIZE = (t + i) mod int QUEUE_SIZE" for t i :: int
  proof -
    have "t - int QUEUE_SIZE + i = (t + i) - int QUEUE_SIZE" by simp
    then show ?thesis by (simp only: minus_mod_self2)
  qed
  then show ?thesis using assms
    by (auto simp: wrap_once ring_ok_def ring_list_def QUEUE_SIZE_def)
qed

lemma slots_distinct:
  assumes "i < n" "n < QUEUE_SIZE"
  shows "(t + int i) mod int QUEUE_SIZE \<noteq> (t + int n) mod int QUEUE_SIZE"
proof
  assume "(t + int i) mod int QUEUE_SIZE = (t + int n) mod int QUEUE_SIZE"
  then have "int QUEUE_SIZE dvd (t + int n) - (t + int i)" by (metis mod_eq_dvd_iff)
  then have "int QUEUE_SIZE dvd int n - int i" by simp
  with assms show False using zdvd_imp_le [of "int QUEUE_SIZE" "int n - int i"] by simp
qed

lemma put_ring:
  assumes "ring_ok q"
  shows "ring_ok (put_socket x q) \<and> ring_list (put_socket x q) =
    (if length (ring_list q) < QUEUE_SIZE then ring_list q @ [x] else ring_list q)"
proof (cases "ring_full q")
  case True
  with assms show ?thesis by (auto simp: put_socket_def ring_full_def ring_list_def ring_ok_def)
next
  case False
  define n where "n = nat (sq_head q - sq_tail q)"
  have n: "n < QUEUE_SIZE" "sq_head q = sq_tail q + int n"
    using False assms by (auto simp: ring_full_def ring_ok_def n_def)
  have h: "nat (sq_head q mod int QUEUE_SIZE) < length (slots q)"
    using assms by (simp add: ring_ok_def QUEUE_SIZE_def nat_less_iff)
  have old: "(slots q)[nat (sq_head q mod int QUEUE_SIZE) := x] ! nat ((sq_tail q + int i) mod int QUEUE_SIZE) =
      slots q ! nat ((sq_tail q + int i) mod int QUEUE_SIZE)" if "i < n" for i
  proof -
    have "nat (sq_head q mod int QUEUE_SIZE) \<noteq> nat ((sq_tail q + int i) mod int QUEUE_SIZE)"
      using slots_distinct [OF that n(1), of "sq_tail q"] n(2)
      by (simp add: QUEUE_SIZE_def eq_nat_nat_iff)
    then show ?thesis by (rule nth_list_update_neq)
  qed
  have "nat (sq_head q + 1 - sq_tail q) = Suc n" using n(2) by simp
  then have "ring_list (put_socket x q) = ring_list q @ [x]"
    using False old h n(2) by (simp add: put_socket_def ring_list_def n_def [symmetric])
  moreover have "length (ring_list q) = n" by (simp add: ring_list_def n_def)
  moreover have "ring_ok (put_socket x q)"
    using False assms by (auto simp: put_socket_def ring_ok_def ring_full_def)
  ultimately show ?thesis using n(1) by simp
qed

lemma take_empty: "ring_ok q \<Longrightarrow> ring_list q = [] \<Longrightarrow> take_socket q = (None, q)"
  by (auto simp: ring_list_def take_socket_def ring_ok_def)

lemma take_ring:
  assumes "ring_ok q"
  shows "ring_ok (snd (take_socket q))"
    and "ring_list q = y # ys \<Longrightarrow> fst (take_socket q) = Some y \<and> ring_list (snd (take_socket q)) = ys"
proof -
  let ?q = "q\<lparr>sq_tail := sq_tail q + 1\<rparr>"
  have w: "ring_ok (wrap_pointers ?q) \<and> ring_list (wrap_pointers ?q) = ring_list ?q" if "sq_head q > sq_tail q"
    using that assms by (intro wrap_ring) (auto simp: ring_ok_def)
  show "ring_ok (snd (take_socket q))" using w assms by (simp add: take_socket_def)
  assume l: "ring_list q = y # ys"
  then have "0 < length (ring_list q)" by simp
  then have ne: "sq_head q > sq_tail q" by (simp add: ring_list_def)
  then have "0 < nat (sq_head q - sq_tail q)" by simp
  then obtain n where n: "nat (sq_head q - sq_tail q) = Suc n" using gr0_implies_Suc by blast
  then have n': "nat (sq_head q - (sq_tail q + 1)) = n" by simp
  have up: "[0..<Suc n] = 0 # map Suc [0..<n]" by (metis map_Suc_upt upt_conv_Cons zero_less_Suc)
  have shift: "sq_tail q + int (Suc i) = sq_tail q + 1 + int i" for i by simp
  have "ring_list q = (slots q ! nat (sq_tail q mod int QUEUE_SIZE)) # ring_list ?q"
    unfolding ring_list_def n up by (simp only: list.map map_map comp_def shift) (simp add: n')
  with l w [OF ne] ne show "fst (take_socket q) = Some y \<and> ring_list (snd (take_socket q)) = ys"
    by (simp add: take_socket_def)
qed

interpretation sockets: bounded_fifo ring_ok ring_list put_socket take_socket QUEUE_SIZE
proof unfold_locales
  fix q :: "'a ring" and x y ys
  show "ring_ok q \<Longrightarrow> length (ring_list q) \<le> QUEUE_SIZE" by (auto simp: ring_ok_def ring_list_def)
  show "ring_ok q \<Longrightarrow> ring_ok (put_socket x q)" by (simp add: put_ring)
  show "ring_ok q \<Longrightarrow> ring_ok (snd (take_socket q))" by (rule take_ring(1))
  show "ring_ok q \<Longrightarrow> ring_list (put_socket x q) =
      (if length (ring_list q) < QUEUE_SIZE then ring_list q @ [x] else ring_list q)" by (simp add: put_ring)
  show "ring_ok q \<Longrightarrow> ring_list q = [] \<Longrightarrow> take_socket q = (None, q)" by (rule take_empty)
  show "ring_ok q \<Longrightarrow> ring_list q = y # ys \<Longrightarrow>
      fst (take_socket q) = Some y \<and> ring_list (snd (take_socket q)) = ys" by (rule take_ring(2))
qed

definition new_ring :: "'s \<Rightarrow> 's ring" where
  "new_ring z = \<lparr>slots = replicate QUEUE_SIZE z, sq_head = 0, sq_tail = 0\<rparr>"

lemma new_ring_ok [simp]: "ring_ok (new_ring z)" "ring_list (new_ring z) = []"
  by (simp_all add: new_ring_def ring_ok_def ring_list_def)

text \<open>C33. The ring is a queue: any sequence of insertions and removals on the ring gives the sockets that
  the same sequence gives on a list of at most 20 elements, in the same order, and leaves the ring
  well-formed, however often its pointers wrap around.
\<close>

theorem ring_is_bounded_queue:
  "sockets.list_ops ops [] =
     (fst (sockets.run_ops ops (new_ring z)), ring_list (snd (sockets.run_ops ops (new_ring z))))
   \<and> ring_ok (snd (sockets.run_ops ops (new_ring z)))"
  using sockets.run_ops_refines [of "new_ring z" ops] sockets.run_ops_ok [of "new_ring z" ops] by simp

end
