(* ===== verification/Mongoose_Threads.thy ===== *)
theory Mongoose_Threads
  imports Mongoose_Queue
begin

section \<open>The web server's threads\<close>

text \<open>
  The master thread, the workers and the caller that stops the server, as a step relation
  (\<open>src/src/common/network/details/mongoose.c\<close>, and \<open>stop_connection\<close> and \<open>is_connected\<close> of
  \<open>http_mongoose_transport.cpp\<close>). A step ends where a thread gives up the context's mutex or
  waits. A wait is in two steps: the test of its condition, which holds the mutex, and falling
  asleep, which gives it up; the stop flag and a broadcast do not need the mutex. The reads of the
  stop flag in one call of \<open>consume_socket\<close> see the same value, and there are no spurious wake-ups.
\<close>

subsection \<open>States\<close>

text \<open>
  A worker is about to take a socket, has found none and still holds the mutex, is asleep, handles a
  socket with some callbacks to come, is leaving its loop, or is gone.
\<close>

datatype 's worker =
  W_check | W_tested | W_asleep | W_busy 's nat | W_exit | W_gone

text \<open>
  The master selects, is about to queue a socket, has found the ring full and still holds the mutex,
  is asleep, has closed the listeners, waits for the workers, or has finished.
\<close>

datatype 's master =
  M_select | M_check 's | M_tested 's | M_asleep 's | M_closed | M_join | M_done

text \<open>
  \<open>conn_lock\<close> is the transport's lock while \<open>stop_connection\<close> holds it. \<open>queued\<close> and \<open>taken\<close> record
  the sockets put into and taken from the ring.
\<close>

record 's threads =
  sq :: "'s ring"
  stop_flag :: nat
  num_threads :: nat
  workers :: "'s worker list"
  master :: "'s master"
  conn_lock :: bool
  queued :: "'s list"
  taken :: "'s list"

definition mutex_free :: "'s threads \<Rightarrow> bool" where
  "mutex_free s \<longleftrightarrow> W_tested \<notin> set (workers s) \<and> (\<forall>x. master s \<noteq> M_tested x)"

definition started :: "nat \<Rightarrow> 's \<Rightarrow> 's threads" where
  "started n z =
     \<lparr>sq = new_ring z, stop_flag = 0, num_threads = n, workers = replicate n W_check, master = M_select,
      conn_lock = False, queued = [], taken = []\<rparr>"

text \<open>\<open>pthread_cond_signal(&sq_full)\<close> wakes one sleeping worker, if there is one.\<close>

definition signalled :: "'s worker list \<Rightarrow> 's worker list \<Rightarrow> bool" where
  "signalled ws ws' \<longleftrightarrow>
     (if W_asleep \<in> set ws then \<exists>i < length ws. ws ! i = W_asleep \<and> ws' = ws[i := W_check] else ws' = ws)"

definition wake_worker :: "'s worker \<Rightarrow> 's worker" where
  "wake_worker w = (if w = W_asleep then W_check else w)"

definition wake_master :: "'s master \<Rightarrow> 's master" where
  "wake_master m = (case m of M_asleep x \<Rightarrow> M_check x | _ \<Rightarrow> m)"

subsection \<open>Steps\<close>

text \<open>\<open>consume_socket\<close> when it does not wait, and the worker's loop condition.\<close>

definition worker_takes :: "nat \<Rightarrow> nat \<Rightarrow> 's threads \<Rightarrow> 's threads" where
  "worker_takes i calls s =
     (case take_socket (sq s) of
        (r, q) \<Rightarrow>
          s\<lparr>sq := q, master := wake_master (master s),
            taken := taken s @ (case r of None \<Rightarrow> [] | Some x \<Rightarrow> [x]),
            workers := (workers s)[i := (case r of
                Some x \<Rightarrow> if stop_flag s = 0 then W_busy x calls else W_exit
              | None \<Rightarrow> W_exit)]\<rparr>)"

text \<open>\<open>produce_socket\<close> when it does not wait.\<close>

definition master_puts :: "'s \<Rightarrow> 's worker list \<Rightarrow> 's threads \<Rightarrow> 's threads" where
  "master_puts x ws s =
     s\<lparr>sq := put_socket x (sq s), queued := (if ring_full (sq s) then queued s else queued s @ [x]),
       master := M_select, workers := ws\<rparr>"

inductive thread_step :: "'s threads \<Rightarrow> 's threads \<Rightarrow> bool" where
  accept: "master s = M_select \<Longrightarrow> stop_flag s = 0 \<Longrightarrow> thread_step s (s\<lparr>master := M_check x\<rparr>)"
| master_waits: "master s = M_check x \<Longrightarrow> mutex_free s \<Longrightarrow> stop_flag s = 0 \<Longrightarrow> ring_full (sq s) \<Longrightarrow>
    thread_step s (s\<lparr>master := M_tested x\<rparr>)"
| master_sleeps: "master s = M_tested x \<Longrightarrow> thread_step s (s\<lparr>master := M_asleep x\<rparr>)"
| produce: "master s = M_check x \<Longrightarrow> mutex_free s \<Longrightarrow> stop_flag s \<noteq> 0 \<or> \<not> ring_full (sq s) \<Longrightarrow>
    signalled (workers s) ws \<Longrightarrow> thread_step s (master_puts x ws s)"
| close_listeners: "master s = M_select \<Longrightarrow> stop_flag s \<noteq> 0 \<Longrightarrow> thread_step s (s\<lparr>master := M_closed\<rparr>)"
| broadcast: "master s = M_closed \<Longrightarrow>
    thread_step s (s\<lparr>master := M_join, workers := map wake_worker (workers s)\<rparr>)"
| finish: "master s = M_join \<Longrightarrow> mutex_free s \<Longrightarrow> num_threads s = 0 \<Longrightarrow>
    thread_step s (s\<lparr>master := M_done, stop_flag := 2\<rparr>)"
| worker_waits: "i < length (workers s) \<Longrightarrow> workers s ! i = W_check \<Longrightarrow> mutex_free s \<Longrightarrow>
    ring_empty (sq s) \<Longrightarrow> stop_flag s = 0 \<Longrightarrow> thread_step s (s\<lparr>workers := (workers s)[i := W_tested]\<rparr>)"
| worker_sleeps: "i < length (workers s) \<Longrightarrow> workers s ! i = W_tested \<Longrightarrow>
    thread_step s (s\<lparr>workers := (workers s)[i := W_asleep]\<rparr>)"
| consume: "i < length (workers s) \<Longrightarrow> workers s ! i = W_check \<Longrightarrow> mutex_free s \<Longrightarrow>
    \<not> ring_empty (sq s) \<or> stop_flag s \<noteq> 0 \<Longrightarrow> thread_step s (worker_takes i calls s)"
| callback: "i < length (workers s) \<Longrightarrow> workers s ! i = W_busy x (Suc calls) \<Longrightarrow> \<not> conn_lock s \<Longrightarrow>
    thread_step s (s\<lparr>workers := (workers s)[i := W_busy x calls]\<rparr>)"
| close_socket: "i < length (workers s) \<Longrightarrow> workers s ! i = W_busy x 0 \<Longrightarrow>
    thread_step s (s\<lparr>workers := (workers s)[i := W_check]\<rparr>)"
| leave: "i < length (workers s) \<Longrightarrow> workers s ! i = W_exit \<Longrightarrow> mutex_free s \<Longrightarrow>
    thread_step s (s\<lparr>workers := (workers s)[i := W_gone], num_threads := num_threads s - 1\<rparr>)"
| stop_connection: "stop_flag s = 0 \<Longrightarrow> thread_step s (s\<lparr>stop_flag := 1, conn_lock := True\<rparr>)"
| stop_returns: "stop_flag s = 2 \<Longrightarrow> conn_lock s \<Longrightarrow> thread_step s (s\<lparr>conn_lock := False\<rparr>)"

inductive thread_steps :: "'s threads \<Rightarrow> 's threads \<Rightarrow> bool" where
  steps_refl: "thread_steps s s"
| steps_step: "thread_steps s t \<Longrightarrow> thread_step t u \<Longrightarrow> thread_steps s u"

subsection \<open>Invariants\<close>

definition alive :: "'s worker list \<Rightarrow> nat" where
  "alive ws = length (List.filter (\<lambda>w. w \<noteq> W_gone) ws)"

definition threads_ok :: "'s threads \<Rightarrow> bool" where
  "threads_ok s \<longleftrightarrow>
     ring_ok (sq s) \<and> queued s = taken s @ ring_list (sq s) \<and> num_threads s = alive (workers s)
     \<and> (stop_flag s = 2 \<longleftrightarrow> master s = M_done) \<and> (master s = M_done \<longrightarrow> num_threads s = 0)
     \<and> (stop_flag s = 0 \<longrightarrow> \<not> conn_lock s \<and> master s \<noteq> M_closed \<and> master s \<noteq> M_join)"

lemma alive_update:
  "i < length ws \<Longrightarrow> ws ! i \<noteq> W_gone \<Longrightarrow> w \<noteq> W_gone \<Longrightarrow> alive (ws[i := w]) = alive ws"
proof (induction ws arbitrary: i)
  case (Cons a ws)
  then show ?case by (cases i) (auto simp: alive_def)
qed simp

lemma alive_gone: "i < length ws \<Longrightarrow> ws ! i \<noteq> W_gone \<Longrightarrow> alive (ws[i := W_gone]) = alive ws - 1"
proof (induction ws arbitrary: i)
  case (Cons a ws)
  show ?case
  proof (cases i)
    case 0
    with Cons.prems show ?thesis by (simp add: alive_def)
  next
    case (Suc j)
    with Cons.prems have "ws ! j \<in> set ws" "ws ! j \<noteq> W_gone" by auto
    then have "0 < alive ws" by (auto simp: alive_def filter_empty_conv)
    with Suc Cons show ?thesis by (auto simp: alive_def)
  qed
qed simp

lemma alive_wake: "alive (map wake_worker ws) = alive ws"
  by (induction ws) (auto simp: alive_def wake_worker_def)

lemma alive_signalled: "signalled ws ws' \<Longrightarrow> alive ws' = alive ws"
  by (auto simp: signalled_def alive_update split: if_splits)

lemma wake_master_simps [simp]:
  "wake_master m = M_done \<longleftrightarrow> m = M_done" "wake_master m = M_closed \<longleftrightarrow> m = M_closed"
  "wake_master m = M_join \<longleftrightarrow> m = M_join"
  by (auto simp: wake_master_def split: master.split)

lemma started_ok: "threads_ok (started n z)"
  by (simp add: threads_ok_def started_def alive_def)

lemma worker_takes_ok:
  assumes "threads_ok s" "i < length (workers s)" "workers s ! i = W_check"
  shows "threads_ok (worker_takes i calls s)"
proof -
  obtain r q where rq: "take_socket (sq s) = (r, q)" by (cases "take_socket (sq s)")
  have ring: "ring_ok (sq s)" "queued s = taken s @ ring_list (sq s)"
    using assms(1) by (simp_all add: threads_ok_def)
  have q: "ring_ok q" using take_ring(1) [OF ring(1)] rq by simp
  have "queued s = (taken s @ (case r of None \<Rightarrow> [] | Some x \<Rightarrow> [x])) @ ring_list q"
  proof (cases "ring_list (sq s)")
    case Nil
    with take_empty [OF ring(1)] rq ring(2) show ?thesis by simp
  next
    case (Cons y ys)
    with take_ring(2) [OF ring(1)] rq ring(2) show ?thesis by simp
  qed
  moreover have "alive ((workers s)[i := w]) = alive (workers s)" if "w \<noteq> W_gone" for w
    using assms(2,3) that by (intro alive_update) auto
  ultimately show ?thesis using assms(1) q rq
    by (auto simp: threads_ok_def worker_takes_def split: option.split)
qed

lemma master_puts_ok:
  assumes "threads_ok s" "master s = M_check x" "signalled (workers s) ws"
  shows "threads_ok (master_puts x ws s)"
proof -
  have ring: "ring_ok (sq s)" using assms(1) by (simp add: threads_ok_def)
  have "length (ring_list (sq s)) < QUEUE_SIZE \<longleftrightarrow> \<not> ring_full (sq s)"
    using ring by (auto simp: ring_list_def ring_full_def ring_ok_def)
  with put_ring [OF ring, of x] alive_signalled [OF assms(3)] assms(1,2) show ?thesis
    by (auto simp: threads_ok_def master_puts_def)
qed

lemma thread_step_ok: "thread_step s t \<Longrightarrow> threads_ok s \<Longrightarrow> threads_ok t"
proof (induction rule: thread_step.induct)
  case (produce s x ws)
  then show ?case by (intro master_puts_ok)
next
  case (consume i s calls)
  then show ?case by (intro worker_takes_ok)
next
  case (leave i s)
  then show ?case by (auto simp: threads_ok_def alive_gone)
next
  case (broadcast s)
  then show ?case by (auto simp: threads_ok_def alive_wake)
qed (auto simp: threads_ok_def alive_update)

lemma thread_steps_ok: "thread_steps s t \<Longrightarrow> threads_ok s \<Longrightarrow> threads_ok t"
  by (induction rule: thread_steps.induct) (auto intro: thread_step_ok)

text \<open>C23. No socket is lost, duplicated or overtaken between the threads: in every reachable state, with any
  number of workers and in the middle of a shutdown, the sockets that the master put into the ring
  are those that the workers have taken, followed by those in the ring, at most 20.
\<close>

theorem sockets_in_order:
  assumes "thread_steps (started n z) s"
  shows "queued s = taken s @ ring_list (sq s) \<and> length (ring_list (sq s)) \<le> QUEUE_SIZE"
  using thread_steps_ok [OF assms started_ok] sockets.cont_bound by (auto simp: threads_ok_def)

text \<open>C36. The context is freed only when nobody uses it: in every reachable state in which \<open>mg_stop\<close> sees
  the flag that lets it free the context, the master has finished and all workers are gone.
\<close>

theorem context_freed_safely:
  assumes "thread_steps (started n z) s" and "stop_flag s = 2"
  shows "master s = M_done \<and> set (workers s) \<subseteq> {W_gone}"
proof -
  have "threads_ok s" by (rule thread_steps_ok [OF assms(1) started_ok])
  with assms(2) have "master s = M_done" "alive (workers s) = 0" by (auto simp: threads_ok_def)
  then show ?thesis by (auto simp: alive_def filter_empty_conv)
qed

subsection \<open>Shutdown\<close>

text \<open>A worker that still has a callback to make while the transport's lock is held.\<close>

definition caught :: "nat \<Rightarrow> 's \<Rightarrow> nat \<Rightarrow> 's threads \<Rightarrow> bool" where
  "caught i x calls s \<longleftrightarrow>
     threads_ok s \<and> conn_lock s \<and> stop_flag s = 1
     \<and> i < length (workers s) \<and> workers s ! i = W_busy x (Suc calls)"

lemma caught_alive: "caught i x calls s \<Longrightarrow> 0 < num_threads s"
proof -
  assume c: "caught i x calls s"
  then have "W_busy x (Suc calls) \<in> set (workers s)" by (auto simp: caught_def in_set_conv_nth)
  with c show ?thesis by (auto simp: caught_def threads_ok_def alive_def filter_empty_conv)
qed

lemma caught_step: "thread_step s t \<Longrightarrow> caught i x calls s \<Longrightarrow> caught i x calls t"
proof -
  assume step: "thread_step s t" and c: "caught i x calls s"
  have ok: "threads_ok t" using step c by (auto simp: caught_def intro: thread_step_ok)
  have busy: "i < length (workers s)" "workers s ! i = W_busy x (Suc calls)" "conn_lock s" "stop_flag s = 1"
    using c by (auto simp: caught_def)
  have "conn_lock t \<and> stop_flag t = 1 \<and> i < length (workers t) \<and> workers t ! i = W_busy x (Suc calls)"
    using step busy caught_alive [OF c]
    by (cases rule: thread_step.cases)
       (auto simp: nth_list_update worker_takes_def master_puts_def signalled_def wake_worker_def
         split: if_splits prod.splits)
  with ok show ?thesis by (simp add: caught_def)
qed

lemma caught_steps: "thread_steps s t \<Longrightarrow> caught i x calls s \<Longrightarrow> caught i x calls t"
  by (induction rule: thread_steps.induct) (auto intro: caught_step)

text \<open>C22. Stopping the server during a request hangs the program: when \<open>stop_connection\<close> is called while a
  worker handles a socket with a callback still to come, it waits for that worker for ever, since it
  holds the lock that the callback's \<open>is_connected\<close> needs; however the threads interleave, the
  worker stays where it is and \<open>stop_connection\<close> never returns.
\<close>

theorem stop_during_request_hangs:
  assumes "thread_steps (started n z) s" "stop_flag s = 0"
    and "i < length (workers s)" "workers s ! i = W_busy x (Suc calls)"
    and "thread_steps (s\<lparr>stop_flag := 1, conn_lock := True\<rparr>) t"
  shows "stop_flag t = 1 \<and> conn_lock t \<and> workers t ! i = W_busy x (Suc calls)"
proof -
  have "threads_ok s" by (rule thread_steps_ok [OF assms(1) started_ok])
  then have "threads_ok (s\<lparr>stop_flag := 1, conn_lock := True\<rparr>)"
    using thread_step_ok [OF stop_connection [OF assms(2)]] by simp
  then have "caught i x calls (s\<lparr>stop_flag := 1, conn_lock := True\<rparr>)"
    using assms(3,4) by (simp add: caught_def)
  from caught_steps [OF assms(5) this] show ?thesis by (simp add: caught_def)
qed

definition one_queued :: "nat threads" where
  "one_queued = master_puts 7 [W_check] ((started 1 0)\<lparr>master := M_check 7\<rparr>)"

lemma one_queued_reached: "thread_steps (started 1 0) one_queued"
proof -
  let ?s = "(started 1 0)\<lparr>master := M_check 7\<rparr> :: nat threads"
  have "thread_step (started 1 0) ?s" by (rule accept) (simp_all add: started_def)
  moreover have "thread_step ?s one_queued"
    unfolding one_queued_def
    by (rule produce) (simp_all add: started_def mutex_free_def ring_full_def new_ring_def QUEUE_SIZE_def signalled_def)
  ultimately show ?thesis by (blast intro: steps_refl steps_step)
qed

definition one_busy :: "nat threads" where
  "one_busy = worker_takes 0 2 one_queued"

lemma one_busy_reached: "thread_steps (started 1 0) one_busy"
proof (rule steps_step [OF one_queued_reached])
  show "thread_step one_queued one_busy" unfolding one_busy_def
    by (rule consume) (simp_all add: one_queued_def master_puts_def started_def mutex_free_def ring_empty_def
        put_socket_def ring_full_def new_ring_def QUEUE_SIZE_def)
qed

lemma one_busy_fields: "workers one_busy = [W_busy 7 2]" "stop_flag one_busy = 0"
  by (simp_all add: one_busy_def worker_takes_def one_queued_def master_puts_def started_def take_socket_def
      put_socket_def ring_full_def new_ring_def QUEUE_SIZE_def)

theorem sockets_in_order_witness:
  "queued one_queued = [7] \<and> taken one_queued = [] \<and>
   queued one_queued = taken one_queued @ ring_list (sq one_queued) \<and> length (ring_list (sq one_queued)) \<le> QUEUE_SIZE"
  using sockets_in_order [OF one_queued_reached]
  by (simp add: one_queued_def master_puts_def started_def ring_full_def new_ring_def QUEUE_SIZE_def)

theorem stop_during_request_hangs_witness:
  "stop_flag (one_busy\<lparr>stop_flag := 1, conn_lock := True\<rparr>) = 1 \<and>
   conn_lock (one_busy\<lparr>stop_flag := 1, conn_lock := True\<rparr>) \<and>
   workers (one_busy\<lparr>stop_flag := 1, conn_lock := True\<rparr>) ! 0 = W_busy 7 (Suc 1)"
  by (rule stop_during_request_hangs [OF one_busy_reached _ _ _ steps_refl])
     (simp_all add: one_busy_fields)

text \<open>Every run from a state comes to the end of the shutdown.\<close>

inductive shuts_down :: "'s threads \<Rightarrow> bool" where
  down: "stop_flag s = 2 \<Longrightarrow> shuts_down s"
| down_later: "thread_step s t \<Longrightarrow> (\<And>u. thread_step s u \<Longrightarrow> shuts_down u) \<Longrightarrow> shuts_down s"

text \<open>The work that workers and master still have in a shutdown.\<close>

fun worker_work :: "'s worker \<Rightarrow> nat" where
  "worker_work (W_busy x calls) = 3"
| "worker_work W_check = 2"
| "worker_work W_exit = 1"
| "worker_work W_gone = 0"
| "worker_work W_tested = 4"
| "worker_work W_asleep = 3"

fun master_work :: "'s master \<Rightarrow> nat" where
  "master_work (M_tested x) = 6"
| "master_work (M_asleep x) = 5"
| "master_work (M_check x) = 4"
| "master_work M_select = 3"
| "master_work M_closed = 2"
| "master_work M_join = 1"
| "master_work M_done = 0"

definition work :: "'s threads \<Rightarrow> nat" where
  "work s = master_work (master s) + sum_list (map worker_work (workers s))"

text \<open>
  A shutdown without a request in progress: the master is past the broadcast, no worker sleeps or is
  about to, and no worker has a callback to make.
\<close>

definition calm :: "'s threads \<Rightarrow> bool" where
  "calm s \<longleftrightarrow>
     threads_ok s \<and> stop_flag s = 1 \<and> master s = M_join
     \<and> (\<forall>w \<in> set (workers s). w = W_check \<or> w = W_exit \<or> w = W_gone \<or> (\<exists>x. w = W_busy x 0))"

lemma work_update:
  "i < length ws \<Longrightarrow> sum_list (map worker_work (ws[i := w])) + worker_work (ws ! i) =
   sum_list (map worker_work ws) + worker_work w"
proof (induction ws arbitrary: i)
  case (Cons a ws)
  then show ?case by (cases i) auto
qed simp

lemma calm_mutex: "calm s \<Longrightarrow> mutex_free s"
  by (auto simp: calm_def mutex_free_def)

lemma calm_progress:
  assumes "calm s"
  shows "\<exists>t. thread_step s t"
proof (cases "set (workers s) \<subseteq> {W_gone}")
  case True
  then have "alive (workers s) = 0" by (auto simp: alive_def filter_empty_conv)
  then have "num_threads s = 0" "master s = M_join" using assms by (auto simp: calm_def threads_ok_def)
  then show ?thesis using finish calm_mutex [OF assms] by blast
next
  case False
  then obtain w where "w \<in> set (workers s)" "w \<noteq> W_gone" by blast
  then obtain i where i: "i < length (workers s)" "workers s ! i \<noteq> W_gone" by (metis in_set_conv_nth)
  then have "workers s ! i \<in> set (workers s)" by simp
  with assms i(2) consider "workers s ! i = W_check" | "workers s ! i = W_exit" | x where "workers s ! i = W_busy x 0"
    unfolding calm_def by blast
  then show ?thesis
  proof cases
    case 1
    have "stop_flag s \<noteq> 0" using assms by (simp add: calm_def)
    then show ?thesis using consume [OF i(1) 1 calm_mutex [OF assms]] by blast
  next
    case 2
    then show ?thesis using leave [OF i(1) 2 calm_mutex [OF assms]] by blast
  next
    case 3
    then show ?thesis using close_socket [OF i(1) 3] by blast
  qed
qed

lemma calm_step:
  assumes "thread_step s t" "calm s"
  shows "stop_flag t = 2 \<or> (conn_lock t \<longleftrightarrow> conn_lock s) \<and> calm t \<and> work t < work s"
proof -
  have ok: "threads_ok t" using assms by (auto simp: calm_def intro: thread_step_ok)
  have c: "stop_flag s = 1" "master s = M_join"
    "\<And>i. i < length (workers s) \<Longrightarrow> workers s ! i \<notin> {W_tested, W_asleep}"
    "\<And>i x calls. i < length (workers s) \<Longrightarrow> workers s ! i = W_busy x calls \<Longrightarrow> calls = 0"
    using assms(2) by (auto simp: calm_def dest!: bspec [OF _ nth_mem])
  have set: "set ((workers s)[i := w]) \<subseteq> insert w (set (workers s))" for i w
    by (rule set_update_subset_insert)
  show ?thesis using assms(1)
  proof (cases rule: thread_step.cases)
    case (consume i calls)
    obtain r q where "take_socket (sq s) = (r, q)" by (cases "take_socket (sq s)")
    then have t: "workers t = (workers s)[i := W_exit]" "master t = master s" "stop_flag t = stop_flag s"
      "conn_lock t = conn_lock s"
      using consume(1) c(1,2) by (auto simp: worker_takes_def wake_master_def split: option.split)
    have "work t < work s"
      using work_update [OF consume(2), of W_exit] consume(3) t by (simp add: work_def)
    with t ok assms(2) set [of i W_exit] show ?thesis by (auto simp: calm_def)
  next
    case (leave i)
    have "work t < work s"
      using work_update [OF leave(2), of W_gone] leave(1,3) by (simp add: work_def)
    with leave(1) ok assms(2) set [of i W_gone] show ?thesis by (auto simp: calm_def)
  next
    case (close_socket i x)
    have "work t < work s"
      using work_update [OF close_socket(2), of W_check] close_socket(1,3) by (simp add: work_def)
    with close_socket(1) ok assms(2) set [of i W_check] show ?thesis by (auto simp: calm_def)
  next
    case (callback i x calls)
    then show ?thesis using c(4) by blast
  qed (use c in auto)
qed

lemma calm_shuts_down: "calm s \<Longrightarrow> shuts_down s"
proof (induction s rule: measure_induct_rule [where f = work])
  case (less s)
  obtain t where "thread_step s t" using calm_progress [OF less.prems] by blast
  then show ?case
  proof (rule down_later)
    fix u assume "thread_step s u"
    with calm_step [OF this less.prems] less.IH show "shuts_down u" by (auto intro: down)
  qed
qed

text \<open>C35. A shutdown without requests in progress ends: once the master has woken the sleeping workers, and
  if none of them was just falling asleep or has a callback to make, every run of the threads
  reaches the flag on which \<open>mg_stop\<close> returns, after finitely many steps and without getting stuck.
\<close>

theorem idle_shutdown_completes:
  assumes "thread_steps (started n z) s" "stop_flag s = 1" "master s = M_join"
    and "\<forall>w \<in> set (workers s). w = W_check \<or> w = W_exit \<or> w = W_gone \<or> (\<exists>x. w = W_busy x 0)"
  shows "shuts_down s"
  using assms thread_steps_ok [OF assms(1) started_ok] by (intro calm_shuts_down) (auto simp: calm_def)

text \<open>One idle worker, asleep when the server is stopped, after the broadcast.\<close>

definition idle_stopped :: "nat threads" where
  "idle_stopped = (started 1 0)\<lparr>workers := [W_check], stop_flag := 1, conn_lock := True, master := M_join\<rparr>"

lemma idle_stopped_reached: "thread_steps (started 1 0) idle_stopped"
proof -
  let ?s0 = "started 1 0 :: nat threads"
  let ?s1 = "?s0\<lparr>workers := [W_tested]\<rparr>" and ?s2 = "?s0\<lparr>workers := [W_asleep]\<rparr>"
  let ?s3 = "?s2\<lparr>stop_flag := 1, conn_lock := True\<rparr>"
  let ?s4 = "?s3\<lparr>master := M_closed\<rparr>"
  have "thread_step ?s0 (?s0\<lparr>workers := (workers ?s0)[0 := W_tested]\<rparr>)"
    by (rule worker_waits) (simp_all add: started_def mutex_free_def ring_empty_def new_ring_def)
  moreover have "?s0\<lparr>workers := (workers ?s0)[0 := W_tested]\<rparr> = ?s1" by (simp add: started_def)
  moreover have "thread_step ?s1 (?s1\<lparr>workers := (workers ?s1)[0 := W_asleep]\<rparr>)"
    by (rule worker_sleeps) simp_all
  moreover have "?s1\<lparr>workers := (workers ?s1)[0 := W_asleep]\<rparr> = ?s2" by simp
  moreover have "thread_step ?s2 ?s3" by (rule stop_connection) (simp add: started_def)
  moreover have "thread_step ?s3 ?s4" by (rule close_listeners) (simp_all add: started_def)
  moreover have "thread_step ?s4 (?s4\<lparr>master := M_join, workers := map wake_worker (workers ?s4)\<rparr>)"
    by (rule broadcast) simp
  moreover have "?s4\<lparr>master := M_join, workers := map wake_worker (workers ?s4)\<rparr> = idle_stopped"
    by (simp add: idle_stopped_def started_def wake_worker_def)
  ultimately show ?thesis by (metis steps_refl steps_step)
qed

theorem idle_shutdown_completes_witness: "shuts_down idle_stopped"
  by (rule idle_shutdown_completes [OF idle_stopped_reached])
     (simp_all add: idle_stopped_def)

text \<open>The state after that shutdown.\<close>

definition idle_done :: "nat threads" where
  "idle_done = idle_stopped\<lparr>taken := [], workers := [W_gone], num_threads := 0, master := M_done, stop_flag := 2\<rparr>"

lemma idle_done_reached: "thread_steps (started 1 0) idle_done"
proof -
  let ?s5 = "worker_takes 0 0 idle_stopped"
  let ?s6 = "?s5\<lparr>workers := (workers ?s5)[0 := W_gone], num_threads := num_threads ?s5 - 1\<rparr>"
  have fields: "workers ?s5 = [W_exit]" "master ?s5 = M_join" "stop_flag ?s5 = 1" "num_threads ?s5 = 1"
    by (simp_all add: worker_takes_def idle_stopped_def started_def take_socket_def new_ring_def wake_master_def)
  have "thread_step idle_stopped ?s5"
    by (rule consume) (simp_all add: idle_stopped_def mutex_free_def)
  moreover have "thread_step ?s5 ?s6"
    by (rule leave) (simp_all add: fields mutex_free_def)
  moreover have "thread_step ?s6 (?s6\<lparr>master := M_done, stop_flag := 2\<rparr>)"
    by (rule finish) (simp_all add: fields mutex_free_def)
  moreover have "?s6\<lparr>master := M_done, stop_flag := 2\<rparr> = idle_done"
    by (simp add: idle_done_def worker_takes_def idle_stopped_def started_def take_socket_def new_ring_def)
  ultimately show ?thesis using idle_stopped_reached by (metis steps_step)
qed

theorem context_freed_safely_witness:
  "stop_flag idle_done = 2 \<and> master idle_done = M_done \<and> set (workers idle_done) \<subseteq> {W_gone}"
  using context_freed_safely [OF idle_done_reached] by (simp add: idle_done_def)

text \<open>A wake-up can be lost: the flag is set and the sleepers are woken without the mutex, so that a
  worker which has just found the flag clear falls asleep after the broadcast. In that reachable
  state no thread can make a step, and \<open>mg_stop\<close> waits for ever.
\<close>

theorem lost_wakeup_hangs_shutdown:
  "\<exists>s. thread_steps (started 1 z) s \<and> stop_flag s = 1 \<and> (\<forall>t. \<not> thread_step s t)"
proof -
  let ?s0 = "started 1 z"
  let ?s1 = "?s0\<lparr>workers := [W_tested]\<rparr>"
  let ?s2 = "?s1\<lparr>stop_flag := 1, conn_lock := True\<rparr>"
  let ?s3 = "?s2\<lparr>master := M_closed\<rparr>"
  let ?s4 = "?s3\<lparr>master := M_join\<rparr>"
  let ?s5 = "?s4\<lparr>workers := [W_asleep]\<rparr>"
  have "thread_step ?s0 (?s0\<lparr>workers := (workers ?s0)[0 := W_tested]\<rparr>)"
    by (rule worker_waits) (simp_all add: started_def mutex_free_def ring_empty_def new_ring_def)
  moreover have "?s0\<lparr>workers := (workers ?s0)[0 := W_tested]\<rparr> = ?s1" by (simp add: started_def)
  ultimately have 1: "thread_step ?s0 ?s1" by (simp only:)
  have 2: "thread_step ?s1 ?s2" by (rule stop_connection) (simp add: started_def)
  have 3: "thread_step ?s2 ?s3" by (rule close_listeners) (simp_all add: started_def)
  have "thread_step ?s3 (?s3\<lparr>master := M_join, workers := map wake_worker (workers ?s3)\<rparr>)"
    by (rule broadcast) simp
  moreover have "?s3\<lparr>master := M_join, workers := map wake_worker (workers ?s3)\<rparr> = ?s4"
    by (simp add: wake_worker_def)
  ultimately have 4: "thread_step ?s3 ?s4" by (simp only:)
  have "thread_step ?s4 (?s4\<lparr>workers := (workers ?s4)[0 := W_asleep]\<rparr>)"
    by (rule worker_sleeps) simp_all
  moreover have "?s4\<lparr>workers := (workers ?s4)[0 := W_asleep]\<rparr> = ?s5" by simp
  ultimately have 5: "thread_step ?s4 ?s5" by (simp only:)
  have "thread_steps ?s0 ?s5"
    by (rule steps_step [OF steps_step [OF steps_step [OF steps_step [OF steps_step [OF steps_refl 1] 2] 3] 4] 5])
  moreover have "\<not> thread_step ?s5 t" for t
  proof
    assume "thread_step ?s5 t"
    then show False by (cases rule: thread_step.cases) (simp_all add: started_def)
  qed
  ultimately show ?thesis by (intro exI [of _ ?s5]) simp
qed

end
