(* ===== verification/Mongoose_Passwords.thy ===== *)
theory Mongoose_Passwords
  imports Mongoose_Auth
begin

section \<open>Passwords: what the file means and who is let in\<close>

text \<open>
  The passwords file of \<open>mongoose.c\<close> as a map from users and domains to hashes, which
  \<open>mg_modify_passwords_file\<close> updates and \<open>authorize\<close> looks up, and digest authentication from
  the password that was set to the request that is let in.
\<close>

subsection \<open>Lemmas on the header\<close>

lemma takeWhile_neq: "c \<notin> set w \<Longrightarrow> takeWhile (\<lambda>x. x \<noteq> c) (w @ c # r) = w"
  by (induction w) auto

lemma takeWhile_neq_all: "c \<notin> set w \<Longrightarrow> takeWhile (\<lambda>x. x \<noteq> c) w = w"
  by (induction w) auto

lemma skip_quoted_plain:
  assumes w: "\<forall>c \<in> set w. c \<notin> set ds" and d: "d \<in> set ds" and q: "w = [] \<or> last w \<noteq> q"
  shows "skip_quoted (w @ d # r) ds ws q = (w, dropWhile (\<lambda>c. c \<in> set ws) r)"
proof -
  have tw: "takeWhile (\<lambda>c. c \<notin> set ds) (w @ d # r) = w" using w d by (intro takeWhile_stop) blast+
  have dw: "dropWhile (\<lambda>c. c \<notin> set ds) (w @ d # r) = d # r" using w d by (intro dropWhile_stop) blast+
  show ?thesis unfolding skip_quoted_def Let_def tw dw quoted_word_plain [OF q] by simp
qed

text \<open>
  A header as clients write it: fields of a name and a value, which is quoted or not, with a comma and some
  spaces after each but the last.
\<close>

type_synonym auth_field = "string \<times> string \<times> bool \<times> nat"

fun value_text :: "bool \<Rightarrow> string \<Rightarrow> string" where
  "value_text True v = DQUOTE # v @ [DQUOTE]"
| "value_text False v = v"

fun auth_text :: "auth_field list \<Rightarrow> string" where
  "auth_text [] = []"
| "auth_text [(n, v, q, k)] = n @ CHR ''='' # value_text q v"
| "auth_text ((n, v, q, k) # f # fs) = n @ CHR ''='' # value_text q v @ CHR '','' # replicate k (CHR '' '') @ auth_text (f # fs)"

fun auth_field_ok :: "auth_field \<Rightarrow> bool" where
  "auth_field_ok (n, v, q, k) \<longleftrightarrow>
     n \<noteq> [] \<and> CHR ''='' \<notin> set n \<and> NUL \<notin> set n \<and> \<not> is_space (hd n) \<and> NUL \<notin> set v \<and>
     (if q then DQUOTE \<notin> set v \<and> BACKSLASH \<notin> set v
      else CHR '','' \<notin> set v \<and> CHR '' '' \<notin> set v \<and> deref v \<noteq> DQUOTE)"

fun field_value :: "auth_field \<Rightarrow> string \<times> string" where
  "field_value (n, v, q, k) = (n, v)"

definition set_pairs :: "(string \<times> string) list \<Rightarrow> ah \<Rightarrow> ah" where
  "set_pairs ps = fold (\<lambda>(n, v). set_ah n v) ps"

lemma auth_loop_Nil: "auth_loop [] a = a"
proof -
  have "skip_quoted [] ''='' '' '' NUL = ([], [])" by (rule skip_last_word) simp
  then show ?thesis by (subst auth_loop.simps) (simp split: prod.split)
qed

lemma auth_loop_space: "auth_loop (CHR '' '' # s) a = auth_loop s a"
  by (subst (1 2) auth_loop.simps) (simp add: is_space_def)

lemma auth_loop_spaces:
  "auth_loop (replicate k (CHR '' '') @ s) a = auth_loop s a"
  "auth_loop (dropWhile (\<lambda>c. c = CHR '' '') s) a = auth_loop s a"
proof -
  show "auth_loop (replicate k (CHR '' '') @ s) a = auth_loop s a" by (induction k) (simp_all add: auth_loop_space)
  show "auth_loop (dropWhile (\<lambda>c. c = CHR '' '') s) a = auth_loop s a" by (induction s) (simp_all add: auth_loop_space)
qed

lemma skip_name:
  assumes "auth_field_ok (n, v, q, k)"
  shows "skip_quoted (dropWhile is_space (n @ CHR ''='' # r)) ''='' '' '' NUL = (n, dropWhile (\<lambda>c. c = CHR '' '') r)"
proof -
  have "dropWhile is_space (n @ CHR ''='' # r) = n @ CHR ''='' # r"
    using assms by (cases n) auto
  moreover have "n = [] \<or> last n \<noteq> NUL" using assms last_in_set by fastforce
  ultimately show ?thesis using assms skip_quoted_plain [of n "''=''" "CHR ''=''" NUL r "'' ''"] by auto
qed

lemma last_not_in: "c \<notin> set v \<Longrightarrow> v = [] \<or> last v \<noteq> c"
  by (cases v rule: rev_cases) auto

lemma auth_value_last:
  assumes "auth_field_ok (n, v, q, k)"
  shows "auth_value (dropWhile (\<lambda>c. c = CHR '' '') (value_text q v)) = (v, [])"
proof (cases q)
  case True
  then have v: "DQUOTE \<notin> set v" "v = [] \<or> last v \<noteq> BACKSLASH"
    using assms last_not_in [of BACKSLASH v] by auto
  have "skip_quoted (v @ [DQUOTE]) [DQUOTE] '' '' BACKSLASH = (v, [])"
    using v skip_quoted_plain [of v "[DQUOTE]" DQUOTE BACKSLASH "[]" "'' ''"] by auto
  with True show ?thesis by (simp add: auth_value_def)
next
  case False
  then have v: "CHR '','' \<notin> set v" "CHR '' '' \<notin> set v" "NUL \<notin> set v" "deref v \<noteq> DQUOTE"
    using assms by auto
  have "skip_quoted v '', '' '' '' NUL = (v, [])" using v by (intro skip_last_word) auto
  moreover have "dropWhile (\<lambda>c. c = CHR '' '') v = v" using v(2) by (cases v) auto
  ultimately show ?thesis using False v(4) by (simp add: auth_value_def)
qed

lemma auth_value_next:
  assumes "auth_field_ok (n, v, q, k)"
  obtains s where "auth_value (dropWhile (\<lambda>c. c = CHR '' '')
      (value_text q v @ CHR '','' # replicate k (CHR '' '') @ r)) = (v, s)" "\<And>a. auth_loop s a = auth_loop r a"
proof (cases q)
  case True
  then have v: "DQUOTE \<notin> set v" "v = [] \<or> last v \<noteq> BACKSLASH"
    using assms last_not_in [of BACKSLASH v] by auto
  have "skip_quoted (v @ DQUOTE # s) [DQUOTE] '' '' BACKSLASH = (v, dropWhile (\<lambda>c. c \<in> set '' '') s)" for s
    using v by (intro skip_quoted_plain) auto
  with True show ?thesis
    by (intro that [of "replicate k (CHR '' '') @ r"]) (simp_all add: auth_value_def auth_loop_spaces)
next
  case False
  then have v: "CHR '','' \<notin> set v" "CHR '' '' \<notin> set v" "NUL \<notin> set v" "deref v \<noteq> DQUOTE"
    using assms by auto
  have drop: "dropWhile (\<lambda>c. c = CHR '' '') (v @ CHR '','' # s) = v @ CHR '','' # s"
    "deref (v @ CHR '','' # s) \<noteq> DQUOTE" for s
    using v by (cases v; auto)+
  have "v = [] \<or> last v \<noteq> NUL" using v(3) by (rule last_not_in)
  then have "skip_quoted (v @ CHR '','' # s) '', '' '' '' NUL = (v, dropWhile (\<lambda>c. c \<in> set '' '') s)" for s
    using v by (intro skip_quoted_plain) auto
  with False drop show ?thesis
    by (intro that [of "dropWhile (\<lambda>c. c = CHR '' '') (replicate k (CHR '' '') @ r)"])
       (simp_all add: auth_value_def auth_loop_spaces)
qed

lemma auth_loop_text: "\<forall>f \<in> set fs. auth_field_ok f \<Longrightarrow> auth_loop (auth_text fs) a = set_pairs (map field_value fs) a"
proof (induction fs arbitrary: a rule: auth_text.induct)
  case 1
  show ?case by (simp add: set_pairs_def auth_loop_Nil)
next
  case (2 n v q k)
  then have ok: "auth_field_ok (n, v, q, k)" by simp
  then show ?case
    using skip_name [OF ok, of "value_text q v"] auth_value_last [OF ok]
    by (subst auth_loop.simps) (simp add: set_pairs_def auth_loop_Nil)
next
  case (3 n v q k f fs)
  then have ok: "auth_field_ok (n, v, q, k)" by simp
  obtain s where "auth_value (dropWhile (\<lambda>c. c = CHR '' '')
      (value_text q v @ CHR '','' # replicate k (CHR '' '') @ auth_text (f # fs))) = (v, s)"
    "\<And>a. auth_loop s a = auth_loop (auth_text (f # fs)) a"
    using auth_value_next [OF ok] by blast
  then show ?case
    using skip_name [OF ok, of "value_text q v @ CHR '','' # replicate k (CHR '' '') @ auth_text (f # fs)"] 3 ok
    by (subst auth_loop.simps) (simp add: set_pairs_def)
qed

lemma value_text_NUL: "NUL \<notin> set v \<Longrightarrow> NUL \<notin> set (value_text q v)"
  by (cases q) auto

lemma auth_text_no_NUL: "\<forall>f \<in> set fs. auth_field_ok f \<Longrightarrow> NUL \<notin> set (auth_text fs)"
  by (induction fs rule: auth_text.induct) (auto dest: value_text_NUL)

text \<open>The last value of each field.\<close>

definition last_value :: "auth_field list \<Rightarrow> string \<Rightarrow> string option" where
  "last_value fs = map_of (rev (map field_value fs))"

definition auth_fields :: "auth_field list \<Rightarrow> ah" where
  "auth_fields fs =
     \<lparr>ah_user = last_value fs ''username'', ah_uri = last_value fs ''uri'', ah_cnonce = last_value fs ''cnonce'',
      ah_response = last_value fs ''response'', ah_qop = last_value fs ''qop'', ah_nc = last_value fs ''nc'',
      ah_nonce = last_value fs ''nonce''\<rparr>"

lemma set_pairs_fields: "set_pairs (map field_value fs) empty_ah = auth_fields fs"
proof (induction fs rule: rev_induct)
  case Nil
  show ?case by (simp add: set_pairs_def auth_fields_def last_value_def empty_ah_def)
next
  case (snoc f fs)
  obtain n v q k where f: "f = (n, v, q, k)" by (cases f)
  have "set_pairs (map field_value (fs @ [f])) empty_ah = set_ah n v (auth_fields fs)"
    using snoc by (simp add: f set_pairs_def)
  also have "\<dots> = auth_fields (fs @ [f])" by (simp add: f set_ah_def auth_fields_def last_value_def)
  finally show ?case .
qed

lemma parse_printed_auth:
  assumes "mg_get_header conn ''Authorization'' = Some (''Digest '' @ auth_text fs)"
    and "\<forall>f \<in> set fs. auth_field_ok f" "length (auth_text fs) < MG_BUF_LEN"
  shows "map_option fst (parse_auth_header conn) = map_option (\<lambda>_. auth_fields fs) (last_value fs ''username'')"
proof -
  have "mg_strncasecmp (''Digest '' @ auth_text fs) ''Digest '' 7 = 0"
    by (simp add: numeral_eq_Suc)
  moreover have "cstr (mg_strlcpy (auth_text fs) MG_BUF_LEN) = auth_text fs"
    using auth_text_no_NUL [OF assms(2)] assms(3)
    by (simp add: mg_strlcpy_take cstr_def MG_BUF_LEN_def takeWhile_neq)
  ultimately show ?thesis
    using assms(1) auth_loop_text [OF assms(2)] set_pairs_fields [of fs]
    by (simp add: parse_auth_header_def auth_fields_def Let_def split: option.split)
qed

text \<open>What any header can bring: values without a terminator, none longer than the buffer.\<close>

lemma quoted_word_chars:
  "set (fst (quoted_word d q w r)) \<subseteq> A \<and> set (snd (quoted_word d q w r)) \<subseteq> A" if "set w \<union> set r \<subseteq> A"
  using that
proof (induction d q w r rule: quoted_word.induct)
  case (1 d q w r)
  show ?case
  proof (cases "w \<noteq> [] \<and> last w = q")
    case True
    have w: "set (butlast w) \<subseteq> A" using 1(2) by (auto dest: in_set_butlastD)
    show ?thesis
    proof (cases r)
      case Nil
      with True have "quoted_word d q w r = (butlast w, [])" by (subst quoted_word.simps) simp
      then show ?thesis using w by simp
    next
      case (Cons x r')
      let ?w = "butlast w @ x # takeWhile (\<lambda>c. \<not> d c) r'" and ?r = "dropWhile (\<lambda>c. \<not> d c) r'"
      have "quoted_word d q w r = quoted_word d q ?w ?r" using True Cons by (subst quoted_word.simps) simp
      moreover have "set ?w \<union> set ?r \<subseteq> A"
        using w 1(2) Cons by (auto dest: set_takeWhileD set_dropWhileD)
      ultimately show ?thesis using 1(1) [OF True Cons] by simp
    qed
  next
    case False
    then have "quoted_word d q w r = (w, r)" by (intro quoted_word_plain) blast
    then show ?thesis using 1(2) by simp
  qed
qed

lemma skip_quoted_chars: "set (fst (skip_quoted s d w q)) \<subseteq> set s" "set (snd (skip_quoted s d w q)) \<subseteq> set s"
proof -
  let ?q = "quoted_word (\<lambda>c. c \<in> set d) q (takeWhile (\<lambda>c. c \<notin> set d) s) (dropWhile (\<lambda>c. c \<notin> set d) s)"
  have "set (takeWhile (\<lambda>c. c \<notin> set d) s) \<union> set (dropWhile (\<lambda>c. c \<notin> set d) s) \<subseteq> set s"
    by (auto dest: set_takeWhileD set_dropWhileD)
  from quoted_word_chars [OF this] have q: "set (fst ?q) \<subseteq> set s" "set (snd ?q) \<subseteq> set s" by blast+
  have "fst (skip_quoted s d w q) = fst ?q" "set (snd (skip_quoted s d w q)) \<subseteq> set (snd ?q)"
    by (auto simp: skip_quoted_def Let_def dest: set_dropWhileD split: prod.split list.split)
  then show "set (fst (skip_quoted s d w q)) \<subseteq> set s" "set (snd (skip_quoted s d w q)) \<subseteq> set s"
    using q by (simp, blast)
qed

definition bounded :: "nat \<Rightarrow> string \<Rightarrow> bool" where
  "bounded n s \<longleftrightarrow> NUL \<notin> set s \<and> length s \<le> n"

definition bounded_ah :: "nat \<Rightarrow> ah \<Rightarrow> bool" where
  "bounded_ah n a \<longleftrightarrow>
     (\<forall>f \<in> {ah_user, ah_uri, ah_cnonce, ah_response, ah_qop, ah_nc, ah_nonce}. \<forall>v. f a = Some v \<longrightarrow> bounded n v)"

lemma skip_quoted_bounded:
  assumes "bounded n s" "skip_quoted s d w q = (v, r)"
  shows "bounded n v" "bounded n r"
proof -
  have "set v \<subseteq> set s" "set r \<subseteq> set s" "length v + length r \<le> length s"
    using skip_quoted_chars [of s d w q] skip_quoted_length [of s d w q] assms(2) by simp_all
  then show "bounded n v" "bounded n r" using assms(1) by (auto simp: bounded_def)
qed

lemma bounded_tl: "bounded n s \<Longrightarrow> bounded n (tl s)"
  by (cases s) (auto simp: bounded_def)

lemma auth_value_bounded:
  assumes "bounded n s" "auth_value s = (v, r)"
  shows "bounded n v" "bounded n r"
proof -
  obtain v1 r1 where 1: "skip_quoted (tl s) [DQUOTE] '' '' BACKSLASH = (v1, r1)" by fastforce
  obtain v2 r2 where 2: "skip_quoted s '', '' '' '' NUL = (v2, r2)" by fastforce
  note b = skip_quoted_bounded [OF bounded_tl [OF assms(1)] 1] skip_quoted_bounded [OF assms(1) 2]
  show "bounded n v" "bounded n r"
    using assms(2) b bounded_tl [OF b(2)] by (auto simp: auth_value_def 1 2 split: if_splits)
qed

lemma auth_loop_bounded: "bounded n s \<Longrightarrow> bounded_ah n a \<Longrightarrow> bounded_ah n (auth_loop s a)"
proof (induction s a rule: auth_loop.induct)
  case (1 s a)
  obtain name s1 where name: "skip_quoted (dropWhile is_space s) ''='' '' '' NUL = (name, s1)" by fastforce
  obtain v s2 where v: "auth_value s1 = (v, s2)" by fastforce
  have "bounded n (dropWhile is_space s)"
    using 1(2) length_dropWhile_le [of is_space s] by (auto simp: bounded_def dest: set_dropWhileD)
  then have b: "bounded n v" "bounded n s2"
    using skip_quoted_bounded(2) [OF _ name] auth_value_bounded [OF _ v] by blast+
  then have "bounded_ah n (set_ah name v a)" using 1(3) by (auto simp: bounded_ah_def set_ah_def)
  then show ?case using 1 name v b by (subst auth_loop.simps) auto
qed

lemma parsed_bounded: "parse_auth_header conn = Some (a, conn') \<Longrightarrow> bounded_ah MG_BUF_LEN a"
proof -
  assume p: "parse_auth_header conn = Some (a, conn')"
  then obtain h where a: "a = auth_loop (cstr (mg_strlcpy h MG_BUF_LEN)) empty_ah"
    by (auto simp: parse_auth_header_def Let_def split: option.splits if_splits)
  have "bounded MG_BUF_LEN (cstr (mg_strlcpy h MG_BUF_LEN))"
    by (auto simp: bounded_def cstr_def mg_strlcpy_take MG_BUF_LEN_def dest: set_takeWhileD
      intro!: order_trans [OF length_takeWhile_le])
  then show ?thesis unfolding a by (rule auth_loop_bounded) (simp add: bounded_ah_def empty_ah_def)
qed

subsection \<open>Lemmas on the passwords file\<close>

text \<open>The file as a list of entries: user, domain and hash.\<close>

type_synonym password_entry = "string \<times> string \<times> string"

definition entry_line :: "password_entry \<Rightarrow> string" where
  "entry_line e = (case e of (u, d, h) \<Rightarrow> password_line u d h)"

definition passwords_text :: "password_entry list \<Rightarrow> string" where
  "passwords_text es = concat (map entry_line es)"

definition name_ok :: "string \<Rightarrow> bool" where
  "name_ok s \<longleftrightarrow> s \<noteq> [] \<and> CHR '':'' \<notin> set s \<and> NUL \<notin> set s \<and> LF \<notin> set s"

definition entry_ok :: "password_entry \<Rightarrow> bool" where
  "entry_ok e \<longleftrightarrow> (case e of (u, d, h) \<Rightarrow>
     name_ok u \<and> name_ok d \<and> name_ok h \<and> (\<forall>c \<in> set h. \<not> is_space c) \<and> length (entry_line e) < 256)"

definition password_of :: "password_entry list \<Rightarrow> (string \<times> string) \<rightharpoonup> string" where
  "password_of es = map_of (map (\<lambda>(u, d, h). ((u, d), h)) es)"

lemma passwords_text_simps [simp]:
  "passwords_text [] = []" "passwords_text (e # es) = entry_line e @ passwords_text es"
  "passwords_text (es @ es') = passwords_text es @ passwords_text es'"
  by (simp_all add: passwords_text_def)

lemma fgets_line: "LF \<notin> set l \<Longrightarrow> length l + 1 < n \<Longrightarrow> fgets n (l @ LF # r) = Some (l @ [LF], r)"
  by (simp add: fgets_def Let_def min_absorb2 takeWhile_neq)

lemma fgets_last_line: "LF \<notin> set l \<Longrightarrow> l \<noteq> [] \<Longrightarrow> length l < n \<Longrightarrow> fgets n l = Some (l, [])"
  by (simp add: fgets_def Let_def min_absorb2 takeWhile_neq_all)

lemma fgets_entry:
  assumes "entry_ok e" "256 \<le> n"
  shows "fgets n (entry_line e @ r) = Some (entry_line e, r)" "cstr (entry_line e) = entry_line e"
proof -
  obtain u d h where e: "e = (u, d, h)" by (cases e)
  let ?l = "u @ '':'' @ d @ '':'' @ h"
  have l: "entry_line (u, d, h) = ?l @ [LF]" by (simp add: entry_line_def password_line_def)
  have "LF \<notin> set ?l" "NUL \<notin> set (entry_line e)"
    using assms(1) unfolding e l by (auto simp: entry_ok_def name_ok_def)
  moreover have "length ?l + 1 < n" using assms unfolding e by (simp add: entry_ok_def l)
  ultimately show "fgets n (entry_line e @ r) = Some (entry_line e, r)" "cstr (entry_line e) = entry_line e"
    using fgets_line [of ?l n r] unfolding e by (simp_all add: l cstr_id)
qed

lemma scan_field_name: "name_ok u \<Longrightarrow> scan_field (u @ CHR '':'' # r) = Some (u, CHR '':'' # r)"
  by (simp add: scan_field_def name_ok_def Let_def takeWhile_neq)

lemma scan_user_entry: "entry_ok (u, d, h) \<Longrightarrow> scan_user (entry_line (u, d, h)) = Some (u, d, CHR '':'' # h @ [LF])"
  by (simp add: scan_user_def entry_line_def password_line_def entry_ok_def scan_field_name scan_char_def)

lemma scan_entry_line: "entry_ok (u, d, h) \<Longrightarrow> scan_entry (entry_line (u, d, h)) = Some (u, d, h)"
proof -
  assume ok: "entry_ok (u, d, h)"
  then have h: "h \<noteq> []" "\<forall>c \<in> set h. \<not> is_space c" by (auto simp: entry_ok_def name_ok_def)
  then have "dropWhile is_space (h @ [LF]) = h @ [LF]" by (cases h) auto
  moreover have "takeWhile (\<lambda>c. \<not> is_space c) (h @ [LF]) = h"
    using h(2) by (intro takeWhile_stop) (auto simp: is_space_def)
  ultimately show ?thesis using h(1) scan_user_entry [OF ok] by (simp add: scan_entry_def scan_char_def Let_def)
qed

lemma find_password_other:
  "fgets 256 content = Some (line, rest) \<Longrightarrow> scan_entry (cstr line) = Some (u, d, h) \<Longrightarrow> (u, d) \<noteq> (user, domain) \<Longrightarrow>
    find_password user (Some domain) content = find_password user (Some domain) rest"
  by (subst find_password.simps) auto

lemma find_password_entries:
  "\<forall>e \<in> set es. entry_ok e \<Longrightarrow> find_password user (Some domain) (passwords_text es) = password_of es (user, domain)"
proof (induction es)
  case Nil
  show ?case by (subst find_password.simps) (simp add: fgets_def password_of_def)
next
  case (Cons e es)
  obtain u d h where e: "e = (u, d, h)" by (cases e)
  have ok: "entry_ok (u, d, h)" using Cons.prems e by simp
  from Cons fgets_entry [OF ok, of 256] scan_entry_line [OF ok] show ?case
    by (subst find_password.simps) (auto simp: e password_of_def)
qed

text \<open>What the copy leaves: the other users' entries, and the new hash for the user's.\<close>

definition replace_entries :: "string \<times> string \<Rightarrow> string option \<Rightarrow> password_entry list \<Rightarrow> password_entry list" where
  "replace_entries ud h es =
     concat (map (\<lambda>(u, d, h'). if (u, d) = ud then (case h of None \<Rightarrow> [] | Some x \<Rightarrow> [(u, d, x)]) else [(u, d, h')]) es)"

lemma copy_passwords_entries:
  "\<forall>e \<in> set es. entry_ok e \<Longrightarrow> copy_passwords stack domain user pass (passwords_text es) =
    (passwords_text (replace_entries (user, domain)
       (map_option (\<lambda>p. mg_md5 stack [Some user, Some '':'', Some domain, Some '':'', Some p, None]) pass) es),
     password_of es (user, domain) \<noteq> None)"
proof (induction es)
  case Nil
  show ?case by (subst copy_passwords.simps) (simp add: fgets_def password_of_def replace_entries_def)
next
  case (Cons e es)
  obtain u d h where e: "e = (u, d, h)" by (cases e)
  have ok: "entry_ok (u, d, h)" using Cons.prems e by simp
  have "fgets 512 (passwords_text (e # es)) = Some (entry_line e, passwords_text es)"
    using fgets_entry(1) [OF ok, of 512] by (simp add: e)
  with Cons fgets_entry(2) [OF ok, of 256] scan_user_entry [OF ok] show ?case
    by (subst copy_passwords.simps)
       (auto simp: e password_of_def replace_entries_def new_line_def entry_line_def split: option.split)
qed

subsection \<open>A passwords file is a map\<close>

lemma lower_hex_char: "k < 16 \<Longrightarrow> lower_hex k \<in> set ''0123456789abcdef''"
  unfolding lower_hex_def by (rule nth_mem) simp

lemma bin2str_chars: "set (bin2str p) \<subseteq> set ''0123456789abcdef''" "length (bin2str p) = 2 * length p"
proof -
  have "of_char c div 16 < (16 :: nat)" for c
    using nat_of_char_less_256 [of c] by (simp add: less_mult_imp_div_less)
  then have "lower_hex (of_char c div 16) \<in> set ''0123456789abcdef''"
      "lower_hex (of_char c mod 16) \<in> set ''0123456789abcdef''" for c
    by (intro lower_hex_char; simp)+
  note digits = this
  show "set (bin2str p) \<subseteq> set ''0123456789abcdef''"
  proof
    fix x assume "x \<in> set (bin2str p)"
    then obtain c where "x = lower_hex (of_char c div 16) \<or> x = lower_hex (of_char c mod 16)"
      by (auto simp: bin2str_def)
    then show "x \<in> set ''0123456789abcdef''" using digits by blast
  qed
  show "length (bin2str p) = 2 * length p" by (induction p) (simp_all add: bin2str_def)
qed

lemma mg_md5_hash: "name_ok (mg_md5 stack args)" "\<forall>c \<in> set (mg_md5 stack args). \<not> is_space c"
    "length (mg_md5 stack args) = 32"
proof -
  have len: "length (MD5Final ctx) = 16" for ctx
    by (simp add: MD5Final_def Let_def split: prod.split)
  show l: "length (mg_md5 stack args) = 32" by (simp add: mg_md5_def bin2str_chars(2) len)
  have c: "set (mg_md5 stack args) \<subseteq> set ''0123456789abcdef''" by (simp only: mg_md5_def bin2str_chars(1))
  show "\<forall>c \<in> set (mg_md5 stack args). \<not> is_space c" using c by (auto simp: is_space_def)
  show "name_ok (mg_md5 stack args)" unfolding name_ok_def using c l by auto
qed

lemma password_of_replaced:
  "password_of (replace_entries ud h es) x =
    (if x = ud then (if password_of es ud = None then None else h) else password_of es x)"
proof (induction es)
  case (Cons e es)
  then show ?case
    by (cases e) (auto simp: password_of_def replace_entries_def split: option.splits)
qed (simp add: password_of_def replace_entries_def)

lemma replaced_ok:
  "\<forall>e \<in> set es. entry_ok e \<Longrightarrow> h = None \<or> entry_ok (fst ud, snd ud, the h) \<Longrightarrow>
    \<forall>e \<in> set (replace_entries ud h es). entry_ok e"
  by (auto simp: replace_entries_def split: if_splits option.splits)

definition stored_hash :: "string \<Rightarrow> string \<Rightarrow> string \<Rightarrow> string option \<Rightarrow> string option" where
  "stored_hash stack domain user pass =
     (case pass of None \<Rightarrow> None
      | Some p \<Rightarrow> if p = [] then None
                  else Some (mg_md5 stack [Some user, Some '':'', Some domain, Some '':'', Some p, None]))"

lemma modify_updates_map:
  assumes "\<forall>e \<in> set es. entry_ok e" "name_ok user" "name_ok domain" "length user + length domain < 221"
    and "io_ok io"
  shows "\<exists>es'. mg_modify_passwords_file stack io (passwords_text es) domain user pass = (True, Some (passwords_text es'))
    \<and> (\<forall>e \<in> set es'. entry_ok e)
    \<and> password_of es' = (password_of es)((user, domain) := stored_hash stack domain user pass)"
proof -
  let ?h = "stored_hash stack domain user pass"
  let ?es = "replace_entries (user, domain) ?h es"
  have h: "map_option (\<lambda>p. mg_md5 stack [Some user, Some '':'', Some domain, Some '':'', Some p, None])
      (if pass = Some [] then None else pass) = ?h"
    by (simp add: stored_hash_def split: option.split)
  have io: "io_open io" "io_temp io" "io_renamed io" "io_stored io s = s" for s
    using assms(5) by (simp_all add: io_ok_def)
  have ok: "?h = None \<or> entry_ok (user, domain, the ?h)"
    using assms(2-4) mg_md5_hash
    by (auto simp: stored_hash_def entry_ok_def entry_line_def password_line_def split: option.split if_splits)
  have es: "\<forall>e \<in> set ?es. entry_ok e" by (rule replaced_ok [OF assms(1)]) (use ok in simp)
  show ?thesis
  proof (cases "password_of es (user, domain)")
    case (Some x)
    then have "mg_modify_passwords_file stack io (passwords_text es) domain user pass = (True, Some (passwords_text ?es))"
      using copy_passwords_entries [OF assms(1), of stack domain user "if pass = Some [] then None else pass"]
      by (simp add: mg_modify_passwords_file_def io Let_def h)
    moreover have "password_of ?es = (password_of es)((user, domain) := ?h)"
      using Some by (auto simp: fun_eq_iff password_of_replaced)
    ultimately show ?thesis using es by blast
  next
    case None
    let ?es' = "?es @ (case ?h of None \<Rightarrow> [] | Some x \<Rightarrow> [(user, domain, x)])"
    have "mg_modify_passwords_file stack io (passwords_text es) domain user pass = (True, Some (passwords_text ?es'))"
      using None copy_passwords_entries [OF assms(1), of stack domain user "if pass = Some [] then None else pass"]
      by (simp add: mg_modify_passwords_file_def io Let_def h)
         (auto simp: stored_hash_def new_line_def entry_line_def split: option.split)
    moreover have "password_of ?es' = (password_of es)((user, domain) := ?h)"
      using None password_of_replaced [of "(user, domain)" ?h es]
      by (auto simp: fun_eq_iff password_of_def map_add_def split: option.splits)
    moreover have "\<forall>e \<in> set ?es'. entry_ok e" 
    proof (cases ?h)
      case (Some x)
      with es ok show ?thesis by auto
    qed (use es in simp)
    ultimately show ?thesis by blast
  qed
qed

text \<open>C13. The passwords file is a map from users and domains to hashes: changing a password succeeds on a
  well-formed file, leaves a well-formed file, and updates that map at the user alone. An empty or null
  password removes the user. Both files can be opened, all that is printed reaches the disk and the
  temporary file is put in place of the old one: the code does not ask for the last two.
\<close>

theorem passwords_refine_map:
  assumes "\<forall>e \<in> set es. entry_ok e" "name_ok user" "name_ok domain" "length user + length domain < 221"
    and "io_ok io"
  shows "\<exists>es'. mg_modify_passwords_file stack io (passwords_text es) domain user pass = (True, Some (passwords_text es'))
    \<and> (\<forall>e \<in> set es'. entry_ok e)
    \<and> (\<forall>u d. find_password u (Some d) (passwords_text es') =
         (if (u, d) = (user, domain) then stored_hash stack domain user pass
          else find_password u (Some d) (passwords_text es)))"
proof -
  from modify_updates_map [OF assms] obtain es' where es':
    "mg_modify_passwords_file stack io (passwords_text es) domain user pass = (True, Some (passwords_text es'))"
    "\<forall>e \<in> set es'. entry_ok e"
    "password_of es' = (password_of es)((user, domain) := stored_hash stack domain user pass)" by blast
  then show ?thesis
    by (intro exI [of _ es']) (simp add: find_password_entries assms(1))
qed

definition sound_io :: passwords_io where
  "sound_io = \<lparr>io_open = True, io_temp = True, io_stored = id, io_removed = True, io_renamed = True\<rparr>"

lemma sound_io: "io_ok sound_io"
  by (simp add: io_ok_def sound_io_def)

theorem passwords_refine_map_witness:
  "\<exists>es'. mg_modify_passwords_file (replicate 64 NUL) sound_io (passwords_text [(''bob'', ''home'', ''ab12'')])
      ''home'' ''joe'' (Some ''secret'') = (True, Some (passwords_text es'))
    \<and> (\<forall>e \<in> set es'. entry_ok e)
    \<and> (\<forall>u d. find_password u (Some d) (passwords_text es') =
         (if (u, d) = (''joe'', ''home'') then stored_hash (replicate 64 NUL) ''home'' ''joe'' (Some ''secret'')
          else find_password u (Some d) (passwords_text [(''bob'', ''home'', ''ab12'')])))"
  by (rule passwords_refine_map)
     (simp_all add: sound_io entry_ok_def name_ok_def entry_line_def password_line_def is_space_def)

text \<open>
  A file whose last line is not terminated is not well-formed: the new user's line is appended to that
  line, so that the new user has no password.
\<close>

lemma unterminated_file_loses_user:
  assumes "entry_ok (u, d, h)" "name_ok user" "name_ok domain" "(u, d) \<noteq> (user, domain)" "p \<noteq> []"
    and "\<forall>c \<in> set (user @ domain). \<not> is_space c"
    and "length (entry_line (u, d, h)) + length user + length domain < 222" and "io_ok io"
  shows "\<exists>content. mg_modify_passwords_file stack io (u @ '':'' @ d @ '':'' @ h) domain user (Some p) =
      (True, Some content)
    \<and> find_password user (Some domain) content = None"
proof -
  let ?l = "u @ '':'' @ d @ '':'' @ h"
  let ?x = "mg_md5 stack [Some user, Some '':'', Some domain, Some '':'', Some p, None]"
  let ?m = "?l @ user @ '':'' @ domain @ '':'' @ ?x"
  have ok: "name_ok u" "name_ok d" "name_ok h" "\<forall>c \<in> set h. \<not> is_space c" using assms(1) by (auto simp: entry_ok_def)
  have clean: "LF \<notin> set ?m" "NUL \<notin> set ?m"
    using ok assms(2,3) mg_md5_hash(1) [of stack "[Some user, Some '':'', Some domain, Some '':'', Some p, None]"]
    by (auto simp: name_ok_def)
  have len: "length ?m + 1 < 256"
    using assms(7) mg_md5_hash(3) by (simp add: entry_line_def password_line_def)
  have "fgets 512 ?l = Some (?l, [])"
    by (rule fgets_last_line) (use clean(1) len in auto)
  moreover have "scan_user ?l = Some (u, d, CHR '':'' # h)"
    using ok by (simp add: scan_user_def scan_field_name scan_char_def)
  moreover have "cstr ?l = ?l" using clean(2) by (intro cstr_id) auto
  moreover have "copy_passwords stack domain user (Some p) [] = ([], False)"
    by (subst copy_passwords.simps) (simp add: fgets_def)
  ultimately have "copy_passwords stack domain user (Some p) ?l = (?l, False)"
    using assms(4) by (subst copy_passwords.simps) auto
  then have "mg_modify_passwords_file stack io ?l domain user (Some p) = (True, Some (?m @ [LF]))"
    using assms(5,8) by (simp add: mg_modify_passwords_file_def io_ok_def new_line_def password_line_def)
  moreover have "find_password user (Some domain) (?m @ [LF]) = None"
  proof -
    let ?h = "h @ user @ '':'' @ domain @ '':'' @ ?x"
    have "\<not> is_space CHR '':''" by (simp add: is_space_def)
    then have sp: "\<forall>c \<in> set ?h. \<not> is_space c"
      using ok(4) assms(6) mg_md5_hash(2) unfolding set_append by auto
    moreover have "h \<noteq> []" using ok(3) by (simp add: name_ok_def)
    ultimately have "dropWhile is_space (?h @ [LF]) = ?h @ [LF]" by (cases h) auto
    moreover have "takeWhile (\<lambda>c. \<not> is_space c) (?h @ [LF]) = ?h"
      using sp by (intro takeWhile_stop) (auto simp: is_space_def)
    ultimately have sc: "scan_entry (?m @ [LF]) = Some (u, d, ?h)"
      using ok \<open>h \<noteq> []\<close> by (simp add: scan_entry_def scan_user_def scan_field_name scan_char_def Let_def)
    have c: "cstr (?m @ [LF]) = ?m @ [LF]" using clean(2) by (intro cstr_id) auto
    have f: "fgets 256 (?m @ [LF]) = Some (?m @ [LF], [])" by (rule fgets_line [OF clean(1) len])
    have "find_password user (Some domain) (?m @ [LF]) = find_password user (Some domain) []"
      by (rule find_password_other [OF f _ assms(4)]) (unfold c, rule sc)
    also have "\<dots> = None" by (subst find_password.simps) (simp add: fgets_def)
    finally show ?thesis .
  qed
  ultimately show ?thesis by blast
qed

subsection \<open>Who is let in\<close>

text \<open>The response of RFC 2617 to a challenge, from the password, by the standard hash.\<close>

definition rfc_hash :: "string \<Rightarrow> string" where
  "rfc_hash m = bin2str (rfc_md5 m)"

text \<open>
  A secret is what only the user knows; the values of a challenge and its answer are parts of the header.
\<close>

type_synonym secret = string
type_synonym part = string

definition digest_response ::
  "secret \<Rightarrow> string \<Rightarrow> string \<Rightarrow> part \<Rightarrow> part \<Rightarrow> part \<Rightarrow> part \<Rightarrow> string" where
  "digest_response ha1 m uri nonce nc cnonce qop =
     rfc_hash (ha1 @ '':'' @ nonce @ '':'' @ nc @ '':'' @ cnonce @ '':'' @ qop @ '':'' @ rfc_hash (m @ '':'' @ uri))"

definition user_hash :: "string \<Rightarrow> string \<Rightarrow> secret \<Rightarrow> string" where
  "user_hash user domain pass = rfc_hash (user @ '':'' @ domain @ '':'' @ pass)"

text \<open>
  The fields answer the challenge of a domain: all are there but perhaps the URI, the user has a hash, and the
  response is the one for that hash, in letters of either case.
\<close>

definition digest_valid :: "(string \<times> string \<rightharpoonup> string) \<Rightarrow> string \<Rightarrow> string \<Rightarrow> ah \<Rightarrow> bool" where
  "digest_valid hashes domain m a =
     (case (ah_user a, ah_nonce a, ah_nc a, ah_cnonce a, ah_qop a, ah_response a) of
        (Some u, Some n, Some nc, Some cn, Some q, Some r) \<Rightarrow>
          (case hashes (u, domain) of
             None \<Rightarrow> False
           | Some ha1 \<Rightarrow> map lowercase r =
               map lowercase (digest_response ha1 m (case ah_uri a of Some uri \<Rightarrow> uri | None \<Rightarrow> []) n nc cn q))
      | _ \<Rightarrow> False)"

definition short :: "string \<Rightarrow> bool" where
  "short s \<longleftrightarrow> NUL \<notin> set s \<and> length s < 2 ^ 32"

lemma rfc_hash_chars: "set (rfc_hash m) \<subseteq> set ''0123456789abcdef''" "length (rfc_hash m) = 32"
proof -
  have "length (rfc_md5 m) = 16" by (simp add: rfc_md5_def split: prod.split)
  then show "set (rfc_hash m) \<subseteq> set ''0123456789abcdef''" "length (rfc_hash m) = 32"
    using bin2str_chars [of "rfc_md5 m"] unfolding rfc_hash_def by simp_all
qed

lemma rfc_hash_short: "short (rfc_hash m)"
  unfolding short_def using rfc_hash_chars [of m] by auto

lemma mg_md5_pieces:
  assumes "length stack = 64" "\<forall>p \<in> set ps. short p"
  shows "mg_md5 stack (map Some ps @ None # rest) = rfc_hash (concat ps)"
  using mg_md5_concat [of stack ps rest] assms by (simp add: rfc_hash_def short_def)

lemma short_colon [simp]: "short '':''"
  by (simp add: short_def)

lemma check_password_digest:
  assumes "length stack = 64" "short m" "short ha1" "\<forall>x. uri = Some x \<longrightarrow> short x" "short n" "short nc"
    "short cn" "short q" "NUL \<notin> set r"
  shows "check_password stack (Some m) ha1 uri (Some n) (Some nc) (Some cn) (Some q) (Some r) \<longleftrightarrow>
    map lowercase r = map lowercase (digest_response ha1 m (case uri of Some x \<Rightarrow> x | None \<Rightarrow> []) n nc cn q)"
proof -
  let ?uri = "case uri of Some x \<Rightarrow> x | None \<Rightarrow> []"
  have "mg_md5 stack [Some m, Some '':'', uri, None] = rfc_hash (m @ '':'' @ ?uri)"
    using mg_md5_pieces [of stack "[m, '':'', ?uri]" "[]"] mg_md5_pieces [of stack "[m, '':'']" "[None]"] assms
    by (cases uri) simp_all
  moreover have "mg_md5 stack [Some ha1, Some '':'', Some n, Some '':'', Some nc, Some '':'', Some cn, Some '':'',
      Some q, Some '':'', Some ha2, None] =
      rfc_hash (ha1 @ '':'' @ n @ '':'' @ nc @ '':'' @ cn @ '':'' @ q @ '':'' @ ha2)"
    if "short ha2" for ha2
    using mg_md5_pieces [of stack "[ha1, '':'', n, '':'', nc, '':'', cn, '':'', q, '':'', ha2]" "[]"] assms that by simp
  moreover have "NUL \<notin> set (rfc_hash x)" for x using rfc_hash_short [of x] by (simp add: short_def)
  moreover have "length r = 32" if "map lowercase r = map lowercase (rfc_hash x)" for x
    using arg_cong [OF that, of length] rfc_hash_chars(2) [of x] by simp
  ultimately show ?thesis
    using assms(9) rfc_hash_short
    by (auto simp: check_password_def digest_response_def mg_strcasecmp_eq)
qed

lemma authorize_digest:
  assumes "length stack = 64" "\<forall>e \<in> set es. entry_ok e" "req_method (c_info conn) = Some m" "short m"
    and "ctx AUTHENTICATION_DOMAIN = Some domain"
  shows "fst (authorize stack ctx (passwords_text es) conn) \<longleftrightarrow>
    (\<exists>a conn'. parse_auth_header conn = Some (a, conn') \<and> digest_valid (password_of es) domain m a)"
proof (cases "parse_auth_header conn")
  case None
  then show ?thesis by (simp add: authorize_def)
next
  case (Some p)
  obtain a conn' where p: "p = (a, conn')" by (cases p)
  have parse: "parse_auth_header conn = Some (a, conn')" using Some p by simp
  from parse obtain u where u: "ah_user a = Some u" and m: "req_method (c_info conn') = Some m"
    using assms(3) by (auto simp: parse_auth_header_def Let_def split: option.splits if_splits)
  have short: "short v" if "f a = Some v" "f \<in> {ah_user, ah_uri, ah_cnonce, ah_response, ah_qop, ah_nc, ah_nonce}" for f v
  proof -
    have "bounded MG_BUF_LEN v" using parsed_bounded [OF parse] that unfolding bounded_ah_def by blast
    then show ?thesis by (simp add: bounded_def short_def MG_BUF_LEN_def)
  qed
  have hash: "short ha1" if "password_of es (u, domain) = Some ha1" for ha1
  proof -
    have "(u, domain, ha1) \<in> set es" using map_of_SomeD [OF that [unfolded password_of_def]] by auto
    then have "entry_ok (u, domain, ha1)" using assms(2) by blast
    then show ?thesis by (simp add: entry_ok_def name_ok_def short_def entry_line_def password_line_def)
  qed
  have "check_password stack (Some m) ha1 (ah_uri a) (ah_nonce a) (ah_nc a) (ah_cnonce a) (ah_qop a) (ah_response a)
      \<longleftrightarrow> digest_valid (password_of es) domain m a" if h: "password_of es (u, domain) = Some ha1" for ha1
  proof (cases "ah_nonce a = None \<or> ah_nc a = None \<or> ah_cnonce a = None \<or> ah_qop a = None \<or> ah_response a = None")
    case True
    then show ?thesis by (auto simp: check_password_def digest_valid_def split: option.split)
  next
    case False
    then obtain n nc cn q r where f: "ah_nonce a = Some n" "ah_nc a = Some nc" "ah_cnonce a = Some cn"
      "ah_qop a = Some q" "ah_response a = Some r" by auto
    have "short n" "short nc" "short cn" "short q" "short r" "\<forall>x. ah_uri a = Some x \<longrightarrow> short x"
      using short [of ah_nonce] short [of ah_nc] short [of ah_cnonce] short [of ah_qop] short [of ah_response]
        short [of ah_uri] f by auto
    then show ?thesis
      using check_password_digest [OF assms(1,4) hash [OF h], of "ah_uri a" n nc cn q r] u h f
      by (simp add: digest_valid_def short_def)
  qed
  then show ?thesis
    using parse u m assms(5) find_password_entries [OF assms(2)]
    by (auto simp: authorize_def digest_valid_def split: option.split)
qed

text \<open>C10. A password lets in exactly those who know it. Once the password of a user is set in a well-formed
  file, any request whatever is authorized when, and only when, the fields that are read from its
  \<open>Authorization\<close> header answer the challenge: the user they name has a hash for the domain, which for that
  user is the one of the password, and the response is the one that RFC 2617 computes from that hash, the
  request's method and the fields, in letters of either case. And those fields are what the client wrote: of
  a header of fields in any order, each quoted or not, each is read with its last value.
\<close>

theorem digest_authorizes_exactly:
  assumes "length stack = 64" "\<forall>e \<in> set es. entry_ok e" "name_ok user" "name_ok domain"
      "length user + length domain < 221" "io_ok io" "pass \<noteq> []" "short pass"
    and "req_method (c_info conn) = Some m" "short m" "ctx AUTHENTICATION_DOMAIN = Some domain"
  shows "\<exists>content. mg_modify_passwords_file stack io (passwords_text es) domain user (Some pass) = (True, Some content)
    \<and> (fst (authorize stack ctx content conn) \<longleftrightarrow>
         (\<exists>a conn'. parse_auth_header conn = Some (a, conn') \<and>
           digest_valid ((password_of es)((user, domain) \<mapsto> user_hash user domain pass)) domain m a))
    \<and> (\<forall>fs. mg_get_header conn ''Authorization'' = Some (''Digest '' @ auth_text fs) \<and>
         (\<forall>f \<in> set fs. auth_field_ok f) \<and> length (auth_text fs) < MG_BUF_LEN \<longrightarrow>
         map_option fst (parse_auth_header conn) = map_option (\<lambda>_. auth_fields fs) (last_value fs ''username''))"
proof -
  obtain es' where es': "mg_modify_passwords_file stack io (passwords_text es) domain user (Some pass) =
      (True, Some (passwords_text es'))" "\<forall>e \<in> set es'. entry_ok e"
      "password_of es' = (password_of es)((user, domain) := stored_hash stack domain user (Some pass))"
    using modify_updates_map [OF assms(2-6)] by blast
  have "short user" "short domain" using assms(3-5) by (auto simp: name_ok_def short_def)
  then have hash: "stored_hash stack domain user (Some pass) = Some (user_hash user domain pass)"
    using assms(7,8) mg_md5_pieces [OF assms(1), of "[user, '':'', domain, '':'', pass]" "[]"]
    by (simp add: stored_hash_def user_hash_def)
  have "fst (authorize stack ctx (passwords_text es') conn) \<longleftrightarrow>
      (\<exists>a conn'. parse_auth_header conn = Some (a, conn') \<and>
        digest_valid ((password_of es)((user, domain) \<mapsto> user_hash user domain pass)) domain m a)"
    using authorize_digest [where es = es' and ctx = ctx, OF assms(1) es'(2) assms(9-11)]
    unfolding es'(3) hash .
  then show ?thesis
    using es'(1) parse_printed_auth [of conn] by (intro exI [of _ "passwords_text es'"]) blast
qed

text \<open>A header with the unquoted fields of RFC 2617.\<close>

definition digest_header :: "string \<Rightarrow> auth_field list" where
  "digest_header r =
     [(''username'', ''joe'', True, 1), (''realm'', ''home'', True, 1), (''nonce'', ''17'', True, 1), (''uri'', ''/a'', True, 0),
      (''qop'', ''auth'', False, 1), (''nc'', ''00000001'', False, 1), (''cnonce'', ''xy'', True, 1), (''response'', r, True, 1)]"

definition digest_request :: "string \<Rightarrow> connection" where
  "digest_request r =
     \<lparr>c_info = blank_request_info\<lparr>req_method := Some ''GET'',
        http_headers := [(''Authorization'', ''Digest '' @ auth_text (digest_header r))]\<rparr>,
      c_out = \<lparr>send_results = [], peer_received = []\<rparr>, c_env = [], c_buf = [], c_data_len = 0, c_request_len = 0,
      c_content_len = 0, c_consumed = 0, c_must_close = False, c_status = 0, c_num_sent = 0,
      c_path_info = None, c_peer = no_peer\<rparr>"

theorem digest_authorizes_exactly_witness:
  "let r = digest_response (user_hash ''joe'' ''home'' ''secret'') ''GET'' ''/a'' ''17'' ''00000001'' ''xy'' ''auth''
   in \<exists>content. mg_modify_passwords_file (replicate 64 NUL) sound_io [] ''home'' ''joe'' (Some ''secret'') = (True, Some content)
      \<and> fst (authorize (replicate 64 NUL) ((fill_defaults (\<lambda>_. None))(AUTHENTICATION_DOMAIN := Some ''home'')) content
          (digest_request r))"
proof -
  let ?r = "digest_response (user_hash ''joe'' ''home'' ''secret'') ''GET'' ''/a'' ''17'' ''00000001'' ''xy'' ''auth''"
  let ?ctx = "(fill_defaults (\<lambda>_. None))(AUTHENTICATION_DOMAIN := Some ''home'')"
  have r: "length ?r = 32" "set ?r \<subseteq> set ''0123456789abcdef''"
    unfolding digest_response_def by (rule rfc_hash_chars)+
  have "DQUOTE \<notin> set ?r" "BACKSLASH \<notin> set ?r" "NUL \<notin> set ?r"
    by (rule notI, drule subsetD [OF r(2)], simp)+
  then have ok: "\<forall>f \<in> set (digest_header ?r). auth_field_ok f"
    by (simp add: digest_header_def is_space_def)
  have len: "length (auth_text (digest_header ?r)) < MG_BUF_LEN"
    using r(1) by (simp add: digest_header_def MG_BUF_LEN_def)
  have header: "mg_get_header (digest_request ?r) ''Authorization'' = Some (''Digest '' @ auth_text (digest_header ?r))"
    by (simp add: digest_request_def mg_get_header_def get_header_def blank_request_info_def)
  obtain content where c: "mg_modify_passwords_file (replicate 64 NUL) sound_io [] ''home'' ''joe'' (Some ''secret'') =
      (True, Some content)"
    "fst (authorize (replicate 64 NUL) ?ctx content (digest_request ?r)) \<longleftrightarrow>
       (\<exists>a conn'. parse_auth_header (digest_request ?r) = Some (a, conn') \<and>
         digest_valid [(''joe'', ''home'') \<mapsto> user_hash ''joe'' ''home'' ''secret''] ''home'' ''GET'' a)"
    "map_option fst (parse_auth_header (digest_request ?r)) =
       map_option (\<lambda>_. auth_fields (digest_header ?r)) (last_value (digest_header ?r) ''username'')"
    using digest_authorizes_exactly [of "replicate 64 NUL" "[]" "''joe''" "''home''" sound_io "''secret''"
        "digest_request ?r" "''GET''" ?ctx] header ok len
    by (auto simp: sound_io name_ok_def short_def digest_request_def blank_request_info_def password_of_def)
  have fields: "auth_fields (digest_header ?r) =
      \<lparr>ah_user = Some ''joe'', ah_uri = Some ''/a'', ah_cnonce = Some ''xy'', ah_response = Some ?r, ah_qop = Some ''auth'',
       ah_nc = Some ''00000001'', ah_nonce = Some ''17''\<rparr>" "last_value (digest_header ?r) ''username'' = Some ''joe''"
    by (simp_all add: auth_fields_def last_value_def digest_header_def)
  obtain conn' where "parse_auth_header (digest_request ?r) = Some (auth_fields (digest_header ?r), conn')"
    using c(3) fields(2) by (cases "parse_auth_header (digest_request ?r)") auto
  then show ?thesis using c(1,2) by (auto simp: Let_def digest_valid_def fields(1))
qed

end
