(* ===== verification/Mongoose_Static.thy ===== *)
theory Mongoose_Static
  imports Mongoose_Files
begin

text \<open>
  What a client gets for a static file: the pieces that \<open>send_file_data\<close> writes add up to the requested
  part of the file, the range header is read back as it was printed, and \<open>handle_file_request\<close>
  answers with the head and those bytes.
\<close>

subsection \<open>Lemmas on sending a file\<close>

lemma mg_write_all:
  assumes "send_results out = r # rs" "int (length b) \<le> r" "length b \<le> INT_MAX" "b \<noteq> []"
  shows "mg_write out b = (int (length b), \<lparr>send_results = rs, peer_received = peer_received out @ b\<rparr>)"
proof -
  have "sint (word_of_nat (length b) :: 32 word) = int (length b)"
    using assms(3) by (intro sint_small) (simp add: INT_MAX_def)
  then show ?thesis
    using assms push_all [OF assms(4,2,3), of rs] by (cases out) (auto simp: mg_write_def)
qed

lemma take_length_take: "take (length (take k xs)) xs = take k xs"
  by (simp add: min_def)

text \<open>A socket that takes any text of up to \<open>n\<close> bytes at once.\<close>

definition takes_all :: "int \<Rightarrow> connection \<Rightarrow> bool" where
  "takes_all n conn \<longleftrightarrow> (\<forall>r \<in> set (send_results (c_out conn)). n \<le> r)"

lemma send_loop_all:
  "takes_all (int MG_BUF_LEN) conn \<Longrightarrow> length content \<le> length (send_results (c_out conn)) \<Longrightarrow>
   peer_received (c_out (send_loop conn content len)) = peer_received (c_out conn) @ take (nat len) content"
proof (induction conn content len rule: send_loop.induct)
  case (1 conn content len)
  let ?chunk = "take (nat (min (int MG_BUF_LEN) len)) content"
  show ?case
  proof (cases "len \<le> 0 \<or> ?chunk = []")
    case True
    then have "take (nat len) content = []"
      by (auto simp: MG_BUF_LEN_def min_def split: if_splits)
    with True show ?thesis by (subst send_loop.simps) simp
  next
    case False
    then obtain r rs where rs: "send_results (c_out conn) = r # rs"
      using 1(3) by (cases "send_results (c_out conn)") auto
    have r: "int (length ?chunk) \<le> r" using 1(2) rs by (auto simp: takes_all_def min_def MG_BUF_LEN_def)
    have "nat (min (int MG_BUF_LEN) len) \<le> INT_MAX" by (simp add: INT_MAX_def MG_BUF_LEN_def nat_le_iff)
    then have max: "length ?chunk \<le> INT_MAX" by simp
    let ?out = "\<lparr>send_results = rs, peer_received = peer_received (c_out conn) @ ?chunk\<rparr>"
    have w: "mg_write (c_out conn) ?chunk = (int (length ?chunk), ?out)"
      using mg_write_all [OF rs r max] False by blast
    let ?conn = "conn\<lparr>c_out := ?out, c_num_sent := c_num_sent conn + int (length ?chunk)\<rparr>"
    let ?rest = "drop (length ?chunk) content"
    have "takes_all (int MG_BUF_LEN) ?conn" using 1(2) rs by (simp add: takes_all_def)
    moreover have "length ?rest \<le> length (send_results (c_out ?conn))"
      using 1(3) rs False by (cases content) (auto simp: MG_BUF_LEN_def)
    ultimately have "peer_received (c_out (send_loop ?conn ?rest (len - int (length ?chunk)))) =
        peer_received (c_out conn) @ ?chunk @ take (nat (len - int (length ?chunk))) ?rest"
      using 1(1) [OF refl False w [symmetric]] by simp
    moreover have "?chunk @ take (nat (len - int (length ?chunk))) ?rest = take (nat len) content"
    proof -
      have "nat len = length ?chunk + nat (len - int (length ?chunk))" using False by (auto simp: min_def)
      moreover have "?chunk = take (length ?chunk) content" by (rule take_length_take [symmetric])
      ultimately show ?thesis by (metis take_add)
    qed
    moreover have "send_loop conn content len = send_loop ?conn ?rest (len - int (length ?chunk))"
      using False w by (subst send_loop.simps) (simp add: Let_def)
    ultimately show ?thesis by simp
  qed
qed

subsection \<open>Lemmas on numbers in headers\<close>

lemma scan_digits:
  assumes "\<forall>c \<in> set ds. mg_digit c" "ds \<noteq> []" "r = [] \<or> \<not> mg_digit (hd r)"
  shows "scan_int (ds @ r) = Some (digits_value ds, r)"
proof -
  obtain c ds' where d: "ds = c # ds'" using assms(2) by (cases ds) auto
  then have c: "\<not> is_space c" "c \<noteq> CHR ''-''" "c \<noteq> CHR ''+''" using digit_not assms(1) by auto
  have "takeWhile mg_digit (ds @ r) = ds" "dropWhile mg_digit (ds @ r) = r"
    using assms by (cases r; simp add: takeWhile_append dropWhile_append)+
  moreover have "dropWhile is_space (ds @ r) = ds @ r" using c(1) d by simp
  ultimately show ?thesis
    using assms(2) c d by (simp add: scan_int_def Let_def)
qed

lemma scan_spaces: "scan_int (CHR '' '' # s) = scan_int s"
  by (simp add: scan_int_def is_space_def)

lemma scan_decimal_rest: "r = [] \<or> \<not> mg_digit (hd r) \<Longrightarrow> scan_int (decimal n @ r) = Some (int n, r)"
  using scan_digits [OF decimal_mg_digits] by (simp add: digits_value_decimal)

text \<open>A number with two digits.\<close>

definition two_digits :: "nat \<Rightarrow> string" where
  "two_digits n = [digit_char (n div 10), digit_char (n mod 10)]"

lemma scan_two_digits:
  assumes "n < 100" "r = [] \<or> \<not> mg_digit (hd r)"
  shows "scan_int (two_digits n @ r) = Some (int n, r)"
proof -
  have "n div 10 < 10" using assms(1) by simp
  moreover have "int (n div 10) * 10 + int (n mod 10) = int n"
    by (metis div_mult_mod_eq of_nat_add of_nat_mult of_nat_numeral)
  ultimately have "\<forall>c \<in> set (two_digits n). mg_digit c" "digits_value (two_digits n) = int n"
    by (auto simp: two_digits_def digit_char_mg_digit digits_value_def char_int_digit_char)
  then show ?thesis using scan_digits [of "two_digits n" r] assms(2) by (simp add: two_digits_def)
qed

lemma parse_printed_range:
  assumes "int a < 2 ^ 63" "int b < 2 ^ 63"
  shows "parse_range_header (''bytes='' @ decimal a @ ''-'' @ decimal b) = (2, int a, int b)"
    "parse_range_header (''bytes='' @ decimal a @ ''-'') = (1, int a, 0)"
proof -
  have m: "\<not> mg_digit CHR ''-''" by (simp add: mg_digit_def)
  have "scan_int64 (decimal a @ CHR ''-'' # r) = Some (int a, CHR ''-'' # r)" for r
    using assms(1) scan_decimal_rest [of "CHR ''-'' # r" a] m by (simp add: scan_int64_def)
  moreover have "scan_int64 (decimal b) = Some (int b, [])"
    using assms(2) scan_decimal [of b] by (simp add: scan_int64_def)
  moreover have "scan_int64 [] = None" by (simp add: scan_int64_def scan_int_def)
  ultimately show "parse_range_header (''bytes='' @ decimal a @ ''-'' @ decimal b) = (2, int a, int b)"
      "parse_range_header (''bytes='' @ decimal a @ ''-'') = (1, int a, 0)"
    by (simp_all add: parse_range_header_def starts_with_def scan_char_def)
qed

subsection \<open>What a client receives\<close>

text \<open>
  A reply to a GET request for a file that can be opened: the head, then the bytes of the file from
  \<open>r1\<close> on, \<open>cl\<close> of them or as many as there are.
\<close>

definition file_reply :: "web_env \<Rightarrow> config \<Rightarrow> connection \<Rightarrow> file_stat \<Rightarrow> string \<Rightarrow> string \<Rightarrow> string option \<Rightarrow> string" where
  "file_reply we ctx conn file mime content hdr =
     (case reply_range hdr (fs_size file) of
        (status, msg, r1, cl, range_line) \<Rightarrow>
          file_head we ctx (conn\<lparr>c_status := status\<rparr>) file mime cl msg range_line
          @ take (nat cl) (drop (nat r1) content))"

lemma file_request_reply:
  assumes "get_mime_type ctx path = Ret mime" "mg_fopen disk path = Some content"
    and "reply_range (mg_get_header conn ''Range'') (fs_size file) = (status, msg, r1, cl, range_line)"
    and "req_method (c_info conn) \<noteq> Some ''HEAD''"
    and "length (file_head we ctx (conn\<lparr>c_status := status\<rparr>) file mime cl msg range_line) < MG_BUF_LEN"
    and "takes_all (int MG_BUF_LEN) conn" "length content < length (send_results (c_out conn))"
  shows "\<exists>conn'. handle_file_request we disk cb ctx path file (conn, w) = Ret (conn', w)
    \<and> peer_received (c_out conn') = peer_received (c_out conn)
        @ file_reply we ctx conn file mime content (mg_get_header conn ''Range'')"
proof -
  let ?conn1 = "conn\<lparr>c_status := status\<rparr>"
  let ?head = "file_head we ctx ?conn1 file mime cl msg range_line"
  obtain r rs where rs: "send_results (c_out conn) = r # rs" using assms(7) by (cases "send_results (c_out conn)") auto
  have ne: "?head \<noteq> []" by (simp add: file_head_def)
  have "int (length ?head) \<le> r" using assms(5,6) rs by (simp add: takes_all_def)
  moreover have "length ?head \<le> INT_MAX" using assms(5) by (simp add: INT_MAX_def MG_BUF_LEN_def)
  ultimately have w: "mg_write (c_out conn) ?head =
      (int (length ?head), \<lparr>send_results = rs, peer_received = peer_received (c_out conn) @ ?head\<rparr>)"
    using mg_write_all [OF rs _ _ ne] by blast
  let ?conn2 = "?conn1\<lparr>c_out := \<lparr>send_results = rs, peer_received = peer_received (c_out conn) @ ?head\<rparr>\<rparr>"
  have p: "snd (mg_printf ?conn1 ?head) = ?conn2"
    using w ne assms(5) by (simp add: mg_printf_def)
  have h: "mg_get_header (conn\<lparr>c_status := 200\<rparr>) ''Range'' = mg_get_header conn ''Range''"
    by (simp add: mg_get_header_def)
  have "handle_file_request we disk cb ctx path file (conn, w) = Ret (send_file_data ?conn2 content r1 cl, w)"
    using assms(1-4) p by (simp add: handle_file_request_def h Let_def)
  moreover have "peer_received (c_out (send_file_data ?conn2 content r1 cl)) =
      peer_received (c_out conn) @ ?head @ take (nat cl) (drop (nat r1) content)"
  proof (cases "0 < cl")
    case True
    have "takes_all (int MG_BUF_LEN) ?conn2" using assms(6) rs by (simp add: takes_all_def)
    moreover have "length (drop (nat r1) content) \<le> length (send_results (c_out ?conn2))" using assms(7) rs by simp
    ultimately show ?thesis using True by (simp add: send_file_data_def send_loop_all)
  qed (simp add: send_file_data_def)
  ultimately show ?thesis by (simp add: file_reply_def assms(3))
qed

text \<open>The range of a printed header: its status, first byte and length, and the bytes that these select.\<close>

lemma printed_range_values:
  assumes "int a < 2 ^ 63" "int b < 2 ^ 63"
    and "reply_range (Some (''bytes='' @ decimal a @ ''-'' @ (if ended then decimal b else []))) (int n)
      = (status, msg, r1, cl, range_line)"
  shows "status = (if ended \<and> 0 < b then 206 else 200) \<and> r1 = int a \<and>
    cl = (if \<not> (ended \<and> 0 < b) then int n else if b < n then int (Suc b) - int a else int n - int a + 1)"
proof (cases ended)
  case True
  then have "(status, msg, r1, cl, range_line) = reply_range (Some (''bytes='' @ decimal a @ ''-'' @ decimal b)) (int n)"
    using assms(3) by (simp only: if_True)
  then show ?thesis
    unfolding reply_range_def option.case parse_printed_range(1) [OF assms(1,2)] prod.case
    using True by (simp add: Let_def split: if_splits)
next
  case False
  then have "(status, msg, r1, cl, range_line) = reply_range (Some (''bytes='' @ decimal a @ ''-'')) (int n)"
    using assms(3) by (simp only: if_False append_Nil2)
  then show ?thesis
    unfolding reply_range_def option.case parse_printed_range(2) [OF assms(1,2)] prod.case
    using False by (simp add: Let_def)
qed

lemma range_selects:
  assumes "a < length content"
    and "cl = (if \<not> ranged then int (length content)
      else if b < length content then int (Suc b) - int a else int (length content) - int a + 1)"
  shows "take (nat cl) (drop a content) = (if ranged then take (Suc b - a) (drop a content) else drop a content)"
proof (cases "ranged \<and> b < length content")
  case True
  then have "nat cl = Suc b - a" using assms(2) by simp
  then show ?thesis using True by simp
next
  case False
  then have "length content - a \<le> nat cl" "ranged \<Longrightarrow> length content - a \<le> Suc b - a"
    using assms by (auto split: if_splits)
  then show ?thesis by simp
qed

text \<open>C14. Ranges of a static file: a GET for the bytes from \<open>a\<close> to \<open>b\<close> is answered with 206, the number of
  bytes in the range and exactly those bytes, when both are inside the file and \<open>b\<close> is not 0. The other
  ranges show where the code departs from that: for a \<open>b\<close> beyond the end the announced length is one more
  than the bytes that follow; when \<open>b\<close> is before \<open>a\<close> the length is 0 or negative and nothing follows; a range
  without an end is answered with 200 and the length of the whole file, but only its tail follows; and the
  range \<open>0-0\<close>, the first byte, is answered with 200 and the whole file, because the end of a range is taken
  for absent when it is 0.
\<close>

theorem static_range_reply:
  assumes "get_mime_type ctx path = Ret mime" "mg_fopen disk path = Some content"
    and "fs_size file = int (length content)" "int (length content) < 2 ^ 63"
    and "mg_get_header conn ''Range'' = Some (''bytes='' @ decimal a @ ''-'' @ (if ended then decimal b else []))"
    and "int b < 2 ^ 63" "a < length content"
    and "req_method (c_info conn) = Some ''GET''"
    and "reply_range (mg_get_header conn ''Range'') (fs_size file) = (status, msg, r1, cl, range_line)"
    and "length (file_head we ctx (conn\<lparr>c_status := status\<rparr>) file mime cl msg range_line) < MG_BUF_LEN"
    and "takes_all (int MG_BUF_LEN) conn" "length content < length (send_results (c_out conn))"
  shows "\<exists>conn'. handle_file_request we disk cb ctx path file (conn, w) = Ret (conn', w)
    \<and> peer_received (c_out conn') = peer_received (c_out conn)
        @ file_head we ctx (conn\<lparr>c_status := status\<rparr>) file mime cl msg range_line
        @ (if ended \<and> 0 < b then take (Suc b - a) (drop a content) else drop a content)
    \<and> status = (if ended \<and> 0 < b then 206 else 200)
    \<and> cl = (if \<not> (ended \<and> 0 < b) then int (length content)
            else if b < length content then int (Suc b) - int a
            else int (length content) - int a + 1)"
proof -
  let ?body = "if ended \<and> 0 < b then take (Suc b - a) (drop a content) else drop a content"
  have a: "int a < 2 ^ 63" using assms(4,7) by linarith
  have v: "status = (if ended \<and> 0 < b then 206 else 200) \<and> r1 = int a \<and>
      cl = (if \<not> (ended \<and> 0 < b) then int (length content)
        else if b < length content then int (Suc b) - int a else int (length content) - int a + 1)"
    using assms(9) unfolding assms(3,5) by (rule printed_range_values [OF a assms(6)])
  have "req_method (c_info conn) \<noteq> Some ''HEAD''" using assms(8) by simp
  then obtain conn' where c: "handle_file_request we disk cb ctx path file (conn, w) = Ret (conn', w)
      \<and> peer_received (c_out conn') = peer_received (c_out conn)
        @ file_reply we ctx conn file mime content (mg_get_header conn ''Range'')"
    by (rule exE [OF file_request_reply [OF assms(1,2,9) _ assms(10-12)]])
  have "take (nat cl) (drop a content) = ?body"
    by (rule range_selects [OF assms(7)]) (rule v [THEN conjunct2, THEN conjunct2])
  then have "file_reply we ctx conn file mime content (mg_get_header conn ''Range'') =
      file_head we ctx (conn\<lparr>c_status := status\<rparr>) file mime cl msg range_line @ ?body"
    unfolding file_reply_def assms(9) prod.case v [THEN conjunct2, THEN conjunct1] nat_int by (simp only:)
  then show ?thesis
    using c v by (intro exI [of _ conn'] conjI) (simp_all only:)
qed

definition static_request :: "string \<Rightarrow> connection" where
  "static_request r =
     \<lparr>c_info = blank_request_info\<lparr>req_method := Some ''GET'', req_version := Some ''1.1'', http_headers := [(''Range'', r)]\<rparr>,
      c_out = \<lparr>send_results = replicate 5 8192, peer_received = []\<rparr>, c_env = [], c_buf = [], c_data_len = 0,
      c_request_len = 0, c_content_len = 0, c_consumed = 0, c_must_close = False, c_status = 0, c_num_sent = 0,
      c_path_info = None, c_peer = no_peer\<rparr>"

definition static_env :: web_env where
  "static_env = \<lparr>we_gmt = (\<lambda>_. ''now''), we_local = (\<lambda>_. ''now''), we_now = 0, we_error = [],
      we_getenv = (\<lambda>_. None), we_stack = replicate 64 NUL, we_stale = no_stat, we_href = replicate 4095 NUL, we_date = ''now''\<rparr>"

definition static_disk :: web_disk where
  "static_disk =
     \<lparr>dk_stat = (\<lambda>p. if p = ''/a.txt'' then Some \<lparr>is_directory = False, modification_time = 1, fs_size = 4\<rparr> else None),
      dk_open = (\<lambda>p. if p = ''/a.txt'' then Some ''abcd'' else None), dk_list = (\<lambda>_. None)\<rparr>"

definition static_file :: file_stat where
  "static_file = \<lparr>is_directory = False, modification_time = 1, fs_size = 4\<rparr>"

theorem static_range_reply_witness:
  "\<exists>conn' head. handle_file_request static_env static_disk (\<lambda>_ (c, w). Ret (False, c, w)) (fill_defaults (\<lambda>_. None))
      ''/a.txt'' static_file (static_request ''bytes=1-2'', ()) = Ret (conn', ())
    \<and> peer_received (c_out conn') = head @ ''bc''"
proof -
  let ?ctx = "fill_defaults (\<lambda>_. None)" and ?conn = "static_request ''bytes=1-2''"
  let ?line = "''Content-Range: bytes 1-2/4'' @ crlf"
  have r: "reply_range (mg_get_header ?conn ''Range'') (fs_size static_file) = (206, ''Partial Content'', 1, 2, ?line)"
    by code_simp
  have len: "length (file_head static_env ?ctx (?conn\<lparr>c_status := 206\<rparr>) static_file ''text/plain'' 2 ''Partial Content'' ?line)
      < MG_BUF_LEN"
    by code_simp
  have m: "get_mime_type ?ctx ''/a.txt'' = Ret ''text/plain''" by code_simp
  have d: "decimal 1 = ''1''" "decimal 2 = ''2''" by code_simp+
  have h: "mg_get_header ?conn ''Range'' = Some (''bytes='' @ decimal 1 @ ''-'' @ (if True then decimal 2 else []))"
    unfolding d by code_simp
  have "\<exists>conn'. handle_file_request static_env static_disk (\<lambda>_ (c, w). Ret (False, c, w)) ?ctx ''/a.txt'' static_file
      (?conn, ()) = Ret (conn', ()) \<and> peer_received (c_out conn') = peer_received (c_out ?conn)
        @ file_head static_env ?ctx (?conn\<lparr>c_status := 206\<rparr>) static_file ''text/plain'' 2 ''Partial Content'' ?line
        @ (if True \<and> 0 < (2 :: nat) then take (Suc 2 - 1) (drop 1 ''abcd'') else drop 1 ''abcd'')
      \<and> (206 :: int) = (if True \<and> 0 < (2 :: nat) then 206 else 200)
      \<and> (2 :: int) = (if \<not> (True \<and> 0 < (2 :: nat)) then int (length ''abcd'')
            else if 2 < length ''abcd'' then int (Suc 2) - int 1 else int (length ''abcd'') - int 1 + 1)"
    by (rule static_range_reply [OF m _ _ _ h _ _ _ r len])
       (simp_all add: static_disk_def static_file_def static_request_def takes_all_def mg_fopen_def MG_BUF_LEN_def)
  then show ?thesis by (auto simp: numeral_2_eq_2)
qed
end
