(* ===== verification/Mongoose_Directories.thy ===== *)
theory Mongoose_Directories
  imports Mongoose_Request Mongoose_Static "HOL-Library.Multiset"
begin

section \<open>What the web server answers for directories\<close>

text \<open>
  The redirect to a directory's URI, and the listing of a directory: which entries it names, in which
  order, with which sizes, down to the bytes that the client receives.
\<close>

subsection \<open>Redirects to a directory\<close>

lemma decode_plain: "CHR ''%'' \<notin> set s \<Longrightarrow> mg_decode_loop False s (length s) (length s) = s"
  by (induction s) auto

lemma url_decode_plain: "CHR ''%'' \<notin> set s \<Longrightarrow> mg_url_decode s (length s) (length s + 1) False = s"
  by (simp add: mg_url_decode_def decode_plain)

lemma remove_second_slash:
  "clean_path p \<Longrightarrow> p \<noteq> [] \<Longrightarrow> last p = CHR ''/'' \<Longrightarrow> remove_double_dots_and_double_slashes (p @ ''/'') = p"
proof (induction p)
  case (Cons c s)
  show ?case
  proof (cases s)
    case Nil
    then show ?thesis using Cons.prems by (simp add: is_slash_def)
  next
    case (Cons x r)
    have "\<not> starts_badly s \<Longrightarrow> \<not> starts_badly (s @ ''/'')"
      using Cons by (cases r) (auto simp: starts_badly_def)
    then have "is_slash c \<Longrightarrow> skip_slashes_and_dots (s @ ''/'') = s @ ''/''"
      using Cons.prems(1) Cons by (auto simp: starts_badly_def split: if_splits)
    then show ?thesis using Cons.IH Cons.prems Cons by simp
  qed
qed simp

lemma second_slash:
  assumes "clean_path p" "p \<noteq> []" "last p = CHR ''/''" "CHR ''%'' \<notin> set p" "NUL \<notin> set p"
  shows "clean_uri (p @ ''/'') = p" "old_last_char (p @ ''/'') = NUL"
proof -
  let ?u = "p @ ''/''"
  have d: "mg_url_decode ?u (length ?u) (length ?u + 1) False = ?u" using assms(4) by (intro url_decode_plain) simp
  have "cstr ?u = ?u" using assms(5) by (intro cstr_id) simp
  then show c: "clean_uri ?u = p"
    unfolding clean_uri_def d by (simp add: remove_second_slash assms(1-3))
  show "old_last_char ?u = NUL"
    unfolding old_last_char_def c d by (simp add: overwrite_def nth_append)
qed

text \<open>A program that leaves its requests to the server.\<close>

definition leaves_requests :: "'w server \<Rightarrow> 'w \<Rightarrow> bool" where
  "leaves_requests srv w \<longleftrightarrow> (\<forall>conn. srv_callback srv MG_NEW_REQUEST (conn, w) = Ret (False, conn, w))"

text \<open>C19. A second slash behind a directory sends the client in circles: the server looks for the final
  slash at the place where the URI ended before it was cleaned, finds the terminator there, and
  answers with a redirect to the very URI that was asked for.
\<close>

theorem second_slash_redirects_to_itself:
  assumes "clean_path p" "p \<noteq> []" "last p = CHR ''/''" "CHR ''%'' \<notin> set p" "CHR ''?'' \<notin> set p" "NUL \<notin> set p"
    and "convert_uri_to_file_name (srv_config srv) (os_disk (srv_os srv) w) p = (path, info, fs)"
      "is_directory fs" "modification_time fs \<noteq> 0" "\<not> must_hide_file (srv_config srv) path"
    and "unprotected srv w" "leaves_requests srv w" "srv_config srv DOCUMENT_ROOT = Some base"
    and "req_method (c_info conn) = Some ''GET''" "req_uri (c_info conn) = Some (p @ ''/'')"
    and "length p + 60 < MG_BUF_LEN" "takes_all (int MG_BUF_LEN) conn" "send_results (c_out conn) \<noteq> []"
  shows "\<exists>conn'. handle_request srv nonce (conn, w) = Ret (conn', w)
    \<and> peer_received (c_out conn') = peer_received (c_out conn)
        @ ''HTTP/1.1 301 Moved Permanently'' @ crlf @ ''Location: '' @ (p @ ''/'') @ crlf @ crlf"
proof -
  let ?t = "''HTTP/1.1 301 Moved Permanently'' @ crlf @ ''Location: '' @ (p @ ''/'') @ crlf @ crlf"
  define conn1 where "conn1 = conn\<lparr>c_info := (c_info conn)\<lparr>query_string := None, req_uri := Some p\<rparr>, c_path_info := info\<rparr>"
  obtain r rs where rs: "send_results (c_out conn1) = r # rs" using assms(18) by (cases "send_results (c_out conn)") (auto simp: conn1_def)
  have len: "length ?t < MG_BUF_LEN" using assms(16) by simp
  then have "int (length ?t) \<le> r" using assms(17) rs by (auto simp: takes_all_def conn1_def)
  moreover have "length ?t \<le> INT_MAX" using len by (simp add: INT_MAX_def MG_BUF_LEN_def)
  ultimately have wr: "mg_write (c_out conn1) ?t = (int (length ?t), \<lparr>send_results = rs, peer_received = peer_received (c_out conn1) @ ?t\<rparr>)"
    using mg_write_all [OF rs, of ?t] by simp
  have q: "split_query (p @ ''/'') = (p @ ''/'', None)"
    using assms(5) by (simp add: split_query_def find_first_of_None)
  have "serve_request srv nonce path fs NUL (conn1, w) = Ret (snd (mg_printf conn1 ?t), w)"
    using assms(8-10,13,14) by (simp add: serve_request_def serve_path_def conn1_def null_text_def Let_def)
  then have "handle_request srv nonce (conn, w) = Ret (snd (mg_printf conn1 ?t), w)"
    using assms(7,12,15) second_slash [OF assms(1-4,6)] q check_authorization_unprotected [OF assms(11)]
    by (simp add: handle_request_def null_text_def Let_def conn1_def leaves_requests_def)
  moreover have "peer_received (c_out (snd (mg_printf conn1 ?t))) = peer_received (c_out conn) @ ?t"
    using wr len by (simp add: mg_printf_def conn1_def)
  ultimately show ?thesis by blast
qed

text \<open>A server with one directory and one request.\<close>

definition one_directory :: web_disk where
  "one_directory = no_disk\<lparr>dk_stat := (\<lambda>p. if p = ''./d/'' then
     Some \<lparr>is_directory = True, modification_time = 1, fs_size = 0\<rparr> else None)\<rparr>"

definition directory_server :: "unit server" where
  "directory_server =
     \<lparr>srv_config = fill_defaults (\<lambda>_. None), srv_callback = (\<lambda>e (c, w). Ret (False, c, w)), srv_env = plain_env,
      srv_os = idle_os\<lparr>os_disk := (\<lambda>_. one_directory)\<rparr>\<rparr>"

definition uri_request :: "string \<Rightarrow> connection" where
  "uri_request uri = (let c = static_request [] in c\<lparr>c_info := (c_info c)\<lparr>req_uri := Some uri\<rparr>\<rparr>)"

theorem second_slash_redirects_to_itself_witness:
  "\<exists>conn'. handle_request directory_server ''17'' (uri_request ''/d//'', ()) = Ret (conn', ())
    \<and> peer_received (c_out conn') = ''HTTP/1.1 301 Moved Permanently'' @ crlf @ ''Location: /d//'' @ crlf @ crlf"
proof -
  have cfg: "srv_config directory_server = fill_defaults (\<lambda>_. None)" "os_disk (srv_os directory_server) () = one_directory"
    by (simp_all add: directory_server_def)
  have conv: "convert_uri_to_file_name (srv_config directory_server) (os_disk (srv_os directory_server) ()) ''/d/'' =
      (''./d/'', None, \<lparr>is_directory = True, modification_time = 1, fs_size = 0\<rparr>)" unfolding cfg by code_simp
  have root: "srv_config directory_server DOCUMENT_ROOT = Some ''.''" unfolding cfg by code_simp
  have hide: "\<not> must_hide_file (srv_config directory_server) ''./d/''" unfolding cfg by code_simp
  have path: "clean_path ''/d/''" by code_simp
  have open1: "unprotected directory_server ()"
    unfolding unprotected_def cfg
    by (simp add: open_auth_file_def mg_fopen_def one_directory_def no_disk_def) code_simp
  have "\<exists>conn'. handle_request directory_server ''17'' (uri_request (''/d/'' @ ''/''), ()) = Ret (conn', ())
    \<and> peer_received (c_out conn') = peer_received (c_out (uri_request (''/d/'' @ ''/'')))
        @ ''HTTP/1.1 301 Moved Permanently'' @ crlf @ ''Location: '' @ (''/d/'' @ ''/'') @ crlf @ crlf"
    by (rule second_slash_redirects_to_itself [OF path _ _ _ _ _ conv _ _ hide open1 _ root])
       (simp_all add: leaves_requests_def directory_server_def uri_request_def static_request_def takes_all_def
         MG_BUF_LEN_def)
  then show ?thesis by (simp add: uri_request_def static_request_def)
qed

subsection \<open>The order of a listing\<close>

lemma strcmp_antisym: "strcmp b a = - strcmp a b"
proof (induction a b rule: strcmp.induct)
  case (4 a as b bs)
  have "(of_char a :: nat) = of_char b \<longleftrightarrow> a = b" by (rule of_char_eq_iff)
  with 4 show ?case by auto
qed simp_all

lemma strcmp_trans: "strcmp a b \<le> 0 \<Longrightarrow> strcmp b c \<le> 0 \<Longrightarrow> strcmp a c \<le> 0"
proof (induction a b arbitrary: c rule: strcmp.induct)
  case (4 a as b bs)
  have eq: "(of_char x :: nat) = of_char y \<longleftrightarrow> x = y" for x y by (rule of_char_eq_iff)
  from 4 eq show ?case by (cases c) (auto split: if_splits)
next
  case (2 b bs)
  then show ?case by (cases c) auto
qed simp_all

text \<open>What a comparison must be for \<open>qsort\<close>, and what \<open>qsort\<close> then does.\<close>

definition consistent :: "(dir_entry \<Rightarrow> dir_entry \<Rightarrow> int) \<Rightarrow> bool" where
  "consistent cmp \<longleftrightarrow>
     (\<forall>a b. sgn (cmp b a) = - sgn (cmp a b)) \<and> (\<forall>a b c. cmp a b \<le> 0 \<longrightarrow> cmp b c \<le> 0 \<longrightarrow> cmp a c \<le> 0)"

definition qsort_sorts :: "'w web_os \<Rightarrow> bool" where
  "qsort_sorts os \<longleftrightarrow>
     (\<forall>cmp es. consistent cmp \<longrightarrow>
        mset (os_qsort os cmp es) = mset es \<and> sorted_wrt (\<lambda>a b. cmp a b \<le> 0) (os_qsort os cmp es))"

text \<open>The order that a query asks for among entries of the same kind.\<close>

definition key_order :: "string \<Rightarrow> dir_entry \<Rightarrow> dir_entry \<Rightarrow> bool" where
  "key_order q a b \<longleftrightarrow>
     (if deref q = CHR ''n'' then strcmp (de_name a) (de_name b) \<le> 0
      else if deref q = CHR ''s'' then fs_size (de_file a) \<le> fs_size (de_file b)
      else if deref q = CHR ''d'' then modification_time (de_file a) \<le> modification_time (de_file b)
      else True)"

definition listing_order :: "string option \<Rightarrow> dir_entry \<Rightarrow> dir_entry \<Rightarrow> bool" where
  "listing_order query a b \<longleftrightarrow>
     (let q = (case query of Some s \<Rightarrow> s | None \<Rightarrow> ''na'')
      in (is_directory (de_file b) \<longrightarrow> is_directory (de_file a))
         \<and> (is_directory (de_file a) = is_directory (de_file b) \<longrightarrow>
              (if deref (tl q) = CHR ''d'' then key_order q b a else key_order q a b)))"

lemma compare_order: "compare_dir_entries query a b \<le> 0 \<longleftrightarrow> listing_order query a b"
  using strcmp_antisym [of "de_name a" "de_name b"]
  by (auto simp: compare_dir_entries_def listing_order_def key_order_def Let_def)

lemma key_order_trans: "key_order q a b \<Longrightarrow> key_order q b c \<Longrightarrow> key_order q a c"
  by (auto simp: key_order_def intro: strcmp_trans split: if_splits)

lemma compare_antisym: "compare_dir_entries query b a = - compare_dir_entries query a b"
proof (cases "is_directory (de_file a) = is_directory (de_file b)")
  case False
  then show ?thesis by (simp add: compare_dir_entries_def Let_def)
next
  case True
  define q where "q = (case query of Some s \<Rightarrow> s | None \<Rightarrow> ''na'')"
  consider "deref q = CHR ''n''" | "deref q = CHR ''s''" | "deref q = CHR ''d''"
    | "deref q \<noteq> CHR ''n''" "deref q \<noteq> CHR ''s''" "deref q \<noteq> CHR ''d''" by blast
  then show ?thesis
    using True strcmp_antisym [of "de_name a" "de_name b"]
    by cases (simp_all add: compare_dir_entries_def Let_def q_def [symmetric])
qed

lemma listing_order_trans:
  assumes "listing_order query a b" "listing_order query b c"
  shows "listing_order query a c"
proof -
  define q where "q = (case query of Some s \<Rightarrow> s | None \<Rightarrow> ''na'')"
  show ?thesis
    using assms key_order_trans [of q a b c] key_order_trans [of q c b a]
    unfolding listing_order_def q_def [symmetric] Let_def by argo
qed

lemma compare_consistent: "consistent (compare_dir_entries query)"
  unfolding consistent_def compare_order
proof (intro conjI allI impI)
  show "sgn (compare_dir_entries query b a) = - sgn (compare_dir_entries query a b)" for a b
    by (simp add: compare_antisym [of query b a] sgn_minus)
qed (rule listing_order_trans)

lemma scan_names:
  "map de_name (scan_directory ctx disk dir fs names) =
     filter (\<lambda>n. n \<noteq> ''.'' \<and> n \<noteq> ''..'' \<and> \<not> must_hide_file ctx n) names"
  by (induction names arbitrary: fs) (simp_all add: Let_def)

lemma scan_stats:
  "e \<in> set (scan_directory ctx disk dir fs names) \<Longrightarrow>
   dk_stat disk (mg_snprintf PATH_MAX (dir @ ''/'' @ de_name e)) = Some st \<Longrightarrow> de_file e = st"
  by (induction names arbitrary: fs) (auto simp: mg_stat_def Let_def split: if_splits)

text \<open>An entry whose file is gone is listed with what was known of the entry before it.\<close>

lemma dangling_entry_shows_previous:
  assumes "n2 \<noteq> ''.''" "n2 \<noteq> ''..''" "\<not> must_hide_file ctx n2" "n1 \<noteq> ''.''" "n1 \<noteq> ''..''" "\<not> must_hide_file ctx n1"
    and "dk_stat disk (mg_snprintf PATH_MAX (dir @ ''/'' @ n1)) = Some st"
      "dk_stat disk (mg_snprintf PATH_MAX (dir @ ''/'' @ n2)) = None"
  shows "scan_directory ctx disk dir fs [n1, n2] =
    [\<lparr>de_name = n1, de_file = st\<rparr>, \<lparr>de_name = n2, de_file = st\<lparr>modification_time := 0\<rparr>\<rparr>]"
  using assms by (simp add: mg_stat_def Let_def)

lemma listed_entries_sorted:
  assumes "qsort_sorts (srv_os srv)"
  shows "mset (map de_name (listed_entries srv disk dir query names)) =
      mset (filter (\<lambda>n. n \<noteq> ''.'' \<and> n \<noteq> ''..'' \<and> \<not> must_hide_file (srv_config srv) n) names)"
    "sorted_wrt (listing_order query) (listed_entries srv disk dir query names)"
    "e \<in> set (listed_entries srv disk dir query names) \<Longrightarrow>
     dk_stat disk (mg_snprintf PATH_MAX (dir @ ''/'' @ de_name e)) = Some st \<Longrightarrow> de_file e = st"
proof -
  let ?es = "scan_directory (srv_config srv) disk dir (we_stale (srv_env srv)) names"
  have m: "mset (listed_entries srv disk dir query names) = mset ?es"
    and s: "sorted_wrt (\<lambda>a b. compare_dir_entries query a b \<le> 0) (listed_entries srv disk dir query names)"
    using assms compare_consistent by (auto simp: qsort_sorts_def listed_entries_def)
  show "mset (map de_name (listed_entries srv disk dir query names)) =
      mset (filter (\<lambda>n. n \<noteq> ''.'' \<and> n \<noteq> ''..'' \<and> \<not> must_hide_file (srv_config srv) n) names)"
    unfolding scan_names [symmetric, of _ _ disk dir "we_stale (srv_env srv)"] mset_map m ..
  show "sorted_wrt (listing_order query) (listed_entries srv disk dir query names)"
    using s by (simp add: compare_order)
  show "de_file e = st" if "e \<in> set (listed_entries srv disk dir query names)"
    "dk_stat disk (mg_snprintf PATH_MAX (dir @ ''/'' @ de_name e)) = Some st"
    using that m scan_stats by (metis set_mset_mset)
qed

subsection \<open>Sending a listing\<close>

text \<open>A connection whose client takes at least \<open>k\<close> more texts of the size of a buffer.\<close>

definition ready :: "nat \<Rightarrow> connection \<Rightarrow> bool" where
  "ready k conn \<longleftrightarrow> takes_all (int MG_BUF_LEN) conn \<and> k \<le> length (send_results (c_out conn))"

definition fits :: "string \<Rightarrow> bool" where
  "fits t \<longleftrightarrow> t \<noteq> [] \<and> length t < MG_BUF_LEN"

lemma printf_sends:
  assumes "ready (Suc k) conn" "fits t"
  shows "ready k (snd (mg_printf conn t))" "c_info (snd (mg_printf conn t)) = c_info conn"
    "peer_received (c_out (snd (mg_printf conn t))) = peer_received (c_out conn) @ t"
proof -
  obtain r rs where rs: "send_results (c_out conn) = r # rs"
    using assms(1) by (cases "send_results (c_out conn)") (auto simp: ready_def)
  have "int (length t) \<le> r" using assms rs by (auto simp: ready_def takes_all_def fits_def)
  moreover have "length t \<le> INT_MAX" using assms(2) by (simp add: fits_def INT_MAX_def MG_BUF_LEN_def)
  ultimately have "mg_write (c_out conn) t = (int (length t), \<lparr>send_results = rs, peer_received = peer_received (c_out conn) @ t\<rparr>)"
    using mg_write_all [OF rs, of t] assms(2) by (simp add: fits_def)
  then show "ready k (snd (mg_printf conn t))" "c_info (snd (mg_printf conn t)) = c_info conn"
    "peer_received (c_out (snd (mg_printf conn t))) = peer_received (c_out conn) @ t"
    using assms rs by (simp_all add: mg_printf_def fits_def ready_def takes_all_def)
qed

lemma print_counted_sends:
  assumes "ready (Suc k) conn" "fits t"
  shows "ready k (print_counted conn t)" "c_info (print_counted conn t) = c_info conn"
    "peer_received (c_out (print_counted conn t)) = peer_received (c_out conn) @ t"
  using printf_sends [OF assms]
  by (cases "mg_printf conn t"; simp add: print_counted_def ready_def takes_all_def)+

lemma entries_sent:
  "ready (length es + k) conn \<Longrightarrow> req_uri (c_info conn) = Some uri \<Longrightarrow> \<forall>e \<in> set es. fits (dir_entry_text we uri e) \<Longrightarrow>
   ready k (foldl (print_dir_entry we) conn es) \<and>
   peer_received (c_out (foldl (print_dir_entry we) conn es)) =
     peer_received (c_out conn) @ concat (map (dir_entry_text we uri) es)"
proof (induction es arbitrary: conn)
  case (Cons e es)
  have p: "print_dir_entry we conn e = print_counted conn (dir_entry_text we uri e)"
    using Cons.prems(2) by (simp add: print_dir_entry_def null_text_def)
  have sent: "ready (Suc (length es + k)) conn" "fits (dir_entry_text we uri e)" using Cons.prems by simp_all
  show ?case
    using Cons.IH [of "print_dir_entry we conn e"] Cons.prems(2,3) print_counted_sends [OF sent] by (simp add: p)
qed simp

definition listing_reply_head :: string where
  "listing_reply_head = ''HTTP/1.1 200 OK'' @ crlf @ ''Connection: close'' @ crlf
     @ ''Content-Type: text/html; charset=utf-8'' @ crlf @ crlf"

lemma directory_reply:
  assumes "dk_list (os_disk (srv_os srv) w) dir = Some names" "req_uri (c_info conn) = Some uri"
    and "es = listed_entries srv (os_disk (srv_os srv) w) dir (query_string (c_info conn)) names"
    and "ready (length es + 4) conn" "\<forall>e \<in> set es. fits (dir_entry_text (srv_env srv) uri e)"
    and "\<forall>direction \<in> {''a'', ''d''}. fits (listing_head uri direction)" "fits (parent_link uri)"
  obtains conn' direction where "handle_directory_request srv dir (conn, w) = Ret (conn', w)"
    "direction \<in> {''a'', ''d''}"
    "peer_received (c_out conn') = peer_received (c_out conn) @ listing_reply_head @ listing_head uri direction
       @ parent_link uri @ concat (map (dir_entry_text (srv_env srv) uri) es) @ ''</table></body></html>''"
proof -
  define direction where "direction =
    (if deref (tl (case query_string (c_info conn) of Some s \<Rightarrow> s | None \<Rightarrow> [])) = CHR ''d'' then ''a'' else ''d'')"
  have dir: "direction \<in> {''a'', ''d''}" by (simp add: direction_def)
  define conn1 where "conn1 = snd (mg_printf (conn\<lparr>c_must_close := True\<rparr>) listing_reply_head)"
  define conn2 where "conn2 = print_counted conn1 (listing_head uri direction)"
  define conn3 where "conn3 = print_counted conn2 (parent_link uri)"
  define conn4 where "conn4 = foldl (print_dir_entry (srv_env srv)) conn3 es"
  define conn5 where "conn5 = print_counted conn4 ''</table></body></html>''"
  have hf: "fits listing_reply_head" by (simp add: fits_def listing_reply_head_def MG_BUF_LEN_def)
  have r0: "ready (Suc (Suc (Suc (length es + 1)))) (conn\<lparr>c_must_close := True\<rparr>)"
    using assms(4) by (simp add: ready_def takes_all_def)
  have s1: "ready (Suc (Suc (length es + 1))) conn1" "c_info conn1 = c_info conn"
    "peer_received (c_out conn1) = peer_received (c_out conn) @ listing_reply_head"
    unfolding conn1_def using printf_sends [OF r0 hf] by simp_all
  have s2: "ready (Suc (length es + 1)) conn2" "c_info conn2 = c_info conn"
    "peer_received (c_out conn2) = peer_received (c_out conn1) @ listing_head uri direction"
    unfolding conn2_def using print_counted_sends [OF s1(1)] assms(6) dir s1(2) by auto
  have s3: "ready (length es + 1) conn3" "c_info conn3 = c_info conn"
    "peer_received (c_out conn3) = peer_received (c_out conn2) @ parent_link uri"
    unfolding conn3_def using print_counted_sends [OF s2(1) assms(7)] s2(2) by auto
  have s4: "ready 1 conn4"
    "peer_received (c_out conn4) = peer_received (c_out conn3) @ concat (map (dir_entry_text (srv_env srv) uri) es)"
    unfolding conn4_def using entries_sent [OF s3(1) _ assms(5)] s3(2) assms(2) by auto
  have s5: "peer_received (c_out conn5) = peer_received (c_out conn4) @ ''</table></body></html>''"
    unfolding conn5_def using print_counted_sends(3) [of 0 conn4] s4(1) by (simp add: fits_def MG_BUF_LEN_def)
  have "handle_directory_request srv dir (conn, w) = Ret (conn5\<lparr>c_status := 200\<rparr>, w)"
    using assms(1,2)
    by (simp add: handle_directory_request_def Let_def conn5_def conn4_def conn3_def conn2_def conn1_def assms(3)
        listing_reply_head_def direction_def null_text_def)
  with that [of "conn5\<lparr>c_status := 200\<rparr>" direction] dir show thesis by (simp add: s1(3) s2(3) s3(3) s4(2) s5)
qed

text \<open>C16. A directory listing is complete and in order: it names every entry of the directory but itself,
  its parent and hidden files, each once, with the size and time of its file, directories first and
  within them and the files in the order of the column that the query names, ascending or
  descending.
\<close>

theorem directory_listing:
  assumes "qsort_sorts (srv_os srv)" "dk_list (os_disk (srv_os srv) w) dir = Some names"
    and "req_uri (c_info conn) = Some uri" "ready (length names + 4) conn"
    and "\<forall>e. de_name e \<in> set names \<longrightarrow> fits (dir_entry_text (srv_env srv) uri e)"
    and "\<forall>direction \<in> {''a'', ''d''}. fits (listing_head uri direction)" "fits (parent_link uri)"
  shows "\<exists>conn' direction es. handle_directory_request srv dir (conn, w) = Ret (conn', w)
    \<and> peer_received (c_out conn') = peer_received (c_out conn) @ listing_reply_head @ listing_head uri direction
        @ parent_link uri @ concat (map (dir_entry_text (srv_env srv) uri) es) @ ''</table></body></html>''
    \<and> mset (map de_name es) =
        mset (filter (\<lambda>n. n \<noteq> ''.'' \<and> n \<noteq> ''..'' \<and> \<not> must_hide_file (srv_config srv) n) names)
    \<and> sorted_wrt (listing_order (query_string (c_info conn))) es
    \<and> (\<forall>e \<in> set es. \<forall>st. dk_stat (os_disk (srv_os srv) w) (mg_snprintf PATH_MAX (dir @ ''/'' @ de_name e)) = Some st
        \<longrightarrow> de_file e = st)"
proof -
  define es where "es = listed_entries srv (os_disk (srv_os srv) w) dir (query_string (c_info conn)) names"
  note sorted = listed_entries_sorted [OF assms(1), where disk = "os_disk (srv_os srv) w" and dir = dir
      and query = "query_string (c_info conn)" and names = names,
      folded es_def]
  have "length es = length (filter (\<lambda>n. n \<noteq> ''.'' \<and> n \<noteq> ''..'' \<and> \<not> must_hide_file (srv_config srv) n) names)"
    using arg_cong [OF sorted(1), of size] by (simp only: size_mset length_map)
  then have "length es \<le> length names" by simp
  then have ready: "ready (length es + 4) conn" using assms(4) by (simp add: ready_def)
  have "de_name e \<in> set names" if "e \<in> set es" for e
  proof -
    have "de_name e \<in># mset (map de_name es)" using that by simp
    then show ?thesis unfolding sorted(1) by simp
  qed
  then have fit: "\<forall>e \<in> set es. fits (dir_entry_text (srv_env srv) uri e)" using assms(5) by blast
  obtain conn' direction where "handle_directory_request srv dir (conn, w) = Ret (conn', w)"
    "peer_received (c_out conn') = peer_received (c_out conn) @ listing_reply_head @ listing_head uri direction
       @ parent_link uri @ concat (map (dir_entry_text (srv_env srv) uri) es) @ ''</table></body></html>''"
    using directory_reply [OF assms(2,3) es_def ready fit assms(6,7)] by metis
  then show ?thesis using sorted by (intro exI [of _ conn'] exI [of _ direction] exI [of _ es]) simp
qed

text \<open>A sort by insertion is a \<open>qsort\<close>.\<close>

fun insert_by :: "(dir_entry \<Rightarrow> dir_entry \<Rightarrow> int) \<Rightarrow> dir_entry \<Rightarrow> dir_entry list \<Rightarrow> dir_entry list" where
  "insert_by cmp x [] = [x]"
| "insert_by cmp x (y # ys) = (if cmp x y \<le> 0 then x # y # ys else y # insert_by cmp x ys)"

definition insertion_sort :: "(dir_entry \<Rightarrow> dir_entry \<Rightarrow> int) \<Rightarrow> dir_entry list \<Rightarrow> dir_entry list" where
  "insertion_sort cmp es = foldr (insert_by cmp) es []"

lemma insert_by_mset [simp]: "mset (insert_by cmp x ys) = add_mset x (mset ys)"
  by (induction ys) simp_all

lemma insert_by_sorted:
  assumes "consistent cmp"
  shows "sorted_wrt (\<lambda>a b. cmp a b \<le> 0) ys \<Longrightarrow> sorted_wrt (\<lambda>a b. cmp a b \<le> 0) (insert_by cmp x ys)"
proof (induction ys)
  case (Cons y ys)
  have trans: "cmp a c \<le> 0" if "cmp a b \<le> 0" "cmp b c \<le> 0" for a b c
    using assms that unfolding consistent_def by blast
  have total: "cmp y x \<le> 0" if "\<not> cmp x y \<le> 0"
  proof -
    have "sgn (cmp y x) = - sgn (cmp x y)" using assms unfolding consistent_def by blast
    then show ?thesis using that by (simp add: sgn_if split: if_splits)
  qed
  have "set (insert_by cmp x ys) = insert x (set ys)"
    by (metis insert_by_mset set_mset_add_mset_insert set_mset_mset)
  then show ?case using Cons total trans by (auto intro: trans)
qed simp

lemma insertion_sort_sorts: "os_qsort os = insertion_sort \<Longrightarrow> qsort_sorts os"
proof -
  assume os: "os_qsort os = insertion_sort"
  have "mset (insertion_sort cmp es) = mset es" for cmp es
    by (induction es) (simp_all add: insertion_sort_def)
  moreover have "sorted_wrt (\<lambda>a b. cmp a b \<le> 0) (insertion_sort cmp es)" if "consistent cmp" for cmp es
    by (induction es) (simp_all add: insertion_sort_def insert_by_sorted [OF that])
  ultimately show ?thesis by (simp add: qsort_sorts_def os)
qed
definition shelf :: web_disk where
  "shelf = \<lparr>dk_stat = (\<lambda>p. if p = ''/s/a'' then Some \<lparr>is_directory = False, modification_time = 1, fs_size = 5\<rparr>
       else if p = ''/s/d'' then Some \<lparr>is_directory = True, modification_time = 2, fs_size = 0\<rparr> else None),
     dk_open = (\<lambda>_. None), dk_list = (\<lambda>p. if p = ''/s'' then Some [''..'', ''a'', ''.htpasswd'', ''d''] else None)\<rparr>"

definition shelf_server :: "unit server" where
  "shelf_server =
     \<lparr>srv_config = fill_defaults (\<lambda>_. None), srv_callback = (\<lambda>e (c, w). Ret (False, c, w)), srv_env = plain_env,
      srv_os = idle_os\<lparr>os_disk := (\<lambda>_. shelf), os_qsort := insertion_sort\<rparr>\<rparr>"

definition shelf_request :: connection where
  "shelf_request = (let c = static_request [] in
     c\<lparr>c_info := (c_info c)\<lparr>req_uri := Some ''/s/''\<rparr>, c_out := \<lparr>send_results = replicate 9 8192, peer_received = []\<rparr>\<rparr>)"

lemma shelf_entries_fit:
  assumes "name \<in> {''..'', ''a'', ''.htpasswd'', ''d''}"
  shows "fits (dir_entry_text plain_env ''/s/'' \<lparr>de_name = name, de_file = fs\<rparr>)"
proof -
  have "length (mg_url_encode name (replicate 4095 NUL)) \<le> 40" using assms by (elim insertE; simp; code_simp)
  moreover have "length (mg_snprintf 64 (size_text fs)) \<le> 63" by (simp add: mg_snprintf_def)
  moreover have "length name \<le> 9" using assms by auto
  ultimately show ?thesis
    by (simp add: fits_def dir_entry_text_def quoted_link_def plain_env_def MG_BUF_LEN_def Let_def)
qed

theorem directory_listing_witness:
  "\<exists>conn' direction es. handle_directory_request shelf_server ''/s'' (shelf_request, ()) = Ret (conn', ())
    \<and> peer_received (c_out conn') = listing_reply_head @ listing_head ''/s/'' direction
        @ parent_link ''/s/'' @ concat (map (dir_entry_text plain_env ''/s/'') es) @ ''</table></body></html>''
    \<and> mset (map de_name es) = {#''a'', ''d''#} \<and> sorted_wrt (listing_order None) es"
proof -
  have names: "filter (\<lambda>n. n \<noteq> ''.'' \<and> n \<noteq> ''..'' \<and> \<not> must_hide_file (srv_config shelf_server) n)
      [''..'', ''a'', ''.htpasswd'', ''d''] = [''a'', ''d'']"
    unfolding shelf_server_def by code_simp
  have q: "qsort_sorts (srv_os shelf_server)" by (rule insertion_sort_sorts) (simp add: shelf_server_def)
  have l: "dk_list (os_disk (srv_os shelf_server) ()) ''/s'' = Some [''..'', ''a'', ''.htpasswd'', ''d'']"
    by (simp add: shelf_server_def shelf_def)
  have u: "req_uri (c_info shelf_request) = Some ''/s/''" "query_string (c_info shelf_request) = None"
    "peer_received (c_out shelf_request) = []" "srv_env shelf_server = plain_env"
    by (simp_all add: shelf_request_def static_request_def blank_request_info_def shelf_server_def)
  have r: "ready (length [''..'', ''a'', ''.htpasswd'', ''d''] + 4) shelf_request"
    by (simp add: ready_def takes_all_def shelf_request_def static_request_def MG_BUF_LEN_def)
  have f: "\<forall>e. de_name e \<in> set [''..'', ''a'', ''.htpasswd'', ''d''] \<longrightarrow> fits (dir_entry_text (srv_env shelf_server) ''/s/'' e)"
  proof (intro allI impI)
    fix e :: dir_entry
    assume "de_name e \<in> set [''..'', ''a'', ''.htpasswd'', ''d'']"
    then show "fits (dir_entry_text (srv_env shelf_server) ''/s/'' e)"
      using shelf_entries_fit [of "de_name e" "de_file e"] by (cases e) (simp add: u(4))
  qed
  have h: "\<forall>direction \<in> {''a'', ''d''}. fits (listing_head ''/s/'' direction)" "fits (parent_link ''/s/'')"
    by (simp_all add: fits_def listing_head_def parent_link_def quoted_link_def MG_BUF_LEN_def)
  from directory_listing [OF q l u(1) r f h] show ?thesis
    unfolding u names by (elim exE conjE) (intro exI conjI, assumption+, auto)
qed
end
