(* ===== verification/Mongoose_Access.thy ===== *)
theory Mongoose_Access
  imports Mongoose_Server "HOL-Library.AList"
begin

section \<open>Who can change files\<close>

text \<open>
  Every handler of the web server, and with them the whole loop of a worker, followed with respect to
  the operations that change the disk: they are only reached behind the password for uploads.
\<close>

subsection \<open>What results keep\<close>

definition result_keeps :: "('a \<Rightarrow> bool) \<Rightarrow> 'a cpp \<Rightarrow> bool" where
  "result_keeps Q r \<longleftrightarrow> (case r of Ret x \<Rightarrow> Q x | _ \<Rightarrow> True)"

lemma result_keeps_simps [simp]:
  "result_keeps Q (Ret x) = Q x" "result_keeps Q Undef" "result_keeps Q (Throw e)"
  by (simp_all add: result_keeps_def)

lemma result_keeps_bind [intro]:
  "result_keeps Q r \<Longrightarrow> (\<And>x. Q x \<Longrightarrow> result_keeps R (f x)) \<Longrightarrow> result_keeps R (cbind r f)"
  by (cases r) auto

lemma result_keeps_pair:
  "P (snd t) \<Longrightarrow> (\<And>a w. P w \<Longrightarrow> result_keeps R (f a w)) \<Longrightarrow> result_keeps R (case t of (a, w) \<Rightarrow> f a w)"
  by (cases t) simp

lemma result_keeps_four:
  "P (snd (snd (snd t))) \<Longrightarrow> (\<And>a b c w. P w \<Longrightarrow> result_keeps R (f a b c w)) \<Longrightarrow>
   result_keeps R (case t of (a, b, c, w) \<Rightarrow> f a b c w)"
  by (cases t) simp

lemma result_keeps_if:
  "(c \<Longrightarrow> result_keeps R x) \<Longrightarrow> (\<not> c \<Longrightarrow> result_keeps R y) \<Longrightarrow> result_keeps R (if c then x else y)"
  by simp

text \<open>
  A property of the world that neither the callback, nor scripts and shell commands, nor lines added to the
  access log destroy. Nothing is said of making directories, and of removing, emptying or writing files.
\<close>

definition program_keeps :: "'w server \<Rightarrow> ('w \<Rightarrow> bool) \<Rightarrow> bool" where
  "program_keeps srv P \<longleftrightarrow>
     (\<forall>e conn w. P w \<longrightarrow> result_keeps (\<lambda>(_, _, w'). P w') (srv_callback srv e (conn, w)))
     \<and> (\<forall>cmd w. P w \<longrightarrow> P (snd (os_popen (srv_os srv) cmd w)))
     \<and> (\<forall>prog interp dir vars w. P w \<longrightarrow> P (snd (os_spawn (srv_os srv) prog interp dir vars w)))
     \<and> (\<forall>bs w. P w \<longrightarrow> P (snd (os_feed (srv_os srv) bs w)))
     \<and> (\<forall>w. P w \<longrightarrow> P (snd (os_output (srv_os srv) w)))
     \<and> (\<forall>name line w. srv_config srv ACCESS_LOG_FILE = Some name \<and> P w \<longrightarrow> P (os_append (srv_os srv) name line w))"

lemma program_keepsD:
  assumes "program_keeps srv P" "P w"
  shows "result_keeps (\<lambda>(_, _, w'). P w') (srv_callback srv e (conn, w))"
    "P (snd (os_popen (srv_os srv) cmd w))" "P (snd (os_spawn (srv_os srv) prog interp dir vars w))"
    "P (snd (os_feed (srv_os srv) bs w))" "P (snd (os_output (srv_os srv) w))"
  using assms by (simp_all add: program_keeps_def)

abbreviation world_kept :: "('w \<Rightarrow> bool) \<Rightarrow> (connection \<times> 'w) cpp \<Rightarrow> bool" where
  "world_kept P \<equiv> result_keeps (\<lambda>cw. P (snd cw))"

lemma error_keeps:
  assumes "program_keeps srv P" "P (snd cw)"
  shows "world_kept P (send_http_error (srv_callback srv) ctx status reason text1 cw)"
    "world_kept P (srv_error srv status reason text1 cw)"
proof -
  have *: "world_kept P (send_http_error (srv_callback srv) c status reason text1 cw)" for c
    unfolding send_http_error_def Let_def
    by (rule result_keeps_bind [OF program_keepsD(1) [OF assms]]) (auto split: prod.split)
  show "world_kept P (send_http_error (srv_callback srv) ctx status reason text1 cw)"
    "world_kept P (srv_error srv status reason text1 cw)"
    using * by (simp_all add: srv_error_def)
qed

lemma directory_keeps:
  "program_keeps srv P \<Longrightarrow> P (snd cw) \<Longrightarrow> world_kept P (handle_directory_request srv dir cw)"
  by (auto simp: handle_directory_request_def Let_def error_keeps split: option.split)

lemma propfind_keeps: "snd (handle_propfind srv path fs cw) = snd cw"
  by (simp add: handle_propfind_def Let_def)

subsection \<open>Handlers\<close>

lemma ssi_keeps:
  assumes "program_keeps srv P"
  shows "P (snd cw) \<Longrightarrow> P (snd (send_ssi_file srv levels path content cw))"
proof (induction levels arbitrary: path content cw)
  case (Suc levels)
  have incl: "P (snd (do_ssi_include srv (send_ssi_file srv levels) ssi tag cw'))" if "P (snd cw')" for ssi tag cw'
    using Suc.IH that by (auto simp: do_ssi_include_def split: option.split)
  have exe: "P (snd (do_ssi_exec srv tag cw'))" if "P (snd cw')" for tag cw'
    using program_keepsD(2) [OF assms that]
    by (auto simp: do_ssi_exec_def that split: option.split prod.split) (metis snd_conv)+
  have tag: "P (snd (run_ssi_tag srv (send_ssi_file srv levels) path buf cw'))" if "P (snd cw')" for buf cw'
    using that by (simp add: run_ssi_tag_def incl exe)
  have char: "P (snd (snd (snd (ssi_char srv (send_ssi_file srv levels) path st ch))))" if "P (snd (snd (snd st)))" for st ch
    using that tag by (auto simp: ssi_char_def split: prod.split)
  have "P (snd (snd (snd (foldl (ssi_char srv (send_ssi_file srv levels) path) st content))))"
    if "P (snd (snd (snd st)))" for st
    using that by (induction content arbitrary: st) (simp_all add: char)
  from this [of "([], False, cw)"] Suc.prems show ?case
    by (auto simp: ssi_scan_def split: prod.split)
qed simp

lemma forward_loop_keeps:
  "(\<And>k bs w. P w \<Longrightarrow> P (snd (sink k bs w))) \<Longrightarrow> P w \<Longrightarrow>
   P (snd (snd (snd (forward_loop sink good mc cl consumed nread env w))))"
proof (induction sink good mc cl consumed nread env w rule: forward_loop.induct)
  case (1 sink good mc cl consumed nread env w)
  show ?case
  proof (cases "cl \<le> consumed")
    case True
    then show ?thesis using 1(3) by (simp add: forward_loop.simps)
  next
    case False
    obtain n bs env' where p: "pull mc env (nat (min (int MG_BUF_LEN) (cl - consumed))) = (n, bs, env')"
      by (cases "pull mc env (nat (min (int MG_BUF_LEN) (cl - consumed)))")
    obtain ok w' where s: "sink consumed bs w = (ok, w')" by (cases "sink consumed bs w")
    have w': "P w'" using 1(2) [OF 1(3), of consumed bs] s by simp
    show ?thesis
    proof (cases "n \<le> 0 \<or> \<not> ok \<or> \<not> good")
      case True
      then show ?thesis using 1(3) False p s w' by (subst forward_loop.simps) auto
    next
      case go: False
      have "P (snd (snd (snd (forward_loop sink good mc cl (consumed + n) n env' w'))))"
        using 1(1) [OF False p [symmetric] refl _ s [symmetric] _ 1(2) w'] go by simp
      then show ?thesis using False go p s by (subst forward_loop.simps) simp
    qed
  qed
qed

lemma forward_body_keeps:
  assumes "program_keeps srv P" "\<And>k bs w. P w \<Longrightarrow> P (snd (sink k bs w))" "P (snd cw)"
  shows "result_keeps (\<lambda>(_, _, w'). P w') (forward_body_data srv sink cw)"
proof -
  have err: "result_keeps (\<lambda>(_, _, w'). P w') (cbind (srv_error srv status reason text1 cw') (\<lambda>cw1. Ret (False, cw1)))"
    if "P (snd cw')" for status reason text1 cw'
    by (rule result_keeps_bind [OF error_keeps(2) [OF assms(1) that]]) (simp add: case_prod_beta)
  have first: "P (snd (if c then sink k bs (snd cw) else (True, snd cw)))" for c k bs
    using assms(2,3) by simp
  have loop: "P (snd (snd (snd (forward_loop sink good mc cl consumed nread env w))))" if "P w" for good mc cl consumed nread env w
    by (rule forward_loop_keeps [OF assms(2) that])
  show ?thesis
    unfolding forward_body_data_def Let_def
    by (intro result_keeps_if err result_keeps_pair [where P = P, OF first] result_keeps_four [where P = P, OF loop])
       (simp_all add: assms(3))
qed

lemma spawn_keeps:
  assumes "program_keeps srv P" "P (snd cw)"
  shows "result_keeps (\<lambda>(_, _, w'). P w') (spawn_process srv prog dir vars cw)"
proof -
  obtain r w where s: "os_spawn (srv_os srv) prog (srv_config srv CGI_INTERPRETER) dir vars (snd cw) = (r, w)"
    by (cases "os_spawn (srv_os srv) prog (srv_config srv CGI_INTERPRETER) dir vars (snd cw)")
  have w: "P w" using program_keepsD(3) [OF assms, of prog "srv_config srv CGI_INTERPRETER" dir vars] s by simp
  then show ?thesis
    using error_keeps(2) [OF assms(1), of "(fst cw, w)"]
    by (cases r) (auto simp: spawn_process_def s case_prod_beta intro!: result_keeps_bind)
qed

lemma cgi_reply_keeps:
  "program_keeps srv P \<Longrightarrow> P (snd cw) \<Longrightarrow> world_kept P (send_cgi_reply srv output cw)"
  by (auto simp: send_cgi_reply_def Let_def error_keeps split: prod.split)

lemma cgi_keeps:
  assumes "program_keeps srv P" "P (snd cw)"
  shows "world_kept P (handle_cgi_request srv prog cw)"
proof -
  have reply: "world_kept P (case os_output (srv_os srv) w of (output, w') \<Rightarrow> send_cgi_reply srv output (c, w'))"
    if "P w" for c w
    using program_keepsD(5) [OF assms(1) that] by (auto split: prod.split intro: cgi_reply_keeps [OF assms(1)])
  have feed: "result_keeps (\<lambda>(_, _, w'). P w') (if b then forward_body_data srv (\<lambda>_. os_feed (srv_os srv)) (c, w) else Ret (True, c, w))"
    if "P w" for b c w
    using that program_keepsD(4) [OF assms(1)] by (auto intro: forward_body_keeps [OF assms(1)])
  have rest: "world_kept P (cbind (if b then forward_body_data srv (\<lambda>_. os_feed (srv_os srv)) (c, w) else Ret (True, c, w))
      (\<lambda>(sent, conn2, w2). if \<not> sent then Ret (conn2, w2)
        else case os_output (srv_os srv) w2 of (output, w3) \<Rightarrow> send_cgi_reply srv output (conn2, w3)))"
    if "P w" for b c w
    by (rule result_keeps_bind [OF feed [OF that]]) (auto intro: reply)
  show ?thesis
    unfolding handle_cgi_request_def prepare_cgi_environment_def Let_def
    by (cases "deref (null_text (req_uri (c_info (fst cw)))) \<noteq> CHR ''/''")
       (auto intro!: result_keeps_if error_keeps [OF assms(1)] result_keeps_bind [OF spawn_keeps [OF assms(1)]] rest
         simp: assms(2) simp del: split_paired_All split: prod.split)
qed

lemma ssi_request_keeps:
  "program_keeps srv P \<Longrightarrow> P (snd cw) \<Longrightarrow> world_kept P (handle_ssi_file_request srv path cw)"
  by (auto simp: handle_ssi_file_request_def Let_def error_keeps ssi_keeps split: option.split)

lemma file_request_keeps:
  assumes "program_keeps srv P" "P (snd cw)"
  shows "world_kept P (handle_file_request we disk (srv_callback srv) ctx path fs cw)"
proof -
  have "world_kept P (send_http_error (srv_callback srv) ctx status reason text1 (c, snd cw))" for status reason text1 c
    by (rule error_keeps [OF assms(1)]) (simp add: assms(2))
  then show ?thesis
    unfolding handle_file_request_def
    by (cases "get_mime_type ctx path") (auto simp: Let_def assms(2) split: option.split prod.split)
qed

lemma serve_file_keeps:
  assumes "program_keeps srv P" "P (snd cw)"
  shows "world_kept P (serve_file srv path fs cw)"
proof -
  have "world_kept P (cbind (is_not_modified (fst cw) fs) (\<lambda>same. if same then srv_error srv 304 ''Not Modified'' [] cw
      else handle_file_request (srv_env srv) (os_disk (srv_os srv) (snd cw)) (srv_callback srv) (srv_config srv) path fs cw))"
    by (cases "is_not_modified (fst cw) fs") (simp_all add: error_keeps [OF assms] file_request_keeps [OF assms])
  then show ?thesis
    by (simp add: serve_file_def Let_def error_keeps [OF assms] cgi_keeps [OF assms] ssi_request_keeps [OF assms])
qed

lemma serve_path_keeps:
  assumes "program_keeps srv P" "P (snd cw)"
  shows "world_kept P (serve_path srv path fs final cw)"
  using assms
  by (auto simp: serve_path_def Let_def error_keeps serve_file_keeps directory_keeps propfind_keeps split: prod.split)

text \<open>Whether a request passes the password that uploads and removals ask for.\<close>

definition may_put :: "'w server \<Rightarrow> connection \<times> 'w \<Rightarrow> bool" where
  "may_put srv cw \<longleftrightarrow>
     srv_config srv PUT_DELETE_PASSWORDS_FILE \<noteq> None
     \<and> fst (is_authorized_for_put (we_stack (srv_env srv)) (os_disk (srv_os srv) (snd cw)) (srv_config srv) (fst cw))"

lemma serve_request_keeps:
  assumes "program_keeps srv P" "P (snd cw)" "\<not> may_put srv cw"
  shows "world_kept P (serve_request srv nonce path fs final cw)"
proof -
  have "\<not> fst (if srv_config srv PUT_DELETE_PASSWORDS_FILE = None then (False, fst cw)
      else is_authorized_for_put (we_stack (srv_env srv)) (os_disk (srv_os srv) (snd cw)) (srv_config srv) (fst cw))"
    using assms(3) by (auto simp: may_put_def)
  then have no: "\<not> fst t" if "t = (if srv_config srv PUT_DELETE_PASSWORDS_FILE = None then (False, fst cw)
      else is_authorized_for_put (we_stack (srv_env srv)) (os_disk (srv_os srv) (snd cw)) (srv_config srv) (fst cw))" for t
    using that by simp
  have denied: "world_kept P (case t of (authorized, conn1) \<Rightarrow> if \<not> authorized then Ret (send_authorization_request nonce ctx conn1, snd cw)
      else f authorized conn1)" if "\<not> fst t" for t ctx f
    using that assms(2) by (cases t) simp
  show ?thesis
    unfolding serve_request_def Let_def
    by (intro result_keeps_if denied no refl error_keeps(2) [OF assms(1,2)] serve_path_keeps [OF assms(1,2)])
       (simp_all add: assms(2))
qed

lemma handle_request_keeps:
  assumes "program_keeps srv P" "P (snd cw)" "\<And>cw. P (snd cw) \<Longrightarrow> \<not> may_put srv cw"
  shows "world_kept P (handle_request srv nonce cw)"
proof -
  have serve: "world_kept P (cbind (srv_callback srv MG_NEW_REQUEST (c, snd cw)) (\<lambda>(served, conn3, w').
      if served then Ret (conn3, w') else serve_request srv nonce path fs final (conn3, w')))" for c path fs final
    by (rule result_keeps_bind [OF program_keepsD(1) [OF assms(1,2)]])
       (auto simp: serve_request_keeps [OF assms(1)] assms(3))
  show ?thesis
    using serve assms(2) by (cases cw) (auto simp: handle_request_def Let_def split: prod.split)
qed

subsection \<open>The worker\<close>

lemma finish_keeps: "P (snd cw) \<Longrightarrow> result_keeps (\<lambda>(_, _, w). P w) (finish_request srv cw)"
  by (simp add: finish_request_def Let_def)

lemma log_access_keeps: "program_keeps srv P \<Longrightarrow> P (snd cw) \<Longrightarrow> P (log_access srv cw)"
  by (auto simp: log_access_def program_keeps_def split: option.split)

lemma process_request_keeps:
  assumes "program_keeps srv P" "P (snd cw)" "\<And>cw. P (snd cw) \<Longrightarrow> \<not> may_put srv cw"
  shows "result_keeps (\<lambda>(_, _, w). P w) (process_request srv nonce cw)"
proof -
  have err: "world_kept P (srv_error srv status reason text1 (c, snd cw))" for status reason text1 c
    by (rule error_keeps(2) [OF assms(1)]) (simp add: assms(2))
  have complete: "world_kept P (cbind (srv_callback srv MG_REQUEST_COMPLETE cw1)
      (\<lambda>(_, conn4, w). Ret (conn4, log_access srv (conn4, w))))"
    if "P (snd cw1)" for cw1
  proof -
    have "result_keeps (\<lambda>(_, _, w'). P w') (srv_callback srv MG_REQUEST_COMPLETE cw1)"
      using program_keepsD(1) [OF assms(1) that, of MG_REQUEST_COMPLETE "fst cw1"] by simp
    then show ?thesis by (rule result_keeps_bind) (auto simp: log_access_keeps [OF assms(1)])
  qed
  have strange: "world_kept P (cbind (srv_error srv status reason text1 (c, snd cw)) (\<lambda>cw1. Ret (fst cw1, log_access srv cw1)))"
    for status reason text1 c
    by (rule result_keeps_bind [OF err]) (simp add: log_access_keeps [OF assms(1)])
  have handled: "world_kept P (handle_request srv nonce (c, snd cw))" for c
    by (rule handle_request_keeps [OF assms(1) _ assms(3)]) (simp_all add: assms(2))
  have bad: "world_kept P (cbind (srv_error srv status reason text1 (c, snd cw)) (\<lambda>(conn3, w). Ret (conn3\<lparr>c_must_close := True\<rparr>, w)))"
    for status reason text1 c
    by (rule result_keeps_bind [OF err]) (simp add: case_prod_beta)
  have large: "result_keeps (\<lambda>(_, _, w). P w) (cbind (srv_error srv status reason text1 (c, snd cw)) (\<lambda>(conn2, w). Ret (False, conn2, w)))"
    for status reason text1 c
    by (rule result_keeps_bind [OF err]) (simp add: case_prod_beta)
  have good: "world_kept P (cbind (handle_request srv nonce (c, snd cw)) (\<lambda>cw1.
      cbind (srv_callback srv MG_REQUEST_COMPLETE cw1) (\<lambda>(_, conn4, w). Ret (conn4, log_access srv (conn4, w)))))" for c
    by (rule result_keeps_bind [OF handled]) (rule complete)
  have finish: "result_keeps (\<lambda>(_, _, w). P w) (cbind r (finish_request srv))" if "world_kept P r" for r
    by (rule result_keeps_bind [OF that]) (rule finish_keeps)
  obtain rl buf dl env where rd: "read_request (c_must_close (reset_per_request_attributes (fst cw)))
      (c_env (reset_per_request_attributes (fst cw))) (c_buf (reset_per_request_attributes (fst cw)))
      (length (c_buf (reset_per_request_attributes (fst cw)))) (c_data_len (reset_per_request_attributes (fst cw)))
      = (rl, buf, dl, env)"
    by (rule prod_cases4)
  have parsed: "result_keeps (\<lambda>(_, _, w). P w) (case t of (res, ri) \<Rightarrow> cbind (f res ri) (finish_request srv))"
    if "\<And>res ri. world_kept P (f res ri)" for t :: "int \<times> request_info" and f
    using finish [OF that] by (cases t) simp
  show ?thesis
    unfolding process_request_def Let_def srv_error_def [symmetric] rd prod.case
    by (intro result_keeps_if large parsed bad strange good) (simp_all add: assms(2))
qed

lemma process_connection_keeps:
  assumes "program_keeps srv P" "\<And>cw. P (snd cw) \<Longrightarrow> \<not> may_put srv cw"
  shows "P (snd cw) \<Longrightarrow> process_new_connection srv nonce stops cw = Some r \<Longrightarrow> world_kept P r"
proof (induction stops arbitrary: cw)
  case (Cons stop stops)
  show ?case
  proof (cases "process_request srv nonce cw")
    case (Ret x)
    obtain again cw' where x: "x = (again, cw')" by (cases x)
    then have "P (snd cw')"
      using process_request_keeps [OF assms(1) Cons.prems(1) assms(2), of nonce] Ret by (simp add: case_prod_beta)
    then show ?thesis using Cons Ret x by (auto split: if_splits)
  qed (use Cons.prems(2) in auto)
qed simp

lemma serve_clients_keeps:
  assumes "program_keeps srv P" "\<And>cw. P (snd cw) \<Longrightarrow> \<not> may_put srv cw"
  shows "P w \<Longrightarrow> serve_clients srv nonce cls (conn, w) = Some r \<Longrightarrow> result_keeps (\<lambda>(_, w', _). P w') r"
proof (induction cls arbitrary: conn w r)
  case (Cons cl cls)
  then obtain r1 where r1: "process_new_connection srv nonce (cl_stops cl) (accept_socket cl conn, w) = Some r1"
    by (auto split: option.splits)
  have pw: "P (snd (accept_socket cl conn, w))" using Cons.prems(1) by simp
  have kept: "world_kept P r1" by (rule process_connection_keeps [OF assms(1) _ pw r1]) (rule assms(2))
  show ?case
  proof (cases r1)
    case (Ret cw)
    obtain conn1 w1 where cw: "cw = (conn1, w1)" by (cases cw)
    then have "P w1" using kept Ret by simp
    obtain r2 where r2: "serve_clients srv nonce cls (close_connection conn1, w1) = Some r2"
      "r = cbind r2 (\<lambda>(conn', w', rs). Ret (conn', w', peer_received (c_out conn1) # rs))"
      using Cons.prems(2) r1 Ret cw by auto
    have "result_keeps (\<lambda>(_, w', _). P w') r2" by (rule Cons.IH [OF \<open>P w1\<close> r2(1)])
    then show ?thesis unfolding r2(2) by (rule result_keeps_bind) auto
  qed (use Cons.prems(2) r1 in auto)
qed auto

text \<open>C11. Nobody changes a file without the password for it: as long as no request passes the check of the
  password file for uploads (and with none configured, no request ever does), whatever clients send
  over whatever number of connections, a worker of the server makes no directory and removes, empties
  or writes no file but its logs. A property of the world that the program's callback, scripts, shell
  commands and, when there is an access log, the lines added to it keep is kept by the whole run. There is
  no error log: with one, the code's messages (\<open>cry\<close>) add lines to it, which the model leaves out.
\<close>

theorem clients_change_no_files:
  assumes "program_keeps srv P" "\<forall>cw. P (snd cw) \<longrightarrow> \<not> may_put srv cw" "P w"
    and "srv_config srv ERROR_LOG_FILE = None"
  shows "case serve_clients srv nonce cls (conn, w) of
      None \<Rightarrow> True | Some r \<Rightarrow> result_keeps (\<lambda>(_, w', _). P w') r"
  using serve_clients_keeps [OF assms(1) _ assms(3), of nonce cls conn] assms(2) by (auto split: option.split)

text \<open>A server over a disk of named texts, whose program leaves every request to it.\<close>

definition store_os :: "(string \<times> string) list web_os" where
  "store_os = (idle_os :: (string \<times> string) list web_os)
     \<lparr>os_disk := (\<lambda>w. \<lparr>dk_stat = (\<lambda>p. map_option (\<lambda>t. \<lparr>is_directory = False, modification_time = 1,
          fs_size = int (length t)\<rparr>) (map_of w p)), dk_open = map_of w, dk_list = (\<lambda>_. None)\<rparr>),
      os_create := (\<lambda>p w. (True, AList.update p [] w)),
      os_put := (\<lambda>p k bs w. (True, AList.update p (overwrite (case map_of w p of Some t \<Rightarrow> t | None \<Rightarrow> []) (nat k) bs) w)),
      os_append := (\<lambda>p line w. AList.update p ((case map_of w p of Some t \<Rightarrow> t | None \<Rightarrow> []) @ line) w),
      os_remove := (\<lambda>p w. (p \<in> fst ` set w, AList.delete p w))\<rparr>"

definition store_server :: "config \<Rightarrow> (string \<times> string) list server" where
  "store_server ctx =
     \<lparr>srv_config = ctx, srv_callback = (\<lambda>e (c, w). Ret (False, c, w)), srv_env = plain_env, srv_os = store_os\<rparr>"

text \<open>A log file that grows beside a file that stays.\<close>

definition logged :: config where
  "logged = (fill_defaults (\<lambda>_. None))(ACCESS_LOG_FILE := Some ''log'')"

theorem clients_change_no_files_witness:
  "case serve_clients (store_server logged) ''17''
      [\<lparr>cl_sends = [100], cl_env = [readable (''DELETE /a HTTP/1.0'' @ crlf @ crlf)], cl_stops = [False], cl_peer = no_peer\<rparr>]
      (new_worker, [(''./a'', ''secret'')]) of
     None \<Rightarrow> True | Some r \<Rightarrow> result_keeps (\<lambda>(_, w', _). map_of w' ''./a'' = Some ''secret'') r"
proof (rule clients_change_no_files)
  have cfg: "logged ACCESS_LOG_FILE = Some ''log''" "logged PUT_DELETE_PASSWORDS_FILE = None" "logged ERROR_LOG_FILE = None"
    by code_simp+
  show "program_keeps (store_server logged) (\<lambda>w. map_of w ''./a'' = Some ''secret'')"
    by (auto simp: program_keeps_def store_server_def store_os_def idle_os_def update_conv' cfg)
  show "\<forall>cw. map_of (snd cw) ''./a'' = Some ''secret'' \<longrightarrow> \<not> may_put (store_server logged) cw"
    by (simp add: may_put_def store_server_def cfg)
  show "srv_config (store_server logged) ERROR_LOG_FILE = None" by (simp add: store_server_def cfg)
qed simp

text \<open>The log is written: the line of that request.\<close>

lemma request_is_logged:
  "log_access (store_server logged) (new_worker, []) = [(''log'', access_line ''now'' new_worker)]"
proof -
  have "logged ACCESS_LOG_FILE = Some ''log''" by code_simp
  then show ?thesis by (simp add: log_access_def store_server_def store_os_def plain_env_def)
qed

end
