(* ===== verification/Mongoose_Uploads.thy ===== *)
theory Mongoose_Uploads
  imports Mongoose_Directories Mongoose_Access
begin

section \<open>What the web server does with uploads\<close>

text \<open>
  The body of a PUT, cut into pieces in any way, ends up in the file, and is what a GET sends back.
\<close>

subsection \<open>Uploads\<close>

text \<open>What is asked of the disk: an emptied file is empty, and writing at the end of a file appends.\<close>

definition stores_at :: "'w web_os \<Rightarrow> string \<Rightarrow> bool" where
  "stores_at os p \<longleftrightarrow>
     (\<forall>w. fst (os_create os p w) \<and> dk_open (os_disk os (snd (os_create os p w))) p = Some [])
     \<and> (\<forall>w t bs. dk_open (os_disk os w) p = Some t \<longrightarrow>
          fst (os_put os p (int (length t)) bs w)
          \<and> dk_open (os_disk os (snd (os_put os p (int (length t)) bs w))) p = Some (t @ bs))"

lemma stores_atD:
  assumes "stores_at os p" "dk_open (os_disk os w) p = Some t" "n = int (length t)"
  shows "fst (os_put os p n bs w)" "dk_open (os_disk os (snd (os_put os p n bs w))) p = Some (t @ bs)"
  using assms by (simp_all add: stores_at_def)

lemma pull_piece:
  "0 < n \<Longrightarrow> p \<noteq> [] \<Longrightarrow>
   pull mc (readable p # env) n = (int (min n (length p)), take n p, if n < length p then readable (drop n p) # env else env)"
  by (simp add: pull_def readable_def)

lemma forward_loop_stores:
  assumes "stores_at os p"
  shows "dk_open (os_disk os w) p = Some t \<Longrightarrow> cl = consumed + int (length (concat pieces)) \<Longrightarrow>
   consumed = int (length t) \<Longrightarrow> \<forall>x \<in> set pieces. x \<noteq> [] \<Longrightarrow> 0 \<le> nread \<Longrightarrow>
   \<exists>nread' w'. forward_loop (\<lambda>k. os_put os p (0 + k)) True mc cl consumed nread (map readable pieces) w = (nread', cl, [], w')
     \<and> 0 \<le> nread' \<and> dk_open (os_disk os w') p = Some (t @ concat pieces)"
proof (induction "length (concat pieces)" arbitrary: w t consumed nread pieces rule: less_induct)
  case less
  show ?case
  proof (cases pieces)
    case Nil
    then show ?thesis using less.prems by (simp add: forward_loop.simps)
  next
    case (Cons x xs)
    define n where "n = nat (min (int MG_BUF_LEN) (cl - consumed))"
    have x: "x \<noteq> []" using less.prems(4) Cons by simp
    have "0 < int (length x) + int (length (concat xs))" using x by (simp add: add_pos_nonneg)
    then have pos: "0 < n" "consumed < cl" using less.prems(2) Cons by (simp_all add: n_def MG_BUF_LEN_def)
    have small: "min n (length x) = min MG_BUF_LEN (length x)"
      using less.prems(2) Cons by (auto simp: n_def)
    let ?bs = "take n x"
    let ?k = "length ?bs"
    define rest where "rest = (if n < length x then drop n x # xs else xs)"
    have bs: "?bs @ concat rest = concat pieces" "?k = min n (length x)" "0 < ?k"
      using Cons pos x by (auto simp: rest_def)
    have pull: "pull mc (map readable pieces) n = (int ?k, ?bs, map readable rest)"
      using pull_piece [OF pos(1) x, of mc "map readable xs"] Cons by (simp add: rest_def min_def)
    obtain ok w1 where put: "os_put os p (0 + consumed) ?bs w = (ok, w1)" by (cases "os_put os p (0 + consumed) ?bs w")
    have w1: "ok" "dk_open (os_disk os w1) p = Some (t @ ?bs)"
      using assms less.prems(1,3) put unfolding stores_at_def by (metis add_0 fst_conv snd_conv)+
    have len: "length (concat pieces) = ?k + length (concat rest)" using bs(1) by (metis length_append)
    have step: "forward_loop (\<lambda>k. os_put os p (0 + k)) True mc cl consumed nread (map readable pieces) w =
        forward_loop (\<lambda>k. os_put os p (0 + k)) True mc cl (consumed + int ?k) (int ?k) (map readable rest) w1"
    proof -
      have "\<not> cl \<le> consumed" "\<not> int ?k \<le> 0" using pos(2) bs(3) by simp_all
      then show ?thesis
        using put w1(1)
        by (subst forward_loop.simps) (simp only: n_def [symmetric] pull prod.case if_False not_True_eq_False simp_thms)
    qed
    have "\<exists>nread' w'. forward_loop (\<lambda>k. os_put os p (0 + k)) True mc cl (consumed + int ?k) (int ?k) (map readable rest) w1
        = (nread', cl, [], w') \<and> 0 \<le> nread' \<and> dk_open (os_disk os w') p = Some ((t @ ?bs) @ concat rest)"
    proof (rule less.hyps [OF _ w1(2)])
      show "length (concat rest) < length (concat pieces)" using len bs(3) by simp
      show "cl = consumed + int ?k + int (length (concat rest))" using less.prems(2) len by simp
      show "consumed + int ?k = int (length (t @ ?bs))" using less.prems(3) by simp
      show "\<forall>x \<in> set rest. x \<noteq> []" using less.prems(4) Cons by (auto simp: rest_def)
    qed simp
    then show ?thesis using step bs(1) by simp
  qed
qed

text \<open>A request whose body is \<open>body\<close>: a part behind the request in the buffer, the rest still to come.\<close>

definition carries_body :: "connection \<Rightarrow> string \<Rightarrow> string list \<Rightarrow> bool" where
  "carries_body conn body pieces \<longleftrightarrow>
     0 \<le> c_request_len conn \<and> c_request_len conn \<le> int (c_data_len conn) \<and> c_data_len conn \<le> length (c_buf conn)
     \<and> c_consumed conn = 0 \<and> c_content_len conn = int (length body) \<and> mg_get_header conn ''Expect'' = None
     \<and> c_env conn = map readable pieces \<and> (\<forall>x \<in> set pieces. x \<noteq> [])
     \<and> take (c_data_len conn - nat (c_request_len conn)) (drop (nat (c_request_len conn)) (c_buf conn)) @ concat pieces = body"

lemma forward_body_stores:
  assumes "stores_at os p" "carries_body conn body pieces" "dk_open (os_disk os w) p = Some []"
  obtains conn' w' where "forward_body_data srv (\<lambda>k. os_put os p (0 + k)) (conn, w) = Ret (True, conn', w')"
    "c_out conn' = c_out conn" "c_status conn' = c_status conn" "dk_open (os_disk os w') p = Some body"
proof -
  let ?sink = "\<lambda>k. os_put os p (0 + k)"
  define first where "first = take (c_data_len conn - nat (c_request_len conn)) (drop (nat (c_request_len conn)) (c_buf conn))"
  have b: "first @ concat pieces = body" "length first = c_data_len conn - nat (c_request_len conn)"
    "c_content_len conn = int (length body)" "c_consumed conn = 0" "c_env conn = map readable pieces"
    "\<forall>x \<in> set pieces. x \<noteq> []" "mg_get_header conn ''Expect'' = None" "0 \<le> c_request_len conn" "c_request_len conn \<le> int (c_data_len conn)"
    using assms(2) by (auto simp: carries_body_def first_def)
  have len: "length body = length first + length (concat pieces)" using b(1) by (metis length_append)
  have buffered: "int (c_data_len conn) - int (nat (c_request_len conn + c_consumed conn)) = int (length first)"
    using b(2,4,8,9) by simp
  obtain good w1 where g: "(if 0 < int (length first) then ?sink 0 first w else (True, w)) = (good, w1)"
    by (cases "if 0 < int (length first) then ?sink 0 first w else (True, w)")
  have w1: "good" "dk_open (os_disk os w1) p = Some first"
  proof -
    have "fst (os_put os p 0 first w) \<and> dk_open (os_disk os (snd (os_put os p 0 first w))) p = Some first"
      using stores_atD [OF assms(1,3), of 0 first] by simp
    then show "good" "dk_open (os_disk os w1) p = Some first"
      using g assms(3) by (auto split: if_splits)
  qed
  obtain nread w' where loop: "forward_loop ?sink True (c_must_close conn) (int (length body)) (int (length first)) 0 (map readable pieces) w1
      = (nread, int (length body), [], w')" "0 \<le> nread" "dk_open (os_disk os w') p = Some body"
    using forward_loop_stores [OF assms(1) w1(2), of "int (length body)" "int (length first)" pieces 0 "c_must_close conn"] len b(1,6)
    by auto
  have t: "take (nat (min (int (length first)) (int (length body)))) (drop (nat (c_request_len conn + c_consumed conn)) (c_buf conn)) = first"
    using len b(2,4) by (simp add: first_def min_def)
  have k: "min (int (length first)) (int (length body)) = int (length first)" using len by simp
  have "forward_body_data srv ?sink (conn, w) = Ret (True, conn\<lparr>c_consumed := int (length body), c_env := []\<rparr>, w')"
    unfolding forward_body_data_def Let_def
    using b(3,4,5,7) buffered g w1(1) loop t k by (cases "first = []") simp_all
  then show ?thesis using that loop(3) by simp
qed

text \<open>C15. What is uploaded is what is downloaded: a PUT whose body arrives in any pieces is answered with
  201 for a new file and 200 for one that was there, leaves exactly the body in the file, and a later
  GET of the whole file is answered with its head and exactly that body.
\<close>

theorem upload_downloaded:
  assumes "stores_at (srv_os srv) p" "put_dir (srv_os srv) p w = Ret (1, w0)" "carries_body conn body pieces"
    and "mg_get_header conn ''Content-Range'' = None" "ready 1 conn"
    and "get_mime_type ctx p = Ret mime" "fs_size fs = int (length body)"
    and "mg_get_header conn2 ''Range'' = None" "req_method (c_info conn2) = Some ''GET''"
    and "length (file_head we ctx (conn2\<lparr>c_status := 200\<rparr>) fs mime (int (length body)) ''OK'' []) < MG_BUF_LEN"
    and "ready (Suc (length body)) conn2"
  shows "\<exists>conn' w' conn2'. put_file srv p (conn, w) = Ret (conn', w')
    \<and> peer_received (c_out conn') = peer_received (c_out conn)
        @ (if fst (mg_stat (os_disk (srv_os srv) w) p no_stat) then ''HTTP/1.1 200 OK'' else ''HTTP/1.1 201 OK'') @ crlf @ crlf
    \<and> handle_file_request we (os_disk (srv_os srv) w') cb ctx p fs (conn2, u) = Ret (conn2', u)
    \<and> peer_received (c_out conn2') = peer_received (c_out conn2)
        @ file_head we ctx (conn2\<lparr>c_status := 200\<rparr>) fs mime (int (length body)) ''OK'' [] @ body"
proof -
  let ?os = "srv_os srv" and ?status = "if fst (mg_stat (os_disk (srv_os srv) w) p no_stat) then 200 else 201 :: int"
  define conn1 where "conn1 = conn\<lparr>c_status := ?status\<rparr>"
  obtain w1 where made: "os_create ?os p w0 = (True, w1)" "dk_open (os_disk ?os w1) p = Some []"
    using assms(1) unfolding stores_at_def by (metis prod.collapse)
  have "carries_body conn1 body pieces" using assms(3) by (simp add: carries_body_def conn1_def mg_get_header_def)
  then obtain conn3 w' where body: "forward_body_data srv (\<lambda>k. os_put ?os p (0 + k)) (conn1, w1) = Ret (True, conn3, w')"
    "c_out conn3 = c_out conn1" "c_status conn3 = c_status conn1" "dk_open (os_disk ?os w') p = Some body"
    using forward_body_stores [OF assms(1) _ made(2)] by metis
  have "mg_get_header conn1 ''Content-Range'' = None" using assms(4) by (simp add: conn1_def mg_get_header_def)
  then have put: "put_file srv p (conn, w) = Ret (status_ok_reply conn3, w')"
    using assms(2) made(1) body(1) by (simp add: put_file_def conn1_def Let_def)
  have "ready (Suc 0) conn3" using assms(5) body(2) by (simp add: ready_def takes_all_def conn1_def)
  moreover have "decimal_int 200 = ''200''" "decimal_int 201 = ''201''" by code_simp+
  ultimately have reply: "peer_received (c_out (status_ok_reply conn3)) = peer_received (c_out conn)
        @ (if fst (mg_stat (os_disk (srv_os srv) w) p no_stat) then ''HTTP/1.1 200 OK'' else ''HTTP/1.1 201 OK'') @ crlf @ crlf"
    using printf_sends(3) [of 0 conn3] body(2,3)
    by (simp add: status_ok_reply_def conn1_def fits_def MG_BUF_LEN_def)
  have r: "reply_range (mg_get_header conn2 ''Range'') (fs_size fs) = (200, ''OK'', 0, int (length body), [])"
    using assms(7,8) by (simp add: reply_range_def)
  have m: "req_method (c_info conn2) \<noteq> Some ''HEAD''" using assms(9) by simp
  have o: "mg_fopen (os_disk ?os w') p = Some body" using body(4) by (simp add: mg_fopen_def)
  have room: "takes_all (int MG_BUF_LEN) conn2" "length body < length (send_results (c_out conn2))"
    using assms(11) by (simp_all add: ready_def)
  obtain conn2' where "handle_file_request we (os_disk ?os w') cb ctx p fs (conn2, u) = Ret (conn2', u)
    \<and> peer_received (c_out conn2') = peer_received (c_out conn2) @ file_reply we ctx conn2 fs mime body (mg_get_header conn2 ''Range'')"
    using file_request_reply [OF assms(6) o r m assms(10) room, of cb u] by (elim exE)
  then show ?thesis
    using put reply assms(7,8)
    by (intro exI [of _ "status_ok_reply conn3"] exI [of _ w'] exI [of _ conn2']) (simp add: file_reply_def reply_range_def)
qed

lemma store_os_stores: "stores_at store_os p"
  by (auto simp: stores_at_def store_os_def idle_os_def update_conv overwrite_def)

definition upload_request :: connection where
  "upload_request = (let c = static_request [] in
     c\<lparr>c_info := (c_info c)\<lparr>http_headers := []\<rparr>, c_buf := ''PUTa'', c_request_len := 3, c_data_len := 4, c_content_len := 3,
       c_env := [readable ''b'', readable ''c'']\<rparr>)"

definition download_request :: connection where
  "download_request = (let c = static_request [] in c\<lparr>c_info := (c_info c)\<lparr>http_headers := []\<rparr>\<rparr>)"

theorem upload_downloaded_witness:
  "\<exists>conn' w' conn2' head. put_file (store_server (fill_defaults (\<lambda>_. None))) ''./f'' (upload_request, []) = Ret (conn', w')
    \<and> peer_received (c_out conn') = ''HTTP/1.1 201 OK'' @ crlf @ crlf
    \<and> handle_file_request plain_env (os_disk store_os w') (\<lambda>_ (c, u). Ret (False, c, u)) (fill_defaults (\<lambda>_. None)) ''./f''
        \<lparr>is_directory = False, modification_time = 1, fs_size = 3\<rparr> (download_request, ()) = Ret (conn2', ())
    \<and> peer_received (c_out conn2') = head @ ''abc''"
proof -
  let ?srv = "store_server (fill_defaults (\<lambda>_. None))" and ?ctx = "fill_defaults (\<lambda>_. None)"
  let ?fs = "\<lparr>is_directory = False, modification_time = 1, fs_size = 3\<rparr> :: file_stat"
  let ?head = "file_head plain_env ?ctx (download_request\<lparr>c_status := 200\<rparr>) ?fs ''text/plain'' (int (length ''abc'')) ''OK'' []"
  have os: "srv_os ?srv = store_os" by (simp add: store_server_def)
  have s: "stores_at (srv_os ?srv) ''./f''" unfolding os by (rule store_os_stores)
  have d: "put_dir (srv_os ?srv) ''./f'' [] = Ret (1, [])"
    unfolding os put_dir_def by (simp add: put_dirs.simps)
  have b: "carries_body upload_request ''abc'' [''b'', ''c'']"
    by (simp add: carries_body_def upload_request_def static_request_def mg_get_header_def get_header_def blank_request_info_def Let_def)
  have r: "mg_get_header upload_request ''Content-Range'' = None" "mg_get_header download_request ''Range'' = None"
    "req_method (c_info download_request) = Some ''GET''" "peer_received (c_out upload_request) = []"
    "peer_received (c_out download_request) = []" "ready 1 upload_request" "ready (Suc (length ''abc'')) download_request"
    by (simp_all add: upload_request_def download_request_def static_request_def mg_get_header_def get_header_def
        blank_request_info_def Let_def ready_def takes_all_def MG_BUF_LEN_def)
  have m: "get_mime_type ?ctx ''./f'' = Ret ''text/plain''" by code_simp
  have h: "length ?head < MG_BUF_LEN" by code_simp
  have new: "\<not> fst (mg_stat (os_disk store_os []) ''./f'' no_stat)"
    by (simp add: mg_stat_def store_os_def no_stat_def)
  from upload_downloaded [OF s d b r(1,6) m _ r(2,3) h r(7), of "\<lambda>_ (c, u). Ret (False, c, u)" "()"]
  show ?thesis unfolding os r(4,5) using new by auto
qed
end
