(* ===== verification/Mongoose_Includes.thy ===== *)
theory Mongoose_Includes
  imports Mongoose_Directories "HOL-Library.Sublist"
begin

section \<open>What scripts get and what documents with directives send\<close>

text \<open>
  The block of environment variables that the web server builds for a CGI script stays within its
  bounds and drops only what does not fit; a document with server side includes but without a
  directive is sent byte by byte, through the buffer of the scanner.
\<close>

subsection \<open>The environment of a script\<close>

lemma blk_len_append: "blk_len (xs @ ys) = blk_len xs + blk_len ys"
  by (simp add: blk_len_def)

lemma addenv_bounds:
  assumes "blk_len vars \<le> CGI_ENVIRONMENT_SIZE - 3" "length vars \<le> MAX_CGI_ENVIR_VARS - 2"
  shows "blk_len (addenv vars v) \<le> CGI_ENVIRONMENT_SIZE - 3 \<and> length (addenv vars v) \<le> MAX_CGI_ENVIR_VARS - 2"
  using assms by (auto simp: addenv_def Let_def mg_snprintf_def blk_len_def CGI_ENVIRONMENT_SIZE_def MAX_CGI_ENVIR_VARS_def)

lemma addenv_members: "set (addenv vars v) \<subseteq> insert v (set vars)" "set vars \<subseteq> set (addenv vars v)"
  by (auto simp: addenv_def Let_def)

lemma foldl_addenv:
  "blk_len vars \<le> CGI_ENVIRONMENT_SIZE - 3 \<Longrightarrow> length vars \<le> MAX_CGI_ENVIR_VARS - 2 \<Longrightarrow>
   blk_len (foldl addenv vars vs) \<le> CGI_ENVIRONMENT_SIZE - 3 \<and> length (foldl addenv vars vs) \<le> MAX_CGI_ENVIR_VARS - 2
   \<and> set (foldl addenv vars vs) \<subseteq> set vars \<union> set vs"
proof (induction vs arbitrary: vars)
  case (Cons v vs)
  show ?case
    using Cons.IH [of "addenv vars v"] addenv_bounds [OF Cons.prems, of v] addenv_members(1) [of vars v] by auto
qed simp

text \<open>Variables that fit are all there.\<close>

lemma addenv_fits:
  "v \<noteq> [] \<Longrightarrow> blk_len (vars @ [v]) \<le> CGI_ENVIRONMENT_SIZE - 3 \<Longrightarrow> length vars < MAX_CGI_ENVIR_VARS - 2 \<Longrightarrow>
   addenv vars v = vars @ [v]"
  by (auto simp: addenv_def Let_def mg_snprintf_def blk_len_def CGI_ENVIRONMENT_SIZE_def)

lemma foldl_addenv_fits:
  "\<forall>v \<in> set vs. v \<noteq> [] \<Longrightarrow> blk_len (vars @ vs) \<le> CGI_ENVIRONMENT_SIZE - 3 \<Longrightarrow>
   length vars + length vs \<le> MAX_CGI_ENVIR_VARS - 2 \<Longrightarrow> foldl addenv vars vs = vars @ vs"
proof (induction vs arbitrary: vars)
  case (Cons v vs)
  have "addenv vars v = vars @ [v]" using Cons.prems by (intro addenv_fits) (auto simp: blk_len_def)
  with Cons show ?case by simp
qed simp

text \<open>C17. The environment of a script always fits its block: at most 61 variables with their terminators
  and the final one, within 4096 bytes, whatever a client puts into its headers, so that the
  assertions at the end hold; no variable is ever cut, and when all of them fit, all are there.
\<close>

theorem cgi_environment_fits:
  assumes "prepare_cgi_environment srv conn prog = Ret vars"
  shows "length vars + 1 < MAX_CGI_ENVIR_VARS \<and> blk_len vars + 1 < CGI_ENVIRONMENT_SIZE
    \<and> set vars \<subseteq> set (cgi_variables srv conn prog)
    \<and> (blk_len (cgi_variables srv conn prog) \<le> CGI_ENVIRONMENT_SIZE - 3
         \<and> length (cgi_variables srv conn prog) \<le> MAX_CGI_ENVIR_VARS - 2 \<and> [] \<notin> set (cgi_variables srv conn prog)
       \<longrightarrow> vars = cgi_variables srv conn prog)"
proof -
  have v: "vars = foldl addenv [] (cgi_variables srv conn prog)"
    using assms by (simp add: prepare_cgi_environment_def split: if_splits)
  have "blk_len vars \<le> CGI_ENVIRONMENT_SIZE - 3 \<and> length vars \<le> MAX_CGI_ENVIR_VARS - 2
    \<and> set vars \<subseteq> set (cgi_variables srv conn prog)"
    using foldl_addenv [of "[]" "cgi_variables srv conn prog"] by (simp add: v blk_len_def)
  moreover have "vars = cgi_variables srv conn prog"
    if "blk_len (cgi_variables srv conn prog) \<le> CGI_ENVIRONMENT_SIZE - 3"
      "length (cgi_variables srv conn prog) \<le> MAX_CGI_ENVIR_VARS - 2" "[] \<notin> set (cgi_variables srv conn prog)"
    using foldl_addenv_fits [of "cgi_variables srv conn prog" "[]"] that by (auto simp: v)
  ultimately show ?thesis by (auto simp: CGI_ENVIRONMENT_SIZE_def MAX_CGI_ENVIR_VARS_def)
qed

theorem cgi_environment_fits_witness:
  "prepare_cgi_environment directory_server (uri_request ''/x.cgi'') ''./x.cgi'' =
     Ret (cgi_variables directory_server (uri_request ''/x.cgi'') ''./x.cgi'')
   \<and> length (cgi_variables directory_server (uri_request ''/x.cgi'') ''./x.cgi'') + 1 < MAX_CGI_ENVIR_VARS"
proof -
  let ?vs = "cgi_variables directory_server (uri_request ''/x.cgi'') ''./x.cgi''"
  have "deref (null_text (req_uri (c_info (uri_request ''/x.cgi'')))) = CHR ''/''" by code_simp
  then have p: "prepare_cgi_environment directory_server (uri_request ''/x.cgi'') ''./x.cgi'' = Ret (foldl addenv [] ?vs)"
    by (simp add: prepare_cgi_environment_def)
  have "blk_len ?vs \<le> CGI_ENVIRONMENT_SIZE - 3" "length ?vs \<le> MAX_CGI_ENVIR_VARS - 2" "[] \<notin> set ?vs" by code_simp+
  then have e: "foldl addenv [] ?vs = ?vs" and l: "length (foldl addenv [] ?vs) + 1 < MAX_CGI_ENVIR_VARS"
    using cgi_environment_fits [OF p] by blast+
  show ?thesis using p l unfolding e by blast
qed

subsection \<open>Documents without tags\<close>

lemma write_text_sends:
  assumes "ready (Suc k) conn" "t \<noteq> []" "length t \<le> MG_BUF_LEN"
  shows "ready k (write_text conn t)" "peer_received (c_out (write_text conn t)) = peer_received (c_out conn) @ t"
proof -
  obtain r rs where rs: "send_results (c_out conn) = r # rs"
    using assms(1) by (cases "send_results (c_out conn)") (auto simp: ready_def)
  have "int (length t) \<le> r" using assms rs by (auto simp: ready_def takes_all_def)
  moreover have "length t \<le> INT_MAX" using assms(3) by (simp add: INT_MAX_def MG_BUF_LEN_def)
  ultimately have "mg_write (c_out conn) t = (int (length t), \<lparr>send_results = rs, peer_received = peer_received (c_out conn) @ t\<rparr>)"
    using mg_write_all [OF rs, of t] assms(2) by simp
  then show "ready k (write_text conn t)" "peer_received (c_out (write_text conn t)) = peer_received (c_out conn) @ t"
    using assms(1) rs by (simp_all add: write_text_def ready_def takes_all_def)
qed

lemma ready_less: "ready n conn \<Longrightarrow> k \<le> n \<Longrightarrow> ready k conn"
  by (simp add: ready_def)

text \<open>
  What holds between two characters of a document \<open>content\<close>: what was sent and the buffer are what was
  read, and a buffer that may be a tag is short.
\<close>

definition ssi_ok :: "string \<Rightarrow> string \<Rightarrow> string \<Rightarrow> bool \<Rightarrow> connection \<Rightarrow> bool" where
  "ssi_ok old done1 buf in_tag conn \<longleftrightarrow>
     (\<exists>pre. done1 = pre @ buf \<and> peer_received (c_out conn) = old @ pre)
     \<and> length buf < MG_BUF_LEN \<and> (in_tag \<longrightarrow> length buf \<le> 5)"

lemma ssi_char_step:
  assumes "ssi_ok old done1 buf in_tag conn" "\<not> sublist ssi_mark (done1 @ [ch])" "ready (Suc k) conn"
  obtains buf' in_tag' conn' where "ssi_char srv deeper path (buf, in_tag, conn, w) ch = (buf', in_tag', conn', w)"
    "ssi_ok old (done1 @ [ch]) buf' in_tag' conn'" "ready k conn'"
proof -
  obtain pre where pre: "done1 = pre @ buf" "peer_received (c_out conn) = old @ pre"
    and small: "length buf < MG_BUF_LEN" "in_tag \<longrightarrow> length buf \<le> 5"
    using assms(1) by (auto simp: ssi_ok_def)
  have r: "ready k conn" using assms(3) by (rule ready_less) simp
  have mark: "buf \<noteq> ssi_mark"
  proof
    assume "buf = ssi_mark"
    then have "done1 @ [ch] = pre @ ssi_mark @ [ch]" using pre(1) by simp
    then show False using assms(2) by (metis sublist_appendI)
  qed
  consider (close) "in_tag" "ch = CHR ''>''" | (tag) "in_tag" "ch \<noteq> CHR ''>''" | (opens) "\<not> in_tag" "ch = CHR ''<''"
    | (full) "\<not> in_tag" "ch \<noteq> CHR ''<''" "length buf + 1 = MG_BUF_LEN"
    | (more) "\<not> in_tag" "ch \<noteq> CHR ''<''" "length buf + 1 \<noteq> MG_BUF_LEN" by blast
  then show thesis
  proof cases
    case close
    have "length (buf @ [ch]) < 6 \<or> take 5 (buf @ [ch]) \<noteq> ssi_mark"
      using small(2) close(1) mark by (cases "length buf = 5") auto
    then have "ssi_char srv deeper path (buf, in_tag, conn, w) ch = ([], False, write_text conn (buf @ [ch]), w)"
      using close by (simp add: ssi_char_def run_ssi_tag_def)
    moreover have "ready k (write_text conn (buf @ [ch]))"
      "peer_received (c_out (write_text conn (buf @ [ch]))) = old @ pre @ buf @ [ch]"
      using write_text_sends [OF assms(3), of "buf @ [ch]"] small(1) pre(2) by simp_all
    ultimately show thesis
      using that [of "[]" False "write_text conn (buf @ [ch])"] pre(1) by (simp add: ssi_ok_def MG_BUF_LEN_def)
  next
    case tag
    have "5 \<noteq> MG_BUF_LEN - 2" "7 < MG_BUF_LEN" by (simp_all add: MG_BUF_LEN_def)
    then have "ssi_char srv deeper path (buf, in_tag, conn, w) ch = (buf @ [ch], length buf \<noteq> 5, conn, w)"
      using tag small(2) mark by (auto simp: ssi_char_def)
    then show thesis using that r pre small tag(1) \<open>7 < MG_BUF_LEN\<close> by (auto simp: ssi_ok_def)
  next
    case opens
    have "ssi_char srv deeper path (buf, in_tag, conn, w) ch = ([ch], True, if buf \<noteq> [] then write_text conn buf else conn, w)"
      using opens by (simp add: ssi_char_def)
    moreover have "ready k (if buf \<noteq> [] then write_text conn buf else conn)"
      "peer_received (c_out (if buf \<noteq> [] then write_text conn buf else conn)) = old @ pre @ buf"
      using write_text_sends [OF assms(3), of buf] small(1) pre(2) r by auto
    ultimately show thesis using that pre(1) by (simp add: ssi_ok_def MG_BUF_LEN_def)
  next
    case full
    have "ssi_char srv deeper path (buf, in_tag, conn, w) ch = ([], False, write_text conn (buf @ [ch]), w)"
      using full by (simp add: ssi_char_def)
    moreover have "ready k (write_text conn (buf @ [ch]))"
      "peer_received (c_out (write_text conn (buf @ [ch]))) = old @ pre @ buf @ [ch]"
      using write_text_sends [OF assms(3), of "buf @ [ch]"] full(3) pre(2) by simp_all
    ultimately show thesis
      using that [of "[]" False "write_text conn (buf @ [ch])"] pre(1) by (simp add: ssi_ok_def MG_BUF_LEN_def)
  next
    case more
    have "ssi_char srv deeper path (buf, in_tag, conn, w) ch = (buf @ [ch], False, conn, w)"
      using more by (simp add: ssi_char_def)
    then show thesis using that r pre small(1) more(3) by (auto simp: ssi_ok_def)
  qed
qed

lemma ssi_scan_all:
  "ssi_ok old done1 buf in_tag conn \<Longrightarrow> \<not> sublist ssi_mark (done1 @ content) \<Longrightarrow> ready (length content + k) conn \<Longrightarrow>
   \<exists>buf' in_tag' conn'. foldl (ssi_char srv deeper path) (buf, in_tag, conn, w) content = (buf', in_tag', conn', w)
     \<and> ssi_ok old (done1 @ content) buf' in_tag' conn' \<and> ready k conn'"
proof (induction content arbitrary: done1 buf in_tag conn)
  case (Cons ch content)
  have "sublist (done1 @ [ch]) (done1 @ ch # content)" by (metis append.assoc append_Cons append_Nil sublist_append_rightI)
  then have "\<not> sublist ssi_mark (done1 @ [ch])" using Cons.prems(2) sublist_order.order.trans by blast
  then obtain buf' in_tag' conn' where step: "ssi_char srv deeper path (buf, in_tag, conn, w) ch = (buf', in_tag', conn', w)"
    "ssi_ok old (done1 @ [ch]) buf' in_tag' conn'" "ready (length content + k) conn'"
    using ssi_char_step [OF Cons.prems(1), of ch "length content + k" srv deeper path w] Cons.prems(3) by auto
  show ?case using Cons.IH [OF step(2) _ step(3)] Cons.prems(2) by (simp add: step(1))
qed auto

text \<open>C18. A document without tags is sent as it is: a file of server-side includes in which no tag begins
  reaches the client byte for byte, whatever lone angle brackets and comments it has and however it is
  longer than the buffer, and nothing is included or executed.
\<close>

theorem ssi_plain_document:
  assumes "\<not> sublist ssi_mark content" "ready (Suc (length content)) conn"
  shows "\<exists>conn'. send_ssi_file srv (Suc levels) path content (conn, w) = (conn', w)
    \<and> peer_received (c_out conn') = peer_received (c_out conn) @ content"
proof -
  have "ssi_ok (peer_received (c_out conn)) [] [] False conn" by (simp add: ssi_ok_def MG_BUF_LEN_def)
  then obtain buf in_tag conn' where scan:
    "foldl (ssi_char srv (send_ssi_file srv levels) path) ([], False, conn, w) content = (buf, in_tag, conn', w)"
    "ssi_ok (peer_received (c_out conn)) content buf in_tag conn'" "ready (Suc 0) conn'"
    using ssi_scan_all [of "peer_received (c_out conn)" "[]" "[]" False conn content "Suc 0" srv "send_ssi_file srv levels" path w]
      assms by auto
  then obtain pre where pre: "content = pre @ buf" "peer_received (c_out conn') = peer_received (c_out conn) @ pre"
    "length buf < MG_BUF_LEN" by (auto simp: ssi_ok_def)
  have "peer_received (c_out (if buf \<noteq> [] then write_text conn' buf else conn')) = peer_received (c_out conn) @ content"
    using write_text_sends(2) [OF scan(3), of buf] pre by simp
  then show ?thesis using scan(1) by (simp add: ssi_scan_def)
qed

theorem ssi_plain_document_witness:
  "\<exists>conn'. send_ssi_file directory_server 11 ''/a.shtml'' ''<b>1 < 2</b><!-- x -->'' (shelf_request\<lparr>c_out :=
      \<lparr>send_results = replicate 30 8192, peer_received = []\<rparr>\<rparr>, ()) = (conn', ())
    \<and> peer_received (c_out conn') = ''<b>1 < 2</b><!-- x -->''"
proof -
  let ?c = "shelf_request\<lparr>c_out := \<lparr>send_results = replicate 30 8192, peer_received = []\<rparr>\<rparr>"
  have "\<not> sublist ssi_mark ''<b>1 < 2</b><!-- x -->''" by code_simp
  moreover have "ready (Suc (length ''<b>1 < 2</b><!-- x -->'')) ?c" by (simp add: ready_def takes_all_def MG_BUF_LEN_def)
  ultimately show ?thesis
    using ssi_plain_document [of "''<b>1 < 2</b><!-- x -->''" ?c directory_server 10 "''/a.shtml''" "()"]
    by (simp del: send_ssi_file.simps)
qed
end
