(* ===== verification/Spec2Isabelle.thy ===== *)
theory Spec2Isabelle
  imports Http_Request_Parser Http_Utility Http_Reply Containers Services Settings Notification
    File_Info_Buffer Http_Stream Http_Server Torrent_Info Futures Resolvers Torrent_Ex_Info
    Shared_Buffer Sequential_Controller Torrent_Core Publication Delivery External_Api Console Event_List
    Thread_Pool Mongoose_Transport Mongoose_Threads Mongoose_Passwords Mongoose_Static
    Mongoose_Uploads Mongoose_Includes
begin

text \<open>
  \<^bold>\<open>t2h\<close> is a C++ library that lets a program download torrents and read their files over HTTP
  while the download is still going on. It has two cores. The torrent core (\<open>src/src/core/torrent_core\<close>)
  runs a libtorrent session: an alert loop keeps per-file counters of the pieces that have arrived and
  asks for pieces in order. The HTTP server core (\<open>src/src/core/http_server\<close>) answers HEAD, GET and
  range requests for those files; a reply for bytes that are not on disk yet waits for them. The
  torrent core tells the HTTP server what has arrived through the notification center
  (\<open>src/src/common/notification_model\<close>). The C interface (\<open>src/src/core/external_api\<close>) creates
  both cores from one JSON configuration, gives out handles and URLs; \<open>src/src/apps/full_model.cpp\<close>
  is a console on top of it. This library models those parts and proves what makes them correct,
  and, where the code does not do what it means to, what it does instead.

  \<^bold>\<open>How the model stands to the code.\<close> One definition per function or handler, under its source name
  where HOL allows it, composed as the code composes them. \<open>T2H_Prelude\<close> holds the two outcome types:
  \<open>'a cpp\<close> is a result, an exception or undefined behaviour (null dereference, erased or past-the-end
  iterator, division by zero), and \<open>('s, 'a) eff\<close> is such a call over a state, whose changes survive an
  exception. Classes are records, enumerations with used constants are definitions or datatypes, a
  \<open>std::map\<close> is its list of entries with distinct keys, shared objects live in heaps indexed by
  addresses (\<open>File_Info_Buffer\<close>, \<open>Shared_Buffer\<close>, \<open>Event_List\<close>), a member that an object's own mutex
  protects is one atomic step. \<open>std::size_t\<close> is \<open>nat\<close> and \<open>int\<close>, \<open>boost::int64_t\<close> are \<open>int\<close> where the
  values are bounded by sizes of containers, files or pieces; unsigned arithmetic that can wrap
  (\<open>file_info_get_download_offset\<close>, socket lengths, narrowed ids) is on words, and a signed overflow (the version
  numbers of the request parser, dates) is undefined behaviour.

  \<^bold>\<open>Theories\<close>, in the order of the layers.
  \<^item> \<open>T2H_Prelude\<close>: outcomes, characters, checked copies, the locale \<open>keyed_store\<close> (insert if absent),
    effects and the composition rules \<open>keeps_intros\<close> for their invariants.
  \<^item> \<open>Http_Request_Parser\<close>, \<open>Http_Utility\<close>, \<open>Http_Reply\<close>, \<open>Misc_Utility\<close> (\<open>src/src/common/http_utility\<close>,
    \<open>misc_utility\<close>): the incremental request parser and its round trip with a printer, URL decoding
    against percent-encoding, range headers against a printer, reply buffers and their framing.
  \<^item> \<open>Containers\<close>, \<open>Services\<close>, \<open>Settings\<close> (\<open>basic_safe_container.hpp\<close>, \<open>factory.hpp\<close>,
    \<open>handles_manager.hpp\<close>, \<open>base_service\<close>, \<open>services_manager\<close>, \<open>setting_manager\<close>): refinement of maps,
    fresh handles, the locale \<open>service\<close> and its sum \<open>two_services\<close>, settings lookup.
  \<^item> \<open>Notification\<close> (\<open>src/src/common/notification_model\<close>): the unit's worker thread as a step relation
    against its clients; order, bound, delivery, what the destructor loses.
  \<^item> \<open>File_Info_Buffer\<close>, \<open>Http_Stream\<close>, \<open>Http_Server\<close> (\<open>src/src/core/http_server\<close>,
    \<open>src/src/common/network\<close>): the table of files and subscribers, the stream that waits for bytes over
    the locale \<open>octet_sink\<close>, reply heads, request dispatch, the service.
  \<^item> \<open>Torrent_Info\<close>, \<open>Torrent_Ex_Info\<close> (\<open>torrent_info.{hpp,cpp}\<close>): the counters of a file and their
    invariant, the sandbox, the JSON listing.
  \<^item> \<open>Libtorrent\<close>: the parameters that stand for libtorrent, the clock and the disk, and
    \<open>torrent_core_utility.cpp\<close>.
  \<^item> \<open>Futures\<close>, \<open>Resolvers\<close>, \<open>Shared_Buffer\<close>, \<open>Sequential_Controller\<close>, \<open>Torrent_Core\<close>
    (\<open>src/src/core/torrent_core\<close>): the hand-over between alert thread and caller, error resolvers, the
    buffer of torrents, every alert handler, the service, its loop and its calls.
  \<^item> \<open>Publication\<close>, \<open>Delivery\<close> (\<open>hc_event_source_adapter.cpp\<close>): from a finished piece to the HTTP server's
    table, first without and then with the notification unit's worker thread in between.
  \<^item> \<open>External_Api\<close> (\<open>external_api.cpp\<close>, \<open>external_api_details.{hpp,cpp}\<close>): every exported function.
  \<^item> \<open>Console\<close> (\<open>full_model.cpp\<close>), \<open>Event_List\<close> (\<open>basic_events.hpp\<close>, \<open>event_wrapper.hpp\<close>),
    \<open>Thread_Pool\<close> (\<open>thread_pool.hpp\<close>).
  \<^item> The embedded web server (\<open>src/src/common/network/details/mongoose.c\<close>): \<open>Mongoose_Text\<close> (copies, words,
    comma lists, patterns against their meaning), \<open>Mongoose_Uri\<close> (URL coding, parent directories, query
    variables, MIME types), \<open>Mongoose_Parser\<close> (the end of a request, its parts, against a printer),
    \<open>Mongoose_Config\<close> (options, ports, access list, \<open>mg_start\<close>), \<open>Mongoose_Io\<close> (reading, error replies),
    \<open>Mongoose_Request\<close> (from a URI to a path, and the choice of an answer in \<open>handle_request\<close>),
    \<open>Mongoose_Server\<close> (\<open>process_new_connection\<close>, a worker and its clients),
    \<open>Mongoose_Queue\<close> and \<open>Mongoose_Threads\<close> (the ring of sockets; master, workers and \<open>mg_stop\<close> as a
    step relation), and \<open>Mongoose_Transport\<close>, which composes them with the HTTP server core.
    \<open>Mongoose_Md5\<close> is its hash, proved equal to the standard's, whose constants \<open>Rfc_1321\<close> computes from the
    sine; \<open>Mongoose_Auth\<close> digest authentication and
    the passwords file, \<open>Mongoose_Passwords\<close> what they achieve together; \<open>Mongoose_Files\<close> the static files
    that the callback leaves to the server (MIME types, dates, conditional requests, ranges, index
    files), \<open>Mongoose_Static\<close> the reply to a range. \<open>Mongoose_Dav\<close> holds listings, PROPFIND, PUT and DELETE,
    \<open>Mongoose_Scripts\<close> server-side includes and CGI. What the whole chain achieves is in \<open>Mongoose_Access\<close>
    (no request changes a file, its logs apart, without the password for uploads), \<open>Mongoose_Directories\<close> (a listing is
    complete and in order; a second slash redirects for ever), \<open>Mongoose_Uploads\<close> (what is uploaded is
    what is downloaded) and \<open>Mongoose_Includes\<close> (the environment of a script, documents without tags).

  \<^bold>\<open>Interfaces.\<close> \<open>keyed_store\<close> is interpreted by the safe container, the key factory and the shared buffer
  of torrents; \<open>service\<close> by the HTTP server core, the torrent core, and through \<open>two_services\<close> by the
  pair that a handle's services manager holds; \<open>octet_sink\<close> by the mongoose socket stream; \<open>bounded_fifo\<close> by the
  web server's ring of sockets.

  \<^bold>\<open>Parameters.\<close> Code that is not under \<open>src/\<close> is an argument: libtorrent's answers and failures
  (\<open>libtorrent\<close>, \<open>tc_system\<close>, \<open>core_env\<close>), \<open>boost::lexical_cast\<close> (\<open>boost_lexical\<close>, with \<open>lexical_ok\<close> for what
  its documentation promises), the JSON reader, the file system, the random device, option parsing,
  \<open>strftime\<close>, and for the web server what sockets receive, which system calls fail, and \<open>web_os\<close>: the disk
  with its operations, \<open>qsort\<close>, scripts and shell commands. Hypotheses on them are
  named (\<open>lexical_ok\<close>, \<open>pieces_ordered\<close>, \<open>honest\<close>, \<open>qsort_sorts\<close>, \<open>stores_at\<close>) and have instances in
  the witnesses: an insertion sort, and a disk that is a list of files.

  \<^bold>\<open>Bounds and fuel.\<close> \<open>join_loop\<close> of \<open>Notification\<close> runs with the fuel \<open>exit_measure\<close>, which every step
  of a stopped worker lowers (\<open>join_loop_returns\<close>). \<open>core_main_loop\<close> runs over a finite script of
  wake-ups with the alerts of each; \<open>None\<close> means that the script ended first. Waiting in the
  chunked stream is over the script of wake-ups of each block. Settings lookup, posting and the
  console loop are partial functions with \<open>None\<close> for not returning; the first two are shown to
  return, the third is shown not to. The sines of \<open>Rfc_1321\<close> are
  computed with 56 binary places and an error of at most 8 units for each of the 64 turns, and all of them are
  more than 1024 units away from the next multiple of \<open>2^24\<close>.

  \<^bold>\<open>Build.\<close> \<open>TORRENT_NO_DEPRECATE\<close> and \<open>TORRENT_DISABLE_DHT\<close> are defined, \<open>WIN32\<close> and
  \<open>T2H_INT_WORKAROUND\<close> are not, \<open>size_t\<close> has 64 bits and \<open>int\<close> 32.

  \<^bold>\<open>Not modelled.\<close> Of \<open>mongoose.c\<close> the client side (\<open>mg_connect\<close>, \<open>mg_fetch\<close>), SSL,
  throttling (off in this program), the messages of \<open>cry\<close> to the error log (the program configures none), and what is only compiled for Windows,
  websockets or Lua; the system logger (output only), the tests, \<open>exchange_events_queue\<close> of \<open>events_policy.hpp\<close> and the member \<open>bind\<close> of the event source (they
  name members that do not exist and do not compile when instantiated),
  \<open>file_info_clear_priority\<close> (never called), allocation failures, and data races between members
  that the code reads without a lock: a call that the code makes under a lock is one step, and the
  interleavings that are explored are those of the notification unit with its clients and with
  arriving pieces, the future, and the alert loop during \<open>add_torrent\<close>.

  \<^bold>\<open>Plan.\<close> What could follow: interleavings of several callers of the torrent core with its alert loop,
  a reply that is streamed while notifications are delivered, clients that share the files of the web
  server while they are written, and the client side of \<open>mongoose.c\<close>.
\<close>

end
